(* ===== verification/Prelude.thy ===== *)
theory Prelude
  imports Main "HOL-Library.Word"
begin

text \<open>
  Shared vocabulary of the development: the ways an operation of the compiler
  can fail (datatype \<open>error\<close>), results and their sequencing, the names of the
  machine types, and generic facts on lists, options and words that the
  component theories use.

  C++ failures are values here.  An \<open>assert\<close>, a \<open>BUG\<close>, a \<open>TODO\<close>, an \<open>abort\<close>,
  an exception of the standard library and an operation the language leaves
  undefined are different constructors, so that a statement can say which of
  them is reached.
\<close>

unbundle bit_operations_syntax

type_synonym u8 = "8 word"
type_synonym u16 = "16 word"
type_synonym u32 = "32 word"
type_synonym u64 = "64 word"

type_synonym bytes = "u8 list"

datatype error =
    Assert_Fail string
  | Bug string
  | Todo string
  | Out_Of_Range string
  | Runtime_Error string
  | Undefined_Behaviour string
  | Out_Of_Fuel

named_theorems wsimps \<open>reading of machine words as numbers\<close>
named_theorems ordlaws \<open>laws of three-way comparisons\<close>

definition res_bind :: "error + 'a \<Rightarrow> ('a \<Rightarrow> error + 'b) \<Rightarrow> error + 'b" where
  "res_bind r f = (case r of Inl e \<Rightarrow> Inl e | Inr x \<Rightarrow> f x)"

lemma res_bind_simps [simp]:
  "res_bind (Inl e) f = Inl e"
  "res_bind (Inr x) f = f x"
  by (simp_all add: res_bind_def)

lemma res_bind_Inr_right [simp]: "res_bind r Inr = r"
  by (cases r) auto

lemma res_bind_cong [fundef_cong]:
  "r = r' \<Longrightarrow> (\<And>x. r' = Inr x \<Longrightarrow> f x = g x) \<Longrightarrow> res_bind r f = res_bind r' g"
  by (cases r') (auto simp: res_bind_def)

lemma res_bind_Inr_iff [simp]:
  "res_bind r f = Inr y \<longleftrightarrow> (\<exists>x. r = Inr x \<and> f x = Inr y)"
  by (cases r) auto

lemma res_bind_assoc: "res_bind (res_bind r f) g = res_bind r (\<lambda>x. res_bind (f x) g)"
  by (cases r) auto

subsection \<open>Numbers as text\<close>

text \<open>
  What an output stream writes for an unsigned number in a given base:
  \<open>digit_char\<close> is the character of a digit, \<open>show_base\<close> the numeral without leading
  zeros.
\<close>

definition digit_char :: "bool \<Rightarrow> nat \<Rightarrow> char" where
  "digit_char upper d = (if upper then ''0123456789ABCDEF'' else ''0123456789abcdef'') ! (d mod 16)"

fun show_base :: "bool \<Rightarrow> nat \<Rightarrow> nat \<Rightarrow> string" where
  "show_base upper b n =
    (if b < 2 \<or> n < b then [digit_char upper n]
     else show_base upper b (n div b) @ [digit_char upper (n mod b)])"

declare show_base.simps [simp del]

definition show_nat :: "nat \<Rightarrow> string" where "show_nat n = show_base False 10 n"

definition show_int :: "int \<Rightarrow> string" where
  "show_int i = (if i < 0 then CHR ''-'' # show_nat (nat (- i)) else show_nat (nat i))"

lemma show_base_small [simp]: "n < b \<Longrightarrow> show_base u b n = [digit_char u n]"
  by (subst show_base.simps) simp

lemma show_base_step: "2 \<le> b \<Longrightarrow> b \<le> n \<Longrightarrow> show_base u b n = show_base u b (n div b) @ [digit_char u (n mod b)]"
  by (subst show_base.simps) simp

lemma show_base_length_le:
  "2 \<le> b \<Longrightarrow> 0 < k \<Longrightarrow> length (show_base u b n) \<le> k \<longleftrightarrow> n < b ^ k"
proof (induction k arbitrary: n)
  case (Suc k)
  show ?case
  proof (cases "n < b")
    case True
    have "b * 1 \<le> b * b ^ k" using Suc.prems by (intro mult_le_mono) simp_all
    with True have "n < b * b ^ k" by linarith
    with True show ?thesis by simp
  next
    case False
    then have e: "show_base u b n = show_base u b (n div b) @ [digit_char u (n mod b)]"
      using Suc.prems by (simp add: show_base_step)
    show ?thesis
    proof (cases "k = 0")
      case True
      have "show_base u b (n div b) \<noteq> []" by (subst show_base.simps) simp
      then show ?thesis using True False by (auto simp: e)
    next
      case k: False
      then show ?thesis using Suc
        by (simp add: e less_mult_imp_div_less div_less_iff_less_mult mult.commute)
    qed
  qed
qed simp

subsection \<open>Lists\<close>

lemma drop_take_append: "j \<le> c \<Longrightarrow> drop j (take c xs) @ drop c xs = drop j xs"
proof -
  assume j: "j \<le> c"
  have "drop j (take c xs @ drop c xs) = drop j (take c xs) @ drop (j - length (take c xs)) (drop c xs)"
    by (rule drop_append)
  then show ?thesis using j by (cases "c \<le> length xs") simp_all
qed

subsection \<open>Machine words\<close>

lemma unat_lt_64 [simp]: "unat (x :: u64) < 18446744073709551616"
  using unsigned_less [of x, where ?'a = nat] by simp

lemma unat_lt_32 [simp]: "unat (x :: u32) < 4294967296"
  using unsigned_less [of x, where ?'a = nat] by simp

lemma unat_lt_16 [simp]: "unat (x :: u16) < 65536"
  using unsigned_less [of x, where ?'a = nat] by simp

lemma unat_lt_8 [simp]: "unat (x :: u8) < 256"
  using unsigned_less [of x, where ?'a = nat] by simp

lemma unat_push_bit_mod:
  "unat (push_bit n (x :: 'a :: len word)) = (unat x * 2 ^ n) mod 2 ^ LENGTH('a)"
  by (simp only: unsigned_push_bit_eq) (simp only: take_bit_eq_mod push_bit_eq_mult)

lemma unat_drop_bit_div:
  "unat (drop_bit n (x :: 'a :: len word)) = unat x div 2 ^ n"
  by (simp only: unat_drop_bit_eq) (simp only: drop_bit_eq_div)

lemma unat_add_mod: "unat ((x :: 'a :: len word) + y) = (unat x + unat y) mod 2 ^ LENGTH('a)"
  by (simp add: unat_word_ariths)

lemma unat_mult_mod: "unat ((x :: 'a :: len word) * y) = (unat x * unat y) mod 2 ^ LENGTH('a)"
  by (simp add: unat_word_ariths)

declare unat_push_bit_mod [wsimps] unat_drop_bit_div [wsimps]

subsection \<open>Bytes, least significant first\<close>

fun le_nat :: "bytes \<Rightarrow> nat" where
  "le_nat [] = 0"
| "le_nat (b # bs) = unat b + 256 * le_nat bs"

lemma le_nat_append: "le_nat (xs @ ys) = le_nat xs + 256 ^ length xs * le_nat ys"
  by (induction xs) (simp_all add: algebra_simps)

lemma le_nat_lt: "le_nat xs < 256 ^ length xs"
proof (induction xs)
  case (Cons b xs)
  then have "256 * le_nat xs + 256 \<le> 256 * 256 ^ length xs" by simp
  then show ?case using unat_lt_8 [of b] by (simp del: unat_lt_8)
qed simp

end
