(* ===== verification/Ordering.thy ===== *)
theory Ordering
  imports Prelude
begin

text \<open>
  The three-way comparisons of \<open>src/common.hpp\<close>: the \<open>Ordering\<close> enum, the \<open>ord\<close>
  overloads for scalars, strings, pairs, vectors and maps, \<open>ThinVector::ord\<close> and
  the \<open>ORD\<close> macro.

  The overloads for the integer types are one text over different types, so they
  are one definition, \<open>ord_int\<close>, over a linear order (words for the unsigned types,
  \<open>int\<close> for the signed ones).  The overloads for containers take the comparison of
  the elements as an argument.  A \<open>std::map\<close> is the list of its entries in the order
  an iterator visits them.  A \<open>double\<close> is its 64-bit pattern; \<open>f64_eq\<close> and
  \<open>f64_gt\<close> are the comparisons of IEEE 754 on patterns.

  The locale \<open>three_way\<close> states what a caller relies on when it sorts with, or keys a
  \<open>std::map\<close> by, one of these functions; it is interpreted for every overload that
  satisfies it.  The overload for maps does not: see \<open>ord_map_prefix\<close>.
\<close>

datatype Ordering = OrdLess | OrdEqual | OrdGreater

definition ord_bool :: "bool \<Rightarrow> bool \<Rightarrow> Ordering" where
  "ord_bool l r = (if l = r then OrdEqual else if l then OrdGreater else OrdLess)"

definition ord_int :: "'a::linorder \<Rightarrow> 'a \<Rightarrow> Ordering" where
  "ord_int l r = (if l = r then OrdEqual else if l > r then OrdGreater else OrdLess)"

definition f64_nan :: "u64 \<Rightarrow> bool" where
  "f64_nan b = (take_bit 63 b > 0x7FF0000000000000)"

definition f64_val :: "u64 \<Rightarrow> int" where
  "f64_val b = (if bit b 63 then - uint (take_bit 63 b) else uint (take_bit 63 b))"

definition f64_eq :: "u64 \<Rightarrow> u64 \<Rightarrow> bool" where
  "f64_eq l r = (\<not> f64_nan l \<and> \<not> f64_nan r \<and> f64_val l = f64_val r)"

definition f64_gt :: "u64 \<Rightarrow> u64 \<Rightarrow> bool" where
  "f64_gt l r = (\<not> f64_nan l \<and> \<not> f64_nan r \<and> f64_val l > f64_val r)"

definition ord_double :: "u64 \<Rightarrow> u64 \<Rightarrow> Ordering" where
  "ord_double l r = (if f64_eq l r then OrdEqual else if f64_gt l r then OrdGreater else OrdLess)"

fun string_gt :: "string \<Rightarrow> string \<Rightarrow> bool" where
  "string_gt [] _ = False"
| "string_gt (a # as) [] = True"
| "string_gt (a # as) (b # bs) =
    (if a = b then string_gt as bs else (of_char a :: nat) > of_char b)"

definition ord_string :: "string \<Rightarrow> string \<Rightarrow> Ordering" where
  "ord_string l r = (if l = r then OrdEqual else if string_gt l r then OrdGreater else OrdLess)"

text \<open>The \<open>ORD\<close> macro: return unless the two are equal, else go on.\<close>

definition ORD :: "Ordering \<Rightarrow> Ordering \<Rightarrow> Ordering" where
  "ORD rv rest = (if rv \<noteq> OrdEqual then rv else rest)"

definition ord_pair ::
  "('a \<Rightarrow> 'b \<Rightarrow> Ordering) \<Rightarrow> ('c \<Rightarrow> 'd \<Rightarrow> Ordering) \<Rightarrow> 'a \<times> 'c \<Rightarrow> 'b \<times> 'd \<Rightarrow> Ordering" where
  "ord_pair ord1 ord2 l r =
    (let rv = ord1 (fst l) (fst r) in if rv \<noteq> OrdEqual then rv else ord2 (snd l) (snd r))"

fun ord_vector_from ::
  "('a \<Rightarrow> 'b \<Rightarrow> Ordering) \<Rightarrow> nat \<Rightarrow> 'a list \<Rightarrow> 'b list \<Rightarrow> Ordering" where
  "ord_vector_from ordT i (it # l) r =
    (if i \<ge> length r then OrdGreater
     else let rv = ordT it (r ! i)
          in if rv \<noteq> OrdEqual then rv else ord_vector_from ordT (i + 1) l r)"
| "ord_vector_from ordT i [] r = (if i < length r then OrdLess else OrdEqual)"

definition ord_vector :: "('a \<Rightarrow> 'b \<Rightarrow> Ordering) \<Rightarrow> 'a list \<Rightarrow> 'b list \<Rightarrow> Ordering" where
  "ord_vector ordT l r = ord_vector_from ordT 0 l r"

fun ord_map ::
  "('k \<Rightarrow> 'l \<Rightarrow> Ordering) \<Rightarrow> ('v \<Rightarrow> 'w \<Rightarrow> Ordering) \<Rightarrow> ('k \<times> 'v) list \<Rightarrow> ('l \<times> 'w) list \<Rightarrow> Ordering"
where
  "ord_map ordK ordV (le # l) r_it =
    (case r_it of
       [] \<Rightarrow> OrdGreater
     | re # r_it' \<Rightarrow>
        (let rv = ord_pair ordK ordV le re
         in if rv \<noteq> OrdEqual then rv else ord_map ordK ordV l r_it'))"
| "ord_map ordK ordV [] r_it = OrdEqual"

fun ord_thin_from ::
  "('a \<Rightarrow> 'b \<Rightarrow> Ordering) \<Rightarrow> nat \<Rightarrow> nat \<Rightarrow> 'a list \<Rightarrow> 'b list \<Rightarrow> Ordering" where
  "ord_thin_from ordT 0 i l r =
    (if length l < length r then OrdLess
     else if length l > length r then OrdGreater else OrdEqual)"
| "ord_thin_from ordT (Suc n) i l r =
    (let rv = ordT (l ! i) (r ! i)
     in if rv \<noteq> OrdEqual then rv else ord_thin_from ordT n (i + 1) l r)"

definition ord_thin_vector :: "('a \<Rightarrow> 'b \<Rightarrow> Ordering) \<Rightarrow> 'a list \<Rightarrow> 'b list \<Rightarrow> Ordering" where
  "ord_thin_vector ordT l r =
    (let cmp_len = (if length l > length r then length r else length l)
     in ord_thin_from ordT cmp_len 0 l r)"

text \<open>
  The specification both vector loops are held to: lexicographic order, a proper
  prefix below its extensions.
\<close>

fun lex3 :: "('a \<Rightarrow> 'b \<Rightarrow> Ordering) \<Rightarrow> 'a list \<Rightarrow> 'b list \<Rightarrow> Ordering" where
  "lex3 f [] [] = OrdEqual"
| "lex3 f [] (_ # _) = OrdLess"
| "lex3 f (_ # _) [] = OrdGreater"
| "lex3 f (x # xs) (y # ys) = (case f x y of OrdEqual \<Rightarrow> lex3 f xs ys | c \<Rightarrow> c)"

fun flip_ord :: "Ordering \<Rightarrow> Ordering" where
  "flip_ord OrdLess = OrdGreater"
| "flip_ord OrdEqual = OrdEqual"
| "flip_ord OrdGreater = OrdLess"

subsection \<open>The laws of a comparison\<close>

locale three_way =
  fixes cmp :: "'a \<Rightarrow> 'a \<Rightarrow> Ordering"
  assumes cmp_flip: "cmp y x = flip_ord (cmp x y)"
    and equal_cong: "cmp x y = OrdEqual \<Longrightarrow> cmp x z = cmp y z"
    and less_trans: "cmp x y = OrdLess \<Longrightarrow> cmp y z = OrdLess \<Longrightarrow> cmp x z = OrdLess"
begin

lemma cmp_refl [simp]: "cmp x x = OrdEqual"
  using cmp_flip [of x x] by (cases "cmp x x") auto

lemma greater_iff: "cmp x y = OrdGreater \<longleftrightarrow> cmp y x = OrdLess"
  using cmp_flip [of y x] by (cases "cmp x y") auto

lemma equal_sym: "cmp x y = OrdEqual \<Longrightarrow> cmp y x = OrdEqual"
  using cmp_flip [of y x] by simp

lemma equal_cong_right: "cmp x y = OrdEqual \<Longrightarrow> cmp z x = cmp z y"
  by (metis cmp_flip equal_cong)

lemma lex3_flip: "lex3 cmp ys xs = flip_ord (lex3 cmp xs ys)"
proof (induction xs arbitrary: ys)
  case Nil
  show ?case by (cases ys) simp_all
next
  case (Cons x xs)
  show ?case
  proof (cases ys)
    case (Cons y zs)
    then show ?thesis
      using Cons.IH [of zs] cmp_flip [of y x] by (cases "cmp x y") simp_all
  qed simp
qed

lemma lex3_Cons: "lex3 cmp (x # xs) (y # ys) = ORD (cmp x y) (lex3 cmp xs ys)"
  by (cases "cmp x y") (simp_all add: ORD_def)

lemma lex3_equal_cong: "lex3 cmp xs ys = OrdEqual \<Longrightarrow> lex3 cmp xs zs = lex3 cmp ys zs"
proof (induction xs arbitrary: ys zs)
  case Nil
  then show ?case by (cases ys) simp_all
next
  case (Cons x xs)
  then obtain y ys' where ys: "ys = y # ys'" by (cases ys) simp_all
  with Cons.prems have e: "cmp x y = OrdEqual" "lex3 cmp xs ys' = OrdEqual"
    by (simp_all split: Ordering.splits)
  show ?case
    using Cons.IH [OF e(2)] equal_cong [OF e(1)] by (cases zs) (simp_all add: ys split: Ordering.split)
qed

lemma lex3_less_trans:
  "lex3 cmp xs ys = OrdLess \<Longrightarrow> lex3 cmp ys zs = OrdLess \<Longrightarrow> lex3 cmp xs zs = OrdLess"
proof (induction xs arbitrary: ys zs)
  case Nil
  then show ?case by (cases ys; cases zs) simp_all
next
  case (Cons x xs)
  from Cons.prems obtain y ys' z zs' where e: "ys = y # ys'" "zs = z # zs'"
    by (cases ys; cases zs) auto
  show ?case
    using Cons equal_cong [of x y z] equal_cong_right [of y z x] less_trans [of x y z]
    by (auto simp: e split: Ordering.splits)
qed

lemma lex3_three_way: "three_way (lex3 cmp)"
  by unfold_locales (fact lex3_flip lex3_equal_cong lex3_less_trans)+

lemma pair_three_way:
  assumes "three_way cmp2"
  shows "three_way (ord_pair cmp cmp2)"
proof -
  note f = three_way.cmp_flip [OF assms]
    and e = three_way.equal_cong [OF assms]
    and t = three_way.less_trans [OF assms]
  show ?thesis
  proof
    fix x y z :: "'a \<times> 'b"
    show "ord_pair cmp cmp2 y x = flip_ord (ord_pair cmp cmp2 x y)"
      using f [where x = "snd x" and y = "snd y"] cmp_flip [of "fst y" "fst x"]
      by (cases "cmp (fst x) (fst y)") (simp_all add: ord_pair_def)
    show "ord_pair cmp cmp2 x z = ord_pair cmp cmp2 y z" if a: "ord_pair cmp cmp2 x y = OrdEqual"
    proof -
      have "cmp (fst x) (fst y) = OrdEqual" "cmp2 (snd x) (snd y) = OrdEqual"
        using a by (auto simp: ord_pair_def Let_def split: if_splits)
      then show ?thesis
        using e [of "snd x" "snd y" "snd z"] equal_cong [of "fst x" "fst y" "fst z"]
        by (simp add: ord_pair_def Let_def)
    qed
    show "ord_pair cmp cmp2 x z = OrdLess"
      if a: "ord_pair cmp cmp2 x y = OrdLess" "ord_pair cmp cmp2 y z = OrdLess"
    proof (cases "cmp (fst x) (fst y) = OrdEqual")
      case True
      then show ?thesis
        using a t [of "snd x" "snd y" "snd z"] equal_cong [OF True, of "fst z"]
        by (simp add: ord_pair_def Let_def split: if_splits)
    next
      case False
      then have l: "cmp (fst x) (fst y) = OrdLess"
        using a(1) by (simp add: ord_pair_def Let_def)
      then have "cmp (fst x) (fst z) = OrdLess"
        using a(2) less_trans [OF l, of "fst z"] equal_cong_right [of "fst y" "fst z" "fst x"]
        by (cases "cmp (fst y) (fst z)") (simp_all add: ord_pair_def)
      then show ?thesis by (simp add: ord_pair_def)
    qed
  qed
qed

end

locale three_way_eq = three_way +
  assumes equal_imp_eq: "cmp x y = OrdEqual \<Longrightarrow> x = y"
begin

lemma equal_iff: "cmp x y = OrdEqual \<longleftrightarrow> x = y"
  using equal_imp_eq by auto

lemma lex3_equal_imp_eq: "lex3 cmp xs ys = OrdEqual \<Longrightarrow> xs = ys"
proof (induction xs arbitrary: ys)
  case Nil
  then show ?case by (cases ys) simp_all
next
  case (Cons x xs)
  then show ?case
    by (cases ys) (auto intro: equal_imp_eq split: Ordering.splits)
qed

lemma lex3_three_way_eq: "three_way_eq (lex3 cmp)"
  using lex3_three_way lex3_equal_imp_eq
  by (simp add: three_way_eq_def three_way_eq_axioms_def)

end

subsection \<open>The overloads meet the laws\<close>

lemma ord_vector_from_lex3:
  "i \<le> length r \<Longrightarrow> ord_vector_from f i l r = lex3 f l (drop i r)"
proof (induction l arbitrary: i)
  case Nil
  then show ?case by (cases "drop i r") auto
next
  case (Cons x l)
  show ?case
  proof (cases "i < length r")
    case True
    then have "drop i r = r ! i # drop (Suc i) r" by (rule Cons_nth_drop_Suc [symmetric])
    with True show ?thesis
      using Cons.IH [of "Suc i"] by (cases "f x (r ! i)") simp_all
  next
    case False
    with Cons.prems show ?thesis by simp
  qed
qed

lemma ord_vector_lex3: "ord_vector f l r = lex3 f l r"
  by (simp add: ord_vector_def ord_vector_from_lex3)

lemma ord_thin_from_lex3:
  "i + n = min (length l) (length r) \<Longrightarrow>
    ord_thin_from f n i l r = lex3 f (drop i l) (drop i r)"
proof (induction n arbitrary: i)
  case 0
  then show ?case
    by (cases "drop i l"; cases "drop i r") (auto simp: min_def split: if_splits)
next
  case (Suc n)
  then have "i < length l" "i < length r" by auto
  then have "drop i l = l ! i # drop (Suc i) l" "drop i r = r ! i # drop (Suc i) r"
    by (simp_all add: Cons_nth_drop_Suc)
  then show ?case
    using Suc.IH [of "Suc i"] Suc.prems by (cases "f (l ! i) (r ! i)") simp_all
qed

lemma ord_thin_vector_lex3: "ord_thin_vector f l r = lex3 f l r"
  by (simp add: ord_thin_vector_def ord_thin_from_lex3 Let_def min_def)

interpretation bool_ord: three_way_eq ord_bool
  by unfold_locales (auto simp: ord_bool_def split: if_splits)

interpretation int_ord: three_way_eq "ord_int :: 'a::linorder \<Rightarrow> 'a \<Rightarrow> Ordering"
  by unfold_locales (auto simp: ord_int_def split: if_splits)

interpretation int_vec_ord: three_way_eq "ord_vector (ord_int :: 'a::linorder \<Rightarrow> 'a \<Rightarrow> Ordering)"
  unfolding ord_vector_lex3 by (rule int_ord.lex3_three_way_eq)

text \<open>Strings are compared byte by byte, as vectors of unsigned numbers.\<close>

lemma ord_string_lex3:
  "ord_string l r = lex3 (\<lambda>a b. ord_int (of_char a :: nat) (of_char b)) l r"
proof (induction l arbitrary: r)
  case Nil
  show ?case by (cases r) (simp_all add: ord_string_def)
next
  case (Cons a l)
  show ?case
  proof (cases r)
    case (Cons b r')
    have "a \<noteq> b \<longleftrightarrow> (of_char a :: nat) \<noteq> of_char b" by simp
    then show ?thesis
      using Cons.IH [of r'] by (auto simp: Cons ord_string_def ord_int_def)
  qed (simp add: ord_string_def)
qed

interpretation char_ord: three_way_eq "\<lambda>a b. ord_int (of_char a :: nat) (of_char b)"
  by unfold_locales (auto simp: ord_int_def split: if_splits)

interpretation string_ord: three_way_eq ord_string
  using char_ord.lex3_three_way_eq by (simp add: ord_string_lex3 [abs_def])

text \<open>
  The overload for maps stops at the end of the left map and never looks whether
  the right map has entries left.
\<close>

lemma ord_map_same_length:
  "length l = length r \<Longrightarrow> ord_map f g l r = lex3 (ord_pair f g) l r"
  by (induction l r rule: list_induct2) (auto simp: Let_def split: Ordering.split)

lemma ord_map_append:
  assumes "\<forall>e \<in> set l. ord_pair f g e e = OrdEqual"
  shows "ord_map f g l (l @ r) = OrdEqual"
  using assms by (induction l) simp_all

lemma ord_map_append_rev:
  assumes "\<forall>e \<in> set l. ord_pair f g e e = OrdEqual" and "r \<noteq> []"
  shows "ord_map f g (l @ r) l = OrdGreater"
  using assms by (induction l) (auto simp: neq_Nil_conv)

end
