(* ===== verification/Int128.thy ===== *)
theory Int128
  imports Ordering
begin

text \<open>
  The 128-bit integers of \<open>src/include/int128.h\<close>: classes \<open>U128\<close> and \<open>S128\<close>.

  A \<open>U128\<close> is the record of its two 64-bit halves and every operation is the
  operation of the class on the halves, loops and early exits included.  The
  abstraction \<open>u128_nat\<close> reads the pair as a number below \<open>2 ^ 128\<close>; the lemmas say
  which operations compute what they are named after on that number.  Where a member
  function is overloaded the argument type is a suffix.  A shift or a division that
  C++ leaves undefined is the error \<open>Undefined_Behaviour\<close>.
\<close>

unbundle bit_operations_syntax

section \<open>U128\<close>

record u128 =
  lo :: u64
  hi :: u64

definition U128 :: "u64 \<Rightarrow> u64 \<Rightarrow> u128" where
  "U128 l h = \<lparr>lo = l, hi = h\<rparr>"

definition u128_zero :: u128 where "u128_zero = U128 0 0"

definition u128_max :: u128 where "u128_max = U128 (-1) (-1)"

definition u128_is_u64 :: "u128 \<Rightarrow> bool" where "u128_is_u64 x = (hi x = 0)"

definition truncate_u64 :: "u128 \<Rightarrow> u64" where "truncate_u64 x = lo x"

definition cmp128 :: "u128 \<Rightarrow> u128 \<Rightarrow> int" where
  "cmp128 a b =
    (if hi a \<noteq> hi b then (if hi a < hi b then -1 else 1)
     else if lo a \<noteq> lo b then (if lo a < lo b then -1 else 1) else 0)"

text \<open>The \<open>*_o\<close> functions return their flag and the value they store.\<close>

definition add128_o :: "u128 \<Rightarrow> u128 \<Rightarrow> bool \<times> u128" where
  "add128_o a b =
    (let olo = lo a + lo b;
         ohi = hi a + hi b + (if olo < lo a then 1 else 0)
     in (ohi < hi a, U128 olo ohi))"

definition sub128_o :: "u128 \<Rightarrow> u128 \<Rightarrow> bool \<times> u128" where
  "sub128_o a b =
    (let olo = lo a - lo b;
         ohi = hi a - hi b - (if olo > lo a then 1 else 0)
     in (ohi > hi a, U128 olo ohi))"

text \<open>
  \<open>mul128_o\<close> is the loop over \<open>i = 0, ..., 127\<close>; \<open>mul128_from\<close> is the loop with
  \<open>128 - i\<close> rounds left, its state the flag, the shifted \<open>b\<close> and the sum so far.
\<close>

definition shl1 :: "u128 \<Rightarrow> u128" where
  "shl1 b = U128 (push_bit 1 (lo b)) (push_bit 1 (hi b) OR drop_bit 63 (lo b))"

definition shr1 :: "u128 \<Rightarrow> u128" where
  "shr1 a = U128 (drop_bit 1 (lo a) OR push_bit 63 (hi a)) (drop_bit 1 (hi a))"

fun mul128_from :: "nat \<Rightarrow> nat \<Rightarrow> u128 \<Rightarrow> bool \<Rightarrow> u128 \<Rightarrow> u128 \<Rightarrow> bool \<times> u128" where
  "mul128_from 0 i a ov b out = (ov, out)"
| "mul128_from (Suc n) i a ov b out =
    (let m = push_bit (i mod 64) 1 in
     if hi a = 0 \<and> lo a < m then (ov, out)
     else if i \<ge> 64 \<and> hi a < m then (ov, out)
     else
       (let (ov', out') =
          (if m AND (if i \<ge> 64 then hi a else lo a) \<noteq> 0
           then (let (c, s) = add128_o out b in (ov \<or> c, s))
           else (ov, out))
        in mul128_from n (i + 1) a ov' (shl1 b) out'))"

definition mul128_o :: "u128 \<Rightarrow> u128 \<Rightarrow> bool \<times> u128" where
  "mul128_o a b = mul128_from 128 0 a False b (U128 0 0)"

text \<open>The two loops of \<open>div128_o\<close>: aligning the divisor, then one quotient bit per round.\<close>

function div128_align :: "u128 \<Rightarrow> u128 \<Rightarrow> nat \<Rightarrow> u128 \<times> nat" where
  "div128_align a_div_2 b shift =
    (if cmp128 a_div_2 b \<ge> 0 \<and> shift < 128 then div128_align a_div_2 (shl1 b) (shift + 1)
     else (b, shift))"
  by pat_completeness auto
termination by (relation "measure (\<lambda>(_, _, s). 128 - s)") auto

declare div128_align.simps [simp del]

fun div128_bits :: "nat \<Rightarrow> u128 \<Rightarrow> u128 \<Rightarrow> u128 \<Rightarrow> u128 \<Rightarrow> u128 \<times> u128" where
  "div128_bits 0 a b msk q = (q, a)"
| "div128_bits (Suc shift) a b msk q =
    (let (q', a') = (if cmp128 a b \<ge> 0 then (snd (add128_o q msk), snd (sub128_o a b)) else (q, a))
     in div128_bits shift a' (shr1 b) (shr1 msk) q')"

text \<open>
  The result is the flag, what \<open>*q\<close> and what \<open>*r\<close> hold at the end: their values
  before the call (\<open>q0\<close>, \<open>r0\<close>) when the function gives up.  A zero divisor below
  \<open>2 ^ 64\<close> reaches the division of the machine, which is undefined.
\<close>

definition div128_o :: "u128 \<Rightarrow> u128 \<Rightarrow> u128 \<Rightarrow> u128 \<Rightarrow> error + (bool \<times> u128 \<times> u128)" where
  "div128_o a b q0 r0 =
    (if hi a = 0 \<and> hi b = 0 then
       (if lo b = 0 then Inl (Undefined_Behaviour ''division by zero'')
        else Inr (False, U128 (lo a div lo b) 0, U128 (lo a mod lo b) 0))
     else if cmp128 a b < 0 then Inr (False, U128 0 0, a)
     else
       (let a_div_2 = shr1 a;
            (b', shift) = div128_align a_div_2 b 0
        in if shift = 128 then Inr (True, q0, r0)
           else
             (let msk = U128 (if shift \<ge> 64 then 0 else push_bit shift 1)
                              (if shift < 64 then 0 else push_bit (shift - 64) 1);
                  (q, r) = div128_bits (shift + 1) a b' msk (U128 0 0)
              in Inr (False, q, r))))"

definition u128_not :: "u128 \<Rightarrow> u128" where "u128_not x = U128 (NOT (lo x)) (NOT (hi x))"
definition u128_add :: "u128 \<Rightarrow> u128 \<Rightarrow> u128" where "u128_add a x = snd (add128_o a x)"
definition u128_sub :: "u128 \<Rightarrow> u128 \<Rightarrow> u128" where "u128_sub a x = snd (sub128_o a x)"
definition u128_or :: "u128 \<Rightarrow> u128 \<Rightarrow> u128" where "u128_or a x = U128 (lo a OR lo x) (hi a OR hi x)"
definition u128_and :: "u128 \<Rightarrow> u128 \<Rightarrow> u128" where "u128_and a x = U128 (lo a AND lo x) (hi a AND hi x)"
definition u128_xor :: "u128 \<Rightarrow> u128 \<Rightarrow> u128" where "u128_xor a x = U128 (lo a XOR lo x) (hi a XOR hi x)"
definition u128_mul :: "u128 \<Rightarrow> u128 \<Rightarrow> u128" where "u128_mul a x = snd (mul128_o a x)"

definition u128_div :: "u128 \<Rightarrow> u128 \<Rightarrow> error + u128" where
  "u128_div a x = res_bind (div128_o a x (U128 0 0) (U128 0 0)) (\<lambda>(f, q, r). Inr q)"

definition u128_mod :: "u128 \<Rightarrow> u128 \<Rightarrow> error + u128" where
  "u128_mod a x = res_bind (div128_o a x (U128 0 0) (U128 0 0)) (\<lambda>(f, q, r). Inr r)"

definition u128_shl :: "u128 \<Rightarrow> nat \<Rightarrow> u128" where
  "u128_shl x bits =
    (if bits = 0 then x
     else if bits \<ge> 128 then U128 0 0
     else if bits \<ge> 64 then U128 0 (push_bit (bits - 64) (lo x))
     else U128 (push_bit bits (lo x)) (push_bit bits (hi x) OR drop_bit (64 - bits) (lo x)))"

definition u128_shr :: "u128 \<Rightarrow> nat \<Rightarrow> u128" where
  "u128_shr x bits =
    (if bits = 0 then x
     else if bits \<ge> 128 then U128 0 0
     else if bits \<ge> 64 then U128 (drop_bit (bits - 64) (hi x)) 0
     else U128 (drop_bit bits (lo x) OR push_bit (64 - bits) (hi x)) (drop_bit bits (hi x)))"

definition u128_ord :: "u128 \<Rightarrow> u128 \<Rightarrow> Ordering" where
  "u128_ord a x = (let c = cmp128 a x in
     if c = 0 then OrdEqual else if c < 0 then OrdLess else OrdGreater)"

definition u128_lt :: "u128 \<Rightarrow> u128 \<Rightarrow> bool" where "u128_lt a x = (cmp128 a x < 0)"
definition u128_le :: "u128 \<Rightarrow> u128 \<Rightarrow> bool" where "u128_le a x = (cmp128 a x \<le> 0)"
definition u128_gt :: "u128 \<Rightarrow> u128 \<Rightarrow> bool" where "u128_gt a x = (cmp128 a x > 0)"
definition u128_ge :: "u128 \<Rightarrow> u128 \<Rightarrow> bool" where "u128_ge a x = (cmp128 a x \<ge> 0)"
definition u128_eq :: "u128 \<Rightarrow> u128 \<Rightarrow> bool" where "u128_eq a x = (cmp128 a x = 0)"

text \<open>Shifts by a \<open>U128\<close>: the comparison is with \<open>U128(128)\<close>, the amount then an \<open>unsigned\<close>.\<close>

definition u128_shl_u128 :: "u128 \<Rightarrow> u128 \<Rightarrow> u128" where
  "u128_shl_u128 x bits =
    (if u128_ge bits (U128 128 0) then U128 0 0
     else u128_shl x (unat (ucast (truncate_u64 bits) :: u32)))"

definition u128_shr_u128 :: "u128 \<Rightarrow> u128 \<Rightarrow> u128" where
  "u128_shr_u128 x bits =
    (if u128_ge bits (U128 128 0) then U128 0 0
     else u128_shr x (unat (ucast (truncate_u64 bits) :: u32)))"

definition u128_bit :: "u128 \<Rightarrow> nat \<Rightarrow> bool" where
  "u128_bit x idx =
    (if idx < 64 then (drop_bit idx (lo x) AND 1) \<noteq> 0
     else if idx < 128 then (drop_bit (idx - 64) (hi x) AND 1) \<noteq> 0
     else False)"

subsection \<open>The number a \<open>U128\<close> stands for\<close>

definition u128_nat :: "u128 \<Rightarrow> nat" where
  "u128_nat x = unat (lo x) + 2 ^ 64 * unat (hi x)"

lemma u128_sel [simp]: "lo (U128 l h) = l" "hi (U128 l h) = h"
  by (simp_all add: U128_def)

lemma u128_collapse [simp]: "U128 (lo x) (hi x) = x"
  by (simp add: U128_def)

lemma unat64_lt: "unat (x :: u64) < 2 ^ 64"
  using unsigned_less [of x, where ?'a = nat] by simp

lemma pair_lt: "l < A \<Longrightarrow> h < B \<Longrightarrow> l + A * h < A * (B :: nat)"
proof -
  assume a: "l < A" "h < B"
  then have "l + A * h < A * Suc h" by simp
  also have "\<dots> \<le> A * B" using a by (intro mult_le_mono) simp_all
  finally show ?thesis .
qed

lemma pair_less_iff:
  "l < A \<Longrightarrow> l' < A \<Longrightarrow> l + A * h < l' + A * (h' :: nat) \<longleftrightarrow> h < h' \<or> h = h' \<and> l < l'"
proof -
  assume a: "l < A" "l' < A"
  have *: "h < h' \<Longrightarrow> l < A \<Longrightarrow> l + A * h < l' + A * h'" for l h l' h'
    using pair_lt [of l A h h'] by linarith
  show ?thesis
    using * [of h h' l l'] * [of h' h l' l] a by (cases h h' rule: linorder_cases) auto
qed

lemma nat_split_mod: "x mod A + A * ((x div A + y) mod B) = (x + A * y) mod (A * B :: nat)"
  by (cases "A = 0") (simp_all add: mod_mult2_eq add.commute)

lemma u128_nat_lt [simp]: "u128_nat x < 340282366920938463463374607431768211456"
  using pair_lt [OF unat64_lt unat64_lt, of "lo x" "hi x"] by (simp add: u128_nat_def)

lemma u128_lo_nat: "unat (lo x) = u128_nat x mod 2 ^ 64"
  by (simp add: u128_nat_def)

lemma u128_hi_nat: "unat (hi x) = u128_nat x div 2 ^ 64"
  by (simp add: u128_nat_def)

lemma u128_nat_inject [simp]: "u128_nat x = u128_nat y \<longleftrightarrow> x = y"
proof
  assume "u128_nat x = u128_nat y"
  then have "unat (lo x) = unat (lo y)" "unat (hi x) = unat (hi y)"
    by (simp_all only: u128_lo_nat u128_hi_nat)
  then show "x = y" by (cases x; cases y) (simp add: word_unat_eq_iff)
qed simp

lemma u128_nat_less_iff:
  "u128_nat a < u128_nat b \<longleftrightarrow> hi a < hi b \<or> hi a = hi b \<and> lo a < lo b"
  unfolding u128_nat_def pair_less_iff [OF unat64_lt unat64_lt]
  by (simp add: word_less_nat_alt word_unat_eq_iff)

lemma cmp128_nat:
  "cmp128 a b = (if u128_nat a < u128_nat b then -1 else if u128_nat a = u128_nat b then 0 else 1)"
  by (cases a; cases b) (auto simp: cmp128_def u128_nat_less_iff)

lemma u128_nat_U128: "u128_nat (U128 l h) = unat l + 2 ^ 64 * unat h"
  by (simp add: u128_nat_def)

lemma sum_div_carry:
  fixes u v A :: nat
  assumes "u < A" "v < A"
  shows "(u + v) div A = (if (u + v) mod A < u then 1 else 0)"
proof (cases "u + v < A")
  case False
  then have "(u + v) div A = 1" "(u + v) mod A = u + v - A"
    using assms by (simp_all add: div_if [of "u + v"] mod_if [of "u + v"])
  then show ?thesis using assms False by simp
qed simp

lemma carry64: "unat (if (x :: u64) + y < x then 1 else 0 :: u64) = (unat x + unat y) div 2 ^ 64"
proof -
  have "x + y < x \<longleftrightarrow> (unat x + unat y) mod 2 ^ 64 < unat x"
    by (simp add: word_less_nat_alt unat_add_mod)
  then show ?thesis
    unfolding sum_div_carry [OF unat64_lt unat64_lt, of x y] by (simp only: if_distrib [of unat] unat_0 unat_1)
qed

lemma u128_nat_add128: "u128_nat (snd (add128_o a b)) = (u128_nat a + u128_nat b) mod 2 ^ 128"
proof -
  let ?A = "2 ^ 64 :: nat"
  let ?s = "unat (lo a) + unat (lo b)"
  let ?h = "unat (hi a) + unat (hi b)"
  have "u128_nat (snd (add128_o a b)) =
    unat (lo a + lo b) + ?A * unat (hi a + hi b + (if lo a + lo b < lo a then 1 else 0))"
    by (simp only: add128_o_def Let_def u128_nat_U128 snd_conv)
  also have "\<dots> = ?s mod ?A + ?A * ((?s div ?A + ?h) mod ?A)"
    unfolding unat_add_mod carry64 by (simp only: mod_simps add.commute len_num0 len_num1 len_bit0 len_bit1 mult_1_right Num.numeral_times_numeral mult_num_simps)
  also have "\<dots> = (?s + ?A * ?h) mod (?A * ?A)"
    by (rule nat_split_mod)
  also have "\<dots> = (u128_nat a + u128_nat b) mod 2 ^ 128"
    by (simp add: u128_nat_def algebra_simps)
  finally show ?thesis .
qed

lemma add128_sub128: "snd (add128_o (snd (sub128_o a b)) b) = a"
  by (cases a) (simp add: add128_o_def sub128_o_def Let_def U128_def)

lemma mod_sub_unique:
  "a = (s + b) mod M \<Longrightarrow> s < M \<Longrightarrow> b < M \<Longrightarrow> s = (if b \<le> a then a - b else a + M - (b :: nat))"
proof (cases "s + b < M")
  case False
  assume a: "a = (s + b) mod M" "s < M" "b < M"
  then have "s + b - M < M" by linarith
  with False have "(s + b) mod M = s + b - M" by (simp add: le_mod_geq)
  then show ?thesis using a False by auto
qed simp

lemma u128_nat_sub128:
  "u128_nat (snd (sub128_o a b)) =
    (if u128_nat b \<le> u128_nat a then u128_nat a - u128_nat b else u128_nat a + 2 ^ 128 - u128_nat b)"
proof (rule mod_sub_unique)
  show "u128_nat a = (u128_nat (snd (sub128_o a b)) + u128_nat b) mod 2 ^ 128"
    using u128_nat_add128 [of "snd (sub128_o a b)" b] by (simp only: add128_sub128)
qed simp_all

lemma bit_u128_nat:
  "bit (u128_nat x) i = (if i < 64 then bit (lo x) i else bit (hi x) (i - 64))"
proof (cases "i < 64")
  case True
  have "bit (lo x) i = bit (unat (lo x)) i"
    by (simp add: bit_unsigned_iff)
  also have "\<dots> = bit (take_bit 64 (u128_nat x)) i"
    by (simp add: u128_lo_nat take_bit_eq_mod)
  finally show ?thesis using True by (simp add: bit_take_bit_iff)
next
  case False
  have "bit (hi x) (i - 64) = bit (unat (hi x)) (i - 64)"
    by (simp add: bit_unsigned_iff)
  also have "\<dots> = bit (drop_bit 64 (u128_nat x)) (i - 64)"
    by (simp add: u128_hi_nat drop_bit_eq_div)
  finally show ?thesis using False by (simp add: bit_drop_bit_eq)
qed

lemma u128_nat_eqI:
  "(\<And>i. i < 128 \<Longrightarrow> bit (u128_nat x) i = bit m i) \<Longrightarrow> m < 2 ^ 128 \<Longrightarrow> u128_nat x = m"
proof (rule bit_eqI)
  fix i
  assume a: "\<And>i. i < 128 \<Longrightarrow> bit (u128_nat x) i = bit m i" "m < 2 ^ 128"
  have "take_bit 128 m = m" "take_bit 128 (u128_nat x) = u128_nat x"
    using a(2) by (simp_all add: take_bit_nat_eq_self)
  then have "bit m i = (i < 128 \<and> bit m i)" "bit (u128_nat x) i = (i < 128 \<and> bit (u128_nat x) i)"
    by (metis bit_take_bit_iff)+
  then show "bit (u128_nat x) i = bit m i" using a(1) by blast
qed

lemma u128_nat_shl: "u128_nat (u128_shl x n) = u128_nat x * 2 ^ n mod 2 ^ 128"
proof -
  have "u128_nat (u128_shl x n) = take_bit 128 (push_bit n (u128_nat x))"
  proof (rule u128_nat_eqI)
    fix i :: nat
    assume "i < 128"
    then show "bit (u128_nat (u128_shl x n)) i = bit (take_bit 128 (push_bit n (u128_nat x))) i"
      by (auto simp: bit_u128_nat bit_take_bit_iff bit_push_bit_iff bit_or_iff bit_drop_bit_eq u128_shl_def ac_simps
        dest: bit_imp_le_length)
  qed (simp add: take_bit_eq_mod)
  then show ?thesis by (simp add: take_bit_eq_mod push_bit_eq_mult)
qed

lemma u128_nat_shr: "u128_nat (u128_shr x n) = u128_nat x div 2 ^ n"
proof -
  have "u128_nat (u128_shr x n) = drop_bit n (u128_nat x)"
  proof (rule u128_nat_eqI)
    fix i :: nat
    assume "i < 128"
    then show "bit (u128_nat (u128_shr x n)) i = bit (drop_bit n (u128_nat x)) i"
      by (auto simp: bit_u128_nat bit_push_bit_iff bit_or_iff bit_drop_bit_eq u128_shr_def ac_simps
        dest: bit_imp_le_length)
  next
    show "drop_bit n (u128_nat x) < 2 ^ 128"
      using u128_nat_lt [of x] by (simp add: drop_bit_eq_div le_less_trans [OF div_le_dividend])
  qed
  then show ?thesis by (simp add: drop_bit_eq_div)
qed

lemma u128_nat_bitwise:
  "u128_nat (u128_and x y) = (u128_nat x AND u128_nat y)"
  "u128_nat (u128_or x y) = (u128_nat x OR u128_nat y)"
  "u128_nat (u128_xor x y) = (u128_nat x XOR u128_nat y)"
  by (rule bit_eqI, simp add: bit_u128_nat bit_simps u128_and_def u128_or_def u128_xor_def)+

lemma and_one_neq_0: "(drop_bit i (w :: 'a :: len word) AND 1) \<noteq> 0 \<longleftrightarrow> bit w i"
  by (simp add: and_one_eq bit_iff_odd_drop_bit odd_iff_mod_2_eq_one)

lemma u128_bit_nat: "u128_bit x i = bit (u128_nat x) i"
  unfolding u128_bit_def and_one_neq_0 bit_u128_nat by (auto dest: bit_imp_le_length)

lemma shl1_eq: "shl1 b = u128_shl b 1"
  by (simp add: shl1_def u128_shl_def)

lemma shr1_eq: "shr1 b = u128_shr b 1"
  by (simp add: shr1_def u128_shr_def)

lemma u128_nat_shl1: "u128_nat (shl1 b) = u128_nat b * 2 mod 2 ^ 128"
  by (simp add: shl1_eq u128_nat_shl)

lemma u128_nat_shr1: "u128_nat (shr1 b) = u128_nat b div 2"
  by (simp add: shr1_eq u128_nat_shr)

lemma u128_nat_not: "u128_nat (u128_not x) = 340282366920938463463374607431768211455 - u128_nat x"
proof -
  have n: "unat (NOT w) = 18446744073709551615 - unat w" for w :: u64
  proof -
    have "NOT w = -1 - w" by (simp add: not_eq_complement)
    then show ?thesis by (simp add: unat_sub unsigned_minus_1_eq_mask mask_eq_exp_minus_1)
  qed
  show ?thesis
    by (simp add: u128_nat_def u128_not_def n)
      (use unat_lt_64 [of "hi x"] unat_lt_64 [of "lo x"] in linarith)
qed

lemma and_push_bit_1: "push_bit k 1 AND (w :: 'a :: len word) \<noteq> 0 \<longleftrightarrow> bit w k"
  by (metis and.commute and_exp_eq_0_iff_not_bit push_bit_of_1)

lemma less_push_bit_1: "k < 64 \<Longrightarrow> (w :: u64) < push_bit k 1 \<longleftrightarrow> unat w div 2 ^ k = 0"
proof -
  assume "k < 64"
  then have "(2 :: nat) ^ k < 2 ^ 64" by (intro power_strict_increasing) simp_all
  then have "unat (push_bit k 1 :: u64) = 2 ^ k"
    unfolding unat_push_bit_mod by simp
  then show ?thesis by (simp add: word_less_nat_alt div_eq_0_iff)
qed

lemma mul128_bit:
  "(push_bit (i mod 64) 1 AND (if i \<ge> 64 then hi a else lo a)) \<noteq> 0 \<longleftrightarrow> odd (u128_nat a div 2 ^ i)"
  if "i < 128"
proof -
  have "i \<ge> 64 \<Longrightarrow> i mod 64 = i - 64" using that by (simp add: mod_if)
  then show ?thesis
    unfolding and_push_bit_1 by (simp add: bit_u128_nat flip: bit_iff_odd)
qed

lemma mul128_stop:
  assumes "i < 128" "hi a = 0 \<and> lo a < push_bit (i mod 64) 1 \<or> i \<ge> 64 \<and> hi a < push_bit (i mod 64) 1"
  shows "u128_nat a div 2 ^ i = 0"
proof (cases "i < 64")
  case True
  with assms have "hi a = 0" "unat (lo a) div 2 ^ i = 0"
    using less_push_bit_1 [OF True, of "lo a"] by auto
  then show ?thesis by (simp add: u128_nat_def)
next
  case False
  then have m: "i mod 64 = i - 64" and k: "i - 64 < 64" using assms(1) by (simp_all add: mod_if)
  have "unat (hi a) div 2 ^ (i - 64) = 0"
    using assms(2) False less_push_bit_1 [OF k, of "hi a"] by (auto simp: m)
  moreover have "u128_nat a div 2 ^ i = u128_nat a div 2 ^ 64 div 2 ^ (i - 64)"
    using False by (simp only: flip: div_mult2_eq power_add) simp
  ultimately show ?thesis by (simp add: u128_hi_nat)
qed

lemma mul_round:
  fixes M :: nat
  assumes "x mod M = (y + r * b) mod M"
  shows "(x + d * (b * 2 mod M)) mod M = (y + r * b + d * (b * 2)) mod M"
proof -
  have "(x + d * (b * 2 mod M)) mod M = (x mod M + d * (b * 2)) mod M"
    using mod_mult_right_eq [of d "b * 2" M] mod_add_cong [of x M "x mod M" "d * (b * 2 mod M)" "d * (b * 2)"]
    by simp
  then show ?thesis by (simp add: assms mod_simps)
qed

lemma mul128_from_nat:
  "n + i = 128 \<Longrightarrow>
    u128_nat (snd (mul128_from n i a ov b out)) =
      (u128_nat out + (u128_nat a div 2 ^ i) * u128_nat b) mod 2 ^ 128"
proof (induction n arbitrary: i ov b out)
  case 0
  then have "u128_nat a div 2 ^ i = 0" by simp
  then show ?case by simp
next
  case (Suc n)
  let ?m = "push_bit (i mod 64) 1 :: u64"
  let ?M = "2 ^ 128 :: nat"
  have i: "i < 128" using Suc.prems by simp
  define k where "k = u128_nat a div 2 ^ i"
  have k2: "u128_nat a div 2 ^ (i + 1) = k div 2"
    by (simp add: k_def flip: div_mult2_eq) (simp add: mult.commute)
  show ?case
  proof (cases "hi a = 0 \<and> lo a < ?m \<or> i \<ge> 64 \<and> hi a < ?m")
    case True
    then have "k = 0" unfolding k_def by (rule mul128_stop [OF i])
    moreover have "mul128_from (Suc n) i a ov b out = (ov, out)" using True by (auto simp: Let_def)
    ultimately show ?thesis by (simp add: k_def)
  next
    case False
    define out' where "out' = (if odd k then snd (add128_o out b) else out)"
    have out': "u128_nat out' mod ?M = (u128_nat out + (k mod 2) * u128_nat b) mod ?M"
      by (simp add: out'_def u128_nat_add128 odd_iff_mod_2_eq_one)
    have "\<exists>ov'. mul128_from (Suc n) i a ov b out = mul128_from n (i + 1) a ov' (shl1 b) out'"
      using False mul128_bit [OF i, of a]
      by (auto simp: Let_def out'_def k_def split: prod.splits)
    then obtain ov' where *: "mul128_from (Suc n) i a ov b out = mul128_from n (i + 1) a ov' (shl1 b) out'"
      by blast
    have IH: "u128_nat (snd (mul128_from n (i + 1) a ov' (shl1 b) out')) =
      (u128_nat out' + k div 2 * (u128_nat b * 2 mod ?M)) mod ?M"
      using Suc.IH [of "i + 1"] Suc.prems unfolding k2 by (simp add: u128_nat_shl1)
    also have "\<dots> = (u128_nat out + (k mod 2) * u128_nat b + k div 2 * (u128_nat b * 2)) mod ?M"
      using out' by (rule mul_round)
    also have "\<dots> = (u128_nat out + (k mod 2 + k div 2 * 2) * u128_nat b) mod ?M"
      by (simp only: algebra_simps)
    also have "k mod 2 + k div 2 * 2 = k" by simp
    finally show ?thesis unfolding * k_def .
  qed
qed

lemma u128_nat_mul: "u128_nat (u128_mul a b) = u128_nat a * u128_nat b mod 2 ^ 128"
  by (simp add: u128_mul_def mul128_o_def mul128_from_nat u128_nat_U128)

lemma cmp128_ge_0: "cmp128 a b \<ge> 0 \<longleftrightarrow> u128_nat b \<le> u128_nat a"
  by (simp add: cmp128_nat)

lemma cmp128_less_0: "cmp128 a b < 0 \<longleftrightarrow> u128_nat a < u128_nat b"
  by (simp add: cmp128_nat)

lemma div128_align_nat:
  assumes "u128_nat b = b0 * 2 ^ s" "0 < b0" "u128_nat b \<le> a" "s < 128" "a < 2 ^ 128"
    "u128_nat a2 = a div 2"
  shows "\<exists>b' s'. div128_align a2 b s = (b', s') \<and> s' < 128 \<and> u128_nat b' = b0 * 2 ^ s' \<and>
    u128_nat b' \<le> a \<and> a < 2 * u128_nat b'"
  using assms
proof (induction a2 b s rule: div128_align.induct)
  case (1 a2 b s)
  show ?case
  proof (cases "u128_nat b \<le> a div 2")
    case True
    then have le: "u128_nat b * 2 \<le> a" by linarith
    then have b2: "u128_nat (shl1 b) = u128_nat b * 2"
      using 1(6) by (simp add: u128_nat_shl1)
    have "(2 :: nat) ^ (s + 1) \<le> b0 * 2 ^ (s + 1)" using 1(3) by simp
    also have "\<dots> \<le> a" using le 1(2) by simp
    finally have "(2 :: nat) ^ (s + 1) < 2 ^ 128" using 1(6) by linarith
    then have s: "s + 1 < 128" by (simp only: power_strict_increasing_iff one_less_numeral_iff semiring_norm)
    have c: "cmp128 a2 b \<ge> 0 \<and> s < 128" using True 1 by (simp add: cmp128_ge_0)
    have "div128_align a2 b s = div128_align a2 (shl1 b) (s + 1)"
      using c by (subst div128_align.simps) simp
    moreover have "\<exists>b' s'. div128_align a2 (shl1 b) (s + 1) = (b', s') \<and> s' < 128 \<and>
      u128_nat b' = b0 * 2 ^ s' \<and> u128_nat b' \<le> a \<and> a < 2 * u128_nat b'"
      using c 1 s le by (intro 1(1)) (simp_all add: b2)
    ultimately show ?thesis by simp
  next
    case False
    then have "div128_align a2 b s = (b, s)"
      using 1(7) by (subst div128_align.simps) (simp add: cmp128_ge_0)
    then show ?thesis using False 1 by auto
  qed
qed

lemma div128_bits_nat:
  assumes "0 < b0" "n > 0 \<Longrightarrow> u128_nat b = b0 * 2 ^ (n - 1)" "n > 0 \<Longrightarrow> u128_nat m = 2 ^ (n - 1)"
    "u128_nat a < b0 * 2 ^ n" "u128_nat q + u128_nat a div b0 < 2 ^ 128"
  shows "u128_nat (fst (div128_bits n a b m q)) = u128_nat q + u128_nat a div b0 \<and>
    u128_nat (snd (div128_bits n a b m q)) = u128_nat a mod b0"
  using assms
proof (induction n arbitrary: a b m q)
  case (Suc n)
  have b: "u128_nat b = b0 * 2 ^ n" and m: "u128_nat m = 2 ^ n" using Suc.prems by simp_all
  have sh: "n > 0 \<Longrightarrow> u128_nat (shr1 b) = b0 * 2 ^ (n - 1)" "n > 0 \<Longrightarrow> u128_nat (shr1 m) = 2 ^ (n - 1)"
    by (cases n; simp add: u128_nat_shr1 b m)+
  show ?case
  proof (cases "u128_nat b \<le> u128_nat a")
    case True
    let ?a = "snd (sub128_o a b)" and ?q = "snd (add128_o q m)"
    have a: "u128_nat ?a = u128_nat a - b0 * 2 ^ n" using True by (simp add: u128_nat_sub128 b)
    have d: "u128_nat a div b0 = 2 ^ n + (u128_nat a - b0 * 2 ^ n) div b0"
      using True Suc.prems(1) by (metis b add.commute add_diff_inverse_nat div_mult_self2 not_less less_numeral_extra(3))
    have q: "u128_nat ?q = u128_nat q + 2 ^ n"
      using Suc.prems(5) d by (simp add: u128_nat_add128 m)
    have e: "div128_bits (Suc n) a b m q = div128_bits n ?a (shr1 b) (shr1 m) ?q"
      using True by (simp add: cmp128_ge_0)
    have md: "(u128_nat a - b0 * 2 ^ n) mod b0 = u128_nat a mod b0"
      using True b by (metis le_add_diff_inverse2 mod_mult_self2)
    show ?thesis
      unfolding e using Suc.IH [of "shr1 b" "shr1 m" ?a ?q] Suc.prems(1,4,5) sh d
      by (simp add: a q md)
  next
    case False
    then have e: "div128_bits (Suc n) a b m q = div128_bits n a (shr1 b) (shr1 m) q"
      by (simp add: cmp128_ge_0)
    show ?thesis
      unfolding e using Suc.IH [of "shr1 b" "shr1 m" a q] Suc.prems False sh by (simp add: b)
  qed
qed simp

lemma u128_nat_small: "hi x = 0 \<Longrightarrow> u128_nat x = unat (lo x)"
  by (simp add: u128_nat_def)

lemma div128_o_nat:
  assumes "u128_nat b \<noteq> 0"
  shows "\<exists>q r. div128_o a b q0 r0 = Inr (False, q, r) \<and>
    u128_nat q = u128_nat a div u128_nat b \<and> u128_nat r = u128_nat a mod u128_nat b"
proof (cases "hi a = 0 \<and> hi b = 0")
  case True
  then have "lo b \<noteq> 0" using assms by (auto simp: u128_nat_def)
  with True show ?thesis
    by (simp add: div128_o_def u128_nat_def unat_div unat_mod)
next
  case big: False
  show ?thesis
  proof (cases "u128_nat a < u128_nat b")
    case True
    then show ?thesis using big by (simp add: div128_o_def cmp128_less_0 u128_nat_U128 del: de_Morgan_conj)
  next
    case False
    obtain b' s where al: "div128_align (shr1 a) b 0 = (b', s)" "s < 128"
      "u128_nat b' = u128_nat b * 2 ^ s" "u128_nat b' \<le> u128_nat a" "u128_nat a < 2 * u128_nat b'"
      using div128_align_nat [of b "u128_nat b" 0 "u128_nat a" "shr1 a"] assms False
      by (auto simp: u128_nat_shr1)
    let ?m = "U128 (if s \<ge> 64 then 0 else push_bit s 1) (if s < 64 then 0 else push_bit (s - 64) 1)"
    have m: "u128_nat ?m = 2 ^ s"
    proof -
      have "?m = u128_shl (U128 1 0) s"
        using al(2) by (simp add: u128_shl_def)
      moreover have "(2 :: nat) ^ s < 2 ^ 128"
        using al(2) by (intro power_strict_increasing) simp_all
      ultimately show ?thesis by (simp add: u128_nat_shl u128_nat_U128)
    qed
    obtain q r where qr: "div128_bits (s + 1) a b' ?m (U128 0 0) = (q, r)" by (cases "div128_bits (s + 1) a b' ?m (U128 0 0)") 
    have "u128_nat (fst (div128_bits (s + 1) a b' ?m (U128 0 0))) = u128_nat (U128 0 0) + u128_nat a div u128_nat b \<and>
      u128_nat (snd (div128_bits (s + 1) a b' ?m (U128 0 0))) = u128_nat a mod u128_nat b"
      using al assms m
      by (intro div128_bits_nat) (simp_all add: u128_nat_U128 le_less_trans [OF div_le_dividend])
    then have "u128_nat q = u128_nat a div u128_nat b \<and> u128_nat r = u128_nat a mod u128_nat b"
      by (simp only: qr fst_conv snd_conv) (simp add: u128_nat_U128)
    moreover have "div128_o a b q0 r0 = Inr (False, q, r)"
      using big False al(1,2) qr
      by (simp add: div128_o_def cmp128_less_0 Let_def del: de_Morgan_conj div128_bits.simps)
    ultimately show ?thesis by blast
  qed
qed

lemma div128_align_zero: "n = 128 - s \<Longrightarrow> s \<le> 128 \<Longrightarrow> snd (div128_align a2 (U128 0 0) s) = 128"
proof (induction n arbitrary: s)
  case 0
  then show ?case by (simp add: div128_align.simps)
next
  case (Suc n)
  have "shl1 (U128 0 0) = U128 0 0" by (simp add: shl1_def)
  then show ?case using Suc
    by (subst div128_align.simps) (simp add: cmp128_ge_0 u128_nat_U128)
qed

lemma div128_o_zero:
  "div128_o a (U128 0 0) q0 r0 =
    (if hi a = 0 then Inl (Undefined_Behaviour ''division by zero'') else Inr (True, q0, r0))"
proof -
  obtain b s where al: "div128_align (shr1 a) (U128 0 0) 0 = (b, s)" by (cases "div128_align (shr1 a) (U128 0 0) 0")
  then have "s = 128" using div128_align_zero [of 128 0 "shr1 a"] by simp
  then show ?thesis using al
    by (simp add: div128_o_def cmp128_less_0 u128_nat_U128)
qed

lemma u128_div_nat:
  "u128_nat b \<noteq> 0 \<Longrightarrow> \<exists>q. u128_div a b = Inr q \<and> u128_nat q = u128_nat a div u128_nat b"
  using div128_o_nat [of b a "U128 0 0" "U128 0 0"] by (auto simp: u128_div_def)

lemma u128_mod_nat:
  "u128_nat b \<noteq> 0 \<Longrightarrow> \<exists>r. u128_mod a b = Inr r \<and> u128_nat r = u128_nat a mod u128_nat b"
  using div128_o_nat [of b a "U128 0 0" "U128 0 0"] by (auto simp: u128_mod_def)

lemma u128_nat_sub_int: "int (u128_nat (u128_sub a b)) = (int (u128_nat a) - int (u128_nat b)) mod 2 ^ 128"
proof -
  have *: "int (u128_nat a) < 2 ^ 128" "int (u128_nat b) < 2 ^ 128" "0 \<le> int (u128_nat b)" "0 \<le> int (u128_nat a)"
    using u128_nat_lt [of a] u128_nat_lt [of b] by simp_all
  show ?thesis
  proof (cases "u128_nat b \<le> u128_nat a")
    case True
    have "(int (u128_nat a) - int (u128_nat b)) mod 2 ^ 128 = int (u128_nat a) - int (u128_nat b)"
      using * True by (intro mod_pos_pos_trivial) linarith+
    then show ?thesis
      using True by (simp add: u128_sub_def u128_nat_sub128 of_nat_diff)
  next
    case False
    have "(int (u128_nat a) - int (u128_nat b)) mod 2 ^ 128 =
        (int (u128_nat a) - int (u128_nat b) + 2 ^ 128) mod 2 ^ 128"
      by simp
    also have "\<dots> = int (u128_nat a) - int (u128_nat b) + 2 ^ 128"
      using * False by (intro mod_pos_pos_trivial) linarith+
    finally show ?thesis
      using * False by (simp add: u128_sub_def u128_nat_sub128 of_nat_diff)
  qed
qed

lemma u128_div_mod_zero:
  assumes "u128_nat b = 0"
  shows "u128_div a b = (if hi a = 0 then Inl (Undefined_Behaviour ''division by zero'') else Inr u128_zero)"
    and "u128_mod a b = (if hi a = 0 then Inl (Undefined_Behaviour ''division by zero'') else Inr u128_zero)"
proof -
  have "b = U128 0 0"
    using assms by (cases b) (simp add: u128_nat_def U128_def unat_eq_0)
  then show "u128_div a b = (if hi a = 0 then Inl (Undefined_Behaviour ''division by zero'') else Inr u128_zero)"
    "u128_mod a b = (if hi a = 0 then Inl (Undefined_Behaviour ''division by zero'') else Inr u128_zero)"
    by (simp_all add: u128_div_def u128_mod_def div128_o_zero u128_zero_def)
qed

end
