(* ===== verification/Int128_Ops.thy ===== *)
theory Int128_Ops
  imports Int128
begin

text \<open>
  The conversions of \<open>U128\<close> in \<open>src/include/int128.h\<close>: to the bit pattern of a
  floating-point number, to and from byte buffers of either endianness, and to text.
\<close>

unbundle bit_operations_syntax

section \<open>Floating point\<close>

text \<open>The loop that counts the significant bits.\<close>

function encode_float_nset :: "u128 \<Rightarrow> nat \<Rightarrow> nat" where
  "encode_float_nset val nset =
    (if \<not> u128_eq val (U128 0 0) then encode_float_nset (u128_shr val 1) (nset + 1) else nset)"
  by pat_completeness auto
termination
  by (relation "measure (\<lambda>(v, _). u128_nat v)")
    (auto simp: u128_eq_def cmp128_nat u128_nat_shr u128_nat_U128 split: if_splits)

declare encode_float_nset.simps [simp del]

definition encode_float :: "u128 \<Rightarrow> nat \<Rightarrow> int \<Rightarrow> u64" where
  "encode_float x m_bits zero_exp =
    (let n = 128 - encode_float_nset x 0;
         y = u128_shl x n;
         a = drop_bit ((128 - (m_bits + 1)) - 64) (hi y);
         s = 64 - (m_bits + 1);
         b = lo (u128_shr y s) OR (lo y AND (push_bit s 1 - 1));
         m = a + drop_bit 63 (b - (drop_bit 63 b AND NOT a));
         e = (if u128_eq x (U128 0 0) then 0
              else word_of_int ((127 - int n) + zero_exp - 1))
     in push_bit m_bits e + m)"

text \<open>A \<open>double\<close> and a \<open>float\<close> are their bit patterns.\<close>

definition u128_to_double :: "u128 \<Rightarrow> u64" where
  "u128_to_double x = encode_float x 52 1023"

definition u128_to_float :: "u128 \<Rightarrow> u32" where
  "u128_to_float x = ucast (encode_float x 23 127)"

section \<open>Byte buffers\<close>

definition to_le_bytes :: "u128 \<Rightarrow> nat \<Rightarrow> bytes" where
  "to_le_bytes x max_len =
    (let max_len = (if max_len > 16 then 16 else max_len)
     in map (\<lambda>i. ucast (truncate_u64 (u128_shr x (i * 8)))) [0..<max_len])"

text \<open>The branch for little-endian machines copies the object as it lies in memory.\<close>

definition u64_memory :: "u64 \<Rightarrow> bytes" where
  "u64_memory w = map (\<lambda>i. ucast (drop_bit (8 * i) w)) [0..<8]"

definition to_le_bytes_memcpy :: "u128 \<Rightarrow> nat \<Rightarrow> bytes" where
  "to_le_bytes_memcpy x max_len =
    (let max_len = (if max_len > 16 then 16 else max_len)
     in take max_len (u64_memory (lo x) @ u64_memory (hi x)))"

definition to_be_bytes :: "u128 \<Rightarrow> nat \<Rightarrow> bytes" where
  "to_be_bytes x max_len =
    (let max_len = (if max_len > 16 then 16 else max_len)
     in foldl (\<lambda>dst i. dst[max_len - 1 - i := ucast (truncate_u64 (u128_shr x (i * 8)))])
          (replicate max_len 0) [0..<max_len])"

definition u128_of_byte :: "u8 \<Rightarrow> u128" where "u128_of_byte b = U128 (ucast b) 0"

text \<open>Reading past the end of the source buffer is undefined.\<close>

definition from_le_bytes :: "bytes \<Rightarrow> nat \<Rightarrow> error + u128" where
  "from_le_bytes src max_len =
    (let max_len = (if max_len > 16 then 16 else max_len)
     in if length src < max_len then Inl (Undefined_Behaviour ''buffer over-read'')
        else Inr (foldl (\<lambda>v i. u128_or v (u128_shl (u128_of_byte (src ! i)) (i * 8)))
                   (U128 0 0) [0..<max_len]))"

definition from_be_bytes :: "bytes \<Rightarrow> nat \<Rightarrow> error + u128" where
  "from_be_bytes src max_len =
    (let max_len = (if max_len > 16 then 16 else max_len)
     in if length src < max_len then Inl (Undefined_Behaviour ''buffer over-read'')
        else Inr (foldl (\<lambda>v i. u128_or v (u128_shl (u128_of_byte (src ! (max_len - 1 - i))) (i * 8)))
                   (U128 0 0) [0..<max_len]))"

section \<open>Text\<close>

text \<open>
  The stream: the flags the operator looks at, the field width and what was written.
  Writing a character pads it to the field width with blanks and resets the width,
  as the standard says.
\<close>

datatype base = Hex | Oct | Dec

record ostream =
  os_base :: base
  os_uppercase :: bool
  os_width :: nat
  os_out :: string

definition os_char :: "char \<Rightarrow> ostream \<Rightarrow> ostream" where
  "os_char c os = os\<lparr>os_width := 0, os_out := os_out os @ replicate (os_width os - 1) CHR '' '' @ [c]\<rparr>"

fun base_num :: "base \<Rightarrow> nat" where
  "base_num Hex = 16" | "base_num Oct = 8" | "base_num Dec = 10"

definition os_u64 :: "u64 \<Rightarrow> ostream \<Rightarrow> ostream" where
  "os_u64 v os =
    (let s = show_base (os_uppercase os) (base_num (os_base os)) (unat v)
     in os\<lparr>os_width := 0, os_out := os_out os @ replicate (os_width os - length s) CHR '' '' @ s\<rparr>)"

text \<open>One round of the loop for each base: the next digit and the value that is left.\<close>

definition u128_fmt_step :: "base \<Rightarrow> u128 \<Rightarrow> error + (nat \<times> u128)" where
  "u128_fmt_step base v =
    (case base of
       Hex \<Rightarrow> Inr (unat (lo v AND 0xF), u128_shr v 4)
     | Oct \<Rightarrow> Inr (unat (lo v AND 7), u128_shr v 3)
     | Dec \<Rightarrow> res_bind (div128_o v (U128 10 0) (U128 0 0) (U128 0 0))
                 (\<lambda>(f, v2, rem). Inr (unat (lo rem mod 10), v2)))"

text \<open>
  The loops fill \<open>char output[41]\<close> from index 0; a store past its end is undefined.
  \<open>fuel\<close> bounds the rounds; \<open>u128_fmt\<close> gives 129, more than a 128-bit value can take.
\<close>

fun u128_fmt_loop :: "nat \<Rightarrow> base \<Rightarrow> bool \<Rightarrow> u128 \<Rightarrow> string \<Rightarrow> error + string" where
  "u128_fmt_loop 0 base upper v output = Inl Out_Of_Fuel"
| "u128_fmt_loop (Suc fuel) base upper v output =
    (if hi v > 0 \<or> lo v > 0 then
       res_bind (u128_fmt_step base v) (\<lambda>(d, v').
         if length output \<ge> 41 then Inl (Undefined_Behaviour ''store past the end of output'')
         else u128_fmt_loop fuel base upper v' (output @ [digit_char upper d]))
     else Inr output)"

definition u128_fmt :: "u128 \<Rightarrow> ostream \<Rightarrow> error + ostream" where
  "u128_fmt x os =
    (if hi x = 0 then Inr (os_u64 (lo x) os)
     else res_bind (u128_fmt_loop 129 (os_base os) (os_uppercase os) x '''') (\<lambda>output.
       let os' = (os_char CHR '' '' ^^ (os_width os - length output)) os
       in Inr (fold os_char (rev output) os')))"

subsection \<open>Text: the numeral of the number\<close>

lemma unat_and_mask: "unat (w AND mask n :: u64) = unat w mod 2 ^ n"
proof -
  have "unat (w AND mask n) = unat (take_bit n w)" by (simp only: take_bit_eq_mask)
  also have "\<dots> = take_bit n (unat w)" by (rule unsigned_take_bit_eq)
  finally show ?thesis by (simp only: take_bit_eq_mod)
qed

lemma lo_and_mask: "n \<le> 64 \<Longrightarrow> unat (lo v AND mask n) = u128_nat v mod 2 ^ n"
  unfolding unat_and_mask u128_lo_nat by (rule mod_mod_cancel) (rule le_imp_power_dvd)

lemma u128_fmt_step_nat:
  "\<exists>v'. u128_fmt_step base v = Inr (u128_nat v mod base_num base, v') \<and>
    u128_nat v' = u128_nat v div base_num base"
proof (cases base)
  case Hex
  have "unat (lo v AND 15) = u128_nat v mod 16"
    using lo_and_mask [of 4 v] by (simp add: mask_eq_exp_minus_1)
  then show ?thesis by (simp add: Hex u128_fmt_step_def u128_nat_shr)
next
  case Oct
  have "unat (lo v AND 7) = u128_nat v mod 8"
    using lo_and_mask [of 3 v] by (simp add: mask_eq_exp_minus_1)
  then show ?thesis by (simp add: Oct u128_fmt_step_def u128_nat_shr)
next
  case Dec
  obtain q r where qr: "div128_o v (U128 10 0) (U128 0 0) (U128 0 0) = Inr (False, q, r)"
    "u128_nat q = u128_nat v div 10" "u128_nat r = u128_nat v mod 10"
    using div128_o_nat [of "U128 10 0" v "U128 0 0" "U128 0 0"] by (auto simp: u128_nat_U128)
  have "unat (lo r) = u128_nat v mod 10"
    by (simp add: u128_lo_nat qr(3))
  then show ?thesis by (simp add: Dec u128_fmt_step_def qr unat_mod)
qed

lemma u128_pos_iff: "hi v > 0 \<or> lo v > 0 \<longleftrightarrow> u128_nat v > 0"
  by (auto simp: u128_nat_def word_gt_0 unat_gt_0)

lemma u128_fmt_loop_nat:
  assumes "u128_nat v < 2 ^ f" "length out \<le> 41" "0 < u128_nat v"
  shows "u128_fmt_loop (Suc f) base u v out =
     (let s = out @ rev (show_base u (base_num base) (u128_nat v))
      in if length s \<le> 41 then Inr s else Inl (Undefined_Behaviour ''store past the end of output''))"
  using assms
proof (induction f arbitrary: v out)
  case (Suc f)
  let ?b = "base_num base"
  have b: "2 \<le> ?b" by (cases base) simp_all
  obtain v' where st: "u128_fmt_step base v = Inr (u128_nat v mod ?b, v')" "u128_nat v' = u128_nat v div ?b"
    using u128_fmt_step_nat by blast
  have pos: "hi v > 0 \<or> lo v > 0" using Suc.prems(3) by (simp only: u128_pos_iff)
  let ?d = "digit_char u (u128_nat v mod ?b)"
  have e: "u128_fmt_loop (Suc (Suc f)) base u v out =
    (if length out \<ge> 41 then Inl (Undefined_Behaviour ''store past the end of output'')
     else u128_fmt_loop (Suc f) base u v' (out @ [?d]))"
    using pos by (simp only: u128_fmt_loop.simps if_True st res_bind_simps split)
  show ?case
  proof (cases "u128_nat v < ?b")
    case True
    then have "u128_nat v' = 0" by (simp add: st(2))
    then have "\<not> (hi v' > 0 \<or> lo v' > 0)" by (simp only: u128_pos_iff)
    then have "u128_fmt_loop (Suc f) base u v' (out @ [?d]) = Inr (out @ [?d])" by simp
    then show ?thesis unfolding e using True Suc.prems by simp
  next
    case False
    then have p: "0 < u128_nat v'" using b by (simp add: st(2) div_greater_zero_iff)
    have "u128_nat v' \<le> u128_nat v div 2" unfolding st(2) using b by (simp add: div_le_mono2)
    then have l: "u128_nat v' < 2 ^ f" using Suc.prems(1) by simp
    have s: "show_base u ?b (u128_nat v) = show_base u ?b (u128_nat v') @ [?d]"
      using b False by (simp add: show_base_step st(2))
    show ?thesis unfolding e s
      using Suc.IH [OF l _ p, of "out @ [?d]"] Suc.prems(2)
      by (auto simp: Let_def simp del: u128_fmt_loop.simps)
  qed
qed simp

lemma fold_os_char:
  "os_width os = 0 \<Longrightarrow> fold os_char s os = os\<lparr>os_out := os_out os @ s\<rparr>"
  by (induction s arbitrary: os) (simp_all add: os_char_def)

lemma u128_fmt_big:
  assumes "hi x \<noteq> 0"
  shows "u128_fmt x os =
    (let s = show_base (os_uppercase os) (base_num (os_base os)) (u128_nat x)
     in if length s \<le> 41
        then Inr (fold os_char s ((os_char CHR '' '' ^^ (os_width os - length s)) os))
        else Inl (Undefined_Behaviour ''store past the end of output''))"
proof -
  have "0 < u128_nat x" using assms by (simp only: flip: u128_pos_iff) (simp add: word_gt_0)
  then show ?thesis
    using u128_fmt_loop_nat [of x 128 "[]" "os_base os" "os_uppercase os"] assms
    by (simp add: u128_fmt_def Let_def del: u128_fmt_loop.simps)
qed

text \<open>With no field width set, the operator writes the numeral of the number.\<close>

lemma u128_fmt_numeral:
  assumes "os_width os = 0" "os_base os \<noteq> Oct \<or> u128_nat x < 2 ^ 123"
  shows "u128_fmt x os =
    Inr (os\<lparr>os_out := os_out os @ show_base (os_uppercase os) (base_num (os_base os)) (u128_nat x)\<rparr>)"
proof (cases "hi x = 0")
  case True
  then show ?thesis
    using assms(1) by (simp add: u128_fmt_def os_u64_def u128_nat_def Let_def)
next
  case False
  have "u128_nat x < base_num (os_base os) ^ 41"
    using assms(2) u128_nat_lt [of x] by (cases "os_base os") (simp_all del: u128_nat_lt)
  moreover have "2 \<le> base_num (os_base os)" by (cases "os_base os") simp_all
  ultimately have "length (show_base (os_uppercase os) (base_num (os_base os)) (u128_nat x)) \<le> 41"
    by (simp add: show_base_length_le)
  then show ?thesis
    using False assms(1) by (simp add: u128_fmt_big fold_os_char)
qed

lemma u128_fmt_octal_overrun:
  "os_base os = Oct \<Longrightarrow> 2 ^ 123 \<le> u128_nat x \<Longrightarrow>
    u128_fmt x os = Inl (Undefined_Behaviour ''store past the end of output'')"
proof -
  assume a: "os_base os = Oct" "2 ^ 123 \<le> u128_nat x"
  then have "hi x \<noteq> 0"
    using unat64_lt [of "lo x"] by (intro notI) (simp add: u128_nat_def del: unat_lt_64)
  moreover have "\<not> length (show_base (os_uppercase os) 8 (u128_nat x)) \<le> 41"
    using a(2) by (simp add: show_base_length_le)
  ultimately show ?thesis using a(1) by (simp add: u128_fmt_big)
qed

text \<open>A field width is applied a second time by the loop that is meant to pad.\<close>

lemma u128_fmt_padding:
  assumes "hi x \<noteq> 0" "os_base os = Dec" "os_width os = w" "length s < w"
    "s = show_base False 10 (u128_nat x)" "\<not> os_uppercase os"
  shows "u128_fmt x os =
    Inr (os\<lparr>os_width := 0, os_out := os_out os @ replicate (2 * w - length s - 1) CHR '' '' @ s\<rparr>)"
proof -
  have blanks: "(os_char CHR '' '' ^^ Suc k) os =
    os\<lparr>os_width := 0, os_out := os_out os @ replicate (w - 1 + Suc k) CHR '' ''\<rparr>" for k
    by (induction k) (use assms in \<open>simp_all add: os_char_def replicate_append_same flip: replicate_Suc replicate_add\<close>)
  obtain k where k: "w - length s = Suc k" using assms(4) by (metis Suc_diff_Suc)
  have "length s \<le> 39"
    unfolding assms(5) using u128_nat_lt [of x] by (simp add: show_base_length_le del: u128_nat_lt)
  moreover have "w - 1 + Suc k = 2 * w - length s - 1" using k by linarith
  then have "(os_char CHR '' '' ^^ Suc k) os =
    os\<lparr>os_width := 0, os_out := os_out os @ replicate (2 * w - length s - 1) CHR '' ''\<rparr>"
    by (simp only: blanks)
  ultimately show ?thesis
    using assms(1-4,6) k unfolding u128_fmt_big [OF assms(1)]
    by (simp add: fold_os_char flip: assms(5) del: funpow.simps)
qed

subsection \<open>Byte buffers: the digits of the number in base 256\<close>

lemma or_shifted: "a < 2 ^ n \<Longrightarrow> a OR b * 2 ^ n = a + b * 2 ^ n" for a b :: nat
proof -
  assume "a < 2 ^ n"
  then have "take_bit n a = a" by (simp add: take_bit_nat_eq_self)
  then have "\<not> bit a i \<or> \<not> bit (push_bit n b) i" for i
    by (metis bit_push_bit_iff bit_take_bit_iff not_less)
  then have "a + push_bit n b = a OR push_bit n b"
    by (intro disjunctive_add_eq_or) (simp add: bit_eq_iff bit_simps)
  then show ?thesis by (simp only: push_bit_eq_mult)
qed

lemma unat_ucast_byte: "unat (ucast (w :: u64) :: u8) = unat w mod 256"
  by (simp add: unsigned_ucast_eq take_bit_eq_mod)

lemma byte_of_u128: "unat (ucast (truncate_u64 (u128_shr x (i * 8))) :: u8) = u128_nat x div 256 ^ i mod 256"
proof -
  have "(2 :: nat) ^ (i * 8) = 256 ^ i" by (simp only: mult.commute [of i] power_mult) simp
  then show ?thesis
    unfolding unat_ucast_byte truncate_u64_def u128_lo_nat u128_nat_shr by (simp add: mod_mod_cancel)
qed

lemma le_nat_digits:
  "(\<And>i. i < n \<Longrightarrow> unat (f i) = x div 256 ^ i mod 256) \<Longrightarrow> le_nat (map f [0..<n]) = x mod 256 ^ n"
proof (induction n)
  case (Suc n)
  have "x mod 256 ^ Suc n = 256 ^ n * (x div 256 ^ n mod 256) + x mod 256 ^ n"
    by (simp only: power_Suc2 mod_mult2_eq)
  then show ?case using Suc by (simp add: le_nat_append)
qed simp

lemma le_nat_to_le_bytes: "le_nat (to_le_bytes x n) = u128_nat x mod 256 ^ min n 16"
proof -
  have "le_nat (map (\<lambda>i. ucast (truncate_u64 (u128_shr x (i * 8)))) [0..<min n 16]) = u128_nat x mod 256 ^ min n 16"
    by (rule le_nat_digits) (rule byte_of_u128)
  moreover have "(if n > 16 then 16 else n) = min n 16" by simp
  ultimately show ?thesis by (simp only: to_le_bytes_def Let_def)
qed

lemma unat_ucast_u8 [simp]: "unat (ucast (b :: u8) :: u64) = unat b"
  using unat_lt_8 [of b] by (simp add: unsigned_ucast_eq take_bit_nat_eq_self del: unat_lt_8)

lemma or_shifted_bytes: "a < 256 ^ k \<Longrightarrow> a OR b * 256 ^ k = a + b * 256 ^ k" for a b :: nat
proof -
  have "(2 :: nat) ^ (8 * k) = 256 ^ k" by (simp add: power_mult)
  then show "a < 256 ^ k \<Longrightarrow> a OR b * 256 ^ k = a + b * 256 ^ k"
    using or_shifted [of a "8 * k" b] by (simp only:)
qed

lemma u128_nat_of_byte_shl:
  "i < 16 \<Longrightarrow> u128_nat (u128_shl (u128_of_byte b) (i * 8)) = unat b * 256 ^ i"
proof -
  assume "i < 16"
  have e: "(256 :: nat) ^ i = 2 ^ (8 * i)" by (simp only: power_mult) simp
  from \<open>i < 16\<close> have "(2 :: nat) ^ (8 * i) \<le> 2 ^ 120" by (intro power_increasing) simp_all
  then have "unat b * 2 ^ (8 * i) < 256 * 2 ^ 120"
    using unat_lt_8 [of b] by (intro mult_less_le_imp_less) simp_all
  then show ?thesis
    by (simp add: e u128_nat_shl u128_of_byte_def u128_nat_U128 mult.commute)
qed

lemma from_bytes_fold:
  "k \<le> 16 \<Longrightarrow> u128_nat (foldl (\<lambda>v i. u128_or v (u128_shl (u128_of_byte (f i)) (i * 8))) (U128 0 0) [0..<k])
    = le_nat (map f [0..<k])"
proof (induction k)
  case 0
  show ?case by (simp add: u128_nat_U128)
next
  case (Suc k)
  have "le_nat (map f [0..<k]) < 256 ^ k"
    using le_nat_lt [of "map f [0..<k]"] by simp
  then show ?case
    using Suc by (simp add: u128_nat_bitwise u128_nat_of_byte_shl or_shifted_bytes le_nat_append
      mult.commute)
qed

lemma from_le_bytes_nat:
  "min n 16 \<le> length src \<Longrightarrow>
    \<exists>v. from_le_bytes src n = Inr v \<and> u128_nat v = le_nat (take (min n 16) src)"
  using from_bytes_fold [of "min n 16" "\<lambda>i. src ! i"]
  by (auto simp: from_le_bytes_def Let_def min_def map_nth take_map not_less
     intro!: arg_cong [where f = le_nat] nth_equalityI)

lemma from_be_bytes_nat:
  "min n 16 \<le> length src \<Longrightarrow>
    \<exists>v. from_be_bytes src n = Inr v \<and> u128_nat v = le_nat (rev (take (min n 16) src))"
  using from_bytes_fold [of "min n 16" "\<lambda>i. src ! (min n 16 - 1 - i)"]
  by (auto simp: from_be_bytes_def Let_def min_def rev_nth not_less
     intro!: arg_cong [where f = le_nat] nth_equalityI)

lemma foldl_update_rev:
  "k \<le> n \<Longrightarrow> foldl (\<lambda>dst i. dst[n - 1 - i := g i]) (replicate n z) [0..<k] =
    replicate (n - k) z @ rev (map g [0..<k])"
proof (induction k)
  case (Suc k)
  then have "replicate (n - k) z = replicate (n - Suc k) z @ [z]"
    by (metis Suc_diff_Suc Suc_le_lessD replicate_Suc replicate_append_same)
  with Suc show ?case by (simp add: list_update_append)
qed simp

lemma to_be_bytes_rev: "to_be_bytes x n = rev (to_le_bytes x n)"
  unfolding to_be_bytes_def to_le_bytes_def Let_def foldl_update_rev [OF order_refl] by simp

lemma to_le_bytes_memcpy_eq: "to_le_bytes_memcpy x n = to_le_bytes x n"
proof -
  have "u64_memory (lo x) @ u64_memory (hi x) = map (\<lambda>i. ucast (truncate_u64 (u128_shr x (i * 8)))) [0..<16]"
    (is "_ = map ?f _")
  proof (rule nth_equalityI)
    fix i
    assume "i < length (u64_memory (lo x) @ u64_memory (hi x))"
    then have i: "i < 16" by (simp add: u64_memory_def)
    show "(u64_memory (lo x) @ u64_memory (hi x)) ! i = map ?f [0..<16] ! i"
    proof (rule bit_word_eqI)
      fix j
      assume "j < LENGTH(8)"
      then show "bit ((u64_memory (lo x) @ u64_memory (hi x)) ! i) j = bit (map ?f [0..<16] ! i) j"
        using i by (auto simp: u64_memory_def nth_append bit_simps truncate_u64_def u128_shr_def
           algebra_simps dest: bit_imp_le_length)
    qed
  qed (simp add: u64_memory_def)
  then show ?thesis by (simp add: to_le_bytes_memcpy_def to_le_bytes_def Let_def take_map)
qed

subsection \<open>Floating point: rounding to nearest, ties to even\<close>

definition round_half_even :: "nat \<Rightarrow> nat \<Rightarrow> nat" where
  "round_half_even Y D =
    (let q = Y div D; r = Y mod D
     in if D < 2 * r \<or> D = 2 * r \<and> odd q then q + 1 else q)"

lemma u128_eq_nat: "u128_eq x y \<longleftrightarrow> x = y"
  by (simp add: u128_eq_def cmp128_nat)

lemma encode_float_nset_nat:
  "2 ^ p \<le> u128_nat x \<Longrightarrow> u128_nat x < 2 ^ Suc p \<Longrightarrow> encode_float_nset x k = k + p + 1"
proof (induction p arbitrary: x k)
  case 0
  then have x: "u128_nat x = 1" by simp
  then have "x \<noteq> U128 0 0" by (auto simp: u128_nat_U128)
  moreover have "u128_shr x 1 = U128 0 0"
    unfolding u128_nat_inject [symmetric] u128_nat_shr x by (simp add: u128_nat_U128)
  ultimately show ?case
    by (subst encode_float_nset.simps) (simp add: u128_eq_nat encode_float_nset.simps [of "U128 0 0"])
next
  case (Suc p)
  have "x \<noteq> U128 0 0" using Suc.prems by (auto simp: u128_nat_U128)
  moreover have "encode_float_nset (u128_shr x 1) (k + 1) = k + 1 + p + 1"
    using Suc.prems by (intro Suc.IH) (simp_all add: u128_nat_shr)
  ultimately show ?case
    by (subst encode_float_nset.simps) (simp add: u128_eq_nat)
qed

lemma bit_63_iff: "bit (w :: u64) 63 \<longleftrightarrow> 2 ^ 63 \<le> unat w"
proof -
  have "bit w 63 \<longleftrightarrow> bit (unat w) 63" by (simp add: bit_unsigned_iff)
  then have "bit w 63 \<longleftrightarrow> odd (unat w div 2 ^ 63)" by (simp only: bit_iff_odd)
  moreover have "unat w div 2 ^ 63 < 2" using unat_lt_64 [of w] by (simp add: div_less_iff_less_mult del: unat_lt_64)
  ultimately show ?thesis by (cases "unat w div 2 ^ 63 = 0") (auto simp: div_eq_0_iff not_le)
qed

lemma drop_bit_63: "drop_bit 63 (w :: u64) = of_bool (bit w 63)"
proof (rule bit_word_eqI)
  fix n
  show "bit (drop_bit 63 w) n = bit (of_bool (bit w 63) :: u64) n"
    using bit_imp_le_length [of w "63 + n"] by (cases n) (auto simp: bit_drop_bit_eq bit_1_iff)
qed

text \<open>The carry of the rounding, on words.\<close>

lemma round_carry:
  fixes a b :: u64
  shows "drop_bit 63 (b - (drop_bit 63 b AND NOT a)) =
    of_bool (bit b 63 \<and> (bit a 0 \<or> take_bit 63 b \<noteq> 0))"
proof (cases "bit b 63 \<and> \<not> bit a 0")
  case True
  then have na: "(1 AND NOT a) = 1"
    by (intro bit_word_eqI) (auto simp: bit_simps bit_1_iff)
  have ge: "2 ^ 63 \<le> unat b" using True by (simp add: bit_63_iff)
  have u: "unat (b - 1) = unat b - 1" using ge by (intro unat_minus_one) auto
  have "unat b mod 2 ^ 63 = unat b - 2 ^ 63"
    using ge unat_lt_64 [of b] by (subst le_mod_geq) (simp_all del: unat_lt_64)
  moreover have "take_bit 63 b = 0 \<longleftrightarrow> unat b mod 2 ^ 63 = 0"
    using unat_eq_0 [of "take_bit 63 b"] unsigned_take_bit_eq [of 63 b, where ?'a = nat]
    by (simp only: take_bit_eq_mod)
  ultimately have "take_bit 63 b = 0 \<longleftrightarrow> unat b = 2 ^ 63"
    using ge by auto
  then show ?thesis using True ge by (auto simp: drop_bit_63 na bit_63_iff u)
next
  case False
  then have "drop_bit 63 b AND NOT a = 0"
    by (intro bit_word_eqI) (auto simp: drop_bit_63 bit_simps bit_1_iff intro: gr0I)
  then show ?thesis using False by (auto simp: drop_bit_63)
qed

lemma neq_0_iff_bit: "w \<noteq> 0 \<longleftrightarrow> (\<exists>i. bit w i)" for w :: "'a :: semiring_bit_operations"
proof
  show "w \<noteq> 0 \<Longrightarrow> \<exists>i. bit w i" by (rule ccontr) (auto intro: bit_eqI)
qed auto

lemma round_half_even_bits:
  "round_half_even Y (2 ^ Suc k) =
    Y div 2 ^ Suc k + of_bool (bit Y k \<and> (odd (Y div 2 ^ Suc k) \<or> take_bit k Y \<noteq> 0))"
proof -
  have r: "Y mod 2 ^ Suc k = 2 ^ k * (Y div 2 ^ k mod 2) + Y mod 2 ^ k"
    by (simp only: power_Suc2 mod_mult2_eq)
  have lt: "Y mod 2 ^ k < 2 ^ k" by simp
  show ?thesis
  proof (cases "odd (Y div 2 ^ k)")
    case True
    then have "Y mod 2 ^ Suc k = 2 ^ k + Y mod 2 ^ k" by (simp only: r odd_iff_mod_2_eq_one mult_1_right)
    then show ?thesis using True by (auto simp: round_half_even_def Let_def bit_iff_odd take_bit_eq_mod)
  next
    case False
    then have "Y mod 2 ^ Suc k = Y mod 2 ^ k" by (simp only: r even_iff_mod_2_eq_zero) simp
    with lt have "2 * (Y mod 2 ^ Suc k) < 2 ^ Suc k" by simp
    then show ?thesis using False by (simp add: round_half_even_def Let_def bit_iff_odd)
  qed
qed

lemma encode_float_nat:
  assumes x: "2 ^ p \<le> u128_nat x" "u128_nat x < 2 ^ Suc p" and p: "p < 128"
    and m: "0 < m" "m < 63" and z: "0 < z"
  shows "encode_float x m (int z) =
    word_of_nat ((p + z - 1) * 2 ^ m + round_half_even (u128_nat x * 2 ^ (127 - p)) (2 ^ (127 - m)))"
proof -
  define Y where "Y = u128_nat x * 2 ^ (127 - p)"
  define s where "s = 63 - m"
  have "Y < 2 ^ Suc p * 2 ^ (127 - p)" unfolding Y_def using x(2) by simp
  also have "\<dots> = 2 ^ 128" using p by (simp flip: power_add)
  finally have Ylt: "Y < 2 ^ 128" .
  have n: "128 - encode_float_nset x 0 = 127 - p"
    using encode_float_nset_nat [OF x, of 0] by simp
  define y where "y = u128_shl x (127 - p)"
  have y: "u128_nat y = Y" using Ylt by (simp add: y_def u128_nat_shl Y_def)
  define a where "a = drop_bit s (hi y)"
  have a: "unat a = Y div 2 ^ (127 - m)"
  proof -
    have "unat a = Y div (2 ^ 64 * 2 ^ s)"
      by (simp only: a_def unat_drop_bit_div u128_hi_nat y div_mult2_eq)
    also have "(2 :: nat) ^ 64 * 2 ^ s = 2 ^ (127 - m)" using m by (simp only: s_def flip: power_add) simp
    finally show ?thesis .
  qed
  define b where "b = lo (u128_shr y s) OR (lo y AND (push_bit s 1 - 1))"
  have bits: "bit b i \<longleftrightarrow> i < 64 \<and> (bit Y (i + s) \<or> i < s \<and> bit Y i)" for i
  proof -
    have "bit (lo (u128_shr y s)) i \<longleftrightarrow> i < 64 \<and> bit Y (i + s)"
      using bit_u128_nat [of "u128_shr y s" i] bit_imp_le_length [of "lo (u128_shr y s)" i]
      by (auto simp: u128_nat_shr y bit_drop_bit_eq add.commute simp flip: drop_bit_eq_div)
    moreover have "bit (lo y) i \<longleftrightarrow> i < 64 \<and> bit Y i"
      using bit_u128_nat [of y i] bit_imp_le_length [of "lo y" i] by (auto simp: y)
    moreover have "bit (push_bit s 1 - 1 :: u64) i \<longleftrightarrow> i < s \<and> i < 64"
      using bit_mask_iff [of s i, where ?'a = u64] by (auto simp: mask_eq_exp_minus_1 push_bit_of_1)
    ultimately show ?thesis by (auto simp: b_def bit_or_iff bit_and_iff)
  qed
  have h: "bit b 63 \<longleftrightarrow> bit Y (126 - m)"
    using m by (auto simp: bits s_def)
  have r: "take_bit 63 b \<noteq> 0 \<longleftrightarrow> take_bit (126 - m) Y \<noteq> 0"
  proof -
    have "(\<exists>i < 63. bit b i) \<longleftrightarrow> (\<exists>i < 126 - m. bit Y i)"
    proof
      assume "\<exists>i < 63. bit b i"
      then obtain i where i: "i < 63" "bit Y (i + s) \<or> i < s \<and> bit Y i" by (auto simp: bits)
      then have "i + s < 126 - m" using m by (auto simp: s_def)
      moreover from this have "i < 126 - m" by linarith
      ultimately show "\<exists>i < 126 - m. bit Y i" using i(2) by blast
    next
      assume "\<exists>i < 126 - m. bit Y i"
      then obtain j where j: "j < 126 - m" "bit Y j" by auto
      show "\<exists>i < 63. bit b i"
      proof (cases "j < s")
        case True
        with j m show ?thesis by (intro exI [of _ j]) (auto simp: bits s_def)
      next
        case False
        with j m show ?thesis by (intro exI [of _ "j - s"]) (auto simp: bits s_def)
      qed
    qed
    then show ?thesis unfolding neq_0_iff_bit bit_take_bit_iff by blast
  qed
  have a0: "bit a 0 \<longleftrightarrow> odd (Y div 2 ^ (127 - m))"
  proof -
    have "bit a 0 = bit (unat a) 0" by (simp add: bit_unsigned_iff)
    then show ?thesis by (simp only: a bit_0)
  qed
  let ?c = "bit b 63 \<and> (bit a 0 \<or> take_bit 63 b \<noteq> 0)"
  have x0: "x \<noteq> U128 0 0" using x(1) by (auto simp: u128_nat_U128)
  have "127 - int (127 - p) + int z - 1 = int (p + z - 1)" using p z by simp
  then have e: "word_of_int (127 - int (127 - p) + int z - 1) = (word_of_nat (p + z - 1) :: u64)"
    by (simp only: of_int_of_nat_eq)
  have "64 - (m + 1) = s" "128 - (m + 1) - 64 = s" using m by (simp_all add: s_def)
  then have "encode_float x m (int z) = push_bit m (word_of_nat (p + z - 1)) + (a + of_bool ?c)"
    using x0 by (simp only: encode_float_def Let_def n e u128_eq_nat if_False
      flip: y_def a_def b_def round_carry)
  also have "a + of_bool ?c = word_of_nat (unat a + of_bool ?c)" by simp
  also have "unat a + of_bool ?c = round_half_even Y (2 ^ (127 - m))"
  proof -
    have "127 - m = Suc (126 - m)" using m by simp
    then show ?thesis using a a0 h r round_half_even_bits [of Y "126 - m"] by (simp only:)
  qed
  finally show ?thesis
    by (simp add: Y_def push_bit_eq_mult)
qed

lemma length_to_le_bytes: "length (to_le_bytes x n) = min n 16"
  by (simp add: to_le_bytes_def Let_def min_def)

lemma from_to_le_bytes:
  assumes "n \<le> 16"
  shows "\<exists>v. from_le_bytes (to_le_bytes x n) n = Inr v \<and> u128_nat v = u128_nat x mod 256 ^ n"
  using from_le_bytes_nat [of n "to_le_bytes x n"] assms
  by (simp add: length_to_le_bytes le_nat_to_le_bytes)

lemma from_to_be_bytes:
  assumes "n \<le> 16"
  shows "\<exists>v. from_be_bytes (to_be_bytes x n) n = Inr v \<and> u128_nat v = u128_nat x mod 256 ^ n"
  using from_be_bytes_nat [of n "to_be_bytes x n"] assms
  by (simp add: length_to_le_bytes le_nat_to_le_bytes to_be_bytes_rev)

end
