(* ===== verification/Int128_Signed.thy ===== *)
theory Int128_Signed
  imports Int128_Ops "HOL-Library.Signed_Division"
begin

text \<open>
  Class \<open>S128\<close> of \<open>src/include/int128.h\<close>: a \<open>U128\<close> read in two's complement.
  \<open>s128_int\<close> is the number it stands for.  The lemmas say on which inputs each
  operation agrees with arithmetic on the integers; for multiplication, division,
  remainder and the right shift there are inputs where it does not, and
  \<open>s128_u_abs_special\<close>, \<open>s128_mod_value\<close> and \<open>s128_shr_high\<close> give what the code
  returns there.
\<close>

unbundle bit_operations_syntax

datatype s128 = S128 (inner: u128)

definition i64_neg :: "u64 \<Rightarrow> bool" where "i64_neg v = bit v 63"

definition s128_of_i64 :: "u64 \<Rightarrow> s128" where
  "s128_of_i64 v = S128 (U128 v (if i64_neg v then -1 else 0))"

definition s128_max :: s128 where "s128_max = S128 (U128 (-1) 0x7FFFFFFFFFFFFFFF)"
definition s128_min :: s128 where "s128_min = S128 (U128 0 0x8000000000000000)"

definition s128_is_i64 :: "s128 \<Rightarrow> bool" where
  "s128_is_i64 x = (hi (inner x) = (if drop_bit 63 (lo (inner x)) \<noteq> 0 then -1 else 0))"

definition truncate_i64 :: "s128 \<Rightarrow> u64" where "truncate_i64 x = lo (inner x)"

text \<open>\<open>static_cast<unsigned>(n_bytes * 8 - 1)\<close> wraps for an empty buffer.\<close>

definition sign_extend :: "nat \<Rightarrow> u128 \<Rightarrow> u128" where
  "sign_extend n_bytes v =
    (if n_bytes < 16 \<and> u128_bit v (unat (word_of_int (int n_bytes * 8 - 1) :: u32))
     then u128_or v (u128_shl u128_max (n_bytes * 8)) else v)"

definition s128_from_le_bytes :: "bytes \<Rightarrow> nat \<Rightarrow> error + s128" where
  "s128_from_le_bytes src max_len =
    res_bind (from_le_bytes src max_len) (\<lambda>v. Inr (S128 (sign_extend max_len v)))"

definition s128_from_be_bytes :: "bytes \<Rightarrow> nat \<Rightarrow> error + s128" where
  "s128_from_be_bytes src max_len =
    res_bind (from_be_bytes src max_len) (\<lambda>v. Inr (S128 (sign_extend max_len v)))"

definition s128_not :: "s128 \<Rightarrow> s128" where "s128_not x = S128 (u128_not (inner x))"
definition s128_add :: "s128 \<Rightarrow> s128 \<Rightarrow> s128" where "s128_add a x = S128 (u128_add (inner a) (inner x))"
definition s128_sub :: "s128 \<Rightarrow> s128 \<Rightarrow> s128" where "s128_sub a x = S128 (u128_sub (inner a) (inner x))"
definition s128_neg :: "s128 \<Rightarrow> s128" where "s128_neg x = s128_add (S128 (u128_not (inner x))) (s128_of_i64 1)"
definition s128_or :: "s128 \<Rightarrow> s128 \<Rightarrow> s128" where "s128_or a x = S128 (u128_or (inner a) (inner x))"
definition s128_and :: "s128 \<Rightarrow> s128 \<Rightarrow> s128" where "s128_and a x = S128 (u128_and (inner a) (inner x))"
definition s128_xor :: "s128 \<Rightarrow> s128 \<Rightarrow> s128" where "s128_xor a x = S128 (u128_xor (inner a) (inner x))"

definition s128_is_neg :: "s128 \<Rightarrow> bool" where
  "s128_is_neg x = (truncate_u64 (u128_shr (inner x) 127) \<noteq> 0)"

definition s128_u_abs :: "s128 \<Rightarrow> u128" where
  "s128_u_abs x =
    (if hi (inner x) = -1 \<and> lo (inner x) = 0 then inner x
     else if s128_is_neg x then inner (s128_neg x) else inner x)"

definition s128_mul :: "s128 \<Rightarrow> s128 \<Rightarrow> s128" where
  "s128_mul a x =
    (let ret_neg = s128_is_neg a \<noteq> s128_is_neg x;
         rv_u = u128_mul (s128_u_abs a) (s128_u_abs x)
     in if ret_neg then s128_neg (S128 rv_u) else S128 rv_u)"

definition s128_div :: "s128 \<Rightarrow> s128 \<Rightarrow> error + s128" where
  "s128_div a x =
    (let ret_neg = s128_is_neg a \<noteq> s128_is_neg x
     in res_bind (u128_div (s128_u_abs a) (s128_u_abs x)) (\<lambda>rv_u.
          Inr (if ret_neg then s128_neg (S128 rv_u) else S128 rv_u)))"

definition s128_mod :: "s128 \<Rightarrow> s128 \<Rightarrow> error + s128" where
  "s128_mod a x =
    (let ret_neg = s128_is_neg a \<noteq> s128_is_neg x
     in res_bind (u128_mod (s128_u_abs a) (s128_u_abs x)) (\<lambda>rv_u.
          Inr (if ret_neg then s128_neg (S128 rv_u) else S128 rv_u)))"

definition cmp128s :: "u128 \<Rightarrow> u128 \<Rightarrow> int" where
  "cmp128s a b =
    (if hi a \<noteq> hi b then (if sint (hi a) < sint (hi b) then -1 else 1)
     else if lo a \<noteq> lo b then (if lo a < lo b then -1 else 1) else 0)"

definition s128_ord :: "s128 \<Rightarrow> s128 \<Rightarrow> Ordering" where
  "s128_ord a x = (let c = cmp128s (inner a) (inner x) in
     if c = 0 then OrdEqual else if c < 0 then OrdLess else OrdGreater)"

definition s128_lt :: "s128 \<Rightarrow> s128 \<Rightarrow> bool" where "s128_lt a x = (cmp128s (inner a) (inner x) < 0)"
definition s128_le :: "s128 \<Rightarrow> s128 \<Rightarrow> bool" where "s128_le a x = (cmp128s (inner a) (inner x) \<le> 0)"
definition s128_gt :: "s128 \<Rightarrow> s128 \<Rightarrow> bool" where "s128_gt a x = (cmp128s (inner a) (inner x) > 0)"
definition s128_ge :: "s128 \<Rightarrow> s128 \<Rightarrow> bool" where "s128_ge a x = (cmp128s (inner a) (inner x) \<ge> 0)"
definition s128_eq :: "s128 \<Rightarrow> s128 \<Rightarrow> bool" where "s128_eq a x = (cmp128s (inner a) (inner x) = 0)"

definition s128_shl :: "s128 \<Rightarrow> nat \<Rightarrow> s128" where "s128_shl x bits = S128 (u128_shl (inner x) bits)"

definition s128_shr :: "s128 \<Rightarrow> nat \<Rightarrow> s128" where
  "s128_shr x bits =
    (if bits = 0 then x
     else if bits \<ge> 128 then (if s128_lt x (s128_of_i64 0) then s128_of_i64 (-1) else s128_of_i64 0)
     else if bits \<ge> 64 then
       S128 (U128 (drop_bit (bits - 64) (hi (inner x))) (if s128_lt x (s128_of_i64 0) then -1 else 0))
     else S128 (U128 (drop_bit bits (lo (inner x)) OR push_bit (64 - bits) (hi (inner x)))
                     (signed_drop_bit bits (hi (inner x)))))"

text \<open>Multiplying a \<open>double\<close> by minus one flips its sign bit.\<close>

definition s128_to_double :: "s128 \<Rightarrow> u64" where
  "s128_to_double x =
    (let d = u128_to_double (s128_u_abs x)
     in if s128_lt x (s128_of_i64 0) then flip_bit 63 d else d)"

definition s128_to_float :: "s128 \<Rightarrow> u32" where
  "s128_to_float x =
    (let d = u128_to_float (s128_u_abs x)
     in if s128_lt x (s128_of_i64 0) then flip_bit 31 d else d)"

text \<open>A signed number in hexadecimal or octal is written as its unsigned pattern.\<close>

definition os_i64 :: "u64 \<Rightarrow> ostream \<Rightarrow> ostream" where
  "os_i64 v os =
    (if os_base os = Dec then
       (let s = show_int (sint v)
        in os\<lparr>os_width := 0, os_out := os_out os @ replicate (os_width os - length s) CHR '' '' @ s\<rparr>)
     else os_u64 v os)"

definition s128_fmt :: "s128 \<Rightarrow> ostream \<Rightarrow> error + ostream" where
  "s128_fmt x os =
    (if s128_is_i64 x then Inr (os_i64 (lo (inner x)) os)
     else if s128_lt x (s128_of_i64 0) then u128_fmt (inner (s128_neg x)) (os_char CHR ''-'' os)
     else u128_fmt (inner x) os)"

subsection \<open>The number a \<open>S128\<close> stands for\<close>

definition s128_int :: "s128 \<Rightarrow> int" where
  "s128_int x = (let u = int (u128_nat (inner x)) in if u < 2 ^ 127 then u else u - 2 ^ 128)"

definition wrap128 :: "int \<Rightarrow> int" where
  "wrap128 i = (i + 2 ^ 127) mod 2 ^ 128 - 2 ^ 127"

lemma wrap128_mod: "wrap128 (i mod 2 ^ 128) = wrap128 i"
  by (simp add: wrap128_def mod_simps)

lemma wrap128_cong: "i mod 2 ^ 128 = j mod 2 ^ 128 \<Longrightarrow> wrap128 i = wrap128 j"
  using wrap128_mod [of i] wrap128_mod [of j] by simp

lemma wrap128_id: "- (2 ^ 127) \<le> i \<Longrightarrow> i < 2 ^ 127 \<Longrightarrow> wrap128 i = i"
  by (simp add: wrap128_def)

lemma s128_int_wrap: "s128_int (S128 u) = wrap128 (int (u128_nat u))"
proof -
  have lt: "int (u128_nat u) < 2 ^ 128" using u128_nat_lt [of u] by (simp del: u128_nat_lt)
  show ?thesis
  proof (cases "int (u128_nat u) < 2 ^ 127")
    case True
    then show ?thesis by (simp add: s128_int_def wrap128_def)
  next
    case False
    have "wrap128 (int (u128_nat u)) = wrap128 (int (u128_nat u) - 2 ^ 128)"
      by (rule wrap128_cong) simp
    also have "\<dots> = int (u128_nat u) - 2 ^ 128" using False lt by (intro wrap128_id) (simp_all del: u128_nat_lt)
    finally show ?thesis using False by (simp add: s128_int_def)
  qed
qed

lemma s128_int_nat_mod: "s128_int x mod 2 ^ 128 = int (u128_nat (inner x))"
  using u128_nat_lt [of "inner x"] by (simp add: s128_int_def Let_def del: u128_nat_lt)

lemma s128_int_bounds: "- (2 ^ 127) \<le> s128_int x" "s128_int x < 2 ^ 127"
  using u128_nat_lt [of "inner x"] by (simp_all add: s128_int_def Let_def del: u128_nat_lt)

lemma s128_int_eqI: "int (u128_nat (inner x)) mod 2 ^ 128 = i mod 2 ^ 128 \<Longrightarrow> s128_int x = wrap128 i"
  using s128_int_wrap [of "inner x"] wrap128_cong [of "int (u128_nat (inner x))" i] by simp

lemma s128_int_add: "s128_int (s128_add a b) = wrap128 (s128_int a + s128_int b)"
proof (rule s128_int_eqI)
  have "int (u128_nat (inner (s128_add a b))) = (int (u128_nat (inner a)) + int (u128_nat (inner b))) mod 2 ^ 128"
    by (simp add: s128_add_def u128_add_def u128_nat_add128 zmod_int)
  then show "int (u128_nat (inner (s128_add a b))) mod 2 ^ 128 = (s128_int a + s128_int b) mod 2 ^ 128"
    by (simp only: mod_mod_trivial flip: s128_int_nat_mod) (simp only: mod_simps)
qed

lemma mod_shift_128: "i = j + k * 2 ^ 128 \<Longrightarrow> i mod 2 ^ 128 = j mod (2 ^ 128 :: int)"
  by (simp add: mod_add_eq)

lemma s128_int_sub: "s128_int (s128_sub a b) = wrap128 (s128_int a - s128_int b)"
proof (rule s128_int_eqI)
  let ?a = "int (u128_nat (inner a))" and ?b = "int (u128_nat (inner b))"
  have "int (u128_nat (inner (s128_sub a b))) mod 2 ^ 128 = (?a - ?b) mod 2 ^ 128"
  proof (rule mod_shift_128)
    have "u128_nat (inner b) < 2 ^ 128" by simp
    then show "int (u128_nat (inner (s128_sub a b))) =
      ?a - ?b + (if u128_nat (inner b) \<le> u128_nat (inner a) then 0 else 1) * 2 ^ 128"
      by (simp add: s128_sub_def u128_sub_def u128_nat_sub128 of_nat_diff del: u128_nat_lt)
  qed
  then show "int (u128_nat (inner (s128_sub a b))) mod 2 ^ 128 = (s128_int a - s128_int b) mod 2 ^ 128"
    by (simp only: flip: s128_int_nat_mod) (simp only: mod_simps)
qed

lemma u128_nat_max_hi: "u128_nat (U128 v (-1)) = unat v + 2 ^ 64 * (2 ^ 64 - 1)"
  by (simp add: u128_nat_U128 unsigned_minus_1_eq_mask mask_eq_exp_minus_1)

lemma sint_u64: "sint (v :: u64) = (if bit v 63 then int (unat v) - 2 ^ 64 else int (unat v))"
proof -
  have "sint v = take_bit 64 (uint v) - 2 ^ 64 * of_bool (bit (uint v) 63)"
    by (simp add: sint_uint signed_take_bit_eq_take_bit_minus del: of_nat_unat)
  moreover have "take_bit 64 (uint v) = int (unat v)"
    using unsigned_less [of v, where ?'a = int] by (simp add: take_bit_int_eq_self)
  moreover have "bit (uint v) 63 = bit v 63" by (simp add: bit_unsigned_iff)
  ultimately show ?thesis by simp
qed

lemma s128_int_of_i64: "s128_int (s128_of_i64 v) = sint v"
proof (cases "2 ^ 63 \<le> unat v")
  case True
  then show ?thesis
    using unat64_lt [of v]
    by (simp add: s128_of_i64_def i64_neg_def s128_int_def Let_def u128_nat_max_hi sint_u64 bit_63_iff
       del: unat_lt_64 of_nat_unat)
next
  case False
  then show ?thesis
    using unat64_lt [of v]
    by (simp add: s128_of_i64_def i64_neg_def s128_int_def Let_def u128_nat_U128 sint_u64 bit_63_iff
       del: unat_lt_64 of_nat_unat)
qed

lemma s128_int_not: "s128_int (s128_not x) = - 1 - s128_int x"
proof -
  have "u128_nat (inner x) < 2 ^ 128" by simp
  then show ?thesis
    by (simp add: s128_int_def s128_not_def Let_def u128_nat_not of_nat_diff del: u128_nat_lt)
qed

lemma s128_int_neg: "s128_int (s128_neg x) = wrap128 (- s128_int x)"
  using s128_int_not [of x] s128_int_of_i64 [of 1]
  by (simp add: s128_neg_def s128_int_add sint_u64 flip: s128_not_def)

lemma s128_is_neg_int: "s128_is_neg x \<longleftrightarrow> s128_int x < 0"
proof -
  have lt: "u128_nat (inner x) < 2 ^ 128" by simp
  have "unat (truncate_u64 (u128_shr (inner x) 127)) = u128_nat (inner x) div 2 ^ 127"
  proof -
    have "u128_nat (inner x) div 2 ^ 127 < 2" using lt by (simp add: div_less_iff_less_mult del: u128_nat_lt)
    then show ?thesis by (simp add: truncate_u64_def u128_lo_nat u128_nat_shr)
  qed
  then have "s128_is_neg x \<longleftrightarrow> 2 ^ 127 \<le> u128_nat (inner x)"
    by (simp add: s128_is_neg_def div_eq_0_iff not_less flip: unat_eq_0)
  then show ?thesis using lt by (simp add: s128_int_def Let_def del: u128_nat_lt)
qed

lemma s128_special_iff: "hi (inner x) = -1 \<and> lo (inner x) = 0 \<longleftrightarrow> s128_int x = - (2 ^ 64)"
proof -
  have "hi (inner x) = -1 \<and> lo (inner x) = 0 \<longleftrightarrow> inner x = U128 0 (-1)"
    by (cases "inner x") (auto simp: U128_def)
  also have "\<dots> \<longleftrightarrow> u128_nat (inner x) = 2 ^ 128 - 2 ^ 64"
    by (simp only: flip: u128_nat_inject) (simp add: u128_nat_max_hi)
  also have "\<dots> \<longleftrightarrow> s128_int x = - (2 ^ 64)"
    by (auto simp: s128_int_def Let_def)
  finally show ?thesis .
qed

lemma s128_u_abs_special:
  "int (u128_nat (s128_u_abs x)) = (if s128_int x = - (2 ^ 64) then 2 ^ 128 - 2 ^ 64 else \<bar>s128_int x\<bar>)"
proof (cases "s128_int x = - (2 ^ 64)")
  case True
  then have "s128_u_abs x = inner x" "u128_nat (inner x) = 2 ^ 128 - 2 ^ 64"
    using s128_special_iff [of x] s128_int_nat_mod [of x] by (simp_all add: s128_u_abs_def)
  then show ?thesis using True by simp
next
  case False
  then have e: "s128_u_abs x = (if s128_int x < 0 then inner (s128_neg x) else inner x)"
    using s128_special_iff [of x] by (auto simp: s128_u_abs_def s128_is_neg_int)
  show ?thesis
  proof (cases "s128_int x < 0")
    case True
    have "int (u128_nat (inner (s128_neg x))) = wrap128 (- s128_int x) mod 2 ^ 128"
      by (simp only: s128_int_neg flip: s128_int_nat_mod)
    also have "\<dots> = (- s128_int x) mod 2 ^ 128"
      by (simp add: wrap128_def mod_simps)
    also have "\<dots> = - s128_int x"
      using True s128_int_bounds [of x] by simp
    finally show ?thesis using True False by (simp add: e)
  next
    case nn: False
    then have "s128_int x mod 2 ^ 128 = s128_int x" using s128_int_bounds [of x] by simp
    then show ?thesis using nn False by (simp add: e flip: s128_int_nat_mod)
  qed
qed

lemma s128_int_S128_abs: "int (u128_nat u) = i \<Longrightarrow> s128_int (S128 u) = wrap128 i"
  by (simp add: s128_int_wrap)

lemma wrap128_neg_wrap: "wrap128 (- wrap128 i) = wrap128 (- i)"
proof (rule wrap128_cong)
  show "(- wrap128 i) mod 2 ^ 128 = (- i) mod 2 ^ 128"
    by (simp add: wrap128_def mod_simps)
qed

lemma s128_int_signed_result:
  "s128_int (if n then s128_neg (S128 u) else S128 u) =
    wrap128 (if n then - int (u128_nat u) else int (u128_nat u))"
  by (simp add: s128_int_neg s128_int_wrap wrap128_neg_wrap)

lemma s128_int_mul:
  assumes "s128_int a \<noteq> - (2 ^ 64)" "s128_int b \<noteq> - (2 ^ 64)"
  shows "s128_int (s128_mul a b) = wrap128 (s128_int a * s128_int b)"
proof -
  let ?n = "s128_is_neg a \<noteq> s128_is_neg b"
  let ?u = "u128_mul (s128_u_abs a) (s128_u_abs b)"
  have u: "int (u128_nat ?u) = (\<bar>s128_int a\<bar> * \<bar>s128_int b\<bar>) mod 2 ^ 128"
    using assms by (simp add: u128_nat_mul zmod_int s128_u_abs_special)
  have "s128_int (s128_mul a b) = wrap128 (if ?n then - int (u128_nat ?u) else int (u128_nat ?u))"
    unfolding s128_mul_def Let_def by (rule s128_int_signed_result)
  also have "\<dots> = wrap128 (if ?n then - (\<bar>s128_int a\<bar> * \<bar>s128_int b\<bar>) else \<bar>s128_int a\<bar> * \<bar>s128_int b\<bar>)"
    unfolding u by (rule wrap128_cong) (simp add: mod_simps)
  also have "(if ?n then - (\<bar>s128_int a\<bar> * \<bar>s128_int b\<bar>) else \<bar>s128_int a\<bar> * \<bar>s128_int b\<bar>) = s128_int a * s128_int b"
    by (auto simp: s128_is_neg_int abs_if)
  finally show ?thesis .
qed

lemma s128_u_abs_pos: "s128_int b \<noteq> 0 \<Longrightarrow> u128_nat (s128_u_abs b) \<noteq> 0"
  using s128_u_abs_special [of b] by (auto split: if_splits)

lemma s128_int_div:
  assumes "s128_int a \<noteq> - (2 ^ 64)" "s128_int b \<noteq> - (2 ^ 64)" "s128_int b \<noteq> 0"
  shows "\<exists>q. s128_div a b = Inr q \<and> s128_int q = wrap128 (s128_int a sdiv s128_int b)"
proof -
  obtain q where q: "u128_div (s128_u_abs a) (s128_u_abs b) = Inr q"
    "u128_nat q = u128_nat (s128_u_abs a) div u128_nat (s128_u_abs b)"
    using u128_div_nat [OF s128_u_abs_pos [OF assms(3)]] by blast
  have "int (u128_nat q) = \<bar>s128_int a\<bar> div \<bar>s128_int b\<bar>"
    using assms by (simp add: q(2) zdiv_int s128_u_abs_special)
  then have "(if s128_is_neg a \<noteq> s128_is_neg b then - int (u128_nat q) else int (u128_nat q)) =
    s128_int a sdiv s128_int b"
    using assms(3) by (auto simp: s128_is_neg_int signed_divide_int_def sgn_if)
  then show ?thesis
    using s128_int_signed_result [of "s128_is_neg a \<noteq> s128_is_neg b" q]
    by (simp add: s128_div_def q(1))
qed

lemma s128_mod_value:
  assumes "s128_int a \<noteq> - (2 ^ 64)" "s128_int b \<noteq> - (2 ^ 64)" "s128_int b \<noteq> 0"
  shows "\<exists>r. s128_mod a b = Inr r \<and>
    s128_int r = wrap128 (sgn (s128_int b) * (s128_int a smod s128_int b))"
proof -
  obtain q where q: "u128_mod (s128_u_abs a) (s128_u_abs b) = Inr q"
    "u128_nat q = u128_nat (s128_u_abs a) mod u128_nat (s128_u_abs b)"
    using u128_mod_nat [OF s128_u_abs_pos [OF assms(3)]] by blast
  have i: "int (u128_nat q) = \<bar>s128_int a\<bar> mod \<bar>s128_int b\<bar>"
    using assms by (simp add: q(2) zmod_int s128_u_abs_special)
  have sm: "k smod l = sgn k * (\<bar>k\<bar> mod \<bar>l\<bar>)" for k l :: int
    by (simp add: signed_modulo_int_def)
  have "s128_int a = 0 \<Longrightarrow> u128_nat q = 0" using i by simp
  then have "(if s128_is_neg a \<noteq> s128_is_neg b then - int (u128_nat q) else int (u128_nat q)) =
    sgn (s128_int b) * (s128_int a smod s128_int b)"
    using assms(3) i by (auto simp: s128_is_neg_int sm sgn_if)
  then show ?thesis
    using s128_int_signed_result [of "s128_is_neg a \<noteq> s128_is_neg b" q]
    by (simp add: s128_mod_def q(1))
qed

lemma s128_int_hi_lo: "s128_int x = sint (hi (inner x)) * 2 ^ 64 + int (unat (lo (inner x)))"
proof -
  let ?h = "hi (inner x)" and ?l = "lo (inner x)"
  have u: "int (u128_nat (inner x)) = int (unat ?h) * 2 ^ 64 + int (unat ?l)"
    by (simp add: u128_nat_def del: of_nat_unat)
  have l: "int (unat ?l) < 2 ^ 64" using unat64_lt [of ?l] by (simp del: unat_lt_64 of_nat_unat)
  show ?thesis
  proof (cases "bit ?h 63")
    case True
    then have "2 ^ 63 \<le> int (unat ?h)" by (simp add: bit_63_iff del: of_nat_unat)
    then have "\<not> int (unat ?h) * 2 ^ 64 + int (unat ?l) < 2 ^ 127" by (simp del: of_nat_unat)
    with True show ?thesis by (simp add: s128_int_def Let_def u sint_u64 algebra_simps del: of_nat_unat)
  next
    case False
    then have "int (unat ?h) \<le> 2 ^ 63 - 1" by (simp add: bit_63_iff del: of_nat_unat)
    then have "int (unat ?h) * 2 ^ 64 + int (unat ?l) < 2 ^ 127" using l by (simp del: of_nat_unat unat_lt_64)
    with False show ?thesis by (simp add: s128_int_def Let_def u sint_u64 del: of_nat_unat)
  qed
qed

lemma int_pair_less_iff:
  fixes A h h' l l' :: int
  assumes "0 \<le> l" "l < A" "0 \<le> l'" "l' < A"
  shows "h * A + l < h' * A + l' \<longleftrightarrow> h < h' \<or> h = h' \<and> l < l'"
proof -
  have *: "h * A + l < h' * A + l'" if "h < h'" "0 \<le> l'" "l < A" "0 < A" for h h' l l'
  proof -
    have "h * A + l < (h + 1) * A" using that by (simp add: algebra_simps)
    also have "\<dots> \<le> h' * A" using that by (intro mult_right_mono) simp_all
    finally show ?thesis using that by simp
  qed
  show ?thesis
    using * [of h h' l' l] * [of h' h l l'] assms by (cases h h' rule: linorder_cases) auto
qed

lemma sint_u64_inject: "sint (v :: u64) = sint w \<longleftrightarrow> v = w"
  by (auto intro: signed_word_eqI)

lemma cmp128s_int:
  "cmp128s a b =
    (if s128_int (S128 a) < s128_int (S128 b) then -1 else if a = b then 0 else 1)"
proof -
  have lt: "s128_int (S128 a) < s128_int (S128 b) \<longleftrightarrow>
    sint (hi a) < sint (hi b) \<or> sint (hi a) = sint (hi b) \<and> int (unat (lo a)) < int (unat (lo b))"
    unfolding s128_int_hi_lo s128.sel
  proof (rule int_pair_less_iff)
    show "int (unat (lo a)) < 2 ^ 64" "int (unat (lo b)) < 2 ^ 64"
      using unat64_lt [of "lo a"] unat64_lt [of "lo b"] by (simp_all del: unat_lt_64 of_nat_unat)
  qed simp_all
  then show ?thesis
    by (cases a; cases b) (auto simp: cmp128s_def sint_u64_inject word_less_nat_alt simp del: of_nat_unat)
qed

lemma s128_int_inject: "s128_int a = s128_int b \<longleftrightarrow> a = b"
proof
  assume "s128_int a = s128_int b"
  then have "int (u128_nat (inner a)) = int (u128_nat (inner b))"
    by (simp only: flip: s128_int_nat_mod)
  then show "a = b" by (cases a; cases b) simp
qed simp

lemma s128_ord_int: "s128_ord a b = ord_int (s128_int a) (s128_int b)"
  by (cases a; cases b) (auto simp: s128_ord_def cmp128s_int ord_int_def Let_def s128_int_inject)

lemma u128_ord_nat: "u128_ord a b = ord_int (u128_nat a) (u128_nat b)"
  by (auto simp: u128_ord_def cmp128_nat ord_int_def Let_def)

lemma s128_lt_0: "s128_lt x (s128_of_i64 0) \<longleftrightarrow> s128_int x < 0"
proof -
  have "s128_int (s128_of_i64 0) = 0" by (simp add: s128_int_of_i64)
  then show ?thesis by (cases x) (auto simp: s128_lt_def cmp128s_int)
qed

interpretation u128_cmp: three_way_eq u128_ord
  by unfold_locales (auto simp: u128_ord_nat ord_int_def split: if_splits)

interpretation s128_cmp: three_way_eq s128_ord
  by unfold_locales (auto simp: s128_ord_int ord_int_def s128_int_inject split: if_splits)

lemma s128_shr_low:
  assumes "n < 64"
  shows "s128_int (s128_shr x n) = s128_int x div 2 ^ n"
proof (cases "n = 0")
  case False
  let ?h = "hi (inner x)"
  let ?S = "s128_int x"
  have l: "lo (inner (s128_shr x n)) = lo (u128_shr (inner x) n)"
    and h: "hi (inner (s128_shr x n)) = signed_drop_bit n ?h"
    using assms False by (simp_all add: s128_shr_def u128_shr_def)
  have "int (unat (lo (inner (s128_shr x n)))) = int (u128_nat (inner x)) div 2 ^ n mod 2 ^ 64"
    unfolding l by (simp only: u128_lo_nat u128_nat_shr) (simp add: zdiv_int zmod_int)
  also have "int (u128_nat (inner x)) = ?S + 2 ^ n * (2 ^ 64 * (if ?S < 0 then 2 ^ (64 - n) else 0))"
  proof -
    have "(2 :: int) ^ n * (2 ^ 64 * 2 ^ (64 - n)) = 2 ^ 128"
      using assms by (simp only: flip: power_add) simp
    then show ?thesis
      using u128_nat_lt [of "inner x"] by (simp add: s128_int_def Let_def del: u128_nat_lt)
  qed
  also have "\<dots> div 2 ^ n mod 2 ^ 64 = ?S div 2 ^ n mod 2 ^ 64"
    by (simp add: div_mult_self2)
  finally have lo: "int (unat (lo (inner (s128_shr x n)))) = ?S div 2 ^ n mod 2 ^ 64" .
  have "sint (signed_drop_bit n ?h) = sint ?h div 2 ^ n"
    by (simp only: sint_signed_drop_bit_eq drop_bit_eq_div)
  also have "sint ?h = ?S div 2 ^ 64"
    using unat64_lt [of "lo (inner x)"] by (simp add: s128_int_hi_lo div_add1_eq del: of_nat_unat unat_lt_64)
  also have "?S div 2 ^ 64 div 2 ^ n = ?S div 2 ^ n div 2 ^ 64"
    by (simp only: zdiv_zmult2_eq [symmetric] zero_le_power zero_le_numeral mult.commute)
  finally have "s128_int (s128_shr x n) = ?S div 2 ^ n div 2 ^ 64 * 2 ^ 64 + ?S div 2 ^ n mod 2 ^ 64"
    by (simp only: s128_int_hi_lo [of "s128_shr x n"] h lo)
  then show ?thesis by simp
qed (simp add: s128_shr_def)

lemma s128_shr_all: "128 \<le> n \<Longrightarrow> s128_int (s128_shr x n) = s128_int x div 2 ^ n"
proof -
  assume n: "128 \<le> n"
  then have "(2 :: int) ^ 127 < 2 ^ n" by (intro power_strict_increasing) simp_all
  then have "\<bar>s128_int x\<bar> < 2 ^ n" using s128_int_bounds [of x] by linarith
  then have "s128_int x div 2 ^ n = (if s128_int x < 0 then -1 else 0)"
    using int_div_pos_eq [of "s128_int x" "2 ^ n" "-1" "s128_int x + 2 ^ n"]
    by (auto simp: div_pos_pos_trivial)
  moreover have "s128_int (s128_of_i64 0) = 0" "s128_int (s128_of_i64 (- 1)) = -1"
    by (simp_all add: s128_int_of_i64)
  ultimately show ?thesis using n by (simp add: s128_shr_def s128_lt_0)
qed

text \<open>
  For \<open>64 \<le> n < 128\<close> the low half is shifted logically.  On a negative number the
  \<open>n - 64\<close> bits that come in from the left are zeros, not copies of the sign.
\<close>

lemma s128_shr_high:
  assumes "64 \<le> n" "n < 128"
  shows "s128_int (s128_shr x n) =
    (if 0 \<le> s128_int x then s128_int x div 2 ^ n
     else int (unat (hi (inner x))) div 2 ^ (n - 64) - 2 ^ 64)"
proof (cases "0 \<le> s128_int x")
  case True
  have e: "s128_int x = int (u128_nat (inner x))"
    using True s128_int_bounds [of x] s128_int_nat_mod [of x] by simp
  have "inner (s128_shr x n) = u128_shr (inner x) n"
    using assms True by (simp add: s128_shr_def u128_shr_def s128_lt_0)
  then have "s128_shr x n = S128 (u128_shr (inner x) n)" by (metis s128.collapse)
  then have "s128_int (s128_shr x n) = wrap128 (s128_int x div 2 ^ n)"
    by (simp add: s128_int_wrap u128_nat_shr e zdiv_int)
  also have "\<dots> = s128_int x div 2 ^ n"
  proof (rule wrap128_id)
    have "0 \<le> s128_int x div 2 ^ n" using True by (simp add: pos_imp_zdiv_nonneg_iff)
    then show "- (2 ^ 127) \<le> s128_int x div 2 ^ n" by (rule order_trans [rotated]) simp
    have "s128_int x div 2 ^ n \<le> s128_int x" using True zdiv_mono2 [of "s128_int x" 1 "2 ^ n"] by simp
    then show "s128_int x div 2 ^ n < 2 ^ 127" using s128_int_bounds [of x] by linarith
  qed
  finally show ?thesis using True by simp
next
  case False
  then show ?thesis
    using assms by (simp add: s128_shr_def s128_lt_0 s128_int_hi_lo unat_drop_bit_div zdiv_int
      unsigned_drop_bit_eq del: of_nat_unat)
qed

lemma digit_char_decimal: "d < 10 \<Longrightarrow> digit_char u d = digit_char False d"
proof -
  assume "d < 10"
  then have "d \<in> {0, 1, 2, 3, 4, 5, 6, 7, 8, 9}" by auto
  then show ?thesis by (auto simp: digit_char_def)
qed

lemma show_base_decimal: "show_base u 10 n = show_nat n"
proof (induction n rule: less_induct)
  case (less n)
  show ?case
  proof (cases "n < 10")
    case True
    then show ?thesis by (simp add: show_nat_def digit_char_decimal [of n u])
  next
    case False
    then show ?thesis
      using less.IH [of "n div 10"]
      by (simp add: show_nat_def show_base_step digit_char_decimal [of "n mod 10" u])
  qed
qed

lemma s128_is_i64_int: "s128_is_i64 x \<longleftrightarrow> s128_int x = sint (lo (inner x))"
proof -
  have "drop_bit 63 (lo (inner x)) \<noteq> 0 \<longleftrightarrow> i64_neg (lo (inner x))"
    by (simp add: drop_bit_63 i64_neg_def)
  then have "s128_is_i64 x \<longleftrightarrow> x = s128_of_i64 (lo (inner x))"
    by (cases x; cases "inner x") (auto simp: s128_is_i64_def s128_of_i64_def U128_def)
  then show ?thesis by (metis s128_int_inject s128_int_of_i64)
qed

lemma s128_fmt_decimal:
  assumes "os_base os = Dec" "os_width os = 0"
  shows "s128_fmt x os = Inr (os\<lparr>os_out := os_out os @ show_int (s128_int x)\<rparr>)"
proof (cases "s128_is_i64 x")
  case True
  then show ?thesis
    using assms by (simp add: s128_fmt_def os_i64_def s128_is_i64_int Let_def)
next
  case notword: False
  show ?thesis
  proof (cases "s128_int x < 0")
    case True
    have "int (u128_nat (inner (s128_neg x))) = s128_int (s128_neg x) mod 2 ^ 128"
      by (simp only: s128_int_nat_mod)
    also have "\<dots> = (- s128_int x) mod 2 ^ 128" by (simp add: s128_int_neg wrap128_def mod_simps)
    also have "\<dots> = - s128_int x" using True s128_int_bounds [of x] by simp
    finally have "u128_nat (inner (s128_neg x)) = nat (- s128_int x)" by simp
    then show ?thesis
      using assms notword True
      by (simp add: s128_fmt_def s128_lt_0 u128_fmt_numeral os_char_def show_base_decimal show_int_def)
  next
    case False
    then have "u128_nat (inner x) = nat (s128_int x)"
      using s128_int_nat_mod [of x] s128_int_bounds [of x] by simp
    then show ?thesis
      using assms notword False
      by (simp add: s128_fmt_def s128_lt_0 u128_fmt_numeral show_base_decimal show_int_def)
  qed
qed

text \<open>The number a byte string stands for in two's complement.\<close>

definition le_int :: "bytes \<Rightarrow> int" where
  "le_int bs = (let v = int (le_nat bs) in
     if 2 * v < 256 ^ length bs then v else v - 256 ^ length bs)"

lemma top_bit_iff: "0 < k \<Longrightarrow> v < 2 ^ k \<Longrightarrow> bit v (k - 1) \<longleftrightarrow> 2 ^ k \<le> 2 * (v :: nat)"
proof -
  assume k: "0 < k" "v < 2 ^ k"
  then have p: "(2 :: nat) ^ k = 2 * 2 ^ (k - 1)" by (cases k) simp_all
  have "v div 2 ^ (k - 1) < 2" using k by (simp add: p div_less_iff_less_mult)
  then show ?thesis by (cases "v div 2 ^ (k - 1) = 0") (auto simp: bit_iff_odd p div_eq_0_iff)
qed

lemma u128_max_shl:
  "n < 16 \<Longrightarrow> u128_nat (u128_shl u128_max (n * 8)) = (256 ^ (16 - n) - 1) * 256 ^ n"
proof -
  assume n: "n < 16"
  define A B :: nat where "A = 256 ^ (16 - n)" and "B = 256 ^ n"
  have M: "2 ^ 128 = A * B" using n by (simp only: A_def B_def flip: power_add) simp
  have pos: "0 < A" "0 < B" by (simp_all add: A_def B_def)
  have "u128_nat u128_max = A * B - 1"
    by (simp add: u128_max_def u128_nat_max_hi unsigned_minus_1_eq_mask mask_eq_exp_minus_1 flip: M)
  moreover have "(2 :: nat) ^ (n * 8) = B" by (simp only: B_def mult.commute [of n] power_mult) simp
  moreover have "A * B - 1 = (A - 1) + (B - 1) * A"
    using pos by (cases A; cases B) simp_all
  moreover have "(A - 1 + (B - 1) * A) * B mod (A * B) = (A - 1) * B"
    using pos by (simp only: mult.commute [of _ B] mod_mult_mult1 mod_mult_self1 mult.commute [of A]) simp
  ultimately show "u128_nat (u128_shl u128_max (n * 8)) = (256 ^ (16 - n) - 1) * 256 ^ n"
    unfolding u128_nat_shl M A_def [symmetric] B_def [symmetric] by simp
qed

lemma sign_extend_int:
  assumes "u128_nat v < 256 ^ n" "n \<le> 16"
  shows "s128_int (S128 (sign_extend n v)) =
    (if 2 * int (u128_nat v) < 256 ^ n then int (u128_nat v) else int (u128_nat v) - 256 ^ n)"
proof -
  let ?v = "u128_nat v"
  have pw: "(256 :: nat) ^ n = 2 ^ (8 * n)" by (simp only: power_mult) simp
  have ci: "2 * int ?v < 256 ^ n \<longleftrightarrow> 2 * ?v < 256 ^ n" by (simp flip: of_nat_less_iff [where 'a = int])
  consider "n = 0" | "0 < n" "n < 16" | "n = 16" using assms(2) by linarith
  then show ?thesis
  proof cases
    case 1
    then have "?v = 0" using assms(1) by simp
    then show ?thesis using 1 by (simp add: sign_extend_def u128_bit_nat s128_int_def)
  next
    case 2
    have "int n * 8 - 1 = int (8 * n - 1)" using 2 by simp
    then have "unat (word_of_int (int n * 8 - 1) :: u32) = unat (word_of_nat (8 * n - 1) :: u32)"
      by (simp only: of_int_of_nat_eq)
    also have "\<dots> = 8 * n - 1"
      using 2 by (simp only: unsigned_of_nat) (simp add: take_bit_nat_eq_self)
    finally have idx: "unat (word_of_int (int n * 8 - 1) :: u32) = 8 * n - 1" .
    have b: "u128_bit v (8 * n - 1) \<longleftrightarrow> 256 ^ n \<le> 2 * ?v"
      using 2 assms(1) top_bit_iff [of "8 * n" ?v] by (simp add: u128_bit_nat pw)
    have se: "sign_extend n v = (if 256 ^ n \<le> 2 * ?v then u128_or v (u128_shl u128_max (n * 8)) else v)"
      using 2 by (simp only: sign_extend_def idx b simp_thms)
    show ?thesis
    proof (cases "256 ^ n \<le> 2 * ?v")
      case True
      have "u128_nat (sign_extend n v) = ?v OR (256 ^ (16 - n) - 1) * 256 ^ n"
        using 2 True by (simp add: se u128_nat_bitwise u128_max_shl)
      also have "\<dots> = ?v + (256 ^ (16 - n) - 1) * 256 ^ n"
        by (rule or_shifted_bytes [OF assms(1)])
      also have "(256 ^ (16 - n) - 1) * 256 ^ n = 2 ^ 128 - (256 :: nat) ^ n"
      proof -
        have "(256 :: nat) ^ (16 - n) * 256 ^ n = 256 ^ 16" using 2 by (simp only: flip: power_add) simp
        then show ?thesis by (simp add: diff_mult_distrib)
      qed
      finally have s: "u128_nat (sign_extend n v) = ?v + (2 ^ 128 - 256 ^ n)" .
      have "(256 :: nat) ^ n \<le> 256 ^ 15" using 2 by (intro power_increasing) simp_all
      moreover have "(256 :: int) ^ n \<le> 256 ^ 15" using 2 by (intro power_increasing) simp_all
      ultimately show ?thesis using True by (simp add: s128_int_def Let_def s of_nat_diff ci)
    next
      case False
      then have "sign_extend n v = v" using 2 by (simp add: se)
      moreover have "(256 :: nat) ^ n \<le> 256 ^ 15" using 2 by (intro power_increasing) simp_all
      ultimately show ?thesis using False assms(1) by (simp add: s128_int_def Let_def ci)
    qed
  next
    case 3
    then show ?thesis by (auto simp: sign_extend_def s128_int_def Let_def)
  qed
qed

lemma s128_from_le_bytes_int:
  assumes "n \<le> 16" "n \<le> length src"
  shows "\<exists>x. s128_from_le_bytes src n = Inr x \<and> s128_int x = le_int (take n src)"
proof -
  obtain v where v: "from_le_bytes src n = Inr v" "u128_nat v = le_nat (take n src)"
    using from_le_bytes_nat [of n src] assms by (auto simp: min_def)
  have "u128_nat v < 256 ^ n" using le_nat_lt [of "take n src"] assms by (simp add: v min_absorb2)
  then show ?thesis
    using assms by (simp add: s128_from_le_bytes_def v(1) sign_extend_int le_int_def Let_def v(2) min_absorb2)
qed

lemma s128_from_be_bytes_int:
  assumes "n \<le> 16" "n \<le> length src"
  shows "\<exists>x. s128_from_be_bytes src n = Inr x \<and> s128_int x = le_int (rev (take n src))"
proof -
  obtain v where v: "from_be_bytes src n = Inr v" "u128_nat v = le_nat (rev (take n src))"
    using from_be_bytes_nat [of n src] assms by (auto simp: min_def)
  have "u128_nat v < 256 ^ n" using le_nat_lt [of "rev (take n src)"] assms by (simp add: v min_absorb2)
  then show ?thesis
    using assms by (simp add: s128_from_be_bytes_def v(1) sign_extend_int le_int_def Let_def v(2) min_absorb2)
qed

end
