(* ===== verification/Wire_Writer.thy ===== *)
theory Wire_Writer
  imports Int128_Signed
begin

text \<open>
  Class \<open>Writer\<close> of \<open>src/hir/serialise_lowlevel.hpp\<close> and \<open>.cpp\<close>: the byte protocol of
  crate metadata.

  The state of a writer is the record \<open>wstate\<close>.  \<open>w_open\<close> says that the file is open
  (\<open>m_inner\<close> is not null); \<open>w_out\<close> is the sequence of bytes handed to the compressor so
  far (compression itself is zlib's); the maps are association lists.  The map of
  object names is keyed by the address of a literal in the code and by its text here.
  Indices are stored as 32-bit \<open>unsigned\<close>, hence the remainders.
  The last field is the type cache \<open>m_types\<close> of \<open>HirSerialiser\<close>, which lives next to
  the writer for the whole of a serialisation.

  An operation is a \<open>wact\<close>: it takes the state and gives the new state or the error that
  stops the program.
\<close>

unbundle bit_operations_syntax

record wstate =
  w_open :: bool
  w_out :: bytes
  w_istrings :: "(string \<times> nat) list"
  w_objnames :: "(string \<times> nat) list"
  w_types :: "(string \<times> nat) list"

type_synonym wact = "wstate \<Rightarrow> error + wstate"

definition w_init :: wstate where
  "w_init = \<lparr>w_open = False, w_out = [], w_istrings = [], w_objnames = [], w_types = []\<rparr>"

text \<open>Sequencing of operations.\<close>

definition w_skip :: wact where "w_skip = Inr"

definition w_fail :: "error \<Rightarrow> wact" where "w_fail e = (\<lambda>s. Inl e)"

fun w_seq :: "wact list \<Rightarrow> wact" where
  "w_seq [] = Inr"
| "w_seq (a # as) = (\<lambda>s. res_bind (a s) (w_seq as))"

definition w_assert :: "bool \<Rightarrow> string \<Rightarrow> wact" where
  "w_assert b msg = (if b then w_skip else w_fail (Assert_Fail msg))"

definition byte :: "nat \<Rightarrow> u8" where "byte n = word_of_nat n"

definition write_bytes :: "bytes \<Rightarrow> wact" where
  "write_bytes buf = (\<lambda>s. if w_open s then Inr (s\<lparr>w_out := w_out s @ buf\<rparr>) else Inr s)"

definition write_u8 :: "u8 \<Rightarrow> wact" where "write_u8 v = write_bytes [v]"

definition write_u16 :: "u16 \<Rightarrow> wact" where
  "write_u16 v = write_bytes [ucast (v AND 0xFF), ucast (drop_bit 8 v)]"

definition write_u32 :: "u32 \<Rightarrow> wact" where
  "write_u32 v = write_bytes [ucast (v AND 0xFF), ucast (drop_bit 8 v), ucast (drop_bit 16 v), ucast (drop_bit 24 v)]"

definition write_u64 :: "u64 \<Rightarrow> wact" where
  "write_u64 v = write_bytes
    [ucast (v AND 0xFF), ucast (drop_bit 8 v), ucast (drop_bit 16 v), ucast (drop_bit 24 v),
     ucast (drop_bit 32 v), ucast (drop_bit 40 v), ucast (drop_bit 48 v), ucast (drop_bit 56 v)]"

definition write_i64 :: "u64 \<Rightarrow> wact" where "write_i64 v = write_u64 v"

definition write_u64c :: "u64 \<Rightarrow> wact" where
  "write_u64c v =
    (if v < 0x80 then write_u8 (ucast v)
     else if v < 0x400000 then
       write_bytes [ucast (0x80 + drop_bit 16 v), ucast (drop_bit 8 v), ucast (v AND 0xFF)]
     else if v < 0x2000000000 then
       write_bytes [ucast (0xC0 + drop_bit 32 v), ucast (drop_bit 24 v), ucast (drop_bit 16 v),
              ucast (drop_bit 8 v), ucast v]
     else
       write_bytes [0xFF,
              ucast (v AND 0xFF), ucast (drop_bit 8 v), ucast (drop_bit 16 v), ucast (drop_bit 24 v),
              ucast (drop_bit 32 v), ucast (drop_bit 40 v), ucast (drop_bit 48 v), ucast (drop_bit 56 v)])"

definition write_i64c :: "u64 \<Rightarrow> wact" where
  "write_i64c v =
    (let sign = i64_neg v;
         va = (if i64_neg v then - v else v);
         va = push_bit 1 va;
         va = va OR (if sign then 1 else 0)
     in write_u64c va)"

definition write_u128 :: "u128 \<Rightarrow> wact" where
  "write_u128 v = w_seq [write_u64 (lo v), write_u64 (hi v)]"

definition write_i128 :: "s128 \<Rightarrow> wact" where "write_i128 v = write_u128 (inner v)"

text \<open>A \<open>double\<close> is written as it lies in memory: on the targets of the program, little-endian.\<close>

definition write_double :: "u64 \<Rightarrow> wact" where "write_double v = write_bytes (u64_memory v)"

definition write_tag :: "nat \<Rightarrow> wact" where
  "write_tag t = w_seq [w_assert (t < 256) ''t < 256'', write_u8 (byte t)]"

definition write_count :: "nat \<Rightarrow> wact" where
  "write_count c =
    (if c < 0xFD then write_u8 (byte c)
     else if c = 0xFFFFFFFF then write_u8 0xFF
     else if c < 0x10000 then w_seq [write_u8 0xFD, write_u16 (word_of_nat c)]
     else w_seq [w_assert (c < 0x80000000) ''c < (1u<<31)'', write_u8 0xFE, write_u32 (word_of_nat c)])"

text \<open>\<open>std::map::insert\<close> on a list sorted by the key: the entry that is there stays.\<close>

fun map_insert :: "('k \<Rightarrow> 'k \<Rightarrow> Ordering) \<Rightarrow> 'k \<Rightarrow> 'v \<Rightarrow> ('k \<times> 'v) list \<Rightarrow> ('k \<times> 'v) list" where
  "map_insert cmp k v [] = [(k, v)]"
| "map_insert cmp k v ((k', v') # m) =
    (case cmp k k' of
       OrdLess \<Rightarrow> (k, v) # (k', v') # m
     | OrdEqual \<Rightarrow> (k', v') # m
     | OrdGreater \<Rightarrow> (k', v') # map_insert cmp k v m)"

fun map_update :: "'k \<Rightarrow> ('v \<Rightarrow> 'v) \<Rightarrow> ('k \<times> 'v) list \<Rightarrow> ('k \<times> 'v) list" where
  "map_update k f [] = []"
| "map_update k f ((k', v') # m) = (if k = k' then (k', f v') # m else (k', v') # map_update k f m)"

text \<open>
  \<open>write_string\<close> for an interned string: the number of the string when the file is open,
  else one more use of it.
\<close>

definition write_istring :: "string \<Rightarrow> wact" where
  "write_istring v = (\<lambda>s.
    if w_open s then
      (case map_of (w_istrings s) v of
         None \<Rightarrow> Inl (Out_Of_Range ''map::at'')
       | Some i \<Rightarrow> write_count i s)
    else Inr (s\<lparr>w_istrings := map_update v Suc (map_insert ord_string v 0 (w_istrings s))\<rparr>))"

definition string_bytes :: "string \<Rightarrow> bytes" where
  "string_bytes s = map (\<lambda>c. byte (of_char c)) s"

definition write_string :: "string \<Rightarrow> wact" where
  "write_string v =
    (let len = length v
     in w_seq
       [if len < 128 then write_u8 (byte len)
        else w_seq
          [w_assert (len < 0x800000) ''len < (1u<<(16+7))'',
           write_u8 (byte (128 + len div 0x10000)),
           write_u16 (word_of_nat (len mod 0x10000))],
        write_bytes (string_bytes v)])"

definition write_bool :: "bool \<Rightarrow> wact" where
  "write_bool v = write_u8 (if v then 0xFF else 0x00)"

text \<open>The core protocol.\<close>

function raw_uint_bytes :: "u64 \<Rightarrow> bytes \<Rightarrow> bytes" where
  "raw_uint_bytes val out =
    (if val > 0 then raw_uint_bytes (drop_bit 8 val) (out @ [ucast val]) else out)"
  by pat_completeness auto
termination
proof (relation "measure (\<lambda>(v, _). unat v)", goal_cases)
  case (2 val out)
  then show ?case by (simp add: unat_drop_bit_div word_gt_0 unat_gt_0)
qed simp

declare raw_uint_bytes.simps [simp del]

definition raw_write_uint :: "u64 \<Rightarrow> wact" where
  "raw_write_uint val =
    (if val < 0xC0 then write_u8 (ucast val)
     else
       (let buf = raw_uint_bytes val []
        in w_seq [w_assert (length buf \<le> 8) ''len < 8'', write_u8 (0xC0 + byte (length buf)), write_bytes buf]))"

definition raw_write_len :: "nat \<Rightarrow> wact" where
  "raw_write_len len =
    (if len < 0xFC - 0xC0 then write_u8 (byte (0xC0 + len))
     else w_seq [write_u8 0xFC, raw_write_uint (word_of_nat len)])"

definition raw_write_bytes :: "bytes \<Rightarrow> wact" where
  "raw_write_bytes data = w_seq [raw_write_len (length data), write_bytes data]"

text \<open>
  \<open>open_object\<close> returns an object whose destructor closes the object; \<open>in_object\<close> is
  the scope of that object around the operations \<open>body\<close>.
\<close>

definition open_object :: "string \<Rightarrow> wact" where
  "open_object name = w_seq
    [write_u8 0xFD,
     (\<lambda>s.
       case map_of (w_objnames s) name of
         Some i \<Rightarrow> raw_write_uint (word_of_nat i) s
       | None \<Rightarrow>
           (let i = length (w_objnames s) mod 0x100000000;
                s' = s\<lparr>w_objnames := w_objnames s @ [(name, i)]\<rparr>
            in w_seq [raw_write_uint (word_of_nat i), raw_write_bytes (string_bytes name)] s'))]"

definition open_anon_object :: wact where "open_anon_object = write_u8 0xFE"

definition close_object :: wact where "close_object = write_u8 0xFF"

definition in_object :: "string \<Rightarrow> wact list \<Rightarrow> wact" where
  "in_object name body = w_seq [open_object name, w_seq body, close_object]"

text \<open>
  \<open>Writer::open\<close>.  \<open>std_sort\<close> stands for \<open>std::sort\<close> with the comparison of counts:
  the order of strings with equal counts is the library's.
\<close>

fun w_foreach :: "('a \<Rightarrow> wact) \<Rightarrow> 'a list \<Rightarrow> wact" where
  "w_foreach f [] = Inr"
| "w_foreach f (x # xs) = (\<lambda>s. res_bind (f x s) (w_foreach f xs))"

definition writer_open :: "((string \<times> nat) list \<Rightarrow> (string \<times> nat) list) \<Rightarrow> wact" where
  "writer_open std_sort = (\<lambda>s.
    let sorted = std_sort (w_istrings s);
        s = s\<lparr>w_objnames := [], w_open := True\<rparr>
    in w_seq
      [write_count (length sorted),
       w_foreach (\<lambda>(i, e). w_seq
          [write_string (fst e),
           (\<lambda>s. Inr (s\<lparr>w_istrings := map_update (fst e) (\<lambda>_. i mod 0x100000000) (w_istrings s)\<rparr>))])
         (List.enumerate 0 sorted),
       (\<lambda>s. if (\<forall>e \<in> set (w_istrings s). snd e < length sorted) then Inr s
            else Inl (Assert_Fail ''e.second < sorted.size()''))] s)"

end
