(* ===== verification/Wire_Reader.thy ===== *)
theory Wire_Reader
  imports Wire_Writer
begin

text \<open>
  Classes \<open>ReadBuffer\<close> and \<open>Reader\<close> of \<open>src/hir/serialise_lowlevel.hpp\<close> and
  \<open>.cpp\<close>.  The inflated contents of the file that are not in the buffer yet are
  the list \<open>r_inner\<close>; inflating is zlib's.

  The state is generic in the type \<open>'t\<close> of the entries of the type cache
  \<open>m_types\<close> of \<open>HirDeserialiser\<close>, which is its last field but one; the last is the name
  of the crate that is being read.  A read gives its value and the new state, or an
  error: an exception, or the \<open>abort\<close> of a protocol check (\<open>Runtime_Error\<close>).
\<close>

unbundle bit_operations_syntax

record 't rstate =
  r_backing :: bytes
  r_ofs :: nat
  r_inner :: bytes
  r_pos :: nat
  r_strings :: "string list"
  r_objnames :: "string list"
  r_types :: "'t list"
  r_crate_name :: string

type_synonym ('t, 'a) rd = "'t rstate \<Rightarrow> error + ('a \<times> 't rstate)"

definition rret :: "'a \<Rightarrow> ('t, 'a) rd" where "rret x = (\<lambda>r. Inr (x, r))"

definition rfail :: "error \<Rightarrow> ('t, 'a) rd" where "rfail e = (\<lambda>r. Inl e)"

definition rbind :: "('t, 'a) rd \<Rightarrow> ('a \<Rightarrow> ('t, 'b) rd) \<Rightarrow> ('t, 'b) rd" where
  "rbind m f = (\<lambda>r. res_bind (m r) (\<lambda>(x, r'). f x r'))"

definition rmap :: "('a \<Rightarrow> 'b) \<Rightarrow> ('t, 'a) rd \<Rightarrow> ('t, 'b) rd" where
  "rmap f m = rbind m (\<lambda>x. rret (f x))"

definition read_buffer_capacity :: nat where "read_buffer_capacity = 1024"

text \<open>\<open>ReadBuffer::read\<close>: the bytes it could give.\<close>

definition read_buffer_read :: "nat \<Rightarrow> 't rstate \<Rightarrow> bytes \<times> 't rstate" where
  "read_buffer_read len r =
    (let rem = length (r_backing r) - r_ofs r
     in if rem \<ge> len then
          (take len (drop (r_ofs r) (r_backing r)), r\<lparr>r_ofs := r_ofs r + len\<rparr>)
        else
          (take rem (drop (r_ofs r) (r_backing r)), r\<lparr>r_ofs := length (r_backing r)\<rparr>))"

definition inner_read :: "nat \<Rightarrow> 't rstate \<Rightarrow> bytes \<times> 't rstate" where
  "inner_read len r = (take len (r_inner r), r\<lparr>r_inner := drop len (r_inner r)\<rparr>)"

definition read_buffer_populate :: "'t rstate \<Rightarrow> 't rstate" where
  "read_buffer_populate r =
    (let (bs, r') = inner_read read_buffer_capacity r in r'\<lparr>r_backing := bs, r_ofs := 0\<rparr>)"

text \<open>
  \<open>Reader::read\<close>.  A request that the buffer cannot hold goes to the file and its
  result is not looked at: what the file does not have stays as the destination was,
  zero in every caller that can ask for so much.
\<close>

definition read_bytes :: "nat \<Rightarrow> ('t, bytes) rd" where
  "read_bytes len r =
    (let (got, r1) = read_buffer_read len r; used = length got
     in if used = len then Inr (got, r1\<lparr>r_pos := r_pos r1 + len\<rparr>)
        else
          (let len' = len - used
           in if len' \<ge> read_buffer_capacity then
                (let (more, r2) = inner_read len' r1
                 in Inr (got @ more @ replicate (len' - length more) 0, r2\<lparr>r_pos := r_pos r2 + len'\<rparr>))
              else
                (let r2 = read_buffer_populate r1; (more, r3) = read_buffer_read len' r2
                 in if length more \<noteq> len' then Inl (Runtime_Error ''Reader::read'')
                    else Inr (got @ more, r3\<lparr>r_pos := r_pos r3 + len'\<rparr>))))"

definition read_u8 :: "('t, u8) rd" where
  "read_u8 = rmap (\<lambda>buf. buf ! 0) (read_bytes 1)"

definition read_u16 :: "('t, u16) rd" where
  "read_u16 = rmap (\<lambda>buf. ucast (buf ! 0) OR push_bit 8 (ucast (buf ! 1))) (read_bytes 2)"

definition read_u32 :: "('t, u32) rd" where
  "read_u32 = rmap (\<lambda>buf.
     ucast (buf ! 0) OR push_bit 8 (ucast (buf ! 1)) OR push_bit 16 (ucast (buf ! 2))
       OR push_bit 24 (ucast (buf ! 3))) (read_bytes 4)"

definition read_u64 :: "('t, u64) rd" where
  "read_u64 = rmap (\<lambda>buf.
     ucast (buf ! 0) OR push_bit 8 (ucast (buf ! 1)) OR push_bit 16 (ucast (buf ! 2))
       OR push_bit 24 (ucast (buf ! 3)) OR push_bit 32 (ucast (buf ! 4))
       OR push_bit 40 (ucast (buf ! 5)) OR push_bit 48 (ucast (buf ! 6))
       OR push_bit 56 (ucast (buf ! 7))) (read_bytes 8)"

definition read_i64 :: "('t, u64) rd" where "read_i64 = read_u64"

definition read_u128 :: "('t, u128) rd" where
  "read_u128 = rbind read_u64 (\<lambda>l. rbind read_u64 (\<lambda>h. rret (U128 l h)))"

definition read_i128 :: "('t, s128) rd" where "read_i128 = rmap S128 read_u128"

definition read_u64c :: "('t, u64) rd" where
  "read_u64c = rbind read_u8 (\<lambda>v.
     if v < 0x80 then rret (ucast v)
     else if v < 0xC0 then
       rbind read_u8 (\<lambda>b1. rbind read_u8 (\<lambda>b0.
         rret (push_bit 16 (ucast (v AND 0x3F)) OR push_bit 8 (ucast b1) OR ucast b0)))
     else if v < 0xFF then
       rbind read_u8 (\<lambda>b3. rbind read_u8 (\<lambda>b2. rbind read_u8 (\<lambda>b1. rbind read_u8 (\<lambda>b0.
         rret (push_bit 32 (ucast (v AND 0x3F)) OR push_bit 24 (ucast b3) OR push_bit 16 (ucast b2)
           OR push_bit 8 (ucast b1) OR ucast b0)))))
     else read_u64)"

definition read_i64c :: "('t, u64) rd" where
  "read_i64c = rbind read_u64c (\<lambda>va.
     let sign = (va AND 1) \<noteq> 0; va = drop_bit 1 va
     in if va = 0 \<and> sign then rret 0x8000000000000000
        else if sign then rret (- va)
        else rret va)"

definition u64_of_memory :: "bytes \<Rightarrow> u64" where
  "u64_of_memory bs = word_of_nat (le_nat bs)"

definition read_double :: "('t, u64) rd" where
  "read_double = rmap u64_of_memory (read_bytes 8)"

definition read_tag :: "('t, nat) rd" where "read_tag = rmap unat read_u8"

definition read_count :: "('t, nat) rd" where
  "read_count = rbind read_u8 (\<lambda>v.
     if v < 0xFD then rret (unat v)
     else if v = 0xFD then rmap unat read_u16
     else if v = 0xFE then rmap unat read_u32
     else rret 0xFFFFFFFF)"

definition read_istring :: "('t, string) rd" where
  "read_istring = rbind read_count (\<lambda>idx r.
     if idx < length (r_strings r) then Inr (r_strings r ! idx, r)
     else Inl (Out_Of_Range ''vector::at''))"

definition bytes_string :: "bytes \<Rightarrow> string" where
  "bytes_string bs = map (\<lambda>b. char_of (unat b)) bs"

definition read_string :: "('t, string) rd" where
  "read_string = rbind read_u8 (\<lambda>b.
     let len = unat b
     in rbind (if len < 128 then rret len
               else rbind read_u16 (\<lambda>w. rret (((len mod 128) * 0x10000) OR unat w)))
        (\<lambda>len. rmap bytes_string (read_bytes len)))"

definition read_bool :: "('t, bool) rd" where
  "read_bool = rbind read_u8 (\<lambda>v.
     if v = 0 then rret False
     else if v = 255 then rret True
     else rfail (Runtime_Error ''Expected false(0)/true(255)''))"

text \<open>The core protocol.\<close>

fun raw_read_uint_bytes :: "nat \<Rightarrow> nat \<Rightarrow> u64 \<Rightarrow> ('t, u64) rd" where
  "raw_read_uint_bytes 0 p rv = rret rv"
| "raw_read_uint_bytes (Suc n) p rv =
    rbind read_u8 (\<lambda>b. raw_read_uint_bytes n (p + 1) (rv OR push_bit (8 * p) (ucast b)))"

definition raw_read_uint :: "('t, u64) rd" where
  "raw_read_uint = rbind read_u8 (\<lambda>v.
     if \<not> v \<le> 0xC0 + 8 then rfail (Assert_Fail ''v <= 0xC0 + 8'')
     else if v < 0xC0 then rret (ucast v)
     else raw_read_uint_bytes (unat v - 0xC0) 0 0)"

definition raw_read_len :: "('t, nat) rd" where
  "raw_read_len = rbind read_u8 (\<lambda>v.
     if v < 0xC0 then rfail (Runtime_Error ''Expected length, got literal integer'')
     else if v < 0xFC then rret (unat v - 0xC0)
     else if v = 0xFC then rmap unat raw_read_uint
     else rfail (Runtime_Error ''Expected length, got tag''))"

definition raw_read_bytes_stdstring :: "('t, string) rd" where
  "raw_read_bytes_stdstring = rbind raw_read_len (\<lambda>len. rmap bytes_string (read_bytes len))"

definition r_open_object :: "string \<Rightarrow> ('t, unit) rd" where
  "r_open_object name = rbind read_u8 (\<lambda>v.
     if v \<noteq> 0xFD then rfail (Runtime_Error ''Expected OpenNamed'')
     else rbind raw_read_uint (\<lambda>key.
       rbind (\<lambda>r. if unat key = length (r_objnames r)
                  then rbind raw_read_bytes_stdstring
                         (\<lambda>s r. Inr ((), r\<lparr>r_objnames := r_objnames r @ [s]\<rparr>)) r
                  else Inr ((), r))
         (\<lambda>_ r. if \<not> unat key < length (r_objnames r) then Inl (Assert_Fail ''key < m_objname_cache.size()'')
                else if r_objnames r ! unat key \<noteq> name then Inl (Runtime_Error ''Expecting OpenNamed'')
                else Inr ((), r))))"

definition r_open_anon_object :: "('t, unit) rd" where
  "r_open_anon_object = rbind read_u8 (\<lambda>v.
     if v \<noteq> 0xFE then rfail (Runtime_Error ''Expected OpenAnon'') else rret ())"

definition r_close_object :: "('t, unit) rd" where
  "r_close_object = rbind read_u8 (\<lambda>v.
     if v \<noteq> 0xFF then rfail (Runtime_Error ''Expected CloseObject(0xFF)'') else rret ())"

definition r_in_object :: "string \<Rightarrow> ('t, 'a) rd \<Rightarrow> ('t, 'a) rd" where
  "r_in_object name body =
    rbind (r_open_object name) (\<lambda>_. rbind body (\<lambda>x. rbind r_close_object (\<lambda>_. rret x)))"

text \<open>The constructor: the string table is the first thing in the file.\<close>

fun read_times :: "nat \<Rightarrow> ('t, 'a) rd \<Rightarrow> ('t, 'a list) rd" where
  "read_times 0 d = rret []"
| "read_times (Suc n) d = rbind d (\<lambda>x. rbind (read_times n d) (\<lambda>xs. rret (x # xs)))"

definition r_init :: "bytes \<Rightarrow> 't rstate" where
  "r_init contents =
    \<lparr>r_backing = [], r_ofs = 0, r_inner = contents, r_pos = 0, r_strings = [], r_objnames = [],
     r_types = [], r_crate_name = ''''\<rparr>"

definition reader_new :: "bytes \<Rightarrow> error + 't rstate" where
  "reader_new contents =
    res_bind (rbind read_count (\<lambda>n_strings. read_times n_strings read_string) (r_init contents))
      (\<lambda>(strings, r). Inr (r\<lparr>r_strings := strings\<rparr>))"

end
