(* ===== verification/Wire_Codec.thy ===== *)
theory Wire_Codec
  imports Wire_Reader
begin

text \<open>
  What it means that an operation of the writer and an operation of the reader belong
  together.

  \<open>sync C ws rs\<close> relates a writer at some point of the file with a reader at the same
  point: the same object names, every numbered string where the reader finds it, and type
  caches that the context \<open>C\<close> relates.  \<open>rt n C act d v\<close> says: whenever \<open>act\<close> writes
  \<open>bs\<close>, \<open>d\<close> started in sync before \<open>bs\<close> gives \<open>v\<close>, consumes exactly \<open>bs\<close> and ends in
  sync.  \<open>n\<close> bounds the bytes, so that an induction on it can follow a recursive reader.
  The rules below build \<open>rt\<close> for a composite from \<open>rt\<close> for its parts, in the shape the
  two classes of \<open>serialise.cpp\<close> and \<open>deserialise.cpp\<close> are written in.
\<close>

unbundle bit_operations_syntax

record 't ctx =
  c_rel :: "(string \<times> nat) list \<Rightarrow> 't list \<Rightarrow> bool"
  c_crate :: string
  c_keys :: "string set"

definition avail :: "'t rstate \<Rightarrow> bytes" where
  "avail r = drop (r_ofs r) (r_backing r) @ r_inner r"

definition sync :: "'t ctx \<Rightarrow> wstate \<Rightarrow> 't rstate \<Rightarrow> bool" where
  "sync C ws rs \<longleftrightarrow>
    r_ofs rs \<le> length (r_backing rs) \<and>
    w_objnames ws = zip (r_objnames rs) [0..<length (r_objnames rs)] \<and> distinct (r_objnames rs) \<and>
    (\<forall>s i. map_of (w_istrings ws) s = Some i \<longrightarrow> i < length (r_strings rs) \<and> r_strings rs ! i = s) \<and>
    c_rel C (w_types ws) (r_types rs) \<and> r_crate_name rs = c_crate C \<and>
    length (w_objnames ws) \<le> length (w_out ws) \<and> length (w_types ws) \<le> length (w_out ws)"

definition file_limit :: nat where "file_limit = 0xFFFFFFFF"

definition keys_grow :: "'t ctx \<Rightarrow> wstate \<Rightarrow> wstate \<Rightarrow> bool" where
  "keys_grow C ws ws' \<longleftrightarrow> fst ` set (w_types ws') \<subseteq> fst ` set (w_types ws) \<union> c_keys C"

lemma keys_grow_same [simp, intro]: "w_types ws' = w_types ws \<Longrightarrow> keys_grow C ws ws'"
  by (simp add: keys_grow_def)

lemma keys_grow_trans: "keys_grow C ws w1 \<Longrightarrow> keys_grow C w1 ws' \<Longrightarrow> keys_grow C ws ws'"
  unfolding keys_grow_def by blast

text \<open>
  \<open>dry a\<close>: what a first pass with the file closed promises for the second pass.  The first
  pass writes nothing and collects the strings; when the table of the second pass has
  all of them, with numbers that \<open>write_count\<close> takes, the second pass does not fail either
  and leaves the same type cache.
\<close>

context three_way_eq
begin

definition keys_sorted :: "('a \<times> 'b) list \<Rightarrow> bool" where
  "keys_sorted m \<longleftrightarrow> sorted_wrt (\<lambda>a b. cmp a b = OrdLess) (map fst m)"

lemma map_insert_keys: "fst ` set (map_insert cmp k v m) = insert k (fst ` set m)"
proof (induction m)
  case (Cons e m)
  then show ?case
    by (cases e; cases "cmp k (fst e)") (auto dest: equal_imp_eq simp: insert_commute insert_absorb)
qed simp

lemma map_insert_sorted: "keys_sorted m \<Longrightarrow> keys_sorted (map_insert cmp k v m)"
proof (induction m)
  case (Cons e m)
  obtain k' v' where e: "e = (k', v')" by (cases e)
  show ?case
  proof (cases "cmp k k'")
    case OrdGreater
    then have "cmp k' k = OrdLess" by (simp add: greater_iff)
    then show ?thesis using Cons map_insert_keys [of k v m] OrdGreater
      by (auto simp: e keys_sorted_def)
  qed (use Cons in \<open>auto simp: e keys_sorted_def dest: less_trans\<close>)
qed (simp add: keys_sorted_def)

lemma keys_sorted_distinct: "keys_sorted m \<Longrightarrow> distinct (map fst m)"
  by (induction m) (auto simp: keys_sorted_def)

end

definition string_map :: "(string \<times> nat) list \<Rightarrow> bool" where
  "string_map = three_way_eq.keys_sorted ord_string"

definition strings_of :: "wstate \<Rightarrow> string set" where "strings_of s = fst ` set (w_istrings s)"

definition numbered :: "wstate \<Rightarrow> bool" where
  "numbered s \<longleftrightarrow> (\<forall>e \<in> set (w_istrings s). snd e < 0x80000000)"

definition dry :: "wact \<Rightarrow> bool" where
  "dry a \<longleftrightarrow> (\<forall>s s'. \<not> w_open s \<longrightarrow> string_map (w_istrings s) \<longrightarrow> a s = Inr s' \<longrightarrow>
    \<not> w_open s' \<and> w_out s' = w_out s \<and> string_map (w_istrings s') \<and> strings_of s \<subseteq> strings_of s' \<and>
    (\<forall>t. w_open t \<longrightarrow> w_types t = w_types s \<longrightarrow> strings_of s' \<subseteq> strings_of t \<longrightarrow> numbered t \<longrightarrow>
      (\<exists>t'. a t = Inr t' \<and> w_open t' \<and> w_types t' = w_types s' \<and> w_istrings t' = w_istrings t)))"

lemma dryI:
  assumes "\<And>s s'. \<not> w_open s \<Longrightarrow> string_map (w_istrings s) \<Longrightarrow> a s = Inr s' \<Longrightarrow>
      \<not> w_open s' \<and> w_out s' = w_out s \<and> string_map (w_istrings s') \<and> strings_of s \<subseteq> strings_of s'"
    and "\<And>s s' t. \<not> w_open s \<Longrightarrow> a s = Inr s' \<Longrightarrow> w_open t \<Longrightarrow> w_types t = w_types s \<Longrightarrow>
      strings_of s' \<subseteq> strings_of t \<Longrightarrow> numbered t \<Longrightarrow>
      \<exists>t'. a t = Inr t' \<and> w_open t' \<and> w_types t' = w_types s' \<and> w_istrings t' = w_istrings t"
  shows "dry a"
  using assms unfolding dry_def by blast

lemma dryD:
  assumes "dry a" "\<not> w_open s" "string_map (w_istrings s)" "a s = Inr s'"
  shows "\<not> w_open s'" "w_out s' = w_out s" "string_map (w_istrings s')" "strings_of s \<subseteq> strings_of s'"
    "\<And>t. w_open t \<Longrightarrow> w_types t = w_types s \<Longrightarrow> strings_of s' \<subseteq> strings_of t \<Longrightarrow> numbered t \<Longrightarrow>
      \<exists>t'. a t = Inr t' \<and> w_open t' \<and> w_types t' = w_types s' \<and> w_istrings t' = w_istrings t"
  using assms unfolding dry_def by blast+

lemma numbered_strings: "w_istrings t' = w_istrings t \<Longrightarrow> numbered t' = numbered t \<and> strings_of t' = strings_of t"
  by (simp add: numbered_def strings_of_def)

lemma dry_id [simp]: "dry Inr"
  by (rule dryI) auto

lemma dry_fail [simp]: "dry (w_fail e)"
  by (rule dryI) (simp_all add: w_fail_def)

lemma dry_bytes: "dry (write_bytes b)"
  by (rule dryI) (auto simp: write_bytes_def)

lemma dry_Cons:
  assumes "dry a" "dry (w_seq as)"
  shows "dry (w_seq (a # as))"
  unfolding dry_def
proof (intro allI impI)
  fix s s'
  assume s: "\<not> w_open s" "string_map (w_istrings s)" "w_seq (a # as) s = Inr s'"
  then obtain s1 where s1: "a s = Inr s1" "w_seq as s1 = Inr s'" by (auto simp: w_seq.simps)
  note d1 = dryD [OF assms(1) s(1,2) s1(1)]
  note d2 = dryD [OF assms(2) d1(1,3) s1(2)]
  show "\<not> w_open s' \<and> w_out s' = w_out s \<and> string_map (w_istrings s') \<and> strings_of s \<subseteq> strings_of s' \<and>
    (\<forall>t. w_open t \<longrightarrow> w_types t = w_types s \<longrightarrow> strings_of s' \<subseteq> strings_of t \<longrightarrow> numbered t \<longrightarrow>
      (\<exists>t'. w_seq (a # as) t = Inr t' \<and> w_open t' \<and> w_types t' = w_types s' \<and> w_istrings t' = w_istrings t))"
  proof (intro conjI allI impI)
    fix t assume t: "w_open t" "w_types t = w_types s" "strings_of s' \<subseteq> strings_of t" "numbered t"
    obtain t1 where t1: "a t = Inr t1" "w_open t1" "w_types t1 = w_types s1" "w_istrings t1 = w_istrings t"
      using d1(5) [of t] t d2(4) by blast
    obtain t' where "w_seq as t1 = Inr t'" "w_open t'" "w_types t' = w_types s'" "w_istrings t' = w_istrings t1"
      using d2(5) [of t1] t t1 numbered_strings [OF t1(4)] by blast
    then show "\<exists>t'. w_seq (a # as) t = Inr t' \<and> w_open t' \<and> w_types t' = w_types s' \<and> w_istrings t' = w_istrings t"
      using t1 by (simp add: w_seq.simps)
  qed (use d1 d2 in auto)
qed

lemma dry_seq: "(\<And>a. a \<in> set as \<Longrightarrow> dry a) \<Longrightarrow> dry (w_seq as)"
  by (induction as) (auto simp del: w_seq.simps(2) intro: dry_Cons)

definition rt :: "nat \<Rightarrow> 't ctx \<Rightarrow> wact \<Rightarrow> ('t, 'a) rd \<Rightarrow> 'a \<Rightarrow> bool" where
  "rt n C act d v \<longleftrightarrow> dry act \<and> (\<forall>ws ws'. w_open ws \<longrightarrow> act ws = Inr ws' \<longrightarrow>
     w_open ws' \<and> keys_grow C ws ws' \<and> (\<exists>bs. w_out ws' = w_out ws @ bs \<and>
       (length bs \<le> n \<longrightarrow> length (w_out ws') < file_limit \<longrightarrow>
         (\<forall>rs rest. sync C ws rs \<longrightarrow> avail rs = bs @ rest \<longrightarrow>
           (\<exists>rs'. d rs = Inr (v, rs') \<and> avail rs' = rest \<and> sync C ws' rs')))))"

lemma rtI:
  assumes "dry act" "\<And>ws ws'. w_open ws \<Longrightarrow> act ws = Inr ws' \<Longrightarrow>
    w_open ws' \<and> keys_grow C ws ws' \<and> (\<exists>bs. w_out ws' = w_out ws @ bs \<and>
       (length bs \<le> n \<longrightarrow> length (w_out ws') < file_limit \<longrightarrow>
         (\<forall>rs rest. sync C ws rs \<longrightarrow> avail rs = bs @ rest \<longrightarrow>
           (\<exists>rs'. d rs = Inr (v, rs') \<and> avail rs' = rest \<and> sync C ws' rs'))))"
  shows "rt n C act d v"
  using assms unfolding rt_def by blast

lemma rt_dry: "rt n C act d v \<Longrightarrow> dry act"
  by (simp add: rt_def)

lemma rtE:
  assumes "rt n C act d v" "w_open ws" "act ws = Inr ws'"
  obtains bs where "w_open ws'" "keys_grow C ws ws'" "w_out ws' = w_out ws @ bs"
    "\<And>rs rest. length bs \<le> n \<Longrightarrow> length (w_out ws') < file_limit \<Longrightarrow> sync C ws rs \<Longrightarrow>
      avail rs = bs @ rest \<Longrightarrow> \<exists>rs'. d rs = Inr (v, rs') \<and> avail rs' = rest \<and> sync C ws' rs'"
  using assms unfolding rt_def by meson

lemma rt_fail [simp]: "rt n C (w_fail e) d v"
  by (rule rtI [OF dry_fail]) (simp_all add: w_fail_def)

lemma rt_ret [simp]: "rt n C (w_seq []) (rret x) x"
  by (rule rtI) (auto simp: rret_def keys_grow_same w_seq.simps)

lemma rt_skip [simp]: "rt n C w_skip (rret x) x"
  by (rule rtI) (auto simp: rret_def w_skip_def keys_grow_same)

lemma rt_bind:
  assumes "rt n C a d x" "rt n C (w_seq as) (k x) y"
  shows "rt n C (w_seq (a # as)) (rbind d k) y"
proof (rule rtI)
  show "dry (w_seq (a # as))" using assms by (intro dry_Cons) (auto intro: rt_dry)
  fix ws ws'
  assume w: "w_open ws" "w_seq (a # as) ws = Inr ws'"
  then obtain w1 where w1: "a ws = Inr w1" "w_seq as w1 = Inr ws'" by auto
  obtain b1 where b1: "w_open w1" "keys_grow C ws w1" "w_out w1 = w_out ws @ b1"
    "\<And>rs rest. length b1 \<le> n \<Longrightarrow> length (w_out w1) < file_limit \<Longrightarrow> sync C ws rs \<Longrightarrow>
      avail rs = b1 @ rest \<Longrightarrow> \<exists>rs'. d rs = Inr (x, rs') \<and> avail rs' = rest \<and> sync C w1 rs'"
    using rtE [OF assms(1) w(1) w1(1)] by metis
  obtain b2 where b2: "w_open ws'" "keys_grow C w1 ws'" "w_out ws' = w_out w1 @ b2"
    "\<And>rs rest. length b2 \<le> n \<Longrightarrow> length (w_out ws') < file_limit \<Longrightarrow> sync C w1 rs \<Longrightarrow>
      avail rs = b2 @ rest \<Longrightarrow> \<exists>rs'. k x rs = Inr (y, rs') \<and> avail rs' = rest \<and> sync C ws' rs'"
    using rtE [OF assms(2) b1(1) w1(2)] by metis
  show "w_open ws' \<and> keys_grow C ws ws' \<and> (\<exists>bs. w_out ws' = w_out ws @ bs \<and>
       (length bs \<le> n \<longrightarrow> length (w_out ws') < file_limit \<longrightarrow>
         (\<forall>rs rest. sync C ws rs \<longrightarrow> avail rs = bs @ rest \<longrightarrow>
           (\<exists>rs'. rbind d k rs = Inr (y, rs') \<and> avail rs' = rest \<and> sync C ws' rs'))))"
  proof (intro conjI exI [of _ "b1 @ b2"] impI allI)
    fix rs rest
    assume a: "length (b1 @ b2) \<le> n" "length (w_out ws') < file_limit" "sync C ws rs"
      "avail rs = (b1 @ b2) @ rest"
    obtain r1 where r1: "d rs = Inr (x, r1)" "avail r1 = b2 @ rest" "sync C w1 r1"
      using b1(4) [of rs "b2 @ rest"] a b2(3) by auto
    obtain r2 where "k x r1 = Inr (y, r2)" "avail r2 = rest" "sync C ws' r2"
      using b2(4) [of r1 rest] a r1 by auto
    then show "\<exists>rs'. rbind d k rs = Inr (y, rs') \<and> avail rs' = rest \<and> sync C ws' rs'"
      using r1 by (simp add: rbind_def)
  qed (use b1 b2 in \<open>auto intro: keys_grow_trans\<close>)
qed

lemma w_seq_single [simp]: "w_seq [a] = a"
  by (rule ext) simp

declare w_seq.simps [simp del]

lemma rt_map: "rt n C a d x \<Longrightarrow> rt n C a (rmap f d) (f x)"
  using rt_bind [of n C a d x "[]" "\<lambda>x. rret (f x)" "f x"] by (simp add: rmap_def)

lemma rt_map_eq: "rt n C a d x \<Longrightarrow> f x = y \<Longrightarrow> rt n C a (rmap f d) y"
  using rt_map [of n C a d x f] by simp

section \<open>Bytes\<close>

lemma read_bytes_avail:
  assumes "r_ofs r \<le> length (r_backing r)" "k \<le> length (avail r)"
  shows "\<exists>r'. read_bytes k r = Inr (take k (avail r), r') \<and> avail r' = drop k (avail r) \<and>
    r_ofs r' \<le> length (r_backing r') \<and> r_strings r' = r_strings r \<and> r_objnames r' = r_objnames r \<and>
    r_types r' = r_types r \<and> r_crate_name r' = r_crate_name r"
proof -
  let ?buf = "drop (r_ofs r) (r_backing r)"
  let ?rem = "length (r_backing r) - r_ofs r"
  show ?thesis
  proof (cases "k \<le> ?rem")
    case True
    then show ?thesis
      using assms(1)
      by (auto simp: read_bytes_def read_buffer_read_def avail_def Let_def min_def
          intro!: exI [of _ "r\<lparr>r_ofs := r_ofs r + k, r_pos := r_pos r + k\<rparr>"] simp: add.commute)
  next
    case False
    have inner: "k - ?rem \<le> length (r_inner r)" using assms by (simp add: avail_def)
    show ?thesis
    proof (cases "k - ?rem \<ge> read_buffer_capacity")
      case True
      with False inner assms show ?thesis
        by (auto simp: read_bytes_def read_buffer_read_def inner_read_def avail_def Let_def min_def)
    next
      case small: False
      with False inner assms show ?thesis
        by (auto simp: read_bytes_def read_buffer_read_def read_buffer_populate_def inner_read_def
          avail_def Let_def min_def take_drop not_le drop_take_append split: if_splits)
    qed
  qed
qed

lemma sync_avail:
  assumes "sync C ws rs" "avail rs = bs @ rest"
  shows "\<exists>rs'. read_bytes (length bs) rs = Inr (bs, rs') \<and> avail rs' = rest \<and>
    sync C (ws\<lparr>w_out := w_out ws @ bs\<rparr>) rs'"
proof -
  obtain r' where r': "read_bytes (length bs) rs = Inr (take (length bs) (avail rs), r')"
    "avail r' = drop (length bs) (avail rs)" "r_ofs r' \<le> length (r_backing r')"
    "r_strings r' = r_strings rs" "r_objnames r' = r_objnames rs"
    "r_types r' = r_types rs" "r_crate_name r' = r_crate_name rs"
    using read_bytes_avail [of rs "length bs"] assms by (auto simp: sync_def)
  then show ?thesis using assms by (intro exI [of _ r']) (auto simp: sync_def)
qed

lemma rt_bytes: "rt n C (write_bytes buf) (read_bytes (length buf)) buf"
proof (rule rtI [OF dry_bytes])
  fix ws ws'
  assume a: "w_open ws" "write_bytes buf ws = Inr ws'"
  then have ws': "ws' = ws\<lparr>w_out := w_out ws @ buf\<rparr>" by (auto simp: write_bytes_def)
  show "w_open ws' \<and> keys_grow C ws ws' \<and> (\<exists>bs. w_out ws' = w_out ws @ bs \<and>
       (length bs \<le> n \<longrightarrow> length (w_out ws') < file_limit \<longrightarrow>
         (\<forall>rs rest. sync C ws rs \<longrightarrow> avail rs = bs @ rest \<longrightarrow>
           (\<exists>rs'. read_bytes (length buf) rs = Inr (buf, rs') \<and> avail rs' = rest \<and> sync C ws' rs'))))"
    using a sync_avail [of C ws] unfolding ws' by auto
qed

lemma rt_bytes_k: "length buf = k \<Longrightarrow> rt n C (write_bytes buf) (read_bytes k) buf"
  using rt_bytes by auto

lemma write_bytes_append: "w_seq [write_bytes a, write_bytes b] = write_bytes (a @ b)"
  by (rule ext) (simp add: w_seq.simps write_bytes_def)

lemma rt_u8: "rt n C (write_u8 v) read_u8 v"
  unfolding write_u8_def read_u8_def by (rule rt_map_eq [OF rt_bytes_k]) simp_all

lemma rt_write_Cons:
  "rt n C (write_bytes bs) (k b) y \<Longrightarrow> rt n C (write_bytes (b # bs)) (rbind read_u8 k) y"
  using rt_bind [OF rt_u8, of n C "[write_bytes bs]" k b y] write_bytes_append [of "[b]" bs]
  by (simp add: write_u8_def)

lemma rt_write_Nil: "rt n C (write_bytes []) (rret x) x"
  by (rule rtI [OF dry_bytes]) (auto simp: write_bytes_def rret_def)

lemma rt_write_Nil_eq: "x = y \<Longrightarrow> rt n C (write_bytes []) (rret x) y"
  by (simp add: rt_write_Nil)

lemma rt_u8_bind: "rt n C (write_bytes []) (k v) y \<Longrightarrow> rt n C (write_u8 v) (rbind read_u8 k) y"
  unfolding write_u8_def by (rule rt_write_Cons)

lemma bit_byte_shift:
  fixes v :: "'a :: len word"
  assumes "8 \<le> LENGTH('a)"
  shows "bit (push_bit k (ucast (ucast (drop_bit k v) :: u8) :: 'a word)) i \<longleftrightarrow> k \<le> i \<and> i < k + 8 \<and> bit v i"
  using assms bit_imp_le_length [of v i]
  by (auto simp: bit_push_bit_iff bit_ucast_iff bit_drop_bit_eq dest: bit_imp_le_length)

lemma bit_byte_low:
  fixes v :: "'a :: len word"
  assumes "8 \<le> LENGTH('a)"
  shows "bit (ucast (ucast v :: u8) :: 'a word) i \<longleftrightarrow> i < 8 \<and> bit v i"
  using bit_byte_shift [OF assms, of 0 v i] by simp

lemma ucast_and_255: "(ucast (v AND 0xFF) :: u8) = ucast (v :: 'a :: len word)"
proof -
  have e: "(0xFF :: 'a word) = mask 8" by (simp add: mask_eq_exp_minus_1)
  show ?thesis unfolding e
    by (intro bit_word_eqI) (auto simp: bit_ucast_iff bit_and_iff bit_mask_iff dest: bit_imp_le_length)
qed

lemmas byte_bits = bit_or_iff bit_byte_shift bit_byte_low ucast_and_255

lemma rt_u16: "rt n C (write_u16 v) read_u16 v"
  unfolding write_u16_def read_u16_def
proof (rule rt_map_eq [OF rt_bytes_k])
  show "ucast ([ucast (v AND 0xFF), ucast (drop_bit 8 v)] ! 0 :: u8)
      OR push_bit 8 (ucast ([ucast (v AND 0xFF), ucast (drop_bit 8 v)] ! 1 :: u8)) = v"
    by (rule bit_word_eqI) (auto simp: byte_bits)
qed simp

lemma rt_u32: "rt n C (write_u32 v) read_u32 v"
  unfolding write_u32_def read_u32_def
proof (rule rt_map_eq [OF rt_bytes_k], goal_cases)
  case 2
  show ?case by (rule bit_word_eqI) (auto simp: byte_bits nth_Cons')
qed simp

lemma rt_u64: "rt n C (write_u64 v) read_u64 v"
  unfolding write_u64_def read_u64_def
proof (rule rt_map_eq [OF rt_bytes_k], goal_cases)
  case 2
  show ?case by (rule bit_word_eqI) (auto simp: byte_bits nth_Cons')
qed simp

lemma rt_u8_write: "rt n C (write_bytes bs) (k b) y \<Longrightarrow> rt n C (w_seq [write_u8 b, write_bytes bs]) (rbind read_u8 k) y"
  by (rule rt_bind [OF rt_u8]) simp

lemma bit_less_exp: "unat (v :: 'a :: len word) < 2 ^ k \<Longrightarrow> bit v i \<Longrightarrow> i < k"
proof (rule ccontr)
  assume a: "unat v < 2 ^ k" "bit v i" "\<not> i < k"
  have "take_bit k (unat v) = unat v" using a(1) by (simp add: take_bit_nat_eq_self)
  moreover have "bit (unat v) i" using a(2) by (simp add: bit_unsigned_iff)
  ultimately show False using a(3) by (metis bit_take_bit_iff)
qed

lemma low_byte_and_63:
  fixes d :: u64
  assumes "unat d < 64"
  shows "(ucast (0x80 + d) :: u8) AND 0x3F = ucast d" "(ucast (0xC0 + d) :: u8) AND 0x3F = ucast d"
    "unat (ucast (0x80 + d) :: u8) = 0x80 + unat d" "unat (ucast (0xC0 + d) :: u8) = 0xC0 + unat d"
proof -
  have m: "(0x3F :: u8) = mask 6" by (simp add: mask_eq_exp_minus_1)
  have "unat (0x80 + d) = 0x80 + unat d" "unat (0xC0 + d) = 0xC0 + unat d"
    using assms by (simp_all add: unat_add_mod)
  then show u: "unat (ucast (0x80 + d) :: u8) = 0x80 + unat d" "unat (ucast (0xC0 + d) :: u8) = 0xC0 + unat d"
    using assms by (simp_all add: unat_ucast_byte)
  have *: "unat (b AND 0x3F) = unat b mod 64" for b :: u8
  proof -
    have "unat (b AND 0x3F) = unat (take_bit 6 b)" by (simp only: m take_bit_eq_mask)
    also have "\<dots> = take_bit 6 (unat b)" by (rule unsigned_take_bit_eq)
    finally show ?thesis by (simp add: take_bit_eq_mod)
  qed
  show "(ucast (0x80 + d) :: u8) AND 0x3F = ucast d" "(ucast (0xC0 + d) :: u8) AND 0x3F = ucast d"
    unfolding word_unat_eq_iff * u
    using assms mod_mult_self3 [of 2 64 "unat d"] mod_mult_self3 [of 3 64 "unat d"]
    by (simp_all add: unat_ucast_byte)
qed

lemma rt_u64c: "rt n C (write_u64c v) read_u64c v"
proof -
  consider (a) "v < 0x80" | (b) "\<not> v < 0x80" "v < 0x400000" | (c) "\<not> v < 0x400000" "v < 0x2000000000"
    | (d) "\<not> v < 0x2000000000" by blast
  then show ?thesis
  proof cases
    case a
    then have u: "unat v < 128" by (simp add: word_less_nat_alt)
    then have "(ucast v :: u8) < 0x80" by (simp add: word_less_nat_alt unat_ucast_byte)
    moreover have "(ucast (ucast v :: u8) :: u64) = v"
      using u by (simp add: word_unat_eq_iff unat_ucast_byte)
    ultimately show ?thesis
      using a by (auto simp: write_u64c_def read_u64c_def intro!: rt_u8_bind rt_write_Nil_eq)
  next
    case b
    then have u: "unat v < 2 ^ 22" by (simp add: word_less_nat_alt)
    then have d: "unat (drop_bit 16 v) < 64" by (simp add: unat_drop_bit_div div_less_iff_less_mult)
    note lb = low_byte_and_63 [OF d]
    have "\<not> (ucast (0x80 + drop_bit 16 v) :: u8) < 0x80" "(ucast (0x80 + drop_bit 16 v) :: u8) < 0xC0"
      using lb(3) d by (simp_all add: word_less_nat_alt)
    moreover have "push_bit 16 (ucast (ucast (drop_bit 16 v) :: u8)) OR push_bit 8 (ucast (ucast (drop_bit 8 v) :: u8))
        OR ucast (ucast (v AND 0xFF) :: u8) = v"
      by (rule bit_word_eqI) (auto simp: byte_bits dest: bit_less_exp [OF u])
    ultimately show ?thesis
      using b by (auto simp: write_u64c_def read_u64c_def lb(1) intro!: rt_write_Cons rt_write_Nil_eq)
  next
    case c
    then have u: "unat v < 2 ^ 37" by (simp add: word_less_nat_alt)
    then have d: "unat (drop_bit 32 v) < 64" "unat (drop_bit 32 v) < 32"
      by (simp_all add: unat_drop_bit_div div_less_iff_less_mult)
    note lb = low_byte_and_63 [OF d(1)]
    have "\<not> (ucast (0xC0 + drop_bit 32 v) :: u8) < 0xC0" "(ucast (0xC0 + drop_bit 32 v) :: u8) < 0xFF"
      "\<not> (ucast (0xC0 + drop_bit 32 v) :: u8) < 0x80"
      using lb(4) d by (simp_all add: word_less_nat_alt)
    moreover have "push_bit 32 (ucast (ucast (drop_bit 32 v) :: u8)) OR push_bit 24 (ucast (ucast (drop_bit 24 v) :: u8))
        OR push_bit 16 (ucast (ucast (drop_bit 16 v) :: u8)) OR push_bit 8 (ucast (ucast (drop_bit 8 v) :: u8))
        OR ucast (ucast v :: u8) = v"
      by (rule bit_word_eqI) (auto simp: byte_bits dest: bit_less_exp [OF u])
    moreover have "\<not> v < 0x80" using c by (simp add: word_less_nat_alt)
    ultimately show ?thesis
      using c by (auto simp: write_u64c_def read_u64c_def lb(2) intro!: rt_write_Cons rt_write_Nil_eq)
  next
    case d
    have "\<not> v < 0x80" "\<not> v < 0x400000" using d by (simp_all add: word_less_nat_alt)
    then show ?thesis
      using d rt_u64 [of n C v]
      by (auto simp: write_u64c_def read_u64c_def write_u64_def intro!: rt_write_Cons)
  qed
qed

lemma bit0_and_1: "(w AND 1) \<noteq> 0 \<longleftrightarrow> bit (w :: u64) 0"
  using and_one_neq_0 [of 0 w] by simp

lemma take_bit_63_id: "unat (w :: u64) < 2 ^ 63 \<Longrightarrow> take_bit 63 w = w"
  unfolding word_unat_eq_iff unsigned_take_bit_eq by (rule take_bit_nat_eq_self)

lemma i64c_value:
  "(if take_bit 63 (if i64_neg v then - v else v) = 0 \<and> i64_neg v then 0x8000000000000000
    else if i64_neg v then - take_bit 63 (if i64_neg v then - v else v)
    else take_bit 63 (if i64_neg v then - v else v)) = v"
proof (cases "i64_neg v")
  case True
  then have ge: "2 ^ 63 \<le> unat v" by (simp add: i64_neg_def bit_63_iff)
  then have "v \<noteq> 0" by auto
  then have u: "unat (- v) = 2 ^ 64 - unat v"
    using unat_sub_if_size [of 0 v] ge by (simp add: word_size)
  show ?thesis
  proof (cases "unat v = 2 ^ 63")
    case True
    then have "v = 0x8000000000000000" by (simp add: word_unat_eq_iff)
    then show ?thesis by (simp add: i64_neg_def bit_63_iff)
  next
    case False
    then have "unat (- v) < 2 ^ 63" using ge u by simp
    then have "take_bit 63 (- v) = - v" by (rule take_bit_63_id)
    then show ?thesis using True \<open>v \<noteq> 0\<close> by simp
  qed
next
  case False
  then have "take_bit 63 v = v" by (intro take_bit_63_id) (simp add: i64_neg_def bit_63_iff)
  then show ?thesis using False by simp
qed

lemma rt_i64c: "rt n C (write_i64c v) read_i64c v"
proof -
  define w where "w = (if i64_neg v then - v else v)"
  let ?x = "push_bit 1 w OR (if i64_neg v then 1 else 0)"
  have b0: "(?x AND 1) \<noteq> 0 \<longleftrightarrow> i64_neg v"
    unfolding bit0_and_1 bit_or_iff bit_push_bit_iff by auto
  have dr: "drop_bit 1 ?x = take_bit 63 w"
    by (rule bit_word_eqI)
      (unfold bit_drop_bit_eq comp_def bit_or_iff bit_push_bit_iff bit_take_bit_iff, auto simp: bit_1_iff)
  have "rt n C (w_seq [write_u64c ?x])
    (rbind read_u64c (\<lambda>va. let sign = (va AND 1) \<noteq> 0; va = drop_bit 1 va
     in if va = 0 \<and> sign then rret 0x8000000000000000 else if sign then rret (- va) else rret va)) v"
    by (rule rt_bind [OF rt_u64c])
      (use i64c_value [of v] in \<open>simp only: Let_def b0 dr flip: w_def if_distrib [of rret]\<close>, simp)
  then show ?thesis by (simp add: write_i64c_def read_i64c_def Let_def w_def)
qed

lemma rt_if: "(b \<Longrightarrow> rt n C a d x) \<Longrightarrow> (\<not> b \<Longrightarrow> rt n C a' d x) \<Longrightarrow> rt n C (if b then a else a') d x"
  by simp

lemma w_seq_assert: "w_seq (w_assert b m # as) = (if b then w_seq as else w_fail (Assert_Fail m))"
  by (rule ext) (simp add: w_seq.simps w_assert_def w_skip_def w_fail_def)

lemma unat_byte: "n < 256 \<Longrightarrow> unat (byte n) = n"
  by (simp add: byte_def unsigned_of_nat take_bit_nat_eq_self)

lemma rt_tag: "rt n C (write_tag t) read_tag t"
proof (cases "t < 256")
  case True
  then show ?thesis
    by (simp add: write_tag_def w_seq_assert read_tag_def) (rule rt_map_eq [OF rt_u8], simp add: unat_byte)
qed (simp add: write_tag_def w_seq_assert)

lemma rt_bool: "rt n C (write_bool b) read_bool b"
  unfolding write_bool_def read_bool_def
  by (cases b) (auto intro!: rt_u8_bind rt_write_Nil_eq)

lemma rt_u8_then: "rt n C a (k v) y \<Longrightarrow> rt n C (w_seq [write_u8 v, a]) (rbind read_u8 k) y"
  using rt_bind [OF rt_u8, of n C "[a]" k v y] by simp

lemma rt_count: "rt n C (write_count c) read_count c"
proof -
  consider (a) "c < 0xFD" | (b) "c = 0xFFFFFFFF" | (c) "\<not> c < 0xFD" "c < 0x10000"
    | (d) "\<not> c < 0x10000" "c < 0x80000000" | (e) "\<not> c < 0x80000000" "c \<noteq> 0xFFFFFFFF" by linarith
  then show ?thesis
  proof cases
    case a
    then have "byte c < 0xFD" by (simp add: word_less_nat_alt unat_byte)
    then show ?thesis
      using a by (auto simp: write_count_def read_count_def unat_byte intro!: rt_u8_bind rt_write_Nil_eq)
  next
    case b
    then show ?thesis
      by (auto simp: write_count_def read_count_def intro!: rt_u8_bind rt_write_Nil_eq)
  next
    case c
    have "unat (word_of_nat c :: u16) = c" using c by (simp add: unsigned_of_nat take_bit_nat_eq_self)
    then show ?thesis
      using c by (auto simp: write_count_def read_count_def intro!: rt_u8_then rt_map_eq [OF rt_u16])
  next
    case d
    have "unat (word_of_nat c :: u32) = c" using d by (simp add: unsigned_of_nat take_bit_nat_eq_self)
    then show ?thesis
      using d by (auto simp: write_count_def w_seq_assert read_count_def intro!: rt_u8_then rt_map_eq [OF rt_u32])
  next
    case e
    then show ?thesis by (simp add: write_count_def w_seq_assert)
  qed
qed

lemma char_of_byte: "char_of (unat (byte (of_char c))) = c"
proof -
  have "unat (byte (of_char c)) = of_char c" by (rule unat_byte) simp
  then show ?thesis by simp
qed

lemma bytes_string_inv [simp]: "bytes_string (string_bytes s) = s"
  by (simp add: bytes_string_def string_bytes_def char_of_byte comp_def)

lemma length_string_bytes [simp]: "length (string_bytes s) = length s"
  by (simp add: string_bytes_def)

lemma rt_chars: "rt n C (write_bytes (string_bytes s)) (rmap bytes_string (read_bytes (length s))) s"
  by (rule rt_map_eq [OF rt_bytes_k]) simp_all

lemma w_seq_fail [simp]: "w_seq (w_fail e # as) = w_fail e"
  by (rule ext) (simp add: w_seq.simps w_fail_def)

lemma w_seq_flatten: "w_seq (w_seq as # bs) = w_seq (as @ bs)"
proof (rule ext)
  show "w_seq (w_seq as # bs) s = w_seq (as @ bs) s" for s
  proof (induction as arbitrary: s)
    case (Cons a as)
    have "w_seq (w_seq (a # as) # bs) s = res_bind (a s) (w_seq (w_seq as # bs))"
      by (simp add: w_seq.simps res_bind_assoc fun_eq_iff)
    then show ?case using Cons by (simp add: w_seq.simps)
  qed (simp add: w_seq.simps)
qed

lemma rt_string: "rt n C (write_string s) read_string s"
proof -
  let ?l = "length s"
  let ?body = "\<lambda>len. rmap bytes_string (read_bytes len)"
  consider (a) "?l < 128" | (b) "\<not> ?l < 128" "?l < 0x800000" | (c) "\<not> ?l < 128" "\<not> ?l < 0x800000" by blast
  then show ?thesis
  proof cases
    case a
    have "rt n C (w_seq [write_u8 (byte ?l), write_bytes (string_bytes s)]) read_string s"
      unfolding read_string_def Let_def
      by (rule rt_u8_then) (use a rt_chars [of n C s] in \<open>simp add: unat_byte rbind_def rret_def\<close>)
    then show ?thesis using a by (simp add: write_string_def)
  next
    case b
    let ?h = "byte (128 + ?l div 0x10000)"
    let ?w = "word_of_nat (?l mod 0x10000) :: u16"
    have hi: "?l div 0x10000 < 128" using b by (simp add: div_less_iff_less_mult)
    have u: "unat ?h = 128 + ?l div 0x10000" using hi by (intro unat_byte) simp
    have "unat ?w = ?l mod 0x10000"
      by (simp add: unsigned_of_nat take_bit_nat_eq_self)
    then have len: "((unat ?h mod 128) * 0x10000) OR unat ?w = ?l"
      using hi or_shifted [of "?l mod 0x10000" 16 "?l div 0x10000"] by (simp add: u or.commute)
    have "rt n C (w_seq [write_u8 ?h, write_u16 ?w, write_bytes (string_bytes s)]) read_string s"
      unfolding read_string_def Let_def
    proof (rule rt_bind [OF rt_u8], rule rt_bind)
      show "rt n C (write_u16 ?w) (if unat ?h < 128 then rret (unat ?h)
        else rbind read_u16 (\<lambda>w. rret (((unat ?h mod 128) * 0x10000) OR unat w))) ?l"
        using rt_map_eq [OF rt_u16 [of n C ?w], of "\<lambda>w. ((unat ?h mod 128) * 0x10000) OR unat w", OF len]
        by (simp add: rmap_def u)
    qed (simp add: rt_chars)
    then show ?thesis using b by (simp add: write_string_def Let_def w_seq_assert w_seq_flatten)
  next
    case c
    then show ?thesis
      by (simp add: write_string_def Let_def w_seq_assert)
  qed
qed

lemma rt_double: "rt n C (write_double v) read_double v"
proof -
  have "u64_of_memory (u64_memory v) = v"
  proof -
    have "le_nat (u64_memory v) = unat v mod 256 ^ 8"
      unfolding u64_memory_def
    proof (rule le_nat_digits)
      fix i :: nat
      have "(2 :: nat) ^ (8 * i) = 256 ^ i" by (simp only: power_mult) simp
      then show "unat (ucast (drop_bit (8 * i) v) :: u8) = unat v div 256 ^ i mod 256"
        by (simp only: unat_ucast_byte unat_drop_bit_div)
    qed
    then show ?thesis using unat_lt_64 [of v] by (simp add: u64_of_memory_def del: unat_lt_64)
  qed
  then show ?thesis
    unfolding write_double_def read_double_def
    by (intro rt_map_eq [OF rt_bytes_k]) (simp_all add: u64_memory_def)
qed

lemma rt_u128: "rt n C (write_u128 v) read_u128 v"
  unfolding write_u128_def read_u128_def
  by (intro rt_bind [OF rt_u64]) simp

lemma rt_i128: "rt n C (write_i128 v) read_i128 v"
  unfolding write_i128_def read_i128_def by (intro rt_map_eq [OF rt_u128]) simp

lemma write_bytes_state: "write_bytes bs ws = Inr ws' \<Longrightarrow> \<exists>b. ws' = ws\<lparr>w_out := b\<rparr>"
  by (auto simp: write_bytes_def split: if_splits intro: exI [of _ "w_out ws"])

lemma write_count_state: "write_count c ws = Inr ws' \<Longrightarrow> \<exists>b. ws' = ws\<lparr>w_out := b\<rparr>"
  by (auto simp: write_count_def w_assert_def w_skip_def w_seq.simps w_fail_def write_u8_def write_u16_def write_u32_def
    split: if_splits dest!: write_bytes_state)

lemma write_count_succeeds:
  assumes "c < 0x80000000"
  shows "\<exists>t'. write_count c t = Inr t'"
  using assms
  by (auto simp: write_count_def w_seq_assert w_assert_def w_skip_def w_seq.simps write_u8_def write_u16_def
      write_u32_def write_bytes_def)

lemma map_update_keys [simp]: "map fst (map_update k f m) = map fst m"
  by (induction k f m rule: map_update.induct) auto

lemma map_update_strings [simp]: "fst ` set (map_update k f m) = fst ` set m"
  using arg_cong [OF map_update_keys [of k f m], of set] by (simp only: set_map)

lemma string_map_insert: "string_map m \<Longrightarrow> string_map (map_insert ord_string k v m)"
  by (simp add: string_map_def string_ord.map_insert_sorted)

lemma string_map_update: "string_map m \<Longrightarrow> string_map (map_update k f m)"
  by (simp add: string_map_def string_ord.keys_sorted_def)

lemma dry_istring: "dry (write_istring v)"
proof (rule dryI)
  fix s s'
  assume s: "\<not> w_open s" "string_map (w_istrings s)" "write_istring v s = Inr s'"
  from s(3) have "s' = s\<lparr>w_istrings := map_update v Suc (map_insert ord_string v 0 (w_istrings s))\<rparr>"
    using s(1) by (simp add: write_istring_def)
  then show "\<not> w_open s' \<and> w_out s' = w_out s \<and> string_map (w_istrings s') \<and> strings_of s \<subseteq> strings_of s'"
    using s(1,2) by (simp add: write_istring_def strings_of_def string_ord.map_insert_keys string_map_insert string_map_update
        subset_insertI)
next
  fix s s' t
  assume s: "\<not> w_open s" "write_istring v s = Inr s'" and t: "w_open t" "w_types t = w_types s"
    "strings_of s' \<subseteq> strings_of t" "numbered t"
  have "v \<in> strings_of t" using s t(3)
    by (auto simp: write_istring_def strings_of_def string_ord.map_insert_keys)
  then obtain i where i: "map_of (w_istrings t) v = Some i"
    by (auto simp: strings_of_def dest: weak_map_of_SomeI)
  then have "i < 0x80000000" using t(4) map_of_SomeD [OF i] by (auto simp: numbered_def)
  then obtain t' where "write_count i t = Inr t'" using write_count_succeeds by blast
  then show "\<exists>t'. write_istring v t = Inr t' \<and> w_open t' \<and> w_types t' = w_types s' \<and> w_istrings t' = w_istrings t"
    using i s t write_count_state [of i t t'] by (auto simp: write_istring_def)
qed

lemma rt_istring: "rt n C (write_istring s) read_istring s"
proof (rule rtI [OF dry_istring])
  fix ws ws'
  assume w: "w_open ws" "write_istring s ws = Inr ws'"
  then obtain i where i: "map_of (w_istrings ws) s = Some i" "write_count i ws = Inr ws'"
    by (auto simp: write_istring_def split: option.splits)
  obtain bs where bs: "w_open ws'" "keys_grow C ws ws'" "w_out ws' = w_out ws @ bs"
    "\<And>rs rest. length bs \<le> n \<Longrightarrow> length (w_out ws') < file_limit \<Longrightarrow> sync C ws rs \<Longrightarrow>
      avail rs = bs @ rest \<Longrightarrow> \<exists>rs'. read_count rs = Inr (i, rs') \<and> avail rs' = rest \<and> sync C ws' rs'"
    using rtE [OF rt_count w(1) i(2)] by metis
  show "w_open ws' \<and> keys_grow C ws ws' \<and> (\<exists>bs. w_out ws' = w_out ws @ bs \<and>
       (length bs \<le> n \<longrightarrow> length (w_out ws') < file_limit \<longrightarrow>
         (\<forall>rs rest. sync C ws rs \<longrightarrow> avail rs = bs @ rest \<longrightarrow>
           (\<exists>rs'. read_istring rs = Inr (s, rs') \<and> avail rs' = rest \<and> sync C ws' rs'))))"
  proof (intro conjI exI [of _ bs] impI allI)
    fix rs rest
    assume a: "length bs \<le> n" "length (w_out ws') < file_limit" "sync C ws rs" "avail rs = bs @ rest"
    obtain rs' where r: "read_count rs = Inr (i, rs')" "avail rs' = rest" "sync C ws' rs'"
      using bs(4) a by blast
    have "w_istrings ws' = w_istrings ws"
      using write_count_state [OF i(2)] by auto
    then have "i < length (r_strings rs')" "r_strings rs' ! i = s"
      using r(3) i(1) by (auto simp: sync_def)
    then show "\<exists>rs'. read_istring rs = Inr (s, rs') \<and> avail rs' = rest \<and> sync C ws' rs'"
      using r by (simp add: read_istring_def rbind_def)
  qed (use bs in simp_all)
qed

section \<open>The core protocol\<close>

fun uint_digits :: "nat \<Rightarrow> bytes" where
  "uint_digits n = (if n = 0 then [] else byte (n mod 256) # uint_digits (n div 256))"

declare uint_digits.simps [simp del]

lemma le_nat_uint_digits: "le_nat (uint_digits n) = n"
  by (induction n rule: uint_digits.induct) (subst uint_digits.simps, simp add: unat_byte)

lemma length_uint_digits: "n < 256 ^ k \<Longrightarrow> length (uint_digits n) \<le> k"
proof (induction k arbitrary: n)
  case (Suc k)
  then have "n div 256 < 256 ^ k" by (simp add: div_less_iff_less_mult mult.commute)
  then show ?case using Suc by (subst uint_digits.simps) simp
qed (simp add: uint_digits.simps)

lemma raw_uint_bytes_digits: "raw_uint_bytes v out = out @ uint_digits (unat v)"
proof (induction v out rule: raw_uint_bytes.induct)
  case (1 v out)
  show ?case
  proof (cases "v > 0")
    case True
    have "(ucast v :: u8) = byte (unat v mod 256)"
      by (simp add: word_unat_eq_iff unat_ucast_byte unat_byte)
    then show ?thesis
      using True 1 by (subst raw_uint_bytes.simps, subst uint_digits.simps)
        (simp add: unat_drop_bit_div word_gt_0 unat_eq_0)
  qed (simp add: raw_uint_bytes.simps uint_digits.simps word_gt_0)
qed

lemma unat_or: "unat (a OR b) = (unat a OR unat (b :: 'a :: len word))"
  by (rule bit_eqI) (simp add: bit_unsigned_iff bit_or_iff)

lemma unat_or_byte:
  fixes rv :: u64
  assumes "unat rv < 256 ^ p" "p < 8"
  shows "unat (rv OR push_bit (8 * p) (ucast (b :: u8))) = unat rv + 256 ^ p * unat b"
proof -
  have e: "(2 :: nat) ^ (8 * p) = 256 ^ p" by (simp only: power_mult) simp
  have "(256 :: nat) ^ p \<le> 256 ^ 7" using assms(2) by (intro power_increasing) simp_all
  then have "unat b * 256 ^ p < 256 * 256 ^ 7" by (intro mult_less_le_imp_less) simp_all
  then have "unat (push_bit (8 * p) (ucast b :: u64)) = unat b * 256 ^ p"
    by (simp only: unat_push_bit_mod e) simp
  then show ?thesis
    using or_shifted_bytes [OF assms(1), of "unat b"] by (simp add: unat_or mult.commute)
qed

lemma rt_raw_uint_bytes:
  "unat rv < 256 ^ p \<Longrightarrow> p + length bs \<le> 8 \<Longrightarrow>
    rt n C (write_bytes bs) (raw_read_uint_bytes (length bs) p rv) (word_of_nat (unat rv + 256 ^ p * le_nat bs))"
proof (induction bs arbitrary: p rv)
  case Nil
  then show ?case by (simp add: rt_write_Nil_eq)
next
  case (Cons b bs)
  let ?rv = "rv OR push_bit (8 * p) (ucast b)"
  have u: "unat ?rv = unat rv + 256 ^ p * unat b" using Cons.prems by (intro unat_or_byte) simp_all
  have lt: "unat ?rv < 256 ^ (p + 1)"
    unfolding u using pair_lt [OF Cons.prems(1) unat_lt_8 [of b]] by (simp add: mult.commute)
  have "rt n C (write_bytes bs) (raw_read_uint_bytes (length bs) (p + 1) ?rv)
    (word_of_nat (unat ?rv + 256 ^ (p + 1) * le_nat bs))"
    using Cons.prems by (intro Cons.IH lt) simp
  moreover have "unat ?rv + 256 ^ (p + 1) * le_nat bs = unat rv + 256 ^ p * le_nat (b # bs)"
    unfolding u by (simp add: algebra_simps)
  ultimately show ?case
    by (simp only: list.size raw_read_uint_bytes.simps add_Suc_right add_0_right flip: Suc_eq_plus1)
       (rule rt_write_Cons, simp only: add_Suc_right add_0_right flip: Suc_eq_plus1)
qed

lemma rt_raw_uint: "rt n C (raw_write_uint v) raw_read_uint v"
proof (cases "v < 0xC0")
  case True
  then have "unat v < 192" by (simp add: word_less_nat_alt)
  then have "unat (ucast v :: u8) = unat v" "(ucast (ucast v :: u8) :: u64) = v"
    by (simp_all add: word_unat_eq_iff unat_ucast_byte)
  then show ?thesis
    using True by (auto simp: raw_write_uint_def raw_read_uint_def word_less_nat_alt word_le_nat_alt
      intro!: rt_u8_bind rt_write_Nil_eq)
next
  case False
  let ?d = "uint_digits (unat v)"
  have l: "length ?d \<le> 8" using unat_lt_64 [of v] by (intro length_uint_digits) (simp del: unat_lt_64)
  have h: "unat (0xC0 + byte (length ?d)) = 0xC0 + length ?d"
    using l by (simp add: unat_add_mod unat_byte)
  have "rt n C (write_bytes ?d) (raw_read_uint_bytes (length ?d) 0 0) (word_of_nat (unat (0 :: u64) + 256 ^ 0 * le_nat ?d))"
    using l by (intro rt_raw_uint_bytes) simp_all
  then have "rt n C (write_bytes ?d) (raw_read_uint_bytes (length ?d) 0 0) v"
    by (simp add: le_nat_uint_digits)
  then show ?thesis
    using False l h by (auto simp: raw_write_uint_def raw_read_uint_def Let_def raw_uint_bytes_digits w_seq_assert
       word_less_nat_alt word_le_nat_alt intro!: rt_u8_then)
qed

lemma rt_raw_len: "len < 2 ^ 64 \<Longrightarrow> rt n C (raw_write_len len) raw_read_len len"
proof -
  assume l: "len < 2 ^ 64"
  show ?thesis
  proof (cases "len < 0x3C")
    case True
    then have "unat (byte (0xC0 + len)) = 0xC0 + len" by (intro unat_byte) simp
    then show ?thesis
      using True by (auto simp: raw_write_len_def raw_read_len_def word_less_nat_alt
        intro!: rt_u8_bind rt_write_Nil_eq)
  next
    case False
    have "unat (word_of_nat len :: u64) = len" using l by (simp add: unsigned_of_nat take_bit_nat_eq_self)
    then show ?thesis
      using False by (auto simp: raw_write_len_def raw_read_len_def intro!: rt_u8_then rt_map_eq [OF rt_raw_uint])
  qed
qed

lemma rt_raw_bytes:
  "length s < 2 ^ 64 \<Longrightarrow> rt n C (raw_write_bytes (string_bytes s)) raw_read_bytes_stdstring s"
  unfolding raw_write_bytes_def raw_read_bytes_stdstring_def
  by (intro rt_bind [OF rt_raw_len]) (simp_all add: rt_chars)

definition raw_uint_enc :: "u64 \<Rightarrow> bytes" where
  "raw_uint_enc v = (if v < 0xC0 then [ucast v]
     else (0xC0 + byte (length (uint_digits (unat v)))) # uint_digits (unat v))"

lemma raw_write_uint_enc: "raw_write_uint v = write_bytes (raw_uint_enc v)"
proof -
  have "length (uint_digits (unat v)) \<le> 8" using unat_lt_64 [of v] by (intro length_uint_digits) (simp del: unat_lt_64)
  then show ?thesis
    using write_bytes_append [of "[0xC0 + byte (length (uint_digits (unat v)))]" "uint_digits (unat v)"]
    by (simp add: raw_write_uint_def raw_uint_enc_def write_u8_def Let_def raw_uint_bytes_digits w_seq_assert)
qed

lemma raw_write_bytes_enc: "\<exists>e. e \<noteq> [] \<and> raw_write_bytes d = write_bytes e"
proof -
  have "\<exists>e. e \<noteq> [] \<and> raw_write_len k = write_bytes e" for k
    using write_bytes_append [of "[0xFC]"]
    by (auto simp: raw_write_len_def write_u8_def raw_write_uint_enc)
  then show ?thesis unfolding raw_write_bytes_def using write_bytes_append by (metis append_is_Nil_conv)
qed

lemma write_bytes_open: "w_open s \<Longrightarrow> write_bytes b s = Inr (s\<lparr>w_out := w_out s @ b\<rparr>)"
  by (simp add: write_bytes_def)

lemma map_of_zip_upt:
  "map_of (zip ns [0..<length ns]) x = Some i \<Longrightarrow> i < length ns \<and> ns ! i = x"
proof -
  assume "map_of (zip ns [0..<length ns]) x = Some i"
  then have "(x, i) \<in> set (zip ns [0..<length ns])" by (rule map_of_SomeD)
  then show ?thesis by (auto simp: in_set_zip)
qed

lemma map_of_zip_upt_None: "map_of (zip ns [0..<length ns]) x = None \<longleftrightarrow> x \<notin> set ns"
  by (simp add: map_of_zip_is_None)

lemma zip_upt_snoc: "zip (ns @ [x]) [0..<length (ns @ [x])] = zip ns [0..<length ns] @ [(x, length ns)]"
  by simp

lemma sync_objnames: "sync C ws rs \<Longrightarrow> r_objnames rs = map fst (w_objnames ws)"
  by (simp add: sync_def)

lemma sync_lengths:
  "sync C ws rs \<Longrightarrow> length (w_objnames ws) \<le> length (w_out ws)"
  "sync C ws rs \<Longrightarrow> length (w_types ws) \<le> length (w_out ws)"
  unfolding sync_def by blast+

lemma dry_raw_uint: "dry (raw_write_uint v)"
  using dry_bytes by (simp add: raw_write_uint_enc)

lemma dry_name:
  "dry (\<lambda>s. case map_of (w_objnames s) name of
         Some i \<Rightarrow> raw_write_uint (word_of_nat i) s
       | None \<Rightarrow>
           (let i = length (w_objnames s) mod 0x100000000;
                s' = s\<lparr>w_objnames := w_objnames s @ [(name, i)]\<rparr>
            in w_seq [raw_write_uint (word_of_nat i), raw_write_bytes (string_bytes name)] s'))"
proof -
  obtain e where e: "raw_write_bytes (string_bytes name) = write_bytes e" using raw_write_bytes_enc by metis
  show ?thesis
    by (rule dryI)
       (auto simp: raw_write_uint_enc e write_bytes_def w_seq.simps Let_def strings_of_def split: option.splits if_splits)
qed

lemma rt_open_object: 
  assumes "length name < 2 ^ 64"
  shows "rt n C (open_object name) (r_open_object name) ()"
  unfolding open_object_def r_open_object_def
proof (rule rt_bind [OF rt_u8], simp only: w_seq_single, rule rtI [OF dry_name])
  let ?act = "\<lambda>s. case map_of (w_objnames s) name of
         Some i \<Rightarrow> raw_write_uint (word_of_nat i) s
       | None \<Rightarrow>
           (let i = length (w_objnames s) mod 0x100000000;
                s' = s\<lparr>w_objnames := w_objnames s @ [(name, i)]\<rparr>
            in w_seq [raw_write_uint (word_of_nat i), raw_write_bytes (string_bytes name)] s')"
  let ?d = "if (0xFD :: u8) \<noteq> 0xFD then rfail (Runtime_Error ''Expected OpenNamed'')
     else rbind raw_read_uint (\<lambda>key.
       rbind (\<lambda>r. if unat key = length (r_objnames r)
                  then rbind raw_read_bytes_stdstring
                         (\<lambda>s r. Inr ((), r\<lparr>r_objnames := r_objnames r @ [s]\<rparr>)) r
                  else Inr ((), r))
         (\<lambda>_ r. if \<not> unat key < length (r_objnames r) then Inl (Assert_Fail ''key < m_objname_cache.size()'')
                else if r_objnames r ! unat key \<noteq> name then Inl (Runtime_Error ''Expecting OpenNamed'')
                else Inr ((), r)))"
  fix ws ws'
  assume w: "w_open ws" "?act ws = Inr ws'"
  show "w_open ws' \<and> keys_grow C ws ws' \<and> (\<exists>bs. w_out ws' = w_out ws @ bs \<and>
       (length bs \<le> n \<longrightarrow> length (w_out ws') < file_limit \<longrightarrow>
         (\<forall>rs rest. sync C ws rs \<longrightarrow> avail rs = bs @ rest \<longrightarrow>
           (\<exists>rs'. ?d rs = Inr ((), rs') \<and> avail rs' = rest \<and> sync C ws' rs'))))"
  proof (cases "map_of (w_objnames ws) name")
    case (Some i)
    then have ws': "raw_write_uint (word_of_nat i) ws = Inr ws'" using w(2) by simp
    obtain bs where bs: "w_open ws'" "keys_grow C ws ws'" "w_out ws' = w_out ws @ bs"
      "\<And>rs rest. length bs \<le> n \<Longrightarrow> length (w_out ws') < file_limit \<Longrightarrow> sync C ws rs \<Longrightarrow>
        avail rs = bs @ rest \<Longrightarrow>
        \<exists>rs'. raw_read_uint rs = Inr (word_of_nat i, rs') \<and> avail rs' = rest \<and> sync C ws' rs'"
      using rtE [OF rt_raw_uint w(1) ws'] by metis
    show ?thesis
    proof (intro conjI exI [of _ bs] impI allI)
      fix rs rest
      assume a: "length bs \<le> n" "length (w_out ws') < file_limit" "sync C ws rs" "avail rs = bs @ rest"
      obtain r1 where r1: "raw_read_uint rs = Inr (word_of_nat i, r1)" "avail r1 = rest" "sync C ws' r1"
        using bs(4) [OF a] by blast
      have "map_of (w_objnames ws') name = Some i"
        using ws' Some w(1) by (auto simp: raw_write_uint_enc write_bytes_open)
      then have i: "i < length (r_objnames r1)" "r_objnames r1 ! i = name"
        using r1(3) map_of_zip_upt [of "r_objnames r1" name i] by (auto simp: sync_def)
      moreover have "length (r_objnames r1) \<le> length (w_out ws')"
        using sync_lengths(1) [OF r1(3)] by (simp add: sync_objnames [OF r1(3)])
      ultimately have "unat (word_of_nat i :: u64) = i"
        using a(2) by (simp add: unsigned_of_nat take_bit_nat_eq_self file_limit_def)
      then show "\<exists>rs'. ?d rs = Inr ((), rs') \<and> avail rs' = rest \<and> sync C ws' rs'"
        using i r1 by (intro exI [of _ r1]) (simp add: rbind_def)
    qed (use bs in simp_all)
  next
    case None
    define i where "i = length (w_objnames ws) mod 0x100000000"
    obtain e where e: "e \<noteq> []" "raw_write_bytes (string_bytes name) = write_bytes e"
      using raw_write_bytes_enc by metis
    let ?u = "raw_uint_enc (word_of_nat i)"
    let ?w0 = "ws\<lparr>w_out := w_out ws @ ?u\<rparr>" and ?w1 = "ws\<lparr>w_out := w_out ws @ ?u @ e\<rparr>"
    have ws': "ws' = ?w1\<lparr>w_objnames := w_objnames ws @ [(name, i)]\<rparr>"
      using w None
      by (cases ws) (auto simp: i_def Let_def raw_write_uint_enc e(2) write_bytes_append write_bytes_open)
    have act0: "raw_write_uint (word_of_nat i) ws = Inr ?w0" and o0: "w_open ?w0"
      and act1: "raw_write_bytes (string_bytes name) ?w0 = Inr ?w1"
      using w(1) by (simp_all add: raw_write_uint_enc e(2) write_bytes_open)
    note rt0 = rt_raw_uint [of n C "word_of_nat i", unfolded rt_def, THEN conjunct2, rule_format, OF w(1) act0]
    note rt1 = rt_raw_bytes [OF assms, of n C, unfolded rt_def, THEN conjunct2, rule_format, OF o0 act1]
    show ?thesis
    proof (intro conjI exI [of _ "?u @ e"] impI allI)
      fix rs rest
      assume a: "length (?u @ e) \<le> n" "length (w_out ws') < file_limit" "sync C ws rs"
        "avail rs = (?u @ e) @ rest"
      obtain r0 where r0: "raw_read_uint rs = Inr (word_of_nat i, r0)" "avail r0 = e @ rest" "sync C ?w0 r0"
        using rt0 a ws' by auto
      obtain r1 where r1: "raw_read_bytes_stdstring r0 = Inr (name, r1)" "avail r1 = rest" "sync C ?w1 r1"
        using rt1 a ws' r0 by auto
      have ns: "r_objnames r0 = r_objnames rs" "r_objnames r1 = r_objnames rs"
        using sync_objnames [OF a(3)] sync_objnames [OF r0(3)] sync_objnames [OF r1(3)] by simp_all
      have len: "length (r_objnames rs) = length (w_objnames ws)"
        using sync_objnames [OF a(3)] by simp
      have "length (w_objnames ws) < 0x100000000"
        using a(2) ws' sync_lengths(1) [OF a(3)] by (simp add: file_limit_def)
      then have i: "i = length (r_objnames rs)" "unat (word_of_nat i :: u64) = i"
        by (simp_all add: i_def len unsigned_of_nat take_bit_nat_eq_self)
      let ?r = "r1\<lparr>r_objnames := r_objnames r1 @ [name]\<rparr>"
      have "name \<notin> set (r_objnames rs)"
        using None a(3) by (simp add: sync_def map_of_zip_upt_None)
      then have "sync C ws' ?r"
        using r1(3) e(1) ns(2) i(1) sync_lengths(1) [OF a(3)] len unfolding ws'
        by (cases e) (auto simp: sync_def)
      then show "\<exists>rs'. ?d rs = Inr ((), rs') \<and> avail rs' = rest \<and> sync C ws' rs'"
        using r0 r1 i ns by (intro exI [of _ ?r]) (simp add: rbind_def avail_def nth_append)
    qed (use ws' w(1) in simp_all)
  qed
qed

end
