(* ===== verification/Hir_Data.thy ===== *)
theory Hir_Data
  imports Int128_Signed
begin

text \<open>
  The data of \<open>src/hir/\<close> and \<open>src/mir/mir.hpp\<close>: paths, types, generic parameters,
  constant expressions and MIR.

  In the source these refer to each other in a circle (a type holds a path, a path holds
  types and constants, a constant may hold a MIR function, MIR holds types).  Here every
  structure below types is a datatype over the three kinds of values that close the circle:
  \<open>'t\<close> for \<open>HIR::TypeRef\<close>, \<open>'v\<close> for \<open>HIR::ConstGeneric\<close> and \<open>'g\<close> for
  \<open>HIR::GenericParams\<close>.  The last declaration ties the knot.

  A pointer that owns its target is its target, an owning pointer that may be null an
  \<open>option\<close>; a pointer into other structures is a number that names the target.  A
  \<open>std::map\<close> is the list of its entries in the order of the keys.  An \<open>unsigned\<close> is a
  \<open>u32\<close>; \<open>size_t\<close>, \<open>uintptr_t\<close> and \<open>uint64_t\<close> are \<open>u64\<close>; a \<open>double\<close> is its bit pattern.
  The HIR expression tree of an \<open>ExprPtr\<close> is not modelled: \<open>ep_node\<close> holds the text the
  printer makes of it.
\<close>

section \<open>References to generics and lifetimes, simple paths\<close>

record generic_ref =
  gr_name :: string
  gr_binding :: u32

record lifetime_ref =
  lr_binding :: u32

record lifetime_def =
  ld_name :: string

datatype (plugins only: code size) simple_path = SimplePath (sp_members: "string list")

definition ord_simple_path :: "simple_path \<Rightarrow> simple_path \<Rightarrow> Ordering" where
  "ord_simple_path p q = ord_thin_vector ord_string (sp_members p) (sp_members q)"

section \<open>Enumerations\<close>

datatype (plugins only: code size) core_type =
    CT_Usize | CT_Isize | CT_U8 | CT_I8 | CT_U16 | CT_I16 | CT_U32 | CT_I32 | CT_U64 | CT_I64
  | CT_U128 | CT_I128 | CT_F32 | CT_F64 | CT_Bool | CT_Char | CT_Str

datatype (plugins only: code size) borrow_type = BT_Shared | BT_Unique | BT_Owned

datatype (plugins only: code size) infer_class = IC_None | IC_Integer | IC_Float

datatype (plugins only: code size) bin_op =
    BO_ADD | BO_ADD_OV | BO_SUB | BO_SUB_OV | BO_MUL | BO_MUL_OV | BO_DIV | BO_DIV_OV | BO_MOD
  | BO_BIT_OR | BO_BIT_AND | BO_BIT_XOR | BO_BIT_SHR | BO_BIT_SHL
  | BO_EQ | BO_NE | BO_GT | BO_GE | BO_LT | BO_LE

datatype (plugins only: code size) uni_op = UO_INV | UO_NEG

datatype (plugins only: code size) drop_kind = DK_SHALLOW | DK_DEEP

datatype (plugins only: code size) asm_direction = AD_In | AD_Out | AD_LateOut | AD_InOut | AD_InLateOut

datatype (plugins only: code size) register_class =
    RC_x86_reg | RC_x86_reg_abcd | RC_x86_reg_byte | RC_x86_xmm | RC_x86_ymm | RC_x86_zmm
  | RC_x86_kreg | RC_riscv_reg | RC_riscv_freg

datatype (plugins only: code size) register_spec = RS_Class register_class | RS_Explicit string

record line_fragment =
  lf_before :: string
  lf_index :: u32
  lf_modifier :: u8

record asm_line =
  al_frags :: "line_fragment list"
  al_trailing :: string

record asm_options =
  ao_pure :: bool
  ao_nomem :: bool
  ao_readonly :: bool
  ao_preserves_flags :: bool
  ao_noreturn :: bool
  ao_nostack :: bool
  ao_att_syntax :: bool

section \<open>Paths\<close>

datatype (plugins only: code size) ('t, 'v) path_params =
  PathParams (pp_lifetimes: "lifetime_ref list") (pp_types: "'t list") (pp_values: "'v list")

datatype (plugins only: code size) ('t, 'v) generic_path =
  GenericPath (gp_path: simple_path) (gp_params: "('t, 'v) path_params")

datatype (plugins only: code size) ('t, 'v) aty_equal =
  AtyEqual (ae_source_trait: "('t, 'v) generic_path") (ae_type: 't)

datatype (plugins only: code size) ('t, 'v, 'g) trait_path =
    TraitPath (tp_hrtbs: "'g option") (tp_path: "('t, 'v) generic_path")
      (tp_type_bounds: "(string \<times> ('t, 'v) aty_equal) list")
      (tp_trait_bounds: "(string \<times> ('t, 'v, 'g) aty_bound) list") (tp_trait_ptr: "nat option")
and ('t, 'v, 'g) aty_bound =
    AtyBound (ab_source_trait: "('t, 'v) generic_path") (ab_traits: "('t, 'v, 'g) trait_path list")

datatype (plugins only: code size) ('t, 'v, 'g) path =
    Path_Generic "('t, 'v) generic_path"
  | Path_UfcsInherent 't string "('t, 'v) path_params" "('t, 'v) path_params"
  | Path_UfcsKnown 't "('t, 'v) generic_path" string "('t, 'v) path_params" "'g option"
  | Path_UfcsUnknown 't string "('t, 'v) path_params"

section \<open>Literals\<close>

datatype (plugins only: code size) ('t, 'v, 'g) reloc =
  Reloc (rl_ofs: u64) (rl_len: u64) (rl_p: "('t, 'v, 'g) path option") (rl_bytes: string)

datatype (plugins only: code size) ('t, 'v, 'g) encoded_literal =
  EncodedLiteral (el_bytes: bytes) (el_relocations: "('t, 'v, 'g) reloc list")

section \<open>MIR\<close>

text \<open>
  The root of an lvalue is one word: the two low bits are its kind, except that a static
  is a tagged pointer to its path (\<open>St_Static\<close>).
\<close>

datatype (plugins only: code size) ('t, 'v, 'g) storage =
    St_Val u64
  | St_Static "('t, 'v, 'g) path"

type_synonym wrapper = u32

datatype (plugins only: code size) ('t, 'v, 'g) lvalue =
  LValue (lv_root: "('t, 'v, 'g) storage") (lv_wrappers: "wrapper list")

datatype (plugins only: code size) ('t, 'v, 'g) mir_constant =
    C_Int s128 core_type
  | C_Uint u128 core_type
  | C_Float u64 core_type
  | C_Bool bool
  | C_Bytes bytes
  | C_StaticString string
  | C_Const "('t, 'v, 'g) path"
  | C_Generic generic_ref
  | C_Function "('t, 'v, 'g) path"
  | C_ItemAddr "('t, 'v, 'g) path option"

datatype (plugins only: code size) ('t, 'v, 'g) param =
    Pm_LValue "('t, 'v, 'g) lvalue"
  | Pm_Borrow borrow_type "('t, 'v, 'g) lvalue"
  | Pm_Constant "('t, 'v, 'g) mir_constant"

datatype (plugins only: code size) 'v array_size = AS_Unevaluated 'v | AS_Known u64

datatype (plugins only: code size) ('t, 'v, 'g) rvalue =
    RV_Use "('t, 'v, 'g) lvalue"
  | RV_Borrow borrow_type "('t, 'v, 'g) lvalue"
  | RV_Constant "('t, 'v, 'g) mir_constant"
  | RV_SizedArray "('t, 'v, 'g) param" "'v array_size"
  | RV_Cast "('t, 'v, 'g) lvalue" 't
  | RV_BinOp "('t, 'v, 'g) param" bin_op "('t, 'v, 'g) param"
  | RV_UniOp "('t, 'v, 'g) lvalue" uni_op
  | RV_DstMeta "('t, 'v, 'g) lvalue"
  | RV_DstPtr "('t, 'v, 'g) lvalue"
  | RV_MakeDst "('t, 'v, 'g) param" "('t, 'v, 'g) param"
  | RV_Tuple "('t, 'v, 'g) param list"
  | RV_Array "('t, 'v, 'g) param list"
  | RV_UnionVariant "('t, 'v) generic_path" u32 "('t, 'v, 'g) param"
  | RV_EnumVariant "('t, 'v) generic_path" u32 "('t, 'v, 'g) param list"
  | RV_Struct "('t, 'v) generic_path" "('t, 'v, 'g) param list"

datatype (plugins only: code size) ('t, 'v, 'g) call_target =
    CLT_Value "('t, 'v, 'g) lvalue"
  | CLT_Path "('t, 'v, 'g) path"
  | CLT_Intrinsic string "('t, 'v) path_params"

datatype (plugins only: code size) switch_values =
    SV_Unsigned "u64 list" | SV_Signed "u64 list" | SV_String "string list" | SV_ByteString "bytes list"

type_synonym basic_block_id = u32

datatype (plugins only: code size) ('t, 'v, 'g) terminator =
    T_Incomplete
  | T_Return
  | T_Diverge
  | T_Goto basic_block_id
  | T_Panic basic_block_id
  | T_If "('t, 'v, 'g) lvalue" basic_block_id basic_block_id
  | T_Switch "('t, 'v, 'g) lvalue" "basic_block_id list"
  | T_SwitchValue "('t, 'v, 'g) lvalue" basic_block_id "basic_block_id list" switch_values
  | T_Call basic_block_id basic_block_id "('t, 'v, 'g) lvalue" "('t, 'v, 'g) call_target"
      "('t, 'v, 'g) param list"

datatype (plugins only: code size) ('t, 'v, 'g) asm_param =
    AP_Const "('t, 'v, 'g) mir_constant"
  | AP_Sym "('t, 'v, 'g) path"
  | AP_Reg asm_direction register_spec "('t, 'v, 'g) param option" "('t, 'v, 'g) lvalue option"

datatype (plugins only: code size) ('t, 'v, 'g) statement =
    S_Assign "('t, 'v, 'g) lvalue" "('t, 'v, 'g) rvalue"
  | S_Asm string "(string \<times> ('t, 'v, 'g) lvalue) list" "(string \<times> ('t, 'v, 'g) lvalue) list"
      "string list" "string list"
  | S_Asm2 asm_options "asm_line list" "('t, 'v, 'g) asm_param list"
  | S_SetDropFlag u32 bool u32
  | S_Drop drop_kind "('t, 'v, 'g) lvalue" u32
  | S_ScopeEnd "u32 list"

datatype (plugins only: code size) ('t, 'v, 'g) basic_block =
  BasicBlock (bb_statements: "('t, 'v, 'g) statement list") (bb_terminator: "('t, 'v, 'g) terminator")

datatype (plugins only: code size) ('t, 'v, 'g) mir_function =
  MirFunction (mf_locals: "'t list") (mf_drop_flags: "bool list")
    (mf_blocks: "('t, 'v, 'g) basic_block list")

datatype (plugins only: code size) ('t, 'v, 'g) expr_ptr =
  ExprPtr (ep_node: "string option") (ep_bindings: "'t list") (ep_erased_types: "'t list")
    (ep_mir: "('t, 'v, 'g) mir_function option")

section \<open>Generic parameters\<close>

datatype (plugins only: code size) 't type_param_def =
  TypeParamDef (tpd_name: string) (tpd_default: 't) (tpd_is_sized: bool)

datatype (plugins only: code size) ('t, 'v, 'g) value_param_def =
  ValueParamDef (vpd_name: string) (vpd_type: 't) (vpd_default: "('t, 'v, 'g) expr_ptr")

datatype (plugins only: code size) ('t, 'v, 'g) generic_bound =
    GB_Lifetime lifetime_ref lifetime_ref
  | GB_TypeLifetime 't lifetime_ref
  | GB_TraitBound "'g option" 't "('t, 'v, 'g) trait_path"
  | GB_TypeEquality 't 't

section \<open>Types\<close>

datatype (plugins only: code size) type_path_binding =
    TPB_Unbound | TPB_Opaque | TPB_ExternType nat | TPB_Struct nat | TPB_Union nat | TPB_Enum nat

datatype (plugins only: code size) named_function_ty =
    NF_Function "nat option" | NF_EnumConstructor nat u64 | NF_StructConstructor nat

datatype (plugins only: code size) ('t, 'v, 'g) erased_inner =
    EI_Fcn "('t, 'v, 'g) path" u32
  | EI_Known 't
  | EI_Alias "('t, 'v) path_params" nat 'g simple_path 't

end
