(* ===== verification/Hir_Types.thy ===== *)
theory Hir_Types
  imports Hir_Data
begin

text \<open>
  \<open>HIR::TypeData\<close> (\<open>src/hir/type_ref.hpp\<close>, \<open>type.hpp\<close>), \<open>HIR::ConstGeneric\<close> and
  \<open>HIR::GenericParams\<close>: the declaration that closes the circle of \<open>Hir_Data\<close>.

  A trait object keeps its principal trait, its markers and its lifetime; an erased type
  keeps whether it is sized, its traits, its lifetimes and what it stands for.  The code
  of a closure or generator and the definition behind a bound path are numbers.
\<close>

datatype (plugins only: code size) type_ref =
    Ty_Infer u32 infer_class
  | Ty_Diverge
  | Ty_Primitive core_type
  | Ty_Path "(type_ref, const_generic, generic_params) path" type_path_binding "generic_params option"
  | Ty_Generic generic_ref
  | Ty_TraitObject "(type_ref, const_generic, generic_params) trait_path"
      "(type_ref, const_generic) generic_path list" lifetime_ref
  | Ty_ErasedType bool "(type_ref, const_generic, generic_params) trait_path list" "lifetime_ref list"
      "(type_ref, const_generic, generic_params) erased_inner"
  | Ty_Array type_ref "const_generic array_size"
  | Ty_Slice type_ref
  | Ty_Tuple "type_ref list"
  | Ty_Borrow lifetime_ref borrow_type type_ref
  | Ty_Pointer borrow_type type_ref
  | Ty_NamedFunction "(type_ref, const_generic, generic_params) path" named_function_ty
  | Ty_Function generic_params bool bool string type_ref "type_ref list"
  | Ty_Closure nat
  | Ty_Generator nat
and const_generic =
    CG_Infer u32
  | CG_Unevaluated "(type_ref, const_generic) path_params" "(type_ref, const_generic) path_params"
      "(type_ref, const_generic, generic_params) expr_ptr"
  | CG_Generic generic_ref
  | CG_Evaluated "(type_ref, const_generic, generic_params) encoded_literal"
and generic_params =
  GenericParams (gps_types: "type_ref type_param_def list") (gps_lifetimes: "lifetime_def list")
    (gps_values: "(type_ref, const_generic, generic_params) value_param_def list")
    (gps_bounds: "(type_ref, const_generic, generic_params) generic_bound list")

type_synonym ty_path = "(type_ref, const_generic, generic_params) path"

end
