(* ===== verification/Mir_LValue.thy ===== *)
theory Mir_LValue
  imports Hir_Types
begin

text \<open>
  \<open>MIR::LValue\<close> of \<open>src/mir/mir.hpp\<close> and \<open>mir.cpp\<close>: the packed words of a storage
  root and of a wrapper, the operations on whole lvalues, and references to a prefix of an
  lvalue (\<open>CRef\<close>, \<open>MRef\<close>).  The second half gives the unpacked form of an lvalue and shows
  that the packed operations implement the operations on it.
\<close>

unbundle bit_operations_syntax

section \<open>LValue::Storage\<close>

definition max_arg :: u64 where "max_arg = 0x3FFFFFFF"

definition new_Return :: "('t, 'v, 'g) storage" where "new_Return = St_Val 0"

text \<open>The sum and the shift are done in \<open>unsigned\<close>, and the result is widened.\<close>

definition new_Argument :: "u32 \<Rightarrow> error + ('t, 'v, 'g) storage" where
  "new_Argument idx =
    (if (ucast idx :: u64) < max_arg then Inr (St_Val (ucast (push_bit 2 (idx + 1))))
     else Inl (Assert_Fail ''idx < MAX_ARG''))"

definition new_Local :: "u32 \<Rightarrow> error + ('t, 'v, 'g) storage" where
  "new_Local idx =
    (if (ucast idx :: u64) \<le> max_arg then Inr (St_Val (ucast (push_bit 2 idx OR 1)))
     else Inl (Assert_Fail ''idx <= MAX_ARG''))"

definition new_Static :: "('t, 'v, 'g) path \<Rightarrow> ('t, 'v, 'g) storage" where "new_Static p = St_Static p"

fun storage_get_inner :: "('t, 'v, 'g) storage \<Rightarrow> error + u64" where
  "storage_get_inner (St_Val v) = Inr v"
| "storage_get_inner (St_Static p) = Inl (Assert_Fail ''!is_Static()'')"

definition storage_from_inner :: "u64 \<Rightarrow> error + ('t, 'v, 'g) storage" where
  "storage_from_inner v = (if v AND 3 < 2 then Inr (St_Val v) else Inl (Assert_Fail ''(v & 3) < 2''))"

datatype stag = STag_Argument | STag_Local | STag_Static | STag_Return | STag_Dead

fun storage_tag :: "('t, 'v, 'g) storage \<Rightarrow> stag" where
  "storage_tag (St_Static p) = STag_Static"
| "storage_tag (St_Val v) =
    (if v = 0 then STag_Return
     else if v AND 3 = 0 then STag_Argument
     else if v AND 3 = 1 then STag_Local
     else if v AND 3 = 2 then STag_Static
     else STag_Return)"

fun is_Return :: "('t, 'v, 'g) storage \<Rightarrow> bool" where
  "is_Return (St_Val v) = (v = 0)" | "is_Return (St_Static p) = False"

fun is_Argument :: "('t, 'v, 'g) storage \<Rightarrow> bool" where
  "is_Argument (St_Val v) = (v \<noteq> 0 \<and> v AND 3 = 0)" | "is_Argument (St_Static p) = False"

fun is_Local :: "('t, 'v, 'g) storage \<Rightarrow> bool" where
  "is_Local (St_Val v) = (v AND 3 = 1)" | "is_Local (St_Static p) = False"

fun is_Static :: "('t, 'v, 'g) storage \<Rightarrow> bool" where
  "is_Static (St_Val v) = (v AND 3 = 2)" | "is_Static (St_Static p) = True"

fun as_Argument :: "('t, 'v, 'g) storage \<Rightarrow> error + u32" where
  "as_Argument (St_Val v) =
    (if is_Argument (St_Val v :: ('t, 'v, 'g) storage) then Inr (ucast (drop_bit 2 v - 1))
     else Inl (Assert_Fail ''is_Argument()''))"
| "as_Argument (St_Static p) = Inl (Assert_Fail ''is_Argument()'')"

fun as_Local :: "('t, 'v, 'g) storage \<Rightarrow> error + u32" where
  "as_Local (St_Val v) =
    (if is_Local (St_Val v :: ('t, 'v, 'g) storage) then Inr (ucast (drop_bit 2 v))
     else Inl (Assert_Fail ''is_Local()''))"
| "as_Local (St_Static p) = Inl (Assert_Fail ''is_Local()'')"

text \<open>\<open>cmp\<close> stands for \<open>HIR::Path::ord\<close>.\<close>

fun storage_ord ::
  "(('t, 'v, 'g) path \<Rightarrow> ('t, 'v, 'g) path \<Rightarrow> Ordering) \<Rightarrow>
   ('t, 'v, 'g) storage \<Rightarrow> ('t, 'v, 'g) storage \<Rightarrow> Ordering" where
  "storage_ord cmp (St_Static p) (St_Static q) = cmp p q"
| "storage_ord cmp (St_Val v) (St_Static q) = OrdLess"
| "storage_ord cmp (St_Static p) (St_Val w) = OrdGreater"
| "storage_ord cmp (St_Val v) (St_Val w) = ord_int v w"

section \<open>LValue::Wrapper\<close>

definition w_Deref :: wrapper where "w_Deref = 0"
definition w_Field :: "u32 \<Rightarrow> wrapper" where "w_Field idx = push_bit 2 idx OR 1"
definition w_Downcast :: "u32 \<Rightarrow> wrapper" where "w_Downcast idx = push_bit 2 idx OR 2"
definition w_Index :: "u32 \<Rightarrow> wrapper" where
  "w_Index idx = (let idx = if idx = -1 then ucast max_arg else idx in push_bit 2 idx OR 3)"

datatype wtag = WTag_Deref | WTag_Field | WTag_Downcast | WTag_Index

definition wrapper_tag :: "wrapper \<Rightarrow> wtag" where
  "wrapper_tag w =
    (if w AND 3 = 0 then WTag_Deref else if w AND 3 = 1 then WTag_Field
     else if w AND 3 = 2 then WTag_Downcast else WTag_Index)"

definition wr_as_Field :: "wrapper \<Rightarrow> error + u32" where
  "wr_as_Field w = (if w AND 3 = 1 then Inr (drop_bit 2 w) else Inl (Assert_Fail ''is_Field()''))"
definition wr_as_Downcast :: "wrapper \<Rightarrow> error + u32" where
  "wr_as_Downcast w = (if w AND 3 = 2 then Inr (drop_bit 2 w) else Inl (Assert_Fail ''is_Downcast()''))"
definition wr_as_Index :: "wrapper \<Rightarrow> error + u32" where
  "wr_as_Index w = (if w AND 3 = 3 then Inr (drop_bit 2 w) else Inl (Assert_Fail ''is_Index()''))"

definition wr_inc_Field :: "wrapper \<Rightarrow> error + wrapper" where
  "wr_inc_Field w = res_bind (wr_as_Field w) (\<lambda>i. Inr (w_Field (i + 1)))"
definition wr_inc_Downcast :: "wrapper \<Rightarrow> error + wrapper" where
  "wr_inc_Downcast w = res_bind (wr_as_Downcast w) (\<lambda>i. Inr (w_Downcast (i + 1)))"

section \<open>LValue\<close>

definition lv_add :: "wrapper \<Rightarrow> ('t, 'v, 'g) lvalue \<Rightarrow> ('t, 'v, 'g) lvalue" where
  "lv_add w lv = LValue (lv_root lv) (lv_wrappers lv @ [w])"

definition lv_new_Deref where "lv_new_Deref lv = lv_add w_Deref lv"
definition lv_new_Field where "lv_new_Field lv idx = lv_add (w_Field idx) lv"
definition lv_new_Downcast where "lv_new_Downcast lv idx = lv_add (w_Downcast idx) lv"
definition lv_new_Index where "lv_new_Index lv idx = lv_add (w_Index idx) lv"

definition lv_is_Return where "lv_is_Return lv = (lv_wrappers lv = [] \<and> is_Return (lv_root lv))"
definition lv_is_Local where "lv_is_Local lv = (lv_wrappers lv = [] \<and> is_Local (lv_root lv))"

definition lv_as_Local :: "('t, 'v, 'g) lvalue \<Rightarrow> error + u32" where
  "lv_as_Local lv =
    (if lv_wrappers lv = [] then as_Local (lv_root lv) else Inl (Assert_Fail ''m_wrappers.empty()''))"

definition lv_last_is :: "wtag \<Rightarrow> ('t, 'v, 'g) lvalue \<Rightarrow> bool" where
  "lv_last_is k lv = (lv_wrappers lv \<noteq> [] \<and> wrapper_tag (last (lv_wrappers lv)) = k)"

definition lv_is_Deref where "lv_is_Deref lv = lv_last_is WTag_Deref lv"
definition lv_is_Field where "lv_is_Field lv = lv_last_is WTag_Field lv"
definition lv_is_Downcast where "lv_is_Downcast lv = lv_last_is WTag_Downcast lv"

definition lv_as_Field :: "('t, 'v, 'g) lvalue \<Rightarrow> error + u32" where
  "lv_as_Field lv =
    (if lv_wrappers lv = [] then Inl (Assert_Fail ''!m_wrappers.empty()'')
     else wr_as_Field (last (lv_wrappers lv)))"

definition lv_inc_Field :: "('t, 'v, 'g) lvalue \<Rightarrow> error + ('t, 'v, 'g) lvalue" where
  "lv_inc_Field lv =
    (if lv_wrappers lv = [] then Inl (Assert_Fail ''m_wrappers.size() > 0'')
     else res_bind (wr_inc_Field (last (lv_wrappers lv)))
       (\<lambda>w. Inr (LValue (lv_root lv) (butlast (lv_wrappers lv) @ [w]))))"

definition lv_inc_Downcast :: "('t, 'v, 'g) lvalue \<Rightarrow> error + ('t, 'v, 'g) lvalue" where
  "lv_inc_Downcast lv =
    (if lv_wrappers lv = [] then Inl (Assert_Fail ''m_wrappers.size() > 0'')
     else res_bind (wr_inc_Downcast (last (lv_wrappers lv)))
       (\<lambda>w. Inr (LValue (lv_root lv) (butlast (lv_wrappers lv) @ [w]))))"

definition lv_ord ::
  "(('t, 'v, 'g) path \<Rightarrow> ('t, 'v, 'g) path \<Rightarrow> Ordering) \<Rightarrow>
   ('t, 'v, 'g) lvalue \<Rightarrow> ('t, 'v, 'g) lvalue \<Rightarrow> Ordering" where
  "lv_ord cmp l x =
    (let rv = storage_ord cmp (lv_root l) (lv_root x)
     in if rv \<noteq> OrdEqual then rv else ord_vector ord_int (lv_wrappers l) (lv_wrappers x))"

definition lv_clone_wrapped :: "('t, 'v, 'g) lvalue \<Rightarrow> wrapper list \<Rightarrow> ('t, 'v, 'g) lvalue" where
  "lv_clone_wrapped lv ws =
    (if lv_wrappers lv = [] then LValue (lv_root lv) ws
     else LValue (lv_root lv) (lv_wrappers lv @ ws))"

definition lv_clone_unwrapped :: "('t, 'v, 'g) lvalue \<Rightarrow> nat \<Rightarrow> error + ('t, 'v, 'g) lvalue" where
  "lv_clone_unwrapped lv count =
    (if \<not> 0 < count then Inl (Assert_Fail ''count > 0'')
     else if \<not> count \<le> length (lv_wrappers lv) then Inl (Assert_Fail ''count <= m_wrappers.size()'')
     else Inr (LValue (lv_root lv) (take (length (lv_wrappers lv) - count) (lv_wrappers lv))))"

text \<open>\<open>std::equal\<close> on the first of two ranges; the second must be as long.\<close>

fun std_equal :: "'a list \<Rightarrow> 'a list \<Rightarrow> bool" where
  "std_equal [] ys = True"
| "std_equal (x # xs) (y # ys) = (x = y \<and> std_equal xs ys)"
| "std_equal (x # xs) [] = False"

definition is_subset_of ::
  "(('t, 'v, 'g) path \<Rightarrow> ('t, 'v, 'g) path \<Rightarrow> Ordering) \<Rightarrow>
   ('t, 'v, 'g) lvalue \<Rightarrow> ('t, 'v, 'g) lvalue \<Rightarrow> bool" where
  "is_subset_of cmp lv other =
    (storage_ord cmp (lv_root lv) (lv_root other) = OrdEqual \<and>
     length (lv_wrappers other) \<ge> length (lv_wrappers lv) \<and>
     std_equal (lv_wrappers lv) (lv_wrappers other))"

definition is_either_subset ::
  "(('t, 'v, 'g) path \<Rightarrow> ('t, 'v, 'g) path \<Rightarrow> Ordering) \<Rightarrow>
   ('t, 'v, 'g) lvalue \<Rightarrow> ('t, 'v, 'g) lvalue \<Rightarrow> bool" where
  "is_either_subset cmp lv other =
    (if storage_ord cmp (lv_root lv) (lv_root other) \<noteq> OrdEqual then False
     else if length (lv_wrappers other) > length (lv_wrappers lv)
     then std_equal (lv_wrappers lv) (lv_wrappers other)
     else std_equal (lv_wrappers other) (lv_wrappers lv))"

section \<open>References to a prefix of an lvalue\<close>

datatype (plugins only: code size) ('t, 'v, 'g) lv_ref =
  LvRef (ref_lv: "('t, 'v, 'g) lvalue") (ref_count: nat)

definition lv_ref :: "('t, 'v, 'g) lvalue \<Rightarrow> nat \<Rightarrow> error + ('t, 'v, 'g) lv_ref" where
  "lv_ref lv wc =
    (if wc \<le> length (lv_wrappers lv) then Inr (LvRef lv wc)
     else Inl (Assert_Fail ''wrapper_count <= lv.m_wrappers.size()''))"

definition cref :: "('t, 'v, 'g) lvalue \<Rightarrow> ('t, 'v, 'g) lv_ref" where
  "cref lv = LvRef lv (length (lv_wrappers lv))"

definition ref_clone :: "('t, 'v, 'g) lv_ref \<Rightarrow> ('t, 'v, 'g) lvalue" where
  "ref_clone r = LValue (lv_root (ref_lv r)) (take (ref_count r) (lv_wrappers (ref_lv r)))"

definition try_unwrap :: "('t, 'v, 'g) lv_ref \<Rightarrow> bool \<times> ('t, 'v, 'g) lv_ref" where
  "try_unwrap r = (if ref_count r = 0 then (False, r) else (True, LvRef (ref_lv r) (ref_count r - 1)))"

definition inner_ref :: "('t, 'v, 'g) lv_ref \<Rightarrow> error + ('t, 'v, 'g) lv_ref" where
  "inner_ref r =
    (if ref_count r > 0 then Inr (LvRef (ref_lv r) (ref_count r - 1))
     else Inl (Assert_Fail ''m_wrapper_count > 0''))"

datatype rtag = RT_Root stag | RT_Wrap wtag

definition ref_tag :: "('t, 'v, 'g) lv_ref \<Rightarrow> rtag" where
  "ref_tag r =
    (if ref_count r = 0 then RT_Root (storage_tag (lv_root (ref_lv r)))
     else RT_Wrap (wrapper_tag (lv_wrappers (ref_lv r) ! (ref_count r - 1))))"

fun ref_ord_from :: "wrapper list \<Rightarrow> wrapper list \<Rightarrow> nat \<Rightarrow> nat \<Rightarrow> Ordering option" where
  "ref_ord_from ws vs i 0 = None"
| "ref_ord_from ws vs i (Suc n) =
    (let rv = ord_int (ws ! i) (vs ! i) in if rv \<noteq> OrdEqual then Some rv else ref_ord_from ws vs (Suc i) n)"

definition ref_ord ::
  "(('t, 'v, 'g) path \<Rightarrow> ('t, 'v, 'g) path \<Rightarrow> Ordering) \<Rightarrow>
   ('t, 'v, 'g) lv_ref \<Rightarrow> ('t, 'v, 'g) lv_ref \<Rightarrow> Ordering" where
  "ref_ord cmp r x =
    (let rv = storage_ord cmp (lv_root (ref_lv r)) (lv_root (ref_lv x))
     in if rv \<noteq> OrdEqual then rv
        else (case ref_ord_from (lv_wrappers (ref_lv r)) (lv_wrappers (ref_lv x)) 0
                     (min (ref_count r) (ref_count x)) of
                Some rv \<Rightarrow> rv
              | None \<Rightarrow> ord_int (ref_count r) (ref_count x)))"

text \<open>\<open>MRef::replace\<close>: the lvalue the reference points into, afterwards.\<close>

definition mref_replace :: "('t, 'v, 'g) lv_ref \<Rightarrow> ('t, 'v, 'g) lvalue \<Rightarrow> ('t, 'v, 'g) lvalue" where
  "mref_replace r x =
    (if ref_count r = 0 \<and> lv_wrappers x = [] then LValue (lv_root x) (lv_wrappers (ref_lv r))
     else
       (let ws = lv_wrappers (ref_lv r);
            x' = (if ref_count r < length ws then LValue (lv_root x) (lv_wrappers x @ drop (ref_count r) ws) else x)
        in x'))"

section \<open>The unpacked form\<close>

datatype 'p lv_view =
    V_Return | V_Argument nat | V_Local nat | V_Static 'p
  | V_Deref "'p lv_view" | V_Field "'p lv_view" nat | V_Downcast "'p lv_view" nat | V_Index "'p lv_view" nat

fun root_view :: "('t, 'v, 'g) storage \<Rightarrow> ('t, 'v, 'g) path lv_view" where
  "root_view (St_Static p) = V_Static p"
| "root_view (St_Val v) =
    (if v = 0 then V_Return
     else if v AND 3 = 0 then V_Argument (unat (drop_bit 2 v) - 1)
     else V_Local (unat (drop_bit 2 v)))"

definition wrap_view :: "'p lv_view \<Rightarrow> wrapper \<Rightarrow> 'p lv_view" where
  "wrap_view x w =
    (case wrapper_tag w of
       WTag_Deref \<Rightarrow> V_Deref x
     | WTag_Field \<Rightarrow> V_Field x (unat (drop_bit 2 w))
     | WTag_Downcast \<Rightarrow> V_Downcast x (unat (drop_bit 2 w))
     | WTag_Index \<Rightarrow> V_Index x (unat (drop_bit 2 w)))"

definition lv_view :: "('t, 'v, 'g) lvalue \<Rightarrow> ('t, 'v, 'g) path lv_view" where
  "lv_view lv = foldl wrap_view (root_view (lv_root lv)) (lv_wrappers lv)"

text \<open>What the constructors make: roots with the kind argument or local, wrappers whose
  deref has no number.\<close>

fun storage_ok :: "('t, 'v, 'g) storage \<Rightarrow> bool" where
  "storage_ok (St_Val v) = (v AND 3 < 2)"
| "storage_ok (St_Static p) = True"

definition wrapper_ok :: "wrapper \<Rightarrow> bool" where "wrapper_ok w = (w AND 3 = 0 \<longrightarrow> w = 0)"

definition lvalue_ok :: "('t, 'v, 'g) lvalue \<Rightarrow> bool" where
  "lvalue_ok lv = (storage_ok (lv_root lv) \<and> list_all wrapper_ok (lv_wrappers lv))"

lemma and_3: "(w :: 'a::len word) AND 3 = take_bit 2 w"
  by (simp add: take_bit_eq_mask mask_eq_exp_minus_1)

lemma tag_bits [simp]:
  "(push_bit 2 i OR 1) AND 3 = (1 :: u32)" "(push_bit 2 i OR 2) AND 3 = (2 :: u32)"
  "(push_bit 2 i OR 3) AND 3 = (3 :: u32)" "push_bit 2 i AND 3 = (0 :: u32)" for i :: u32
  by (simp_all add: and_3 take_bit_or take_bit_push_bit)

lemma drop_2_push_2:
  "take_bit 2 k = k \<Longrightarrow> drop_bit 2 (push_bit 2 i OR k) = take_bit 30 i" for i k :: u32
  by (rule bit_word_eqI) (auto simp: bit_simps dest!: arg_cong [where f = "\<lambda>w. bit w (n + 2)" for n])

lemma payload [simp]:
  "drop_bit 2 (push_bit 2 i OR 1) = take_bit 30 i" "drop_bit 2 (push_bit 2 i OR 2) = take_bit 30 i"
  "drop_bit 2 (push_bit 2 i OR 3) = take_bit 30 i" "drop_bit 2 (push_bit 2 i) = take_bit 30 i" for i :: u32
  using drop_2_push_2 [of 1 i] drop_2_push_2 [of 2 i] drop_2_push_2 [of 3 i] drop_2_push_2 [of 0 i]
  by simp_all

lemma wrapper_word: "push_bit 2 (drop_bit 2 w) OR (w AND 3) = w" for w :: u32
proof -
  have "2 \<le> n \<Longrightarrow> Suc (Suc (n - 2)) = n" for n by simp
  then show ?thesis
    by (intro bit_word_eqI) (auto simp: and_3 bit_simps not_less)
qed

lemma and_3_cases:
  fixes w :: "'a::len word"
  assumes "2 \<le> LENGTH('a)"
  obtains "w AND 3 = 0" | "w AND 3 = 1" | "w AND 3 = 2" | "w AND 3 = 3"
proof -
  have "unat (w AND 3) < 4"
    using take_bit_nat_less_exp [of 2 "unat w"] assms by (simp add: and_3 unsigned_take_bit_eq)
  then have "unat (w AND 3) \<in> {0, 1, 2, 3}" by auto
  then have "word_of_nat (unat (w AND 3)) \<in> (word_of_nat ` {0, 1, 2, 3} :: 'a word set)" by blast
  then show thesis using that by auto
qed

lemma unat_take_bit_30: "unat (take_bit 30 i) = unat i mod 2 ^ 30" for i :: u32
  by (rule trans [OF unsigned_take_bit_eq take_bit_eq_mod])

lemma wrap_view_Deref [simp]: "wrap_view x w_Deref = V_Deref x"
  by (simp add: wrap_view_def w_Deref_def wrapper_tag_def)

lemma wrap_view_Field [simp]: "wrap_view x (w_Field i) = V_Field x (unat i mod 2 ^ 30)"
  by (simp add: wrap_view_def w_Field_def wrapper_tag_def unat_take_bit_30)

lemma wrap_view_Downcast [simp]: "wrap_view x (w_Downcast i) = V_Downcast x (unat i mod 2 ^ 30)"
  by (simp add: wrap_view_def w_Downcast_def wrapper_tag_def unat_take_bit_30)

lemma wrap_view_Index [simp]: "wrap_view x (w_Index i) = V_Index x (unat i mod 2 ^ 30)"
  by (simp add: wrap_view_def w_Index_def wrapper_tag_def unat_take_bit_30 max_arg_def Let_def unsigned_minus_1_eq_mask mask_eq_exp_minus_1)

lemma lv_view_add: "lv_view (lv_add w lv) = wrap_view (lv_view lv) w"
  by (simp add: lv_view_def lv_add_def)

lemmas lv_new_view = lv_new_Deref_def lv_new_Field_def lv_new_Downcast_def lv_new_Index_def lv_view_add

lemma wrapper_ok_new [simp]:
  "wrapper_ok w_Deref" "wrapper_ok (w_Field i)" "wrapper_ok (w_Downcast i)" "wrapper_ok (w_Index i)"
  by (simp_all add: wrapper_ok_def w_Deref_def w_Field_def w_Downcast_def w_Index_def Let_def)

lemma lvalue_ok_add [simp]: "lvalue_ok (lv_add w lv) \<longleftrightarrow> lvalue_ok lv \<and> wrapper_ok w"
  by (auto simp: lvalue_ok_def lv_add_def)

lemma and_3_u32: "w AND 3 = 0 \<or> w AND 3 = 1 \<or> w AND 3 = 2 \<or> w AND 3 = 3" for w :: u32
  by (rule and_3_cases [of w]) simp_all

lemma wrapper_tag_eq: "wrapper_tag w = wrapper_tag v \<longleftrightarrow> w AND 3 = v AND 3"
  using and_3_u32 [of w] and_3_u32 [of v] by (auto simp: wrapper_tag_def split: if_splits)

lemma wrapper_eqI:
  assumes "unat (drop_bit 2 w) = unat (drop_bit 2 v)" "wrapper_tag w = wrapper_tag v"
  shows "w = v"
proof -
  have "drop_bit 2 w = drop_bit 2 v" using assms(1) by (simp only: word_unat_eq_iff)
  moreover have "w AND 3 = v AND 3" using assms(2) by (simp add: wrapper_tag_eq)
  ultimately show ?thesis by (metis wrapper_word)
qed

lemma wrapper_tag_Deref: "wrapper_ok w \<Longrightarrow> wrapper_tag w = WTag_Deref \<Longrightarrow> w = 0"
  by (simp add: wrapper_tag_def wrapper_ok_def split: if_splits)

lemma wrap_view_inj:
  assumes "wrapper_ok w" "wrapper_ok v"
  shows "wrap_view x w = wrap_view y v \<longleftrightarrow> x = y \<and> w = v"
  using wrapper_eqI [of w v] wrapper_tag_Deref [OF assms(1)] wrapper_tag_Deref [OF assms(2)]
  by (cases "wrapper_tag w"; cases "wrapper_tag v") (auto simp: wrap_view_def)

lemma root_not_wrap [simp]: "root_view s \<noteq> wrap_view x w" "wrap_view x w \<noteq> root_view s"
  by (cases s; cases "wrapper_tag w"; simp add: wrap_view_def)+


lemma foldl_wrap_inj:
  assumes "list_all wrapper_ok ws" "list_all wrapper_ok vs"
  shows "foldl wrap_view (root_view r) ws = foldl wrap_view (root_view s) vs \<longleftrightarrow>
    root_view r = root_view s \<and> ws = vs"
  using assms
proof (induction ws arbitrary: vs rule: rev_induct)
  case Nil
  then show ?case by (cases vs rule: rev_cases) simp_all
next
  case (snoc w ws)
  then show ?case by (cases vs rule: rev_cases) (auto simp: wrap_view_inj)
qed

lemma root_view_inj:
  assumes "storage_ok r" "storage_ok s"
  shows "root_view r = root_view s \<longleftrightarrow> r = s"
proof -
  have word: "push_bit 2 (drop_bit 2 w) OR (w AND 3) = w" for w :: u64
  proof -
    have "2 \<le> n \<Longrightarrow> Suc (Suc (n - 2)) = n" for n by simp
    then show ?thesis
      by (intro bit_word_eqI) (auto simp: and_3 bit_simps not_less)
  qed
  have eqI: "v = w" if "unat (drop_bit 2 v) = unat (drop_bit 2 w)" "v AND 3 = w AND 3" for v w :: u64
  proof -
    have "drop_bit 2 v = drop_bit 2 w" using that(1) by (simp only: word_unat_eq_iff)
    then show ?thesis using that(2) by (metis word)
  qed
  have two: "v AND 3 = 0 \<or> v AND 3 = 1" if "v AND 3 < 2" for v :: u64
    using that by (rule_tac and_3_cases [of v]) simp_all
  have pos: "unat (drop_bit 2 v) \<noteq> 0" if "v \<noteq> 0" "v AND 3 = 0" for v :: u64
    using that eqI [of v 0] by auto
  show ?thesis
  proof (cases r)
    case (St_Val v)
    show ?thesis
    proof (cases s)
      case s: (St_Val w)
      then show ?thesis
        using assms St_Val two [of v] two [of w] pos [of v] pos [of w] eqI [of v w] by auto
    qed (use St_Val in simp)
  qed (cases s; simp)
qed

text \<open>The packed form holds exactly what the unpacked form says.\<close>

lemma lv_view_inj:
  assumes "lvalue_ok l" "lvalue_ok x"
  shows "lv_view l = lv_view x \<longleftrightarrow> l = x"
  using assms by (cases l; cases x) (simp add: lv_view_def lvalue_ok_def foldl_wrap_inj root_view_inj)

lemma new_Argument_view:
  assumes "unat idx < 2 ^ 30 - 1"
  shows "\<exists>s. new_Argument idx = Inr s \<and> root_view s = V_Argument (unat idx) \<and>
    as_Argument s = Inr idx \<and> storage_tag s = STag_Argument \<and> storage_ok s"
proof -
  let ?v = "ucast (push_bit 2 (idx + 1) :: u32) :: u64"
  have sum: "unat (idx + 1) = unat idx + 1"
    using assms by (simp add: unat_add_mod)
  have push: "unat (push_bit 2 (idx + 1) :: u32) = 4 * (unat idx + 1)"
    using assms by (simp add: unat_push_bit_mod sum)
  have v: "unat ?v = 4 * (unat idx + 1)"
    using push assms by (simp add: unsigned_ucast_eq take_bit_nat_eq_self)
  have "unat (?v AND 3) = 0"
  proof -
    have "unat (take_bit 2 ?v) = take_bit 2 (4 * (unat idx + 1))"
      by (simp only: unsigned_take_bit_eq v)
    then show ?thesis by (simp only: and_3) (simp add: take_bit_eq_mod)
  qed
  then have z: "?v AND 3 = 0" by (simp add: unat_eq_0)
  have d: "unat (drop_bit 2 ?v) = unat idx + 1"
    by (simp only: unat_drop_bit_div v) simp
  have n: "?v \<noteq> 0" using v by (metis add_is_0 mult_eq_0_iff unat_0 zero_neq_numeral zero_neq_one)
  have "unat (drop_bit 2 ?v - 1) = unat idx"
    using d by (metis add_diff_cancel_right' unat_minus_one add_is_0 one_neq_zero unat_0)
  then have "ucast (drop_bit 2 ?v - 1) = idx"
    by (simp add: word_unat_eq_iff unsigned_ucast_eq take_bit_nat_eq_self)
  moreover have "(ucast idx :: u64) < max_arg"
    using assms by (simp add: word_less_nat_alt max_arg_def unsigned_ucast_eq take_bit_nat_eq_self)
  ultimately show ?thesis
    using z n d by (simp add: new_Argument_def)
qed


lemma new_Local_view:
  assumes "unat idx < 2 ^ 30"
  shows "\<exists>s. new_Local idx = Inr s \<and> root_view s = V_Local (unat idx) \<and>
    as_Local s = Inr idx \<and> storage_tag s = STag_Local \<and> storage_ok s"
proof -
  let ?w = "push_bit 2 idx OR 1 :: u32"
  let ?v = "ucast ?w :: u64"
  have a: "?v AND 3 = 1"
    by (rule bit_word_eqI) (auto simp: and_3 bit_simps bit_1_iff)
  have d: "drop_bit 2 ?v = ucast idx"
  proof (rule bit_word_eqI)
    fix n assume "n < LENGTH(64)"
    have "bit idx n \<Longrightarrow> n < 30"
    proof -
      have "take_bit 30 idx = idx"
        using assms by (simp only: word_unat_eq_iff unat_take_bit_30) simp
      then show "bit idx n \<Longrightarrow> n < 30" by (metis bit_take_bit_iff)
    qed
    then show "bit (drop_bit 2 ?v) n = bit (ucast idx :: u64) n"
      by (auto simp: bit_simps)
  qed
  have n: "?v \<noteq> 0" using a by auto
  have i: "ucast (ucast idx :: u64) = idx" "unat (ucast idx :: u64) = unat idx"
  proof -
    have t: "take_bit 64 (unat idx) = unat idx"
      by (intro take_bit_nat_eq_self less_le_trans [OF unsigned_less [of idx]]) simp
    show "unat (ucast idx :: u64) = unat idx"
      by (simp only: unsigned_ucast_eq) (simp add: t)
    show "ucast (ucast idx :: u64) = idx"
      by (rule bit_word_eqI) (auto simp: bit_simps)
  qed
  have "(ucast idx :: u64) \<le> max_arg"
    using assms by (simp add: word_le_nat_alt max_arg_def i)
  then show ?thesis
    using a d n i by (simp add: new_Local_def)
qed

section \<open>Subsets, references and replacement\<close>

lemma std_equal_prefix: "length xs \<le> length ys \<Longrightarrow> std_equal xs ys \<longleftrightarrow> (\<exists>zs. ys = xs @ zs)"
proof (induction xs arbitrary: ys)
  case (Cons x xs)
  then show ?case by (cases ys) auto
qed simp

lemma ord_vector_int_eq: "ord_vector ord_int ws vs = OrdEqual \<longleftrightarrow> ws = (vs :: wrapper list)"
  by (rule int_vec_ord.equal_iff)

lemma is_subset_of_iff:
  "is_subset_of cmp l x \<longleftrightarrow> (\<exists>ws. lv_ord cmp (lv_clone_wrapped l ws) x = OrdEqual)"
proof -
  have "lv_ord cmp (lv_clone_wrapped l ws) x = OrdEqual \<longleftrightarrow>
      storage_ord cmp (lv_root l) (lv_root x) = OrdEqual \<and> lv_wrappers x = lv_wrappers l @ ws" for ws
    by (auto simp: lv_ord_def lv_clone_wrapped_def Let_def ord_vector_int_eq)
  then show ?thesis
    by (auto simp: is_subset_of_def std_equal_prefix)
qed

lemma is_either_subset_iff:
  assumes "three_way cmp"
  shows "is_either_subset cmp l x \<longleftrightarrow> is_subset_of cmp l x \<or> is_subset_of cmp x l"
proof -
  have "storage_ord cmp r s = OrdEqual \<longleftrightarrow> storage_ord cmp s r = OrdEqual" for r s
    using three_way.equal_sym [OF assms] by (cases r; cases s) (auto simp: ord_int_def split: if_splits)
  then show ?thesis
    by (auto simp: is_either_subset_def is_subset_of_def std_equal_prefix not_less)
qed

lemma ref_ord_from_lex:
  "i + n \<le> length ws \<Longrightarrow> i + n \<le> length vs \<Longrightarrow>
    ref_ord_from ws vs i n =
      (case lex3 ord_int (take n (drop i ws)) (take n (drop i vs)) of OrdEqual \<Rightarrow> None | rv \<Rightarrow> Some rv)"
proof (induction n arbitrary: i)
  case (Suc n)
  then have "drop i ws = ws ! i # drop (Suc i) ws" "drop i vs = vs ! i # drop (Suc i) vs"
    by (simp_all add: Cons_nth_drop_Suc)
  then show ?case
    using Suc by (cases "ord_int (ws ! i) (vs ! i)") simp_all
qed simp

lemma ord_int_Suc [simp]: "ord_int (Suc a) (Suc b) = ord_int a b"
  by (simp add: ord_int_def)

lemma lex3_take:
  "lex3 cmp xs ys =
    (case lex3 cmp (take (min (length xs) (length ys)) xs) (take (min (length xs) (length ys)) ys) of
       OrdEqual \<Rightarrow> ord_int (length xs) (length ys) | rv \<Rightarrow> rv)"
proof (induction xs arbitrary: ys)
  case Nil
  then show ?case by (cases ys) (simp_all add: ord_int_def)
next
  case (Cons x xs)
  show ?case
  proof (cases ys)
    case (Cons y zs)
    then show ?thesis
      using Cons.IH [of zs] by (cases "cmp x y") (simp_all split: Ordering.split)
  qed (simp add: ord_int_def)
qed

text \<open>Comparing two references is comparing the lvalues they denote.\<close>

lemma ref_ord_clone:
  assumes "ref_count r \<le> length (lv_wrappers (ref_lv r))" "ref_count x \<le> length (lv_wrappers (ref_lv x))"
  shows "ref_ord cmp r x = lv_ord cmp (ref_clone r) (ref_clone x)"
proof -
  let ?ws = "lv_wrappers (ref_lv r)" and ?vs = "lv_wrappers (ref_lv x)"
  let ?m = "min (ref_count r) (ref_count x)"
  have "ord_vector ord_int (take (ref_count r) ?ws) (take (ref_count x) ?vs) =
    (case lex3 ord_int (take ?m ?ws) (take ?m ?vs) of
       OrdEqual \<Rightarrow> ord_int (ref_count r) (ref_count x) | rv \<Rightarrow> rv)"
    unfolding ord_vector_lex3
    by (subst lex3_take) (simp add: assms min_absorb2 min.commute min.left_commute split: Ordering.split)
  moreover have "ref_ord_from ?ws ?vs 0 ?m =
    (case lex3 ord_int (take ?m ?ws) (take ?m ?vs) of OrdEqual \<Rightarrow> None | rv \<Rightarrow> Some rv)"
    using assms by (subst ref_ord_from_lex) (auto simp: min_def)
  ultimately show ?thesis
    by (simp add: ref_ord_def lv_ord_def ref_clone_def Let_def split: Ordering.split)
qed

lemma ref_clone_rest:
  "lv_clone_wrapped (ref_clone r) (drop (ref_count r) (lv_wrappers (ref_lv r))) = ref_lv r"
  by (cases r; cases "ref_lv r") (auto simp: lv_clone_wrapped_def ref_clone_def)

text \<open>\<open>replace\<close> puts the new lvalue in the place of the referenced prefix.\<close>

lemma mref_replace_eq:
  assumes "ref_count r \<le> length (lv_wrappers (ref_lv r))"
  shows "mref_replace r x = lv_clone_wrapped x (drop (ref_count r) (lv_wrappers (ref_lv r)))"
  using assms by (cases x) (auto simp: mref_replace_def lv_clone_wrapped_def Let_def)

lemma lv_view_clone_wrapped:
  "lv_view (lv_clone_wrapped lv ws) = foldl wrap_view (lv_view lv) ws"
  by (simp add: lv_view_def lv_clone_wrapped_def)

lemma lv_clone_unwrapped_wrapped:
  "ws \<noteq> [] \<Longrightarrow> lv_clone_unwrapped (lv_clone_wrapped lv ws) (length ws) = Inr lv"
  by (cases lv) (auto simp: lv_clone_unwrapped_def lv_clone_wrapped_def)

end
