(* ===== verification/Fmt.thy ===== *)
theory Fmt
  imports Mir_LValue
begin

text \<open>
  The printers (\<open>operator<<\<close>, \<open>fmt\<close>) of paths, types, constants and MIR, as functions to
  text: \<open>src/hir/type.cpp\<close>, \<open>path.cpp\<close>, \<open>generic_params.cpp\<close>, \<open>generic_ref.hpp\<close>,
  \<open>hir.cpp\<close>, \<open>encoded_literal.hpp\<close>, \<open>asm.hpp\<close>, \<open>src/mir/mir.cpp\<close>, \<open>src/debug.cpp\<close> and
  \<open>src/ast/expr.cpp\<close>.  The text of a type is not only for messages: the metadata writer
  uses it as the key of its cache of types.

  A printer of a structure below types takes a type as the pair of "is it \<open>Infer\<close>" and its
  text, a constant as its text and generic parameters as the text of \<open>fmt_args\<close>; the last
  section ties the knot.  The stream of \<open>FMT\<close> starts in decimal without a width, and every
  printer below that changes the base sets it back.  A type that contains itself (printed
  as \<open>RECURSE\<close>) and a null type (\<open>NULL\<close>) are not values of the model.
\<close>

unbundle bit_operations_syntax

type_synonym tx = "bool \<times> string"

abbreviation quote :: char where "quote \<equiv> CHR 0x22"
abbreviation backslash :: char where "backslash \<equiv> CHR 0x5C"
abbreviation nl :: char where "nl \<equiv> CHR 0x0A"

definition show_hex :: "nat \<Rightarrow> string" where "show_hex n = show_base False 16 n"

definition show_word :: "'a::len word \<Rightarrow> string" where "show_word w = show_nat (unat w)"

text \<open>What a printer that may fail leaves in an empty stream of the given base.\<close>

definition os_text :: "base \<Rightarrow> (ostream \<Rightarrow> error + ostream) \<Rightarrow> string" where
  "os_text b f =
    (case f \<lparr>os_base = b, os_uppercase = False, os_width = 0, os_out = []\<rparr> of
       Inl e \<Rightarrow> [] | Inr os \<Rightarrow> os_out os)"

text \<open>\<open>operator<<\<close> of a vector.\<close>

fun comma_list :: "string list \<Rightarrow> string" where
  "comma_list [] = []"
| "comma_list [x] = x"
| "comma_list (x # y # xs) = x @ '', '' @ comma_list (y # xs)"

definition each :: "('a \<Rightarrow> string) \<Rightarrow> 'a list \<Rightarrow> string" where
  "each f xs = concat (map f xs)"

section \<open>Strings\<close>

text \<open>\<open>FmtEscaped\<close>.  A sequence that is cut short starts over at the byte that broke it.\<close>

definition is_cont :: "char \<Rightarrow> bool" where "is_cont c = ((of_char c :: u8) AND 0xC0 = 0x80)"

definition cont_bits :: "char \<Rightarrow> nat" where "cont_bits c = of_char c mod 64"

definition esc_u :: "nat \<Rightarrow> string" where "esc_u v = backslash # ''u{'' @ show_hex v @ ''}''"

fun fmt_escaped :: "string \<Rightarrow> string" where
  "fmt_escaped [] = []"
| "fmt_escaped (c # s) =
    (let v = of_char c :: nat in
     if v = 0 then backslash # CHR ''0'' # fmt_escaped s
     else if c = nl then backslash # CHR ''n'' # fmt_escaped s
     else if c = backslash then backslash # backslash # fmt_escaped s
     else if c = quote then backslash # quote # fmt_escaped s
     else if v < 0x80 then
       (if v < 0x20 \<or> v > 0x7F then esc_u v else [c]) @ fmt_escaped s
     else if v < 0xC0 then fmt_escaped s
     else if v < 0xE0 then
       (case s of
          c1 # s1 \<Rightarrow>
            if is_cont c1 then esc_u (v mod 32 * 64 + cont_bits c1) @ fmt_escaped s1 else fmt_escaped s
        | [] \<Rightarrow> [])
     else if v < 0xF0 then
       (case s of
          c1 # s1 \<Rightarrow>
            if \<not> is_cont c1 then fmt_escaped s
            else (case s1 of
                c2 # s2 \<Rightarrow>
                  if is_cont c2
                  then esc_u (v mod 16 * 4096 + cont_bits c1 * 64 + cont_bits c2) @ fmt_escaped s2
                  else fmt_escaped s1
              | [] \<Rightarrow> [])
        | [] \<Rightarrow> [])
     else if v < 0xF8 then
       (case s of
          c1 # s1 \<Rightarrow>
            if \<not> is_cont c1 then fmt_escaped s
            else (case s1 of
                c2 # s2 \<Rightarrow>
                  if \<not> is_cont c2 then fmt_escaped s1
                  else (case s2 of
                      c3 # s3 \<Rightarrow>
                        if is_cont c3
                        then esc_u (v mod 8 * 262144 + cont_bits c1 * 4096 + cont_bits c2 * 64 + cont_bits c3)
                             @ fmt_escaped s3
                        else fmt_escaped s2
                    | [] \<Rightarrow> [])
              | [] \<Rightarrow> [])
        | [] \<Rightarrow> [])
     else fmt_escaped s)"

text \<open>
  \<open>print_fmt_string\<close>: a \<open>char\<close> is signed, so a byte from 0x80 on indexes the table of
  digits with a negative number.
\<close>

fun print_fmt_string :: "string \<Rightarrow> error + string" where
  "print_fmt_string [] = Inr []"
| "print_fmt_string (c # s) = res_bind (print_fmt_string s) (\<lambda>t.
    let v = of_char c :: nat in
    if c = CHR ''{'' then Inr (''{{'' @ t)
    else if c = backslash then Inr (backslash # backslash # t)
    else if c = quote then Inr (backslash # quote # t)
    else if v \<ge> 0x80 then Inl (Undefined_Behaviour ''hex[c >> 4]'')
    else if 0x20 \<le> v \<and> v < 0x7F then Inr (c # t)
    else Inr (backslash # CHR ''x'' # digit_char True (v div 16) # digit_char True (v mod 16) # t))"

definition res_text :: "error + string \<Rightarrow> string" where
  "res_text r = (case r of Inl e \<Rightarrow> [] | Inr s \<Rightarrow> s)"

section \<open>References, lifetimes, simple paths\<close>

definition gr_idx :: "generic_ref \<Rightarrow> u32" where "gr_idx g = gr_binding g AND 0xFF"
definition gr_group :: "generic_ref \<Rightarrow> u32" where "gr_group g = drop_bit 8 (gr_binding g)"

definition fmt_generic_ref :: "generic_ref \<Rightarrow> string" where
  "fmt_generic_ref g = gr_name g @ ''/*'' @
    (if gr_binding g = 0xFFFF then ''''
     else if gr_group g = 0 then ''I:'' @ show_word (gr_idx g)
     else if gr_group g = 1 then ''M:'' @ show_word (gr_idx g)
     else if gr_group g = 2 then ''P:'' @ show_word (gr_idx g)
     else if gr_group g = 3 then ''H:'' @ show_word (gr_idx g)
     else show_word (gr_binding g)) @ ''*/''"

definition lifetime_static :: lifetime_ref where "lifetime_static = \<lparr>lr_binding = 0xFFFF\<rparr>"

definition fmt_lifetime_ref :: "lifetime_ref \<Rightarrow> string" where
  "fmt_lifetime_ref x = CHR 0x27 #
    (let b = lr_binding x; k = drop_bit 8 (b AND 0xFF00); i = show_word (b AND 0xFF) in
     if b = 0xFFFD then ''_''
     else if b = 0xFFFE then ''#omitted''
     else if b = 0xFFFF then ''static''
     else if b < 0xFFFF then
       (if k = 0 then ''I'' @ i else if k = 1 then ''M'' @ i
        else if k = 2 then ''P'' @ i else if k = 3 then ''H'' @ i
        else ''unk'' @ show_hex (unat b))
     else if b < 0x80000 then ''#local'' @ show_word (b - 0x10000)
     else ''#ivar'' @ show_word (b - 0x80000))"

fun crate_name :: "simple_path \<Rightarrow> string" where
  "crate_name (SimplePath []) = []" | "crate_name (SimplePath (c # ms)) = c"

fun components :: "simple_path \<Rightarrow> string list" where
  "components (SimplePath ms) = tl ms"

definition fmt_simple_path :: "simple_path \<Rightarrow> string" where
  "fmt_simple_path x =
    (if crate_name x \<noteq> [] then ''::'' @ quote # crate_name x @ [quote]
     else if components x = [] then ''::'' else []) @
    each (\<lambda>n. ''::'' @ n) (components x)"

fun fmt_core_type :: "core_type \<Rightarrow> string" where
  "fmt_core_type CT_Usize = ''usize''" | "fmt_core_type CT_Isize = ''isize''"
| "fmt_core_type CT_U8 = ''u8''" | "fmt_core_type CT_I8 = ''i8''"
| "fmt_core_type CT_U16 = ''u16''" | "fmt_core_type CT_I16 = ''i16''"
| "fmt_core_type CT_U32 = ''u32''" | "fmt_core_type CT_I32 = ''i32''"
| "fmt_core_type CT_U64 = ''u64''" | "fmt_core_type CT_I64 = ''i64''"
| "fmt_core_type CT_U128 = ''u128''" | "fmt_core_type CT_I128 = ''i128''"
| "fmt_core_type CT_F32 = ''f32''" | "fmt_core_type CT_F64 = ''f64''"
| "fmt_core_type CT_Bool = ''bool''" | "fmt_core_type CT_Char = ''char''"
| "fmt_core_type CT_Str = ''str''"

fun fmt_borrow_type :: "borrow_type \<Rightarrow> string" where
  "fmt_borrow_type BT_Owned = ''Owned''" | "fmt_borrow_type BT_Unique = ''Unique''"
| "fmt_borrow_type BT_Shared = ''Shared''"

section \<open>Paths\<close>

fun fmt_path_params :: "(tx, string) path_params \<Rightarrow> string" where
  "fmt_path_params (PathParams ls ts vs) =
    (let has_args = length ls > 0 \<or> length ts > 0 \<or> length vs > 0 in
     (if has_args then ''<'' else []) @
     each (\<lambda>l. fmt_lifetime_ref l @ '','') ls @
     each (\<lambda>t. snd t @ '','') ts @
     each (\<lambda>v. ''{'' @ v @ ''},'') vs @
     (if has_args then ''>'' else []))"

fun fmt_generic_path :: "(tx, string) generic_path \<Rightarrow> string" where
  "fmt_generic_path (GenericPath p pp) = fmt_simple_path p @ fmt_path_params pp"

definition fmt_for :: "string option \<Rightarrow> string" where
  "fmt_for h = (case h of None \<Rightarrow> [] | Some args \<Rightarrow> ''for'' @ args @ '' '')"

fun fmt_aty_equal :: "(tx, string) aty_equal \<Rightarrow> string" where
  "fmt_aty_equal (AtyEqual tr t) = snd t"

primrec fmt_trait_path :: "(tx, string, string) trait_path \<Rightarrow> string"
  and fmt_aty_bound :: "(tx, string, string) aty_bound \<Rightarrow> string \<Rightarrow> string" where
  "fmt_trait_path (TraitPath h p tbs rbs ptr) =
    (let ls = pp_lifetimes (gp_params p); ts = pp_types (gp_params p); vs = pp_values (gp_params p);
         has_args = length ls > 0 \<or> length ts > 0 \<or> length tbs > 0 \<or> length rbs > 0 in
     fmt_for h @ fmt_simple_path (gp_path p) @
     (if has_args then ''<'' else []) @
     each (\<lambda>l. fmt_lifetime_ref l @ '','') ls @
     each (\<lambda>t. snd t @ '','') ts @
     each (\<lambda>v. v @ '','') vs @
     each (\<lambda>(n, ae). n @ ''{'' @ fmt_generic_path (ae_source_trait ae) @ ''}='' @ fmt_aty_equal ae @ '','') tbs @
     concat (map (\<lambda>(n, f). f n) (map (map_prod id fmt_aty_bound) rbs)) @
     (if has_args then ''>'' else []))"
| "fmt_aty_bound (AtyBound tr traits) =
    (\<lambda>n. concat (map (\<lambda>t. n @ ''{'' @ fmt_generic_path tr @ ''}: '' @ t @ '','') (map fmt_trait_path traits)))"

fun fmt_path :: "(tx, string, string) path \<Rightarrow> string" where
  "fmt_path (Path_Generic p) = fmt_generic_path p"
| "fmt_path (Path_UfcsInherent t n pp ip) =
    ''<'' @ snd t @ '' /*- '' @ fmt_path_params ip @ ''*/>::'' @ n @ fmt_path_params pp"
| "fmt_path (Path_UfcsKnown t tr n pp h) =
    ''<'' @ snd t @ '' as '' @ fmt_for h @ fmt_generic_path tr @ ''>::'' @ n @ fmt_path_params pp"
| "fmt_path (Path_UfcsUnknown t n pp) =
    ''<'' @ snd t @ '' as _>::'' @ n @ fmt_path_params pp"

section \<open>Literals\<close>

fun fmt_reloc :: "(tx, string, string) reloc \<Rightarrow> string" where
  "fmt_reloc (Reloc ofs len p bs) =
    ''@0x'' @ show_hex (unat ofs) @ ''+'' @ show_word len @ '' = '' @
    (case p of Some q \<Rightarrow> ''&'' @ fmt_path q | None \<Rightarrow> quote # fmt_escaped bs @ [quote])"

fun fmt_literal_bytes :: "nat \<Rightarrow> bytes \<Rightarrow> string" where
  "fmt_literal_bytes i [] = []"
| "fmt_literal_bytes i (b # bs) =
    digit_char True (unat b div 16) # digit_char True (unat b mod 16) #
    (if (i + 1) mod 8 = 0 \<and> bs \<noteq> [] then '' '' else []) @ fmt_literal_bytes (i + 1) bs"

fun fmt_encoded_literal :: "(tx, string, string) encoded_literal \<Rightarrow> string" where
  "fmt_encoded_literal (EncodedLiteral bs rs) =
    fmt_literal_bytes 0 bs @ ''{'' @ comma_list (map fmt_reloc rs) @ ''}''"

end
