(* ===== verification/Fmt_Mir.thy ===== *)
theory Fmt_Mir
  imports Fmt
begin

text \<open>
  The printers of MIR (\<open>src/mir/mir.cpp\<close>, \<open>src/hir/asm.hpp\<close>) and of types, constants and
  generic parameters (\<open>src/hir/type.cpp\<close>, \<open>hir.cpp\<close>, \<open>generic_params.cpp\<close>), which tie the
  knot.
\<close>

unbundle bit_operations_syntax

section \<open>Constants\<close>

text \<open>\<open>std::hexfloat\<close>: the exact binary value, without trailing zeros of the fraction.\<close>

fun drop_zeros :: "string \<Rightarrow> string" where
  "drop_zeros [] = []"
| "drop_zeros (c # s) = (if c = CHR ''0'' then drop_zeros s else c # s)"

definition hex_fraction :: "nat \<Rightarrow> string" where
  "hex_fraction m =
    (let ds = rev (drop_zeros (rev (map (\<lambda>i. digit_char False (m div 16 ^ (12 - i) mod 16)) [0..<13])))
     in if ds = [] then [] else CHR ''.'' # ds)"

definition fmt_hexfloat :: "u64 \<Rightarrow> string" where
  "fmt_hexfloat b =
    (let e = unat (take_bit 11 (drop_bit 52 b)); m = unat (take_bit 52 b);
         sgn = (if bit b 63 then ''-'' else []); ex = int e - 1023 in
     sgn @
     (if e = 0x7FF then (if m = 0 then ''inf'' else ''nan'')
      else if e = 0 \<and> m = 0 then ''0x0p+0''
      else if e = 0 then ''0x0'' @ hex_fraction m @ ''p-1022''
      else ''0x1'' @ hex_fraction m @ ''p'' @ (if ex < 0 then [] else ''+'') @ show_int ex))"

fun fmt_byte :: "u8 \<Rightarrow> string" where
  "fmt_byte v =
    (if v = 0x5C \<or> v = 0x22 then [backslash, char_of (unat v)]
     else if 0x20 \<le> v \<and> v < 0x7F then [char_of (unat v)]
     else if v < 16 then backslash # ''x0'' @ show_hex (unat v)
     else backslash # ''x'' @ show_hex (unat v))"

fun fmt_mir_constant :: "(tx, string, string) mir_constant \<Rightarrow> string" where
  "fmt_mir_constant (C_Int v t) =
    (if s128_lt v (s128_of_i64 0) then ''-'' else ''+'') @
    os_text Dec (s128_fmt (if s128_lt v (s128_of_i64 0) then s128_neg v else v)) @ '' '' @ fmt_core_type t"
| "fmt_mir_constant (C_Uint v t) = ''0x'' @ os_text Hex (u128_fmt v) @ '' '' @ fmt_core_type t"
| "fmt_mir_constant (C_Float v t) = fmt_hexfloat v @ '' '' @ fmt_core_type t"
| "fmt_mir_constant (C_Bool v) = (if v then ''true'' else ''false'')"
| "fmt_mir_constant (C_Bytes bs) = ''b'' @ quote # each fmt_byte bs @ [quote]"
| "fmt_mir_constant (C_StaticString s) = quote # fmt_escaped s @ [quote]"
| "fmt_mir_constant (C_Const p) = fmt_path p"
| "fmt_mir_constant (C_Generic g) = fmt_generic_ref g"
| "fmt_mir_constant (C_Function p) = ''fn '' @ fmt_path p"
| "fmt_mir_constant (C_ItemAddr p) =
    (case p of Some q \<Rightarrow> ''&'' @ fmt_path q | None \<Rightarrow> ''#UNSIZE_PLACEHOLDER'')"

section \<open>LValues and parameters\<close>

text \<open>A word tagged as a static without being a pointer is not a value of the program.\<close>

fun fmt_storage :: "(tx, string, string) storage \<Rightarrow> string" where
  "fmt_storage (St_Static p) = ''('' @ fmt_path p @ '')''"
| "fmt_storage (St_Val v) =
    (case storage_tag (St_Val v :: (tx, string, string) storage) of
       STag_Return \<Rightarrow> ''retval''
     | STag_Argument \<Rightarrow> ''a'' @ show_word (ucast (drop_bit 2 v - 1) :: u32)
     | STag_Local \<Rightarrow> ''_'' @ show_word (ucast (drop_bit 2 v) :: u32)
     | _ \<Rightarrow> [])"

definition fmt_wrapper :: "wrapper \<Rightarrow> string" where
  "fmt_wrapper w =
    (case wrapper_tag w of
       WTag_Field \<Rightarrow> ''.'' @ show_word (drop_bit 2 w)
     | WTag_Deref \<Rightarrow> ''*''
     | WTag_Index \<Rightarrow> ''[_'' @ show_word (drop_bit 2 w) @ '']''
     | WTag_Downcast \<Rightarrow> ''#'' @ show_word (drop_bit 2 w))"

definition fmt_lv_ref :: "(tx, string, string) lv_ref \<Rightarrow> string" where
  "fmt_lv_ref r = fmt_storage (lv_root (ref_lv r)) @ each fmt_wrapper (take (ref_count r) (lv_wrappers (ref_lv r)))"

definition fmt_lvalue :: "(tx, string, string) lvalue \<Rightarrow> string" where
  "fmt_lvalue lv = fmt_lv_ref (cref lv)"

fun fmt_param :: "(tx, string, string) param \<Rightarrow> string" where
  "fmt_param (Pm_LValue lv) = fmt_lvalue lv"
| "fmt_param (Pm_Borrow bt lv) = ''Borrow('' @ fmt_borrow_type bt @ '', '' @ fmt_lvalue lv @ '')''"
| "fmt_param (Pm_Constant c) = fmt_mir_constant c"

definition fmt_params :: "(tx, string, string) param list \<Rightarrow> string" where
  "fmt_params ps = comma_list (map fmt_param ps)"

fun fmt_array_size :: "string array_size \<Rightarrow> string" where
  "fmt_array_size (AS_Unevaluated v) = v" | "fmt_array_size (AS_Known n) = show_word n"

fun fmt_bin_op :: "bin_op \<Rightarrow> string" where
  "fmt_bin_op BO_ADD = ''ADD''" | "fmt_bin_op BO_SUB = ''SUB''" | "fmt_bin_op BO_MUL = ''MUL''"
| "fmt_bin_op BO_DIV = ''DIV''" | "fmt_bin_op BO_MOD = ''MOD''" | "fmt_bin_op BO_ADD_OV = ''ADD_OV''"
| "fmt_bin_op BO_SUB_OV = ''SUB_OV''" | "fmt_bin_op BO_MUL_OV = ''MUL_OV''"
| "fmt_bin_op BO_DIV_OV = ''DIV_OV''" | "fmt_bin_op BO_BIT_OR = ''BIT_OR''"
| "fmt_bin_op BO_BIT_AND = ''BIT_AND''" | "fmt_bin_op BO_BIT_XOR = ''BIT_XOR''"
| "fmt_bin_op BO_BIT_SHL = ''BIT_SHL''" | "fmt_bin_op BO_BIT_SHR = ''BIT_SHR''"
| "fmt_bin_op BO_EQ = ''EQ''" | "fmt_bin_op BO_NE = ''NE''" | "fmt_bin_op BO_GT = ''GT''"
| "fmt_bin_op BO_GE = ''GE''" | "fmt_bin_op BO_LT = ''LT''" | "fmt_bin_op BO_LE = ''LE''"

fun fmt_uni_op :: "uni_op \<Rightarrow> string" where
  "fmt_uni_op UO_INV = ''INV''" | "fmt_uni_op UO_NEG = ''NEG''"

section \<open>RValues, terminators, statements\<close>

fun fmt_rvalue :: "(tx, string, string) rvalue \<Rightarrow> string" where
  "fmt_rvalue (RV_Use v) = ''Use('' @ fmt_lvalue v @ '')''"
| "fmt_rvalue (RV_Constant c) = ''Constant('' @ fmt_mir_constant c @ '')''"
| "fmt_rvalue (RV_SizedArray v n) = ''SizedArray('' @ fmt_param v @ ''; '' @ fmt_array_size n @ '')''"
| "fmt_rvalue (RV_Borrow bt v) = ''Borrow('' @ fmt_borrow_type bt @ '', '' @ fmt_lvalue v @ '')''"
| "fmt_rvalue (RV_Cast v t) = ''Cast('' @ fmt_lvalue v @ '' as '' @ snd t @ '')''"
| "fmt_rvalue (RV_BinOp l oper r) =
    ''BinOp('' @ fmt_param l @ '' '' @ fmt_bin_op oper @ '' '' @ fmt_param r @ '')''"
| "fmt_rvalue (RV_UniOp v oper) = ''UniOp('' @ fmt_lvalue v @ '' '' @ fmt_uni_op oper @ '')''"
| "fmt_rvalue (RV_DstMeta v) = ''DstMeta('' @ fmt_lvalue v @ '')''"
| "fmt_rvalue (RV_DstPtr v) = ''DstPtr('' @ fmt_lvalue v @ '')''"
| "fmt_rvalue (RV_MakeDst p m) = ''MakeDst('' @ fmt_param p @ '', '' @ fmt_param m @ '')''"
| "fmt_rvalue (RV_Tuple vs) = ''Tuple('' @ fmt_params vs @ '')''"
| "fmt_rvalue (RV_Array vs) = ''Array('' @ fmt_params vs @ '')''"
| "fmt_rvalue (RV_UnionVariant p i v) =
    ''UnionVariant('' @ fmt_generic_path p @ '' #'' @ show_word i @ '', '' @ fmt_param v @ '')''"
| "fmt_rvalue (RV_EnumVariant p i vs) =
    ''Variant('' @ fmt_generic_path p @ '' #'' @ show_word i @ '', {'' @ fmt_params vs @ ''})''"
| "fmt_rvalue (RV_Struct p vs) = ''Struct('' @ fmt_generic_path p @ '', {'' @ fmt_params vs @ ''})''"

definition fmt_bb :: "u32 \<Rightarrow> string" where "fmt_bb b = '' => bb'' @ show_word b @ '', ''"

text \<open>The values of a switch are indexed by its targets; the two lists have one length.\<close>

fun fmt_switch_values :: "switch_values \<Rightarrow> basic_block_id list \<Rightarrow> string" where
  "fmt_switch_values (SV_Unsigned ve) ts = each (\<lambda>(v, b). show_word v @ fmt_bb b) (zip ve ts)"
| "fmt_switch_values (SV_Signed ve) ts =
    each (\<lambda>(v, b). (if sint v \<ge> 0 then ''+'' else []) @ show_int (sint v) @ fmt_bb b) (zip ve ts)"
| "fmt_switch_values (SV_String ve) ts = each (\<lambda>(v, b). quote # v @ quote # fmt_bb b) (zip ve ts)"
| "fmt_switch_values (SV_ByteString ve) ts =
    each (\<lambda>(v, b). CHR ''b'' # quote # comma_list (map (\<lambda>c. [char_of (unat c)]) v) @ quote # fmt_bb b) (zip ve ts)"

fun fmt_call_target :: "(tx, string, string) call_target \<Rightarrow> string" where
  "fmt_call_target (CLT_Value v) = ''('' @ fmt_lvalue v @ '')''"
| "fmt_call_target (CLT_Path p) = fmt_path p"
| "fmt_call_target (CLT_Intrinsic n pp) = quote # n @ quote # ''::'' @ fmt_path_params pp"

fun fmt_terminator :: "(tx, string, string) terminator \<Rightarrow> string" where
  "fmt_terminator T_Incomplete = ''Invalid''"
| "fmt_terminator T_Return = ''Return''"
| "fmt_terminator T_Diverge = ''Diverge''"
| "fmt_terminator (T_Goto b) = ''Goto('' @ show_word b @ '')''"
| "fmt_terminator (T_Panic b) = ''Panic('' @ show_word b @ '';)''"
| "fmt_terminator (T_If c t f) =
    ''If( '' @ fmt_lvalue c @ '' : '' @ show_word t @ '', '' @ show_word f @ '')''"
| "fmt_terminator (T_Switch v ts) =
    ''Switch( '' @ fmt_lvalue v @ '' : '' @
    each (\<lambda>(j, b). show_nat j @ fmt_bb b) (List.enumerate 0 ts) @ '')''"
| "fmt_terminator (T_SwitchValue v d ts vals) =
    ''SwitchValue( '' @ fmt_lvalue v @ '' : '' @ fmt_switch_values vals ts @ ''else bb'' @ show_word d @ '')''"
| "fmt_terminator (T_Call rb pb rv f args) =
    ''Call( '' @ fmt_lvalue rv @ '' = '' @ fmt_call_target f @ ''( '' @
    each (\<lambda>a. fmt_param a @ '', '') args @ ''), bb'' @ show_word rb @ '', bb'' @ show_word pb @ '')''"

fun fmt_asm_direction :: "asm_direction \<Rightarrow> string" where
  "fmt_asm_direction AD_In = ''in''" | "fmt_asm_direction AD_Out = ''out''"
| "fmt_asm_direction AD_LateOut = ''lateout''" | "fmt_asm_direction AD_InOut = ''inout''"
| "fmt_asm_direction AD_InLateOut = ''inlateout''"

fun fmt_register_class :: "register_class \<Rightarrow> string" where
  "fmt_register_class RC_x86_reg = ''reg''" | "fmt_register_class RC_x86_reg_abcd = ''reg_abcd''"
| "fmt_register_class RC_x86_reg_byte = ''reg_byte''" | "fmt_register_class RC_x86_xmm = ''xmm_reg''"
| "fmt_register_class RC_x86_ymm = ''ymm_reg''" | "fmt_register_class RC_x86_zmm = ''zmm_reg''"
| "fmt_register_class RC_x86_kreg = ''kreg''" | "fmt_register_class RC_riscv_reg = ''reg''"
| "fmt_register_class RC_riscv_freg = ''freg''"

fun fmt_register_spec :: "register_spec \<Rightarrow> string" where
  "fmt_register_spec (RS_Class c) = fmt_register_class c"
| "fmt_register_spec (RS_Explicit s) = quote # s @ [quote]"

definition fmt_asm_frag :: "line_fragment \<Rightarrow> string" where
  "fmt_asm_frag f = res_text (print_fmt_string (lf_before f)) @ ''{'' @ show_word (lf_index f) @
    (if lf_modifier f \<noteq> 0 then [CHR '':'', char_of (unat (lf_modifier f))] else []) @ ''}''"

definition fmt_asm_line :: "asm_line \<Rightarrow> string" where
  "fmt_asm_line l = quote # each fmt_asm_frag (al_frags l) @ res_text (print_fmt_string (al_trailing l)) @ [quote]"

definition asm_options_any :: "asm_options \<Rightarrow> bool" where
  "asm_options_any x = (ao_pure x \<or> ao_nomem x \<or> ao_readonly x \<or> ao_preserves_flags x \<or>
    ao_noreturn x \<or> ao_nostack x \<or> ao_att_syntax x)"

definition fmt_asm_options :: "asm_options \<Rightarrow> string" where
  "fmt_asm_options x = ''options('' @
    (if ao_pure x then ''pure,'' else []) @ (if ao_nomem x then ''nomem,'' else []) @
    (if ao_readonly x then ''readonly,'' else []) @
    (if ao_preserves_flags x then ''preserves_flags,'' else []) @
    (if ao_noreturn x then ''noreturn,'' else []) @ (if ao_nostack x then ''nostack,'' else []) @
    (if ao_att_syntax x then ''att_syntax,'' else []) @ '')''"

fun fmt_asm_param :: "(tx, string, string) asm_param \<Rightarrow> string" where
  "fmt_asm_param (AP_Const c) = ''const '' @ fmt_mir_constant c"
| "fmt_asm_param (AP_Sym p) = ''sym '' @ fmt_path p"
| "fmt_asm_param (AP_Reg d s i ou) =
    ''reg '' @ fmt_asm_direction d @ '' '' @ fmt_register_spec s @ '' '' @
    (case i of Some p \<Rightarrow> fmt_param p | None \<Rightarrow> ''_'') @ '' => '' @
    (case ou of Some v \<Rightarrow> fmt_lvalue v | None \<Rightarrow> ''_'')"

definition fmt_asm_spec :: "string \<times> (tx, string, string) lvalue \<Rightarrow> string" where
  "fmt_asm_spec e = quote # fst e @ quote # '' : '' @ fmt_lvalue (snd e) @ '', ''"

definition fmt_asm_lines :: "asm_line list \<Rightarrow> string" where
  "fmt_asm_lines ls = each (\<lambda>(i, l). (if i \<noteq> 0 then '' '' else []) @ fmt_asm_line l) (List.enumerate 0 ls)"

fun fmt_statement :: "(tx, string, string) statement \<Rightarrow> string" where
  "fmt_statement (S_Assign d s) = fmt_lvalue d @ '' = '' @ fmt_rvalue s"
| "fmt_statement (S_Asm tpl os is cl fl) =
    ''('' @ each fmt_asm_spec os @ '') = llvm_asm!('' @ quote # fmt_escaped tpl @ quote # '', input=( '' @
    each fmt_asm_spec is @ ''), clobbers=['' @ comma_list cl @ ''], flags=['' @ comma_list fl @ ''])''"
| "fmt_statement (S_Asm2 opts ls ps) =
    ''asm!('' @ fmt_asm_lines ls @ each (\<lambda>p. '', '' @ fmt_asm_param p) ps @
    (if asm_options_any opts then '', '' @ fmt_asm_options opts else []) @ '')''"
| "fmt_statement (S_SetDropFlag i b oth) =
    ''df$'' @ show_word i @ '' = '' @
    (if oth = -1 then (if b then ''1'' else ''0'') else (if b then ''!'' else []) @ ''df$'' @ show_word oth)"
| "fmt_statement (S_Drop k v i) =
    ''drop('' @ fmt_lvalue v @ (if k = DK_SHALLOW then '' SHALLOW'' else []) @
    (if i \<noteq> -1 then '' IF df$'' @ show_word i else []) @ '')''"
| "fmt_statement (S_ScopeEnd is) = ''ScopeEnd('' @ each (\<lambda>i. ''_$'' @ show_word i @ '','') is @ '')''"

end
