(* ===== verification/Fmt_Types.thy ===== *)
theory Fmt_Types
  imports Fmt_Mir
begin

text \<open>
  The printers of generic parameters, constant generics and types
  (\<open>src/hir/generic_params.cpp\<close>, \<open>hir.cpp\<close>, \<open>type.cpp\<close>), which tie the knot of the
  printers below them.
\<close>

fun fmt_generic_bound :: "(tx, string, string) generic_bound \<Rightarrow> string" where
  "fmt_generic_bound (GB_Lifetime t v) = fmt_lifetime_ref t @ '': '' @ fmt_lifetime_ref v"
| "fmt_generic_bound (GB_TypeLifetime t v) = snd t @ '': '' @ fmt_lifetime_ref v"
| "fmt_generic_bound (GB_TraitBound h t tr) = snd t @ '': '' @ fmt_trait_path tr"
| "fmt_generic_bound (GB_TypeEquality t u) = snd t @ '' = '' @ snd u"

fun fmt_type_param_def :: "tx type_param_def \<Rightarrow> string" where
  "fmt_type_param_def (TypeParamDef n d sized) =
    n @ (if \<not> sized then '': ?Sized'' else []) @ (if \<not> fst d then '' = '' @ snd d else []) @ '',''"

text \<open>\<open>fmt_args\<close> (\<open>PrintArgs\<close>).\<close>

definition fmt_gp_args ::
  "tx type_param_def list \<Rightarrow> lifetime_def list \<Rightarrow> (tx, string, string) value_param_def list \<Rightarrow> string" where
  "fmt_gp_args ts ls vs =
    (if length ls > 0 \<or> length ts > 0 \<or> length vs > 0 then
       ''<'' @ each (\<lambda>l. CHR 0x27 # ld_name l @ '','') ls @
       each fmt_type_param_def ts @
       (if vs \<noteq> [] then ''const '' else []) @
       each (\<lambda>v. vpd_name v @ '': '' @ snd (vpd_type v) @ '','') vs @ ''>''
     else [])"

text \<open>\<open>fmt_bounds\<close> (\<open>PrintBounds\<close>).\<close>

definition fmt_gp_bounds :: "(tx, string, string) generic_bound list \<Rightarrow> string" where
  "fmt_gp_bounds bs = (if bs \<noteq> [] then '' where '' @ comma_list (map fmt_generic_bound bs) else [])"

section \<open>Constants of types\<close>

text \<open>
  An expression: its MIR block by block when there is some, else the text of the dumper
  with newlines as spaces.
\<close>

definition fmt_block :: "nat \<times> (tx, string, string) basic_block \<Rightarrow> string" where
  "fmt_block e = ''bb'' @ show_nat (fst e) @ '':{ '' @
    each (\<lambda>s. fmt_statement s @ ''; '') (bb_statements (snd e)) @ fmt_terminator (bb_terminator (snd e)) @ '' }''"

fun fmt_expr_ptr :: "(tx, string, string) expr_ptr \<Rightarrow> string" where
  "fmt_expr_ptr (ExprPtr n bs es m) =
    (case m of
       Some mir \<Rightarrow> each fmt_block (List.enumerate 0 (mf_blocks mir))
     | None \<Rightarrow> (case n of
                  None \<Rightarrow> ''/*NULL*/''
                | Some txt \<Rightarrow> map (\<lambda>c. if c = nl then CHR '' '' else c) txt))"

definition fmt_unevaluated ::
  "(tx, string) path_params \<Rightarrow> (tx, string) path_params \<Rightarrow> (tx, string, string) expr_ptr \<Rightarrow> string" where
  "fmt_unevaluated pi pp e =
    ''{0='' @ fmt_path_params pi @ ''1='' @ fmt_path_params pp @ ''}'' @ fmt_expr_ptr e"

section \<open>Types\<close>

definition fmt_infer :: "u32 \<Rightarrow> infer_class \<Rightarrow> string" where
  "fmt_infer i c = CHR ''_'' #
    (if i \<noteq> -1 \<or> c \<noteq> IC_None then
       ''/*'' @ (if i \<noteq> -1 then show_word i else []) @
       (case c of IC_None \<Rightarrow> [] | IC_Float \<Rightarrow> '':f'' | IC_Integer \<Rightarrow> '':i'') @ ''*/''
     else [])"

fun fmt_binding :: "type_path_binding \<Rightarrow> string" where
  "fmt_binding TPB_Unbound = ''/*?*/''" | "fmt_binding TPB_Opaque = ''/*O*/''"
| "fmt_binding (TPB_ExternType i) = ''/*X*/''" | "fmt_binding (TPB_Struct i) = ''/*S*/''"
| "fmt_binding (TPB_Union i) = ''/*U*/''" | "fmt_binding (TPB_Enum i) = ''/*E*/''"

text \<open>\<open>e.m_trait.m_path != GenericPath()\<close>: lifetime parameters are not compared.\<close>

definition no_trait :: "('t, 'v, 'g) trait_path \<Rightarrow> bool" where
  "no_trait tp = (sp_members (gp_path (tp_path tp)) = [] \<and>
    pp_types (gp_params (tp_path tp)) = [] \<and> pp_values (gp_params (tp_path tp)) = [])"

definition fmt_trait_object ::
  "(tx, string, string) trait_path \<Rightarrow> (tx, string) generic_path list \<Rightarrow> lifetime_ref \<Rightarrow> string" where
  "fmt_trait_object tr ms l =
    ''dyn ('' @ (if no_trait tr then [] else fmt_trait_path tr) @
    each (\<lambda>m. CHR ''+'' # fmt_generic_path m) ms @
    (if l \<noteq> lifetime_static then CHR ''+'' # fmt_lifetime_ref l else []) @ '')''"

definition fmt_ptr :: "nat \<Rightarrow> string" where
  "fmt_ptr p = (if p = 0 then ''0'' else ''0x'' @ show_hex p)"

fun fmt_erased_inner :: "(tx, string, string) erased_inner \<Rightarrow> string" where
  "fmt_erased_inner (EI_Known t) = ''= '' @ snd t"
| "fmt_erased_inner (EI_Fcn p i) = ''fn '' @ fmt_path p @ ''#'' @ show_word i"
| "fmt_erased_inner (EI_Alias pp a g sp t) = ''type'' @ fmt_path_params pp @ '' '' @ fmt_ptr a"

definition fmt_plus :: "string list \<Rightarrow> string" where
  "fmt_plus xs = each (\<lambda>(i, x). (if i \<noteq> 0 then ''+'' else []) @ x) (List.enumerate 0 xs)"

definition fmt_erased_type ::
  "(tx, string, string) trait_path list \<Rightarrow> lifetime_ref list \<Rightarrow> (tx, string, string) erased_inner \<Rightarrow> string" where
  "fmt_erased_type trs ls i =
    ''impl '' @ fmt_plus (map fmt_trait_path trs) @ each (\<lambda>l. CHR ''+'' # fmt_lifetime_ref l) ls @
    ''/*'' @ fmt_erased_inner i @ ''*/''"

definition fmt_fn_ptr :: "bool \<Rightarrow> string \<Rightarrow> bool \<Rightarrow> bool \<Rightarrow> string \<Rightarrow> string \<Rightarrow> string list \<Rightarrow> string" where
  "fmt_fn_ptr has_lifetimes hrls is_unsafe is_variadic abi ret args =
    (if has_lifetimes then ''for'' @ hrls @ '' '' else []) @
    (if is_unsafe then ''unsafe '' else []) @
    (if abi \<noteq> [] then ''extern '' @ quote # abi @ quote # '' '' else []) @
    ''fn('' @ each (\<lambda>t. t @ '', '') args @ (if is_variadic then ''...'' else []) @ '') -> '' @ ret"

fun is_infer :: "type_ref \<Rightarrow> bool" where
  "is_infer (Ty_Infer i c) = True" | "is_infer _ = False"

primrec fmt_tx :: "type_ref \<Rightarrow> tx"
  and fmt_cg :: "const_generic \<Rightarrow> string"
  and fmt_gp :: "generic_params \<Rightarrow> string" where
  "fmt_tx (Ty_Infer i c) = (True, fmt_infer i c)"
| "fmt_tx Ty_Diverge = (False, ''!'')"
| "fmt_tx (Ty_Primitive c) = (False, fmt_core_type c)"
| "fmt_tx (Ty_Path p b h) = (False, fmt_path (map_path fmt_tx fmt_cg fmt_gp p) @ fmt_binding b)"
| "fmt_tx (Ty_Generic g) = (False, fmt_generic_ref g)"
| "fmt_tx (Ty_TraitObject tr ms l) =
    (False, fmt_trait_object (map_trait_path fmt_tx fmt_cg fmt_gp tr)
      (map (map_generic_path fmt_tx fmt_cg) ms) l)"
| "fmt_tx (Ty_ErasedType sized trs ls i) =
    (False, fmt_erased_type (map (map_trait_path fmt_tx fmt_cg fmt_gp) trs) ls
      (map_erased_inner fmt_tx fmt_cg fmt_gp i))"
| "fmt_tx (Ty_Array t n) =
    (False, ''['' @ snd (fmt_tx t) @ ''; '' @ fmt_array_size (map_array_size fmt_cg n) @ '']'')"
| "fmt_tx (Ty_Slice t) = (False, ''['' @ snd (fmt_tx t) @ '']'')"
| "fmt_tx (Ty_Tuple ts) = (False, ''('' @ each (\<lambda>t. snd t @ '', '') (map fmt_tx ts) @ '')'')"
| "fmt_tx (Ty_Borrow l b t) =
    (False, ''&'' @ fmt_lifetime_ref l @ '' '' @
      (case b of BT_Shared \<Rightarrow> [] | BT_Unique \<Rightarrow> ''mut '' | BT_Owned \<Rightarrow> ''move '') @ snd (fmt_tx t))"
| "fmt_tx (Ty_Pointer b t) =
    (False, (case b of BT_Shared \<Rightarrow> ''*const '' | BT_Unique \<Rightarrow> ''*mut '' | BT_Owned \<Rightarrow> ''*move '') @
      snd (fmt_tx t))"
| "fmt_tx (Ty_NamedFunction p d) =
    (False, ''fn{'' @ (if d = NF_Function None then ''!'' else []) @
      fmt_path (map_path fmt_tx fmt_cg fmt_gp p) @ ''}'')"
| "fmt_tx (Ty_Function h uns var abi ret args) =
    (False, fmt_fn_ptr (gps_lifetimes h \<noteq> []) (fmt_gp h) uns var abi (snd (fmt_tx ret))
      (map snd (map fmt_tx args)))"
| "fmt_tx (Ty_Closure n) = (False, ''closure['' @ fmt_ptr n @ '']'')"
| "fmt_tx (Ty_Generator n) = (False, ''generator['' @ fmt_ptr n @ '']'')"
| "fmt_cg (CG_Infer i) = ''Infer'' @ (if i \<noteq> -1 then ''('' @ show_word i @ '')'' else [])"
| "fmt_cg (CG_Unevaluated pi pp e) =
    ''Unevaluated('' @ fmt_unevaluated (map_path_params fmt_tx fmt_cg pi) (map_path_params fmt_tx fmt_cg pp)
      (map_expr_ptr fmt_tx fmt_cg fmt_gp e) @ '')''"
| "fmt_cg (CG_Generic g) = ''Generic('' @ fmt_generic_ref g @ '')''"
| "fmt_cg (CG_Evaluated l) =
    ''Evaluated('' @ fmt_encoded_literal (map_encoded_literal fmt_tx fmt_cg fmt_gp l) @ '')''"
| "fmt_gp (GenericParams ts ls vs bs) =
    fmt_gp_args (map (map_type_param_def fmt_tx) ts) ls (map (map_value_param_def fmt_tx fmt_cg fmt_gp) vs)"

definition fmt_type :: "type_ref \<Rightarrow> string" where "fmt_type t = snd (fmt_tx t)"

lemma fmt_tx_infer: "fst (fmt_tx t) = is_infer t"
  by (cases t) simp_all

end
