(* ===== verification/Serialise.thy ===== *)
theory Serialise
  imports Wire_Writer Fmt_Types
begin

text \<open>
  Class \<open>HirSerialiser\<close> of \<open>src/hir/serialise.cpp\<close>, up to constants and MIR: containers,
  paths, types with their cache, generic parameters, literals, expressions and MIR.

  A structure below types holds, in the place of each type, constant and set of generic
  parameters, the operation that serialises it; the last section ties the knot.  The tag of
  a variant of a tagged union is its position, from 1 (0 is \<open>TAGDEAD\<close>).  The names that
  \<open>typeid\<close> gives to containers are the implementation's; the code only needs one name per
  type, here \<open>vec:\<close> or \<open>thin:\<close> and the element type.
\<close>

unbundle bit_operations_syntax

section \<open>Enumerations by number\<close>

fun index_of :: "'a list \<Rightarrow> 'a \<Rightarrow> nat" where
  "index_of [] x = 0"
| "index_of (y # ys) x = (if x = y then 0 else Suc (index_of ys x))"

definition core_types :: "core_type list" where
  "core_types = [CT_Usize, CT_Isize, CT_U8, CT_I8, CT_U16, CT_I16, CT_U32, CT_I32, CT_U64, CT_I64,
    CT_U128, CT_I128, CT_F32, CT_F64, CT_Bool, CT_Char, CT_Str]"

definition borrow_types :: "borrow_type list" where "borrow_types = [BT_Shared, BT_Unique, BT_Owned]"

definition bin_ops :: "bin_op list" where
  "bin_ops = [BO_ADD, BO_ADD_OV, BO_SUB, BO_SUB_OV, BO_MUL, BO_MUL_OV, BO_DIV, BO_DIV_OV, BO_MOD,
    BO_BIT_OR, BO_BIT_AND, BO_BIT_XOR, BO_BIT_SHR, BO_BIT_SHL, BO_EQ, BO_NE, BO_GT, BO_GE, BO_LT, BO_LE]"

definition uni_ops :: "uni_op list" where "uni_ops = [UO_INV, UO_NEG]"

definition asm_directions :: "asm_direction list" where
  "asm_directions = [AD_In, AD_Out, AD_LateOut, AD_InOut, AD_InLateOut]"

definition register_classes :: "register_class list" where
  "register_classes = [RC_x86_reg, RC_x86_reg_abcd, RC_x86_reg_byte, RC_x86_xmm, RC_x86_ymm, RC_x86_zmm,
    RC_x86_kreg, RC_riscv_reg, RC_riscv_freg]"

section \<open>Containers\<close>

definition ser_items :: "wact list \<Rightarrow> wact" where
  "ser_items xs = w_seq [write_count (length xs), w_foreach (\<lambda>a. a) xs]"

definition ser_vec :: "string \<Rightarrow> wact list \<Rightarrow> wact" where
  "ser_vec ty xs = in_object (''vec:'' @ ty) [ser_items xs]"

definition ser_thinvec :: "string \<Rightarrow> wact list \<Rightarrow> wact" where
  "ser_thinvec ty xs = in_object (''thin:'' @ ty) [ser_items xs]"

definition ser_set :: "string \<Rightarrow> wact list \<Rightarrow> wact" where
  "ser_set ty xs = in_object (''set:'' @ ty) [ser_items xs]"

definition ser_istr_pair :: "string \<times> wact \<Rightarrow> wact" where
  "ser_istr_pair e = w_seq [write_istring (fst e), snd e]"

definition ser_str_pair :: "string \<times> wact \<Rightarrow> wact" where
  "ser_str_pair e = w_seq [write_string (fst e), snd e]"

text \<open>\<open>serialise_strmap\<close> for keys that are interned strings and for \<open>std::string\<close> keys.\<close>

definition ser_istrmap :: "(string \<times> wact) list \<Rightarrow> wact" where
  "ser_istrmap m = ser_items (map ser_istr_pair m)"

definition ser_strmap :: "(string \<times> wact) list \<Rightarrow> wact" where
  "ser_strmap m = ser_items (map ser_str_pair m)"

text \<open>A pointer that may be null, as a flag and the target.\<close>

definition ser_opt :: "wact option \<Rightarrow> wact" where
  "ser_opt x = w_seq [write_bool (x \<noteq> None), (case x of None \<Rightarrow> w_skip | Some a \<Rightarrow> a)]"

definition write_word_count :: "u32 \<Rightarrow> wact" where "write_word_count v = write_count (unat v)"

section \<open>References and paths\<close>

definition ser_lifetime_def :: "lifetime_def \<Rightarrow> wact" where "ser_lifetime_def ld = write_istring (ld_name ld)"

definition ser_lifetime_ref :: "lifetime_ref \<Rightarrow> wact" where
  "ser_lifetime_ref lr = write_word_count (lr_binding lr)"

text \<open>\<open>write_u16\<close> takes the low half of the 32-bit binding.\<close>

definition ser_generic_ref :: "generic_ref \<Rightarrow> wact" where
  "ser_generic_ref ge = w_seq [write_istring (gr_name ge), write_u16 (ucast (gr_binding ge))]"

fun ser_array_size :: "wact array_size \<Rightarrow> wact" where
  "ser_array_size (AS_Unevaluated se) = w_seq [write_tag 1, se]"
| "ser_array_size (AS_Known se) = w_seq [write_tag 2, write_u64c se]"

fun ser_simple_path :: "simple_path \<Rightarrow> wact" where
  "ser_simple_path (SimplePath ms) = ser_thinvec ''RcString'' (map write_istring ms)"

fun ser_path_params :: "(wact, wact) path_params \<Rightarrow> wact" where
  "ser_path_params (PathParams ls ts vs) = w_seq
    [ser_thinvec ''LifetimeRef'' (map ser_lifetime_ref ls),
     ser_thinvec ''TypeRef'' ts,
     ser_thinvec ''ConstGeneric'' vs]"

fun ser_generic_path :: "(wact, wact) generic_path \<Rightarrow> wact" where
  "ser_generic_path (GenericPath p pp) = w_seq [ser_simple_path p, ser_path_params pp]"

fun ser_aty_equal :: "(wact, wact) aty_equal \<Rightarrow> wact" where
  "ser_aty_equal (AtyEqual tr t) = w_seq [ser_generic_path tr, t]"

primrec ser_trait_path :: "(wact, wact, wact) trait_path \<Rightarrow> wact"
  and ser_aty_bound :: "(wact, wact, wact) aty_bound \<Rightarrow> wact" where
  "ser_trait_path (TraitPath h p tbs rbs ptr) = in_object ''HIR::TraitPath''
    [ser_opt h, ser_generic_path p,
     ser_istrmap (map (map_prod id ser_aty_equal) tbs),
     ser_istrmap (map (map_prod id ser_aty_bound) rbs)]"
| "ser_aty_bound (AtyBound tr traits) = w_seq
    [ser_generic_path tr, ser_vec ''TraitPath'' (map ser_trait_path traits)]"

fun ser_path :: "(wact, wact, wact) path \<Rightarrow> wact" where
  "ser_path (Path_Generic p) = w_seq [write_tag 0, ser_generic_path p]"
| "ser_path (Path_UfcsInherent t n pp ip) =
    w_seq [write_tag 1, t, write_istring n, ser_path_params pp, ser_path_params ip]"
| "ser_path (Path_UfcsKnown t tr n pp h) =
    w_seq [write_tag 2, t, ser_generic_path tr, write_istring n, ser_path_params pp]"
| "ser_path (Path_UfcsUnknown t n pp) = w_fail (Assert_Fail ''Unexpected UfcsUnknown'')"

section \<open>Literals\<close>

fun ser_reloc :: "(wact, wact, wact) reloc \<Rightarrow> wact" where
  "ser_reloc (Reloc ofs len p bs) = w_seq
    [write_count (unat ofs), write_count (unat len),
     (case p of
        Some q \<Rightarrow> w_seq [write_tag 0, ser_path q]
      | None \<Rightarrow> w_seq [write_tag 1, write_string bs])]"

definition ser_bytes :: "bytes \<Rightarrow> wact" where "ser_bytes bs = ser_vec ''uint8_t'' (map write_u8 bs)"

fun ser_encoded_literal :: "(wact, wact, wact) encoded_literal \<Rightarrow> wact" where
  "ser_encoded_literal (EncodedLiteral bs rs) = w_seq [ser_bytes bs, ser_items (map ser_reloc rs)]"

section \<open>MIR\<close>

fun ser_storage :: "(wact, wact, wact) storage \<Rightarrow> wact" where
  "ser_storage (St_Static p) = w_seq [write_count 3, ser_path p]"
| "ser_storage (St_Val v) =
    (if is_Static (St_Val v :: (wact, wact, wact) storage)
     then w_fail (Undefined_Behaviour ''path of a static'') else write_count (unat v))"

fun ser_lvalue :: "(wact, wact, wact) lvalue \<Rightarrow> wact" where
  "ser_lvalue (LValue r ws) = w_seq [ser_storage r, ser_vec ''Wrapper'' (map write_word_count ws)]"

definition ser_core_type :: "core_type \<Rightarrow> wact" where "ser_core_type t = write_tag (index_of core_types t)"

fun ser_mir_constant :: "(wact, wact, wact) mir_constant \<Rightarrow> wact" where
  "ser_mir_constant (C_Int v t) = w_seq [write_tag 1, write_u128 (inner v), ser_core_type t]"
| "ser_mir_constant (C_Uint v t) = w_seq [write_tag 2, write_u128 v, ser_core_type t]"
| "ser_mir_constant (C_Float v t) = w_seq [write_tag 3, write_double v, ser_core_type t]"
| "ser_mir_constant (C_Bool v) = w_seq [write_tag 4, write_bool v]"
| "ser_mir_constant (C_Bytes bs) = w_seq [write_tag 5, write_count (length bs), write_bytes bs]"
| "ser_mir_constant (C_StaticString s) = w_seq [write_tag 6, write_string s]"
| "ser_mir_constant (C_Const p) = w_seq [write_tag 7, ser_path p]"
| "ser_mir_constant (C_Generic g) = w_seq [write_tag 8, ser_generic_ref g]"
| "ser_mir_constant (C_Function p) = w_seq [write_tag 9, ser_path p]"
| "ser_mir_constant (C_ItemAddr p) = w_seq [write_tag 10,
    (case p of Some q \<Rightarrow> ser_path q | None \<Rightarrow> w_fail (Undefined_Behaviour ''null ItemAddr''))]"

definition ser_borrow_type :: "borrow_type \<Rightarrow> wact" where
  "ser_borrow_type b = write_tag (index_of borrow_types b)"

fun ser_param :: "(wact, wact, wact) param \<Rightarrow> wact" where
  "ser_param (Pm_LValue lv) = w_seq [write_tag 1, ser_lvalue lv]"
| "ser_param (Pm_Borrow b lv) = w_seq [write_tag 2, ser_borrow_type b, ser_lvalue lv]"
| "ser_param (Pm_Constant c) = w_seq [write_tag 3, ser_mir_constant c]"

definition ser_params :: "(wact, wact, wact) param list \<Rightarrow> wact" where
  "ser_params ps = ser_vec ''Param'' (map ser_param ps)"

text \<open>The second value of \<open>MakeDst\<close> may be the placeholder that is not written.\<close>

fun is_unsize_placeholder :: "('t, 'v, 'g) param \<Rightarrow> bool" where
  "is_unsize_placeholder (Pm_Constant (C_ItemAddr None)) = True"
| "is_unsize_placeholder _ = False"

definition ser_meta_val :: "(wact, wact, wact) param \<Rightarrow> wact" where
  "ser_meta_val m =
    (let b = \<not> is_unsize_placeholder m in w_seq [write_bool b, if b then ser_param m else w_skip])"

fun ser_rvalue :: "(wact, wact, wact) rvalue \<Rightarrow> wact" where
  "ser_rvalue (RV_Use v) = w_seq [write_tag 1, ser_lvalue v]"
| "ser_rvalue (RV_Borrow b v) = w_seq [write_tag 2, ser_borrow_type b, ser_lvalue v]"
| "ser_rvalue (RV_Constant c) = w_seq [write_tag 3, ser_mir_constant c]"
| "ser_rvalue (RV_SizedArray v n) = w_seq [write_tag 4, ser_param v, ser_array_size n]"
| "ser_rvalue (RV_Cast v t) = w_seq [write_tag 5, ser_lvalue v, t]"
| "ser_rvalue (RV_BinOp l oper r) =
    w_seq [write_tag 6, ser_param l, write_tag (index_of bin_ops oper), ser_param r]"
| "ser_rvalue (RV_UniOp v oper) = w_seq [write_tag 7, ser_lvalue v, write_tag (index_of uni_ops oper)]"
| "ser_rvalue (RV_DstMeta v) = w_seq [write_tag 8, ser_lvalue v]"
| "ser_rvalue (RV_DstPtr v) = w_seq [write_tag 9, ser_lvalue v]"
| "ser_rvalue (RV_MakeDst p m) = w_seq [write_tag 10, ser_param p, ser_meta_val m]"
| "ser_rvalue (RV_Tuple vs) = w_seq [write_tag 11, ser_params vs]"
| "ser_rvalue (RV_Array vs) = w_seq [write_tag 12, ser_params vs]"
| "ser_rvalue (RV_UnionVariant p i v) =
    w_seq [write_tag 13, ser_generic_path p, write_word_count i, ser_param v]"
| "ser_rvalue (RV_EnumVariant p i vs) =
    w_seq [write_tag 14, ser_generic_path p, write_word_count i, ser_params vs]"
| "ser_rvalue (RV_Struct p vs) = w_seq [write_tag 15, ser_generic_path p, ser_params vs]"

fun ser_call_target :: "(wact, wact, wact) call_target \<Rightarrow> wact" where
  "ser_call_target (CLT_Value v) = w_seq [write_tag 1, ser_lvalue v]"
| "ser_call_target (CLT_Path p) = w_seq [write_tag 2, ser_path p]"
| "ser_call_target (CLT_Intrinsic n pp) = w_seq [write_tag 3, write_istring n, ser_path_params pp]"

fun ser_switch_values :: "switch_values \<Rightarrow> wact" where
  "ser_switch_values (SV_Unsigned vs) = w_seq [write_tag 1, ser_vec ''uint64_t'' (map write_u64c vs)]"
| "ser_switch_values (SV_Signed vs) = w_seq [write_tag 2, ser_vec ''int64_t'' (map write_i64c vs)]"
| "ser_switch_values (SV_String vs) = w_seq [write_tag 3, ser_vec ''string'' (map write_string vs)]"
| "ser_switch_values (SV_ByteString vs) = w_seq [write_tag 4, ser_vec ''vector<uint8_t>'' (map ser_bytes vs)]"

definition ser_targets :: "basic_block_id list \<Rightarrow> wact" where
  "ser_targets ts = ser_vec ''unsigned'' (map write_word_count ts)"

fun ser_terminator :: "(wact, wact, wact) terminator \<Rightarrow> wact" where
  "ser_terminator T_Incomplete = w_seq [write_tag 1]"
| "ser_terminator T_Return = w_seq [write_tag 2]"
| "ser_terminator T_Diverge = w_seq [write_tag 3]"
| "ser_terminator (T_Goto b) = w_seq [write_tag 4, write_word_count b]"
| "ser_terminator (T_Panic b) = w_seq [write_tag 5, write_word_count b]"
| "ser_terminator (T_If c t f) = w_seq [write_tag 6, ser_lvalue c, write_word_count t, write_word_count f]"
| "ser_terminator (T_Switch v ts) = w_seq [write_tag 7, ser_lvalue v, ser_targets ts]"
| "ser_terminator (T_SwitchValue v d ts vals) =
    w_seq [write_tag 8, ser_lvalue v, write_word_count d, ser_targets ts, ser_switch_values vals]"
| "ser_terminator (T_Call rb pb rv f args) =
    w_seq [write_tag 9, write_word_count rb, write_word_count pb, ser_lvalue rv, ser_call_target f,
           ser_params args]"

section \<open>Statements, blocks, functions\<close>

definition ser_line_fragment :: "line_fragment \<Rightarrow> wact" where
  "ser_line_fragment l = w_seq
    [write_string (lf_before l), write_word_count (lf_index l), write_i64c (signed_take_bit 7 (ucast (lf_modifier l)))]"

definition ser_asm_line :: "asm_line \<Rightarrow> wact" where
  "ser_asm_line l = w_seq [ser_vec ''LineFragment'' (map ser_line_fragment (al_frags l)), write_string (al_trailing l)]"

fun ser_register_spec :: "register_spec \<Rightarrow> wact" where
  "ser_register_spec (RS_Class c) = w_seq [write_tag 1, write_tag (index_of register_classes c)]"
| "ser_register_spec (RS_Explicit s) = w_seq [write_tag 2, write_string s]"

fun ser_asm_param :: "(wact, wact, wact) asm_param \<Rightarrow> wact" where
  "ser_asm_param (AP_Const c) = w_seq [write_tag 1, ser_mir_constant c]"
| "ser_asm_param (AP_Sym p) = w_seq [write_tag 2, ser_path p]"
| "ser_asm_param (AP_Reg d s i ou) = w_seq
    [write_tag 3, write_tag (index_of asm_directions d), ser_register_spec s,
     ser_opt (map_option ser_param i), ser_opt (map_option ser_lvalue ou)]"

definition flag_bit :: "nat \<Rightarrow> bool \<Rightarrow> 'a::len word" where
  "flag_bit i b = (if b then push_bit i 1 else 0)"

definition ser_asm_options :: "asm_options \<Rightarrow> wact" where
  "ser_asm_options x = write_u16
    (flag_bit 0 (ao_pure x) OR flag_bit 1 (ao_nomem x) OR flag_bit 2 (ao_readonly x) OR
     flag_bit 3 (ao_preserves_flags x) OR flag_bit 4 (ao_noreturn x) OR flag_bit 5 (ao_nostack x) OR
     flag_bit 6 (ao_att_syntax x))"

definition ser_asm_specs :: "(string \<times> (wact, wact, wact) lvalue) list \<Rightarrow> wact" where
  "ser_asm_specs es = ser_vec ''pair<string,LValue>'' (map (ser_str_pair \<circ> map_prod id ser_lvalue) es)"

definition ser_strings :: "string list \<Rightarrow> wact" where "ser_strings ss = ser_vec ''string'' (map write_string ss)"

fun ser_statement_body :: "(wact, wact, wact) statement \<Rightarrow> wact" where
  "ser_statement_body (S_Assign d s) = w_seq [write_tag 0, ser_lvalue d, ser_rvalue s]"
| "ser_statement_body (S_Drop k v i) =
    w_seq [write_tag 1, write_bool (k = DK_DEEP), ser_lvalue v, write_word_count i]"
| "ser_statement_body (S_Asm tpl os is cl fl) =
    w_seq [write_tag 2, write_string tpl, ser_asm_specs os, ser_asm_specs is, ser_strings cl, ser_strings fl]"
| "ser_statement_body (S_SetDropFlag i b oth) =
    w_seq [write_tag 3, write_word_count i, write_bool b, write_word_count oth]"
| "ser_statement_body (S_ScopeEnd is) = w_seq [write_tag 4, ser_vec ''unsigned'' (map write_word_count is)]"
| "ser_statement_body (S_Asm2 opts ls ps) =
    w_seq [write_tag 5, ser_asm_options opts, ser_vec ''Line'' (map ser_asm_line ls),
           ser_vec ''AsmParam'' (map ser_asm_param ps)]"

definition ser_statement :: "(wact, wact, wact) statement \<Rightarrow> wact" where
  "ser_statement s = in_object ''MIR::Statement'' [ser_statement_body s]"

fun ser_basic_block :: "(wact, wact, wact) basic_block \<Rightarrow> wact" where
  "ser_basic_block (BasicBlock ss t) =
    w_seq [ser_vec ''Statement'' (map ser_statement ss), ser_terminator t]"

fun ser_mir_function :: "(wact, wact, wact) mir_function \<Rightarrow> wact" where
  "ser_mir_function (MirFunction ls dfs bs) = w_seq
    [ser_vec ''TypeRef'' ls, ser_vec ''bool'' (map write_bool dfs),
     ser_vec ''BasicBlock'' (map ser_basic_block bs)]"

fun ser_expr_ptr :: "bool \<Rightarrow> (wact, wact, wact) expr_ptr \<Rightarrow> wact" where
  "ser_expr_ptr save_mir (ExprPtr n bs es m) = in_object ''HIR::ExprPtr''
    [ser_opt (if save_mir then map_option ser_mir_function m else None), ser_vec ''TypeRef'' es]"

section \<open>Generic parameters, constants\<close>

fun ser_type_param_def :: "wact type_param_def \<Rightarrow> wact" where
  "ser_type_param_def (TypeParamDef n d sized) = w_seq [write_istring n, d, write_bool sized]"

fun ser_value_param_def :: "(wact, wact, wact) value_param_def \<Rightarrow> wact" where
  "ser_value_param_def (ValueParamDef n t d) = w_seq [write_istring n, t]"

fun ser_generic_bound :: "(wact, wact, wact) generic_bound \<Rightarrow> wact" where
  "ser_generic_bound (GB_Lifetime t v) = w_seq [write_tag 0, ser_lifetime_ref t, ser_lifetime_ref v]"
| "ser_generic_bound (GB_TypeLifetime t v) = w_seq [write_tag 1, t, ser_lifetime_ref v]"
| "ser_generic_bound (GB_TraitBound h t tr) = w_seq [write_tag 2, ser_opt h, t, ser_trait_path tr]"
| "ser_generic_bound (GB_TypeEquality t u) = w_seq [write_tag 3, t, u]"

definition ser_generics_of ::
  "wact type_param_def list \<Rightarrow> lifetime_def list \<Rightarrow> (wact, wact, wact) value_param_def list \<Rightarrow>
   (wact, wact, wact) generic_bound list \<Rightarrow> wact" where
  "ser_generics_of ts ls vs bs = w_seq
    [ser_vec ''TypeParamDef'' (map ser_type_param_def ts),
     ser_vec ''ValueParamDef'' (map ser_value_param_def vs),
     ser_vec ''LifetimeDef'' (map ser_lifetime_def ls),
     ser_vec ''GenericBound'' (map ser_generic_bound bs)]"

definition ser_unevaluated ::
  "(wact, wact) path_params \<Rightarrow> (wact, wact) path_params \<Rightarrow> (wact, wact, wact) expr_ptr \<Rightarrow> wact" where
  "ser_unevaluated pi pp e = w_seq
    [w_assert (ep_mir e \<noteq> None) ''Encountered non-translated value in ConstGeneric'',
     ser_path_params pi, ser_path_params pp, ser_expr_ptr True e]"

section \<open>Types\<close>

text \<open>
  \<open>serialise_type\<close>: the text of the type, without what an opening brace encloses, is the
  key of the cache.  A type that is not in it is written in full and then entered, by
  \<open>std::map::insert\<close>, under the number of entries there are by then.
\<close>

definition strip_key :: "string \<Rightarrow> string" where
  "strip_key s =
    (case s of
       [] \<Rightarrow> []
     | c # r \<Rightarrow>
         if c = CHR ''{'' then
           (case dropWhile (\<lambda>d. d \<noteq> CHR ''}'') s of [] \<Rightarrow> s | d # r' \<Rightarrow> r')
         else s)"

definition types_insert :: "string \<Rightarrow> wact" where
  "types_insert key = (\<lambda>s.
    Inr (if map_of (w_types s) key \<noteq> None then s
         else s\<lparr>w_types := w_types s @ [(key, length (w_types s))]\<rparr>))"

definition ser_cached :: "string \<Rightarrow> wact \<Rightarrow> wact" where
  "ser_cached key body = (\<lambda>s.
    case map_of (w_types s) key of
      Some i \<Rightarrow> write_count i s
    | None \<Rightarrow> w_seq [write_count 0xFFFFFFFF, in_object ''HIR::TypeData'' [body, types_insert key]] s)"

primrec ser_type :: "type_ref \<Rightarrow> wact"
  and ser_const_generic :: "const_generic \<Rightarrow> wact"
  and ser_generics :: "generic_params \<Rightarrow> wact" where
  "ser_type (Ty_Infer i c) = ser_cached (strip_key (fmt_type (Ty_Infer i c))) (write_tag 1)"
| "ser_type Ty_Diverge = ser_cached (strip_key (fmt_type Ty_Diverge)) (write_tag 2)"
| "ser_type (Ty_Primitive c) = ser_cached (strip_key (fmt_type (Ty_Primitive c)))
    (w_seq [write_tag 3, ser_core_type c])"
| "ser_type (Ty_Path p b h) = ser_cached (strip_key (fmt_type (Ty_Path p b h)))
    (w_seq [write_tag 4, ser_path (map_path ser_type ser_const_generic ser_generics p),
            ser_opt (map_option ser_generics h)])"
| "ser_type (Ty_Generic g) = ser_cached (strip_key (fmt_type (Ty_Generic g)))
    (w_seq [write_tag 5, ser_generic_ref g])"
| "ser_type (Ty_TraitObject tr ms l) = ser_cached (strip_key (fmt_type (Ty_TraitObject tr ms l)))
    (w_seq [write_tag 6, ser_trait_path (map_trait_path ser_type ser_const_generic ser_generics tr),
            ser_vec ''GenericPath'' (map ser_generic_path (map (map_generic_path ser_type ser_const_generic) ms)),
            ser_lifetime_ref l])"
| "ser_type (Ty_ErasedType sized trs ls i) = ser_cached (strip_key (fmt_type (Ty_ErasedType sized trs ls i)))
    (w_seq [write_tag 7, w_fail (Todo ''Serialse ErasedType?'')])"
| "ser_type (Ty_Array t n) = ser_cached (strip_key (fmt_type (Ty_Array t n)))
    (w_seq [write_tag 8, ser_type t, ser_array_size (map_array_size ser_const_generic n)])"
| "ser_type (Ty_Slice t) = ser_cached (strip_key (fmt_type (Ty_Slice t)))
    (w_seq [write_tag 9, ser_type t])"
| "ser_type (Ty_Tuple ts) = ser_cached (strip_key (fmt_type (Ty_Tuple ts)))
    (w_seq [write_tag 10, ser_vec ''TypeRef'' (map ser_type ts)])"
| "ser_type (Ty_Borrow l b t) = ser_cached (strip_key (fmt_type (Ty_Borrow l b t)))
    (w_seq [write_tag 11, ser_lifetime_ref l, ser_borrow_type b, ser_type t])"
| "ser_type (Ty_Pointer b t) = ser_cached (strip_key (fmt_type (Ty_Pointer b t)))
    (w_seq [write_tag 12, ser_borrow_type b, ser_type t])"
| "ser_type (Ty_NamedFunction p d) = ser_cached (strip_key (fmt_type (Ty_NamedFunction p d)))
    (w_seq [write_tag 13, ser_path (map_path ser_type ser_const_generic ser_generics p)])"
| "ser_type (Ty_Function h uns var abi ret args) =
    ser_cached (strip_key (fmt_type (Ty_Function h uns var abi ret args)))
    (w_seq [write_tag 14, ser_generics h, write_bool uns, write_bool var, write_istring abi, ser_type ret,
            ser_vec ''TypeRef'' (map ser_type args)])"
| "ser_type (Ty_Closure n) = ser_cached (strip_key (fmt_type (Ty_Closure n)))
    (w_seq [write_tag 15, w_fail (Bug ''Encountered invalid type when serialising'')])"
| "ser_type (Ty_Generator n) = ser_cached (strip_key (fmt_type (Ty_Generator n)))
    (w_seq [write_tag 16, w_fail (Bug ''Encountered invalid type when serialising'')])"
| "ser_const_generic (CG_Infer i) = w_seq [write_tag 1]"
| "ser_const_generic (CG_Unevaluated pi pp e) = w_seq [write_tag 2, ser_unevaluated
    (map_path_params ser_type ser_const_generic pi) (map_path_params ser_type ser_const_generic pp)
    (map_expr_ptr ser_type ser_const_generic ser_generics e)]"
| "ser_const_generic (CG_Generic g) = w_seq [write_tag 3, ser_generic_ref g]"
| "ser_const_generic (CG_Evaluated l) = w_seq
    [write_tag 4, ser_encoded_literal (map_encoded_literal ser_type ser_const_generic ser_generics l)]"
| "ser_generics (GenericParams ts ls vs bs) = ser_generics_of
    (map (map_type_param_def ser_type) ts) ls
    (map (map_value_param_def ser_type ser_const_generic ser_generics) vs)
    (map (map_generic_bound ser_type ser_const_generic ser_generics) bs)"

end
