(* ===== verification/Deserialise.thy ===== *)
theory Deserialise
  imports Wire_Reader Serialise
begin

text \<open>
  Class \<open>HirDeserialiser\<close> of \<open>src/hir/deserialise.cpp\<close>, up to constants and MIR: the reader
  that belongs to \<open>Serialise\<close>.

  A reader of a structure below types takes the readers of types (\<open>dt\<close>), constants (\<open>dv\<close>)
  and generic parameters (\<open>dg\<close>).  The last section ties the knot; as the nesting of what
  is read is not known in advance, the recursive readers take the number of levels they
  may still open (\<open>Out_Of_Fuel\<close> when there are none left).

  \<open>static_cast\<close> to an enumeration accepts any number.  A number without an enumerator is no
  value of the model, so reading one is an error here (\<open>Bug\<close>); every tag of a tagged union
  is checked by the code.
\<close>

unbundle bit_operations_syntax

section \<open>Sequencing\<close>

definition rlift2 :: "('a \<Rightarrow> 'b \<Rightarrow> 'r) \<Rightarrow> ('s, 'a) rd \<Rightarrow> ('s, 'b) rd \<Rightarrow> ('s, 'r) rd" where
  "rlift2 f a b = rbind a (\<lambda>x. rmap (f x) b)"

definition rlift3 ::
  "('a \<Rightarrow> 'b \<Rightarrow> 'c \<Rightarrow> 'r) \<Rightarrow> ('s, 'a) rd \<Rightarrow> ('s, 'b) rd \<Rightarrow> ('s, 'c) rd \<Rightarrow> ('s, 'r) rd" where
  "rlift3 f a b c = rbind a (\<lambda>x. rlift2 (f x) b c)"

definition rlift4 ::
  "('a \<Rightarrow> 'b \<Rightarrow> 'c \<Rightarrow> 'd \<Rightarrow> 'r) \<Rightarrow> ('s, 'a) rd \<Rightarrow> ('s, 'b) rd \<Rightarrow> ('s, 'c) rd \<Rightarrow> ('s, 'd) rd \<Rightarrow> ('s, 'r) rd" where
  "rlift4 f a b c d = rbind a (\<lambda>x. rlift3 (f x) b c d)"

definition rlift5 ::
  "('a \<Rightarrow> 'b \<Rightarrow> 'c \<Rightarrow> 'd \<Rightarrow> 'e \<Rightarrow> 'r) \<Rightarrow> ('s, 'a) rd \<Rightarrow> ('s, 'b) rd \<Rightarrow> ('s, 'c) rd \<Rightarrow> ('s, 'd) rd \<Rightarrow>
   ('s, 'e) rd \<Rightarrow> ('s, 'r) rd" where
  "rlift5 f a b c d e = rbind a (\<lambda>x. rlift4 (f x) b c d e)"

definition rlift6 ::
  "('a \<Rightarrow> 'b \<Rightarrow> 'c \<Rightarrow> 'd \<Rightarrow> 'e \<Rightarrow> 'f \<Rightarrow> 'r) \<Rightarrow> ('s, 'a) rd \<Rightarrow> ('s, 'b) rd \<Rightarrow> ('s, 'c) rd \<Rightarrow> ('s, 'd) rd \<Rightarrow>
   ('s, 'e) rd \<Rightarrow> ('s, 'f) rd \<Rightarrow> ('s, 'r) rd" where
  "rlift6 f a b c d e g = rbind a (\<lambda>x. rlift5 (f x) b c d e g)"

text \<open>A \<open>switch\<close> over the tag that is read next.\<close>

definition des_switch :: "string \<Rightarrow> (nat \<times> ('s, 'a) rd) list \<Rightarrow> ('s, 'a) rd" where
  "des_switch what alts = rbind read_tag (\<lambda>t.
     case map_of alts t of Some d \<Rightarrow> d | None \<Rightarrow> rfail (Bug (''Bad tag for '' @ what)))"

definition des_enum :: "'a list \<Rightarrow> ('s, 'a) rd" where
  "des_enum xs = rbind read_tag (\<lambda>t.
     if t < length xs then rret (xs ! t) else rfail (Bug ''no enumerator has this number''))"

section \<open>Containers\<close>

definition read_word_count :: "('s, 'w::len word) rd" where "read_word_count = rmap word_of_nat read_count"

definition des_items :: "('s, 'a) rd \<Rightarrow> ('s, 'a list) rd" where
  "des_items d = rbind read_count (\<lambda>n. read_times n d)"

definition des_vec :: "string \<Rightarrow> ('s, 'a) rd \<Rightarrow> ('s, 'a list) rd" where
  "des_vec ty d = r_in_object (''vec:'' @ ty) (des_items d)"

definition des_thinvec :: "string \<Rightarrow> ('s, 'a) rd \<Rightarrow> ('s, 'a list) rd" where
  "des_thinvec ty d = r_in_object (''thin:'' @ ty) (des_items d)"

definition des_pair :: "('s, 'a) rd \<Rightarrow> ('s, 'b) rd \<Rightarrow> ('s, 'a \<times> 'b) rd" where "des_pair a b = rlift2 Pair a b"

text \<open>A \<open>std::map\<close> is filled with \<open>insert\<close>, entry by entry.\<close>

definition map_of_entries :: "('k \<Rightarrow> 'k \<Rightarrow> Ordering) \<Rightarrow> ('k \<times> 'v) list \<Rightarrow> ('k \<times> 'v) list" where
  "map_of_entries cmp es = fold (\<lambda>e m. map_insert cmp (fst e) (snd e) m) es []"

definition des_istrmap :: "('s, 'a) rd \<Rightarrow> ('s, (string \<times> 'a) list) rd" where
  "des_istrmap d = rmap (map_of_entries ord_string) (des_items (des_pair read_istring d))"

definition des_strmap :: "('s, 'a) rd \<Rightarrow> ('s, (string \<times> 'a) list) rd" where
  "des_strmap d = rmap (map_of_entries ord_string) (des_items (des_pair read_string d))"

definition des_opt :: "('s, 'a) rd \<Rightarrow> ('s, 'a option) rd" where
  "des_opt d = rbind read_bool (\<lambda>b. if b then rmap Some d else rret None)"

section \<open>References and paths\<close>

definition des_lifetime_def :: "('s, lifetime_def) rd" where
  "des_lifetime_def = rmap (\<lambda>n. \<lparr>ld_name = n\<rparr>) read_istring"

definition des_lifetime_ref :: "('s, lifetime_ref) rd" where
  "des_lifetime_ref = rmap (\<lambda>b. \<lparr>lr_binding = b\<rparr>) read_word_count"

definition des_generic_ref :: "('s, generic_ref) rd" where
  "des_generic_ref = rlift2 (\<lambda>n b. \<lparr>gr_name = n, gr_binding = ucast b\<rparr>) read_istring read_u16"

definition des_array_size :: "('s, 'v) rd \<Rightarrow> ('s, 'v array_size) rd" where
  "des_array_size dv = des_switch ''HIR::ArraySize''
    [(2, rmap AS_Known read_u64c), (1, rmap AS_Unevaluated dv)]"

fun update_crate_name :: "string \<Rightarrow> simple_path \<Rightarrow> simple_path" where
  "update_crate_name v (SimplePath []) = SimplePath [v]"
| "update_crate_name v (SimplePath (m # ms)) =
    (if v = [] \<and> ms = [] then SimplePath [] else SimplePath (v # ms))"

definition des_simple_path :: "('s, simple_path) rd" where
  "des_simple_path = rbind (des_thinvec ''RcString'' read_istring) (\<lambda>ms r.
     let rv = SimplePath ms
     in if crate_name rv = [] \<and> length (components rv) > 0 then
          (if r_crate_name r = [] then Inl (Assert_Fail ''m_crate_name != \"\"'')
           else Inr (update_crate_name (r_crate_name r) rv, r))
        else Inr (rv, r))"

definition des_path_params :: "('s, 't) rd \<Rightarrow> ('s, 'v) rd \<Rightarrow> ('s, ('t, 'v) path_params) rd" where
  "des_path_params dt dv = rlift3 PathParams
    (des_thinvec ''LifetimeRef'' des_lifetime_ref) (des_thinvec ''TypeRef'' dt) (des_thinvec ''ConstGeneric'' dv)"

definition des_generic_path :: "('s, 't) rd \<Rightarrow> ('s, 'v) rd \<Rightarrow> ('s, ('t, 'v) generic_path) rd" where
  "des_generic_path dt dv = rlift2 GenericPath des_simple_path (des_path_params dt dv)"

definition des_aty_equal :: "('s, 't) rd \<Rightarrow> ('s, 'v) rd \<Rightarrow> ('s, ('t, 'v) aty_equal) rd" where
  "des_aty_equal dt dv = rlift2 AtyEqual (des_generic_path dt dv) dt"

definition des_aty_bound ::
  "('s, 't) rd \<Rightarrow> ('s, 'v) rd \<Rightarrow> ('s, ('t, 'v, 'g) trait_path) rd \<Rightarrow> ('s, ('t, 'v, 'g) aty_bound) rd" where
  "des_aty_bound dt dv dtp = rlift2 AtyBound (des_generic_path dt dv) (des_vec ''TraitPath'' dtp)"

fun des_trait_path ::
  "nat \<Rightarrow> ('s, 't) rd \<Rightarrow> ('s, 'v) rd \<Rightarrow> ('s, 'g) rd \<Rightarrow> ('s, ('t, 'v, 'g) trait_path) rd" where
  "des_trait_path 0 dt dv dg = rfail Out_Of_Fuel"
| "des_trait_path (Suc f) dt dv dg = r_in_object ''HIR::TraitPath''
    (rlift4 (\<lambda>hrls gpath tys bounds. TraitPath hrls gpath tys bounds None)
      (des_opt dg) (des_generic_path dt dv)
      (des_istrmap (des_aty_equal dt dv))
      (des_istrmap (des_aty_bound dt dv (des_trait_path f dt dv dg))))"

definition des_path :: "('s, 't) rd \<Rightarrow> ('s, 'v) rd \<Rightarrow> ('s, ('t, 'v, 'g) path) rd" where
  "des_path dt dv = des_switch ''HIR::Path''
    [(0, rmap Path_Generic (des_generic_path dt dv)),
     (1, rlift4 Path_UfcsInherent dt read_istring (des_path_params dt dv) (des_path_params dt dv)),
     (2, rlift4 (\<lambda>t tr n pp. Path_UfcsKnown t tr n pp None)
           dt (des_generic_path dt dv) read_istring (des_path_params dt dv))]"

section \<open>Literals\<close>

definition des_reloc :: "('s, 't) rd \<Rightarrow> ('s, 'v) rd \<Rightarrow> ('s, ('t, 'v, 'g) reloc) rd" where
  "des_reloc dt dv = rbind read_word_count (\<lambda>ofs. rbind read_word_count (\<lambda>len. rbind read_tag (\<lambda>t.
     if t = 0 then rmap (\<lambda>p. Reloc ofs len (Some p) []) (des_path dt dv)
     else if t = 1 then rmap (\<lambda>bs. Reloc ofs len None bs) read_string
     else rfail (Runtime_Error ''abort''))))"

definition des_bytes :: "('s, bytes) rd" where "des_bytes = des_vec ''uint8_t'' read_u8"

definition des_encoded_literal :: "('s, 't) rd \<Rightarrow> ('s, 'v) rd \<Rightarrow> ('s, ('t, 'v, 'g) encoded_literal) rd" where
  "des_encoded_literal dt dv = rlift2 EncodedLiteral des_bytes (des_items (des_reloc dt dv))"

section \<open>MIR\<close>

definition des_storage :: "('s, 't) rd \<Rightarrow> ('s, 'v) rd \<Rightarrow> ('s, ('t, 'v, 'g) storage) rd" where
  "des_storage dt dv = rbind read_count (\<lambda>root_v.
     if root_v = 3 then rmap new_Static (des_path dt dv)
     else (\<lambda>r. res_bind (storage_from_inner (word_of_nat root_v)) (\<lambda>s. Inr (s, r))))"

definition des_lvalue :: "('s, 't) rd \<Rightarrow> ('s, 'v) rd \<Rightarrow> ('s, ('t, 'v, 'g) lvalue) rd" where
  "des_lvalue dt dv = rlift2 LValue (des_storage dt dv) (des_vec ''Wrapper'' read_word_count)"

definition des_core_type :: "('s, core_type) rd" where "des_core_type = des_enum core_types"
definition des_borrow_type :: "('s, borrow_type) rd" where "des_borrow_type = des_enum borrow_types"

definition des_mir_constant :: "('s, 't) rd \<Rightarrow> ('s, 'v) rd \<Rightarrow> ('s, ('t, 'v, 'g) mir_constant) rd" where
  "des_mir_constant dt dv = des_switch ''MIR::Const''
    [(1, rlift2 C_Int read_i128 des_core_type),
     (2, rlift2 C_Uint read_u128 des_core_type),
     (3, rlift2 C_Float read_double des_core_type),
     (4, rmap C_Bool read_bool),
     (5, rmap C_Bytes (rbind read_count read_bytes)),
     (6, rmap C_StaticString read_string),
     (7, rmap C_Const (des_path dt dv)),
     (8, rmap C_Generic des_generic_ref),
     (9, rmap C_Function (des_path dt dv)),
     (10, rmap (\<lambda>p. C_ItemAddr (Some p)) (des_path dt dv))]"

definition des_param :: "('s, 't) rd \<Rightarrow> ('s, 'v) rd \<Rightarrow> ('s, ('t, 'v, 'g) param) rd" where
  "des_param dt dv = des_switch ''MIR::Param''
    [(1, rmap Pm_LValue (des_lvalue dt dv)),
     (2, rlift2 Pm_Borrow des_borrow_type (des_lvalue dt dv)),
     (3, rmap Pm_Constant (des_mir_constant dt dv))]"

definition des_params :: "('s, 't) rd \<Rightarrow> ('s, 'v) rd \<Rightarrow> ('s, ('t, 'v, 'g) param list) rd" where
  "des_params dt dv = des_vec ''Param'' (des_param dt dv)"

definition des_meta_val :: "('s, 't) rd \<Rightarrow> ('s, 'v) rd \<Rightarrow> ('s, ('t, 'v, 'g) param) rd" where
  "des_meta_val dt dv = rbind read_bool (\<lambda>b.
     if b then des_param dt dv else rret (Pm_Constant (C_ItemAddr None)))"

definition des_rvalue :: "('s, 't) rd \<Rightarrow> ('s, 'v) rd \<Rightarrow> ('s, ('t, 'v, 'g) rvalue) rd" where
  "des_rvalue dt dv = des_switch ''MIR::RValue''
    [(1, rmap RV_Use (des_lvalue dt dv)),
     (3, rmap RV_Constant (des_mir_constant dt dv)),
     (4, rlift2 RV_SizedArray (des_param dt dv) (des_array_size dv)),
     (2, rlift2 RV_Borrow des_borrow_type (des_lvalue dt dv)),
     (5, rlift2 RV_Cast (des_lvalue dt dv) dt),
     (6, rlift3 RV_BinOp (des_param dt dv) (des_enum bin_ops) (des_param dt dv)),
     (7, rlift2 RV_UniOp (des_lvalue dt dv) (des_enum uni_ops)),
     (8, rmap RV_DstMeta (des_lvalue dt dv)),
     (9, rmap RV_DstPtr (des_lvalue dt dv)),
     (10, rlift2 RV_MakeDst (des_param dt dv) (des_meta_val dt dv)),
     (11, rmap RV_Tuple (des_params dt dv)),
     (12, rmap RV_Array (des_params dt dv)),
     (13, rlift3 RV_UnionVariant (des_generic_path dt dv) read_word_count (des_param dt dv)),
     (14, rlift3 RV_EnumVariant (des_generic_path dt dv) read_word_count (des_params dt dv)),
     (15, rlift2 RV_Struct (des_generic_path dt dv) (des_params dt dv))]"

definition des_call_target :: "('s, 't) rd \<Rightarrow> ('s, 'v) rd \<Rightarrow> ('s, ('t, 'v, 'g) call_target) rd" where
  "des_call_target dt dv = des_switch ''MIR::CallTarget''
    [(1, rmap CLT_Value (des_lvalue dt dv)),
     (2, rmap CLT_Path (des_path dt dv)),
     (3, rlift2 CLT_Intrinsic read_istring (des_path_params dt dv))]"

definition des_strings :: "('s, string list) rd" where "des_strings = des_vec ''string'' read_string"

definition des_switch_values :: "('s, switch_values) rd" where
  "des_switch_values = des_switch ''MIR::SwitchValues''
    [(1, rmap SV_Unsigned (des_vec ''uint64_t'' read_u64c)),
     (2, rmap SV_Signed (des_vec ''int64_t'' read_i64c)),
     (3, rmap SV_String des_strings),
     (4, rmap SV_ByteString (des_vec ''vector<uint8_t>'' des_bytes))]"

definition des_targets :: "('s, basic_block_id list) rd" where
  "des_targets = des_vec ''unsigned'' read_word_count"

definition des_terminator :: "('s, 't) rd \<Rightarrow> ('s, 'v) rd \<Rightarrow> ('s, ('t, 'v, 'g) terminator) rd" where
  "des_terminator dt dv = des_switch ''MIR::Terminator''
    [(1, rret T_Incomplete),
     (2, rret T_Return),
     (3, rret T_Diverge),
     (4, rmap T_Goto read_word_count),
     (5, rmap T_Panic read_word_count),
     (6, rlift3 T_If (des_lvalue dt dv) read_word_count read_word_count),
     (7, rlift2 T_Switch (des_lvalue dt dv) des_targets),
     (8, rlift4 T_SwitchValue (des_lvalue dt dv) read_word_count des_targets des_switch_values),
     (9, rlift5 T_Call read_word_count read_word_count (des_lvalue dt dv) (des_call_target dt dv)
           (des_params dt dv))]"

section \<open>Statements, blocks, functions\<close>

text \<open>\<open>static_cast<char>\<close> of an \<open>int64_t\<close>: the low byte.\<close>

definition des_line_fragment :: "('s, line_fragment) rd" where
  "des_line_fragment = rlift3 (\<lambda>b i m. \<lparr>lf_before = b, lf_index = i, lf_modifier = ucast m\<rparr>)
    read_string read_word_count read_i64c"

definition des_asm_line :: "('s, asm_line) rd" where
  "des_asm_line = rlift2 (\<lambda>fs t. \<lparr>al_frags = fs, al_trailing = t\<rparr>)
    (des_vec ''LineFragment'' des_line_fragment) read_string"

definition des_register_spec :: "('s, register_spec) rd" where
  "des_register_spec = des_switch ''AsmCommon::RegisterSpec''
    [(1, rmap RS_Class (des_enum register_classes)), (2, rmap RS_Explicit read_string)]"

definition des_asm_param :: "('s, 't) rd \<Rightarrow> ('s, 'v) rd \<Rightarrow> ('s, ('t, 'v, 'g) asm_param) rd" where
  "des_asm_param dt dv = des_switch ''MIR::AsmParam''
    [(2, rmap AP_Sym (des_path dt dv)),
     (1, rmap AP_Const (des_mir_constant dt dv)),
     (3, rlift4 AP_Reg (des_enum asm_directions) des_register_spec
           (des_opt (des_param dt dv)) (des_opt (des_lvalue dt dv)))]"

definition des_asm_options :: "('s, asm_options) rd" where
  "des_asm_options = rmap (\<lambda>b.
     \<lparr>ao_pure = b AND 1 \<noteq> 0, ao_nomem = b AND 2 \<noteq> 0, ao_readonly = b AND 4 \<noteq> 0,
      ao_preserves_flags = b AND 8 \<noteq> 0, ao_noreturn = b AND 16 \<noteq> 0, ao_nostack = b AND 32 \<noteq> 0,
      ao_att_syntax = b AND 64 \<noteq> 0\<rparr>) read_u16"

definition des_asm_specs :: "('s, 't) rd \<Rightarrow> ('s, 'v) rd \<Rightarrow> ('s, (string \<times> ('t, 'v, 'g) lvalue) list) rd" where
  "des_asm_specs dt dv = des_vec ''pair<string,LValue>'' (des_pair read_string (des_lvalue dt dv))"

definition des_statement_body :: "('s, 't) rd \<Rightarrow> ('s, 'v) rd \<Rightarrow> ('s, ('t, 'v, 'g) statement) rd" where
  "des_statement_body dt dv = des_switch ''MIR::Statement''
    [(0, rlift2 S_Assign (des_lvalue dt dv) (des_rvalue dt dv)),
     (1, rlift3 (\<lambda>b lv i. S_Drop (if b then DK_DEEP else DK_SHALLOW) lv i)
           read_bool (des_lvalue dt dv) read_word_count),
     (2, rlift5 S_Asm read_string (des_asm_specs dt dv) (des_asm_specs dt dv) des_strings des_strings),
     (3, rlift3 S_SetDropFlag read_word_count read_bool read_word_count),
     (4, rmap S_ScopeEnd des_targets),
     (5, rlift3 S_Asm2 des_asm_options (des_vec ''Line'' des_asm_line)
           (des_vec ''AsmParam'' (des_asm_param dt dv)))]"

definition des_statement :: "('s, 't) rd \<Rightarrow> ('s, 'v) rd \<Rightarrow> ('s, ('t, 'v, 'g) statement) rd" where
  "des_statement dt dv = r_in_object ''MIR::Statement'' (des_statement_body dt dv)"

definition des_basic_block :: "('s, 't) rd \<Rightarrow> ('s, 'v) rd \<Rightarrow> ('s, ('t, 'v, 'g) basic_block) rd" where
  "des_basic_block dt dv = rlift2 BasicBlock
    (des_vec ''Statement'' (des_statement dt dv)) (des_terminator dt dv)"

definition des_mir_function :: "('s, 't) rd \<Rightarrow> ('s, 'v) rd \<Rightarrow> ('s, ('t, 'v, 'g) mir_function) rd" where
  "des_mir_function dt dv = rlift3 MirFunction
    (des_vec ''TypeRef'' dt) (des_vec ''bool'' read_bool) (des_vec ''BasicBlock'' (des_basic_block dt dv))"

definition des_expr_ptr :: "('s, 't) rd \<Rightarrow> ('s, 'v) rd \<Rightarrow> ('s, ('t, 'v, 'g) expr_ptr) rd" where
  "des_expr_ptr dt dv = r_in_object ''HIR::ExprPtr''
    (rlift2 (\<lambda>m es. ExprPtr None [] es m) (des_opt (des_mir_function dt dv)) (des_vec ''TypeRef'' dt))"

section \<open>Generic parameters, constants\<close>

definition des_type_param_def :: "('s, 't) rd \<Rightarrow> ('s, 't type_param_def) rd" where
  "des_type_param_def dt = rlift3 TypeParamDef read_istring dt read_bool"

definition des_value_param_def :: "('s, 't) rd \<Rightarrow> ('s, ('t, 'v, 'g) value_param_def) rd" where
  "des_value_param_def dt = rlift2 (\<lambda>n t. ValueParamDef n t (ExprPtr None [] [] None)) read_istring dt"

definition des_generic_bound ::
  "nat \<Rightarrow> ('s, 't) rd \<Rightarrow> ('s, 'v) rd \<Rightarrow> ('s, 'g) rd \<Rightarrow> ('s, ('t, 'v, 'g) generic_bound) rd" where
  "des_generic_bound f dt dv dg = des_switch ''HIR::GenericBound''
    [(0, rlift2 GB_Lifetime des_lifetime_ref des_lifetime_ref),
     (1, rlift2 GB_TypeLifetime dt des_lifetime_ref),
     (2, rlift3 GB_TraitBound (des_opt dg) dt (des_trait_path f dt dv dg)),
     (3, rlift2 GB_TypeEquality dt dt)]"

definition des_unevaluated ::
  "('s, 't) rd \<Rightarrow> ('s, 'v) rd \<Rightarrow>
   ('s, ('t, 'v) path_params \<times> ('t, 'v) path_params \<times> ('t, 'v, 'g) expr_ptr) rd" where
  "des_unevaluated dt dv = rlift3 (\<lambda>pi pm e. (pi, pm, e))
    (des_path_params dt dv) (des_path_params dt dv) (des_expr_ptr dt dv)"

section \<open>Types\<close>

text \<open>
  \<open>deserialise_type\<close>: a number is the place of the type in the cache, except that
  0xFFFFFFFF announces a type in full, which is entered in the cache when it is complete.
\<close>

definition des_cached :: "('t, 't) rd \<Rightarrow> ('t, 't) rd" where
  "des_cached body = rbind read_count (\<lambda>idx.
     if idx \<noteq> 0xFFFFFFFF then
       (\<lambda>r. if idx < length (r_types r) then Inr (r_types r ! idx, r) else Inl (Out_Of_Range ''vector::at''))
     else r_in_object ''HIR::TypeData''
       (rbind body (\<lambda>rv r. Inr (rv, r\<lparr>r_types := r_types r @ [rv]\<rparr>))))"

definition des_type_data ::
  "nat \<Rightarrow> ('s, type_ref) rd \<Rightarrow> ('s, const_generic) rd \<Rightarrow> ('s, generic_params) rd \<Rightarrow> ('s, type_ref) rd" where
  "des_type_data f dt dv dg = des_switch ''HIR::TypeRef''
    [(1, rret (Ty_Infer (-1) IC_None)),
     (2, rret Ty_Diverge),
     (3, rmap Ty_Primitive des_core_type),
     (4, rlift2 (\<lambda>p h. Ty_Path p TPB_Unbound h) (des_path dt dv) (des_opt dg)),
     (5, rmap Ty_Generic des_generic_ref),
     (6, rlift3 Ty_TraitObject (des_trait_path f dt dv dg)
           (des_vec ''GenericPath'' (des_generic_path dt dv)) des_lifetime_ref),
     (7, rfail (Todo ''ErasedType'')),
     (8, rlift2 Ty_Array dt (des_array_size dv)),
     (9, rmap Ty_Slice dt),
     (10, rmap Ty_Tuple (des_vec ''TypeRef'' dt)),
     (11, rlift3 Ty_Borrow des_lifetime_ref des_borrow_type dt),
     (12, rlift2 Ty_Pointer des_borrow_type dt),
     (13, rmap (\<lambda>p. Ty_NamedFunction p (NF_Function None)) (des_path dt dv)),
     (14, rlift6 Ty_Function dg read_bool read_bool read_istring dt (des_vec ''TypeRef'' dt))]"

definition des_const_generic_of ::
  "('s, type_ref) rd \<Rightarrow> ('s, const_generic) rd \<Rightarrow> ('s, const_generic) rd" where
  "des_const_generic_of dt dv = des_switch ''HIR::ConstGeneric''
    [(1, rret (CG_Infer (-1))),
     (2, rmap (\<lambda>(pi, pm, e). CG_Unevaluated pi pm e) (des_unevaluated dt dv)),
     (3, rmap CG_Generic des_generic_ref),
     (4, rmap CG_Evaluated (des_encoded_literal dt dv))]"

definition des_generics_of ::
  "nat \<Rightarrow> ('s, type_ref) rd \<Rightarrow> ('s, const_generic) rd \<Rightarrow> ('s, generic_params) rd \<Rightarrow> ('s, generic_params) rd" where
  "des_generics_of f dt dv dg = rlift4 (\<lambda>ts vs ls bs. GenericParams ts ls vs bs)
    (des_vec ''TypeParamDef'' (des_type_param_def dt))
    (des_vec ''ValueParamDef'' (des_value_param_def dt))
    (des_vec ''LifetimeDef'' des_lifetime_def)
    (des_vec ''GenericBound'' (des_generic_bound f dt dv dg))"

fun des_type :: "nat \<Rightarrow> (type_ref, type_ref) rd"
  and des_const_generic :: "nat \<Rightarrow> (type_ref, const_generic) rd"
  and des_generics :: "nat \<Rightarrow> (type_ref, generic_params) rd" where
  "des_type 0 = rfail Out_Of_Fuel"
| "des_type (Suc f) = des_cached (des_type_data f (des_type f) (des_const_generic f) (des_generics f))"
| "des_const_generic 0 = rfail Out_Of_Fuel"
| "des_const_generic (Suc f) = des_const_generic_of (des_type f) (des_const_generic f)"
| "des_generics 0 = rfail Out_Of_Fuel"
| "des_generics (Suc f) = des_generics_of f (des_type f) (des_const_generic f) (des_generics f)"

end
