(* ===== verification/Normal_Form.thy ===== *)
theory Normal_Form
  imports Deserialise
begin

text \<open>
  What a round trip through crate metadata leaves of a type, a constant or a set of generic
  parameters, as a function \<open>norm_type cr\<close> (\<open>cr\<close> is the name of the crate that is read):
  \<^item> a path without a crate name gets the name of the crate;
  \<^item> the higher-ranked binder of a known trait's path is lost, as are the default of a value
    parameter, the expression tree and the bindings of an expression, the pointer to a trait and the
    bytes of a relocation that has a path;
  \<^item> the number of a generic is cut to 16 bits, inference variables lose their numbers and classes;
  \<^item> types come back without a binding, functions without a definition;
  \<^item> maps are filled again, entry by entry.

  Everything else comes back as it was; \<open>Roundtrip\<close> shows it.
\<close>

section \<open>Paths\<close>

definition norm_simple_path :: "string \<Rightarrow> simple_path \<Rightarrow> simple_path" where
  "norm_simple_path cr p =
    (if crate_name p = [] \<and> length (components p) > 0 then update_crate_name cr p else p)"

definition norm_generic_ref :: "generic_ref \<Rightarrow> generic_ref" where
  "norm_generic_ref g = g\<lparr>gr_binding := ucast (ucast (gr_binding g) :: u16)\<rparr>"

fun norm_generic_path :: "string \<Rightarrow> ('t, 'v) generic_path \<Rightarrow> ('t, 'v) generic_path" where
  "norm_generic_path cr (GenericPath p pp) = GenericPath (norm_simple_path cr p) pp"

fun norm_aty_equal :: "string \<Rightarrow> ('t, 'v) aty_equal \<Rightarrow> ('t, 'v) aty_equal" where
  "norm_aty_equal cr (AtyEqual tr t) = AtyEqual (norm_generic_path cr tr) t"

primrec norm_trait_path :: "string \<Rightarrow> ('t, 'v, 'g) trait_path \<Rightarrow> ('t, 'v, 'g) trait_path"
  and norm_aty_bound :: "string \<Rightarrow> ('t, 'v, 'g) aty_bound \<Rightarrow> ('t, 'v, 'g) aty_bound" where
  "norm_trait_path cr (TraitPath h p tbs rbs ptr) = TraitPath h (norm_generic_path cr p)
    (map_of_entries ord_string (map (map_prod id (norm_aty_equal cr)) tbs))
    (map_of_entries ord_string (map (map_prod id (norm_aty_bound cr)) rbs)) None"
| "norm_aty_bound cr (AtyBound tr traits) =
    AtyBound (norm_generic_path cr tr) (map (norm_trait_path cr) traits)"

fun norm_path :: "string \<Rightarrow> ('t, 'v, 'g) path \<Rightarrow> ('t, 'v, 'g) path" where
  "norm_path cr (Path_Generic p) = Path_Generic (norm_generic_path cr p)"
| "norm_path cr (Path_UfcsInherent t n pp ip) = Path_UfcsInherent t n pp ip"
| "norm_path cr (Path_UfcsKnown t tr n pp h) = Path_UfcsKnown t (norm_generic_path cr tr) n pp None"
| "norm_path cr (Path_UfcsUnknown t n pp) = Path_UfcsUnknown t n pp"

section \<open>Literals and MIR\<close>

fun norm_reloc :: "string \<Rightarrow> ('t, 'v, 'g) reloc \<Rightarrow> ('t, 'v, 'g) reloc" where
  "norm_reloc cr (Reloc ofs len (Some p) bs) = Reloc ofs len (Some (norm_path cr p)) []"
| "norm_reloc cr (Reloc ofs len None bs) = Reloc ofs len None bs"

fun norm_encoded_literal :: "string \<Rightarrow> ('t, 'v, 'g) encoded_literal \<Rightarrow> ('t, 'v, 'g) encoded_literal" where
  "norm_encoded_literal cr (EncodedLiteral bs rs) = EncodedLiteral bs (map (norm_reloc cr) rs)"

fun norm_storage :: "string \<Rightarrow> ('t, 'v, 'g) storage \<Rightarrow> ('t, 'v, 'g) storage" where
  "norm_storage cr (St_Static p) = St_Static (norm_path cr p)"
| "norm_storage cr (St_Val v) = St_Val v"

fun norm_lvalue :: "string \<Rightarrow> ('t, 'v, 'g) lvalue \<Rightarrow> ('t, 'v, 'g) lvalue" where
  "norm_lvalue cr (LValue r ws) = LValue (norm_storage cr r) ws"

fun norm_mir_constant :: "string \<Rightarrow> ('t, 'v, 'g) mir_constant \<Rightarrow> ('t, 'v, 'g) mir_constant" where
  "norm_mir_constant cr (C_Const p) = C_Const (norm_path cr p)"
| "norm_mir_constant cr (C_Generic g) = C_Generic (norm_generic_ref g)"
| "norm_mir_constant cr (C_Function p) = C_Function (norm_path cr p)"
| "norm_mir_constant cr (C_ItemAddr p) = C_ItemAddr (map_option (norm_path cr) p)"
| "norm_mir_constant cr c = c"

fun norm_param :: "string \<Rightarrow> ('t, 'v, 'g) param \<Rightarrow> ('t, 'v, 'g) param" where
  "norm_param cr (Pm_LValue lv) = Pm_LValue (norm_lvalue cr lv)"
| "norm_param cr (Pm_Borrow b lv) = Pm_Borrow b (norm_lvalue cr lv)"
| "norm_param cr (Pm_Constant c) = Pm_Constant (norm_mir_constant cr c)"

fun norm_rvalue :: "string \<Rightarrow> ('t, 'v, 'g) rvalue \<Rightarrow> ('t, 'v, 'g) rvalue" where
  "norm_rvalue cr (RV_Use v) = RV_Use (norm_lvalue cr v)"
| "norm_rvalue cr (RV_Borrow b v) = RV_Borrow b (norm_lvalue cr v)"
| "norm_rvalue cr (RV_Constant c) = RV_Constant (norm_mir_constant cr c)"
| "norm_rvalue cr (RV_SizedArray v n) = RV_SizedArray (norm_param cr v) n"
| "norm_rvalue cr (RV_Cast v t) = RV_Cast (norm_lvalue cr v) t"
| "norm_rvalue cr (RV_BinOp l oper r) = RV_BinOp (norm_param cr l) oper (norm_param cr r)"
| "norm_rvalue cr (RV_UniOp v oper) = RV_UniOp (norm_lvalue cr v) oper"
| "norm_rvalue cr (RV_DstMeta v) = RV_DstMeta (norm_lvalue cr v)"
| "norm_rvalue cr (RV_DstPtr v) = RV_DstPtr (norm_lvalue cr v)"
| "norm_rvalue cr (RV_MakeDst p m) = RV_MakeDst (norm_param cr p) (norm_param cr m)"
| "norm_rvalue cr (RV_Tuple vs) = RV_Tuple (map (norm_param cr) vs)"
| "norm_rvalue cr (RV_Array vs) = RV_Array (map (norm_param cr) vs)"
| "norm_rvalue cr (RV_UnionVariant p i v) = RV_UnionVariant (norm_generic_path cr p) i (norm_param cr v)"
| "norm_rvalue cr (RV_EnumVariant p i vs) = RV_EnumVariant (norm_generic_path cr p) i (map (norm_param cr) vs)"
| "norm_rvalue cr (RV_Struct p vs) = RV_Struct (norm_generic_path cr p) (map (norm_param cr) vs)"

fun norm_call_target :: "string \<Rightarrow> ('t, 'v, 'g) call_target \<Rightarrow> ('t, 'v, 'g) call_target" where
  "norm_call_target cr (CLT_Value v) = CLT_Value (norm_lvalue cr v)"
| "norm_call_target cr (CLT_Path p) = CLT_Path (norm_path cr p)"
| "norm_call_target cr (CLT_Intrinsic n pp) = CLT_Intrinsic n pp"

fun norm_terminator :: "string \<Rightarrow> ('t, 'v, 'g) terminator \<Rightarrow> ('t, 'v, 'g) terminator" where
  "norm_terminator cr (T_If c t f) = T_If (norm_lvalue cr c) t f"
| "norm_terminator cr (T_Switch v ts) = T_Switch (norm_lvalue cr v) ts"
| "norm_terminator cr (T_SwitchValue v d ts vals) = T_SwitchValue (norm_lvalue cr v) d ts vals"
| "norm_terminator cr (T_Call rb pb rv f args) =
    T_Call rb pb (norm_lvalue cr rv) (norm_call_target cr f) (map (norm_param cr) args)"
| "norm_terminator cr t = t"

fun norm_asm_param :: "string \<Rightarrow> ('t, 'v, 'g) asm_param \<Rightarrow> ('t, 'v, 'g) asm_param" where
  "norm_asm_param cr (AP_Const c) = AP_Const (norm_mir_constant cr c)"
| "norm_asm_param cr (AP_Sym p) = AP_Sym (norm_path cr p)"
| "norm_asm_param cr (AP_Reg d s i ou) =
    AP_Reg d s (map_option (norm_param cr) i) (map_option (norm_lvalue cr) ou)"

fun norm_statement :: "string \<Rightarrow> ('t, 'v, 'g) statement \<Rightarrow> ('t, 'v, 'g) statement" where
  "norm_statement cr (S_Assign d s) = S_Assign (norm_lvalue cr d) (norm_rvalue cr s)"
| "norm_statement cr (S_Asm tpl os is cl fl) =
    S_Asm tpl (map (map_prod id (norm_lvalue cr)) os) (map (map_prod id (norm_lvalue cr)) is) cl fl"
| "norm_statement cr (S_Asm2 opts ls ps) = S_Asm2 opts ls (map (norm_asm_param cr) ps)"
| "norm_statement cr (S_Drop k v i) = S_Drop k (norm_lvalue cr v) i"
| "norm_statement cr s = s"

fun norm_basic_block :: "string \<Rightarrow> ('t, 'v, 'g) basic_block \<Rightarrow> ('t, 'v, 'g) basic_block" where
  "norm_basic_block cr (BasicBlock ss t) = BasicBlock (map (norm_statement cr) ss) (norm_terminator cr t)"

fun norm_mir_function :: "string \<Rightarrow> ('t, 'v, 'g) mir_function \<Rightarrow> ('t, 'v, 'g) mir_function" where
  "norm_mir_function cr (MirFunction ls dfs bs) = MirFunction ls dfs (map (norm_basic_block cr) bs)"

fun norm_expr_ptr :: "bool \<Rightarrow> string \<Rightarrow> ('t, 'v, 'g) expr_ptr \<Rightarrow> ('t, 'v, 'g) expr_ptr" where
  "norm_expr_ptr save_mir cr (ExprPtr n bs es m) =
    ExprPtr None [] es (if save_mir then map_option (norm_mir_function cr) m else None)"

section \<open>Generic parameters and types\<close>

fun norm_value_param_def :: "('t, 'v, 'g) value_param_def \<Rightarrow> ('t, 'v, 'g) value_param_def" where
  "norm_value_param_def (ValueParamDef n t d) = ValueParamDef n t (ExprPtr None [] [] None)"

fun norm_generic_bound :: "string \<Rightarrow> ('t, 'v, 'g) generic_bound \<Rightarrow> ('t, 'v, 'g) generic_bound" where
  "norm_generic_bound cr (GB_TraitBound h t tr) = GB_TraitBound h t (norm_trait_path cr tr)"
| "norm_generic_bound cr b = b"

primrec norm_type :: "string \<Rightarrow> type_ref \<Rightarrow> type_ref"
  and norm_const_generic :: "string \<Rightarrow> const_generic \<Rightarrow> const_generic"
  and norm_generics :: "string \<Rightarrow> generic_params \<Rightarrow> generic_params" where
  "norm_type cr (Ty_Infer i c) = Ty_Infer (-1) IC_None"
| "norm_type cr Ty_Diverge = Ty_Diverge"
| "norm_type cr (Ty_Primitive c) = Ty_Primitive c"
| "norm_type cr (Ty_Path p b h) =
    Ty_Path (norm_path cr (map_path (norm_type cr) (norm_const_generic cr) (norm_generics cr) p)) TPB_Unbound
      (map_option (norm_generics cr) h)"
| "norm_type cr (Ty_Generic g) = Ty_Generic (norm_generic_ref g)"
| "norm_type cr (Ty_TraitObject tr ms l) = Ty_TraitObject
    (norm_trait_path cr (map_trait_path (norm_type cr) (norm_const_generic cr) (norm_generics cr) tr))
    (map (norm_generic_path cr) (map (map_generic_path (norm_type cr) (norm_const_generic cr)) ms)) l"
| "norm_type cr (Ty_ErasedType sized trs ls i) = Ty_ErasedType sized trs ls i"
| "norm_type cr (Ty_Array t n) = Ty_Array (norm_type cr t) (map_array_size (norm_const_generic cr) n)"
| "norm_type cr (Ty_Slice t) = Ty_Slice (norm_type cr t)"
| "norm_type cr (Ty_Tuple ts) = Ty_Tuple (map (norm_type cr) ts)"
| "norm_type cr (Ty_Borrow l b t) = Ty_Borrow l b (norm_type cr t)"
| "norm_type cr (Ty_Pointer b t) = Ty_Pointer b (norm_type cr t)"
| "norm_type cr (Ty_NamedFunction p d) = Ty_NamedFunction
    (norm_path cr (map_path (norm_type cr) (norm_const_generic cr) (norm_generics cr) p)) (NF_Function None)"
| "norm_type cr (Ty_Function h uns var abi ret args) =
    Ty_Function (norm_generics cr h) uns var abi (norm_type cr ret) (map (norm_type cr) args)"
| "norm_type cr (Ty_Closure n) = Ty_Closure n"
| "norm_type cr (Ty_Generator n) = Ty_Generator n"
| "norm_const_generic cr (CG_Infer i) = CG_Infer (-1)"
| "norm_const_generic cr (CG_Unevaluated pi pp e) = CG_Unevaluated
    (map_path_params (norm_type cr) (norm_const_generic cr) pi)
    (map_path_params (norm_type cr) (norm_const_generic cr) pp)
    (norm_expr_ptr True cr (map_expr_ptr (norm_type cr) (norm_const_generic cr) (norm_generics cr) e))"
| "norm_const_generic cr (CG_Generic g) = CG_Generic (norm_generic_ref g)"
| "norm_const_generic cr (CG_Evaluated l) = CG_Evaluated
    (norm_encoded_literal cr (map_encoded_literal (norm_type cr) (norm_const_generic cr) (norm_generics cr) l))"
| "norm_generics cr (GenericParams ts ls vs bs) = GenericParams
    (map (map_type_param_def (norm_type cr)) ts) ls
    (map norm_value_param_def (map (map_value_param_def (norm_type cr) (norm_const_generic cr) (norm_generics cr)) vs))
    (map (norm_generic_bound cr)
      (map (map_generic_bound (norm_type cr) (norm_const_generic cr) (norm_generics cr)) bs))"

end
