(* ===== verification/Codec.thy ===== *)
theory Codec
  imports Wire_Codec Normal_Form
begin

text \<open>
  Rules that build the round trip of a composite from the round trips of its parts, in the
  shape of the combinators of \<open>Serialise\<close> and \<open>Deserialise\<close>.  The collection \<open>rt_intros\<close> takes a
  goal for a constructor apart.

  The locale \<open>codec\<close> is the contract between the two classes for one kind of value: what
  \<open>put\<close> writes, \<open>get\<close> reads as \<open>nf\<close> of it.  What is written in terms of it (vectors, optional
  values, maps) is proved once inside; it is interpreted for every value without types in it.
\<close>

named_theorems rt_intros \<open>round trips of composites from their parts\<close>

declare w_seq.simps [simp del]

section \<open>Weakening, and the byte that pays for a level\<close>

lemma rt_mono: "rt n C a d v \<Longrightarrow> m \<le> n \<Longrightarrow> rt m C a d v"
  unfolding rt_def by (meson order_trans)

lemma rt_pred: "rt n C a d v \<Longrightarrow> rt (n - 1) C a d v"
  by (erule rt_mono) simp

lemma sync_ctx: "c_rel C' = c_rel C \<Longrightarrow> c_crate C' = c_crate C \<Longrightarrow> sync C' = sync C"
  by (intro ext) (simp add: sync_def)

lemma rt_ctx:
  assumes "rt n C' a d v" "c_rel C' = c_rel C" "c_crate C' = c_crate C" "c_keys C' \<subseteq> c_keys C"
  shows "rt n C a d v"
proof -
  have "keys_grow C ws ws'" if "keys_grow C' ws ws'" for ws ws'
    using that assms(4) unfolding keys_grow_def by blast
  then show ?thesis
    using assms(1) unfolding rt_def sync_ctx [OF assms(2,3)] by blast
qed

definition grows :: "wact \<Rightarrow> bool" where
  "grows a \<longleftrightarrow> (\<forall>s s'. w_open s \<longrightarrow> a s = Inr s' \<longrightarrow> length (w_out s) < length (w_out s'))"

lemma growsI: "(\<And>s s'. w_open s \<Longrightarrow> a s = Inr s' \<Longrightarrow> length (w_out s) < length (w_out s')) \<Longrightarrow> grows a"
  by (simp add: grows_def)

lemma rt_dec:
  assumes "grows a" "rt n C a d x" "rt (n - 1) C (w_seq as) (k x) y"
  shows "rt n C (w_seq (a # as)) (rbind d k) y"
proof (rule rtI)
  show "dry (w_seq (a # as))" using assms(2,3) by (intro dry_Cons) (auto intro: rt_dry)
  fix ws ws'
  assume w: "w_open ws" "w_seq (a # as) ws = Inr ws'"
  then obtain w1 where w1: "a ws = Inr w1" "w_seq as w1 = Inr ws'" by (auto simp: w_seq.simps)
  have g: "length (w_out ws) < length (w_out w1)" using assms(1) w(1) w1(1) by (simp add: grows_def)
  obtain b1 where b1: "w_open w1" "keys_grow C ws w1" "w_out w1 = w_out ws @ b1"
    "\<And>rs rest. length b1 \<le> n \<Longrightarrow> length (w_out w1) < file_limit \<Longrightarrow> sync C ws rs \<Longrightarrow>
      avail rs = b1 @ rest \<Longrightarrow> \<exists>rs'. d rs = Inr (x, rs') \<and> avail rs' = rest \<and> sync C w1 rs'"
    using rtE [OF assms(2) w(1) w1(1)] by metis
  obtain b2 where b2: "w_open ws'" "keys_grow C w1 ws'" "w_out ws' = w_out w1 @ b2"
    "\<And>rs rest. length b2 \<le> n - 1 \<Longrightarrow> length (w_out ws') < file_limit \<Longrightarrow> sync C w1 rs \<Longrightarrow>
      avail rs = b2 @ rest \<Longrightarrow> \<exists>rs'. k x rs = Inr (y, rs') \<and> avail rs' = rest \<and> sync C ws' rs'"
    using rtE [OF assms(3) b1(1) w1(2)] by metis
  show "w_open ws' \<and> keys_grow C ws ws' \<and> (\<exists>bs. w_out ws' = w_out ws @ bs \<and>
       (length bs \<le> n \<longrightarrow> length (w_out ws') < file_limit \<longrightarrow>
         (\<forall>rs rest. sync C ws rs \<longrightarrow> avail rs = bs @ rest \<longrightarrow>
           (\<exists>rs'. rbind d k rs = Inr (y, rs') \<and> avail rs' = rest \<and> sync C ws' rs'))))"
  proof (intro conjI exI [of _ "b1 @ b2"] impI allI)
    fix rs rest
    assume a: "length (b1 @ b2) \<le> n" "length (w_out ws') < file_limit" "sync C ws rs"
      "avail rs = (b1 @ b2) @ rest"
    have "length b2 \<le> n - 1" using a(1) g b1(3) by (cases b1) auto
    moreover obtain r1 where r1: "d rs = Inr (x, r1)" "avail r1 = b2 @ rest" "sync C w1 r1"
      using b1(4) [of rs "b2 @ rest"] a b2(3) by auto
    ultimately obtain r2 where "k x r1 = Inr (y, r2)" "avail r2 = rest" "sync C ws' r2"
      using b2(4) [of r1 rest] a by auto
    then show "\<exists>rs'. rbind d k rs = Inr (y, rs') \<and> avail rs' = rest \<and> sync C ws' rs'"
      using r1 by (simp add: rbind_def)
  qed (use b1 b2 in \<open>auto intro: keys_grow_trans\<close>)
qed

text \<open>An operation that writes something cannot be read within zero bytes.\<close>

lemma rt_zero:
  assumes "rt 0 C a d v" "grows a"
  shows "rt 0 C a d' v'"
proof (rule rtI [OF rt_dry [OF assms(1)]])
  fix ws ws'
  assume w: "w_open ws" "a ws = Inr ws'"
  obtain bs where bs: "w_open ws'" "keys_grow C ws ws'" "w_out ws' = w_out ws @ bs"
    using rtE [OF assms(1) w] by metis
  have "length (w_out ws) < length (w_out ws')" using assms(2) w by (simp add: grows_def)
  then have "bs \<noteq> []" using bs(3) by auto
  then show "w_open ws' \<and> keys_grow C ws ws' \<and> (\<exists>bs. w_out ws' = w_out ws @ bs \<and>
       (length bs \<le> 0 \<longrightarrow> length (w_out ws') < file_limit \<longrightarrow>
         (\<forall>rs rest. sync C ws rs \<longrightarrow> avail rs = bs @ rest \<longrightarrow>
           (\<exists>rs'. d' rs = Inr (v', rs') \<and> avail rs' = rest \<and> sync C ws' rs'))))"
    using bs by simp
qed

lemma write_bytes_out: "w_open s \<Longrightarrow> write_bytes b s = Inr s' \<Longrightarrow> w_out s' = w_out s @ b"
  by (auto simp: write_bytes_def)

lemma grows_bytes: "b \<noteq> [] \<Longrightarrow> grows (write_bytes b)"
  by (intro growsI) (auto dest: write_bytes_out)

lemma grows_u8 [simp, intro]: "grows (write_u8 v)"
  unfolding write_u8_def by (rule grows_bytes) simp

lemma rt_extends: "rt n C a d v \<Longrightarrow> w_open s \<Longrightarrow> a s = Inr s' \<Longrightarrow> w_open s' \<and> length (w_out s) \<le> length (w_out s')"
  by (erule rtE) auto

lemma grows_rt_first:
  assumes "grows a" "rt n C a d x" "rt n' C' (w_seq as) d' y"
  shows "grows (w_seq (a # as))"
proof (rule growsI)
  fix s s'
  assume s: "w_open s" "w_seq (a # as) s = Inr s'"
  then obtain s1 where s1: "a s = Inr s1" "w_seq as s1 = Inr s'" by (auto simp: w_seq.simps)
  have "length (w_out s) < length (w_out s1)" using assms(1) s(1) s1(1) by (simp add: grows_def)
  also have "\<dots> \<le> length (w_out s')"
    using rt_extends [OF assms(2) s(1) s1(1)] rt_extends [OF assms(3) _ s1(2)] by simp
  finally show "length (w_out s) < length (w_out s')" .
qed

lemma grows_u8_then: "rt n C a d y \<Longrightarrow> grows (w_seq [write_u8 v, a])"
  by (rule grows_rt_first [OF grows_u8 rt_u8]) simp

lemma grows_fail [simp]: "grows (w_fail e)"
  by (intro growsI) (simp add: w_fail_def)

lemma grows_tag [simp, intro]: "grows (write_tag t)"
  by (simp add: write_tag_def w_seq_assert)

lemma grows_count [simp, intro]: "grows (write_count c)"
  by (auto simp: write_count_def w_seq_assert intro: grows_u8_then [OF rt_u16] grows_u8_then [OF rt_u32])

lemma grows_open_object:
  assumes "length name < 2 ^ 64"
  shows "grows (open_object name)"
proof (intro growsI)
  fix s s'
  assume s: "w_open s" "open_object name s = Inr s'"
  then obtain s1 where "write_u8 0xFD s = Inr s1" and s1: "w_open s1" "w_out s1 = w_out s @ [0xFD]"
    by (auto simp: open_object_def write_u8_def write_bytes_def)
  have "\<exists>e. raw_write_len k = write_bytes e" for k
    using write_bytes_append [of "[0xFC]"] by (auto simp: raw_write_len_def write_u8_def raw_write_uint_enc)
  then obtain e where "raw_write_bytes (string_bytes name) = write_bytes e"
    using raw_write_bytes_enc by metis
  then have "length (w_out s1) \<le> length (w_out s')"
    using s s1 by (auto simp: open_object_def write_u8_def write_bytes_open raw_write_uint_enc w_seq.simps
        write_bytes_append Let_def split: option.splits)
  then show "length (w_out s) < length (w_out s')" using s1(2) by simp
qed

section \<open>Several fields\<close>

lemma rt_lift2 [rt_intros]:
  "rt n C a d x \<Longrightarrow> rt n C b e y \<Longrightarrow> rt n C (w_seq [a, b]) (rlift2 f d e) (f x y)"
  unfolding rlift2_def by (erule rt_bind) (simp add: rt_map)

lemma rt_lift3 [rt_intros]:
  "rt n C a d x \<Longrightarrow> rt n C b e y \<Longrightarrow> rt n C c g z \<Longrightarrow> rt n C (w_seq [a, b, c]) (rlift3 f d e g) (f x y z)"
  unfolding rlift3_def by (erule rt_bind) (rule rt_lift2)

lemma rt_lift4 [rt_intros]:
  "rt n C a d x \<Longrightarrow> rt n C b e y \<Longrightarrow> rt n C c g z \<Longrightarrow> rt n C h i w \<Longrightarrow>
    rt n C (w_seq [a, b, c, h]) (rlift4 f d e g i) (f x y z w)"
  unfolding rlift4_def by (erule rt_bind) (rule rt_lift3)

lemma rt_lift5 [rt_intros]:
  "rt n C a d x \<Longrightarrow> rt n C b e y \<Longrightarrow> rt n C c g z \<Longrightarrow> rt n C h i w \<Longrightarrow> rt n C j k v \<Longrightarrow>
    rt n C (w_seq [a, b, c, h, j]) (rlift5 f d e g i k) (f x y z w v)"
  unfolding rlift5_def by (erule rt_bind) (rule rt_lift4)

lemma rt_lift6 [rt_intros]:
  "rt n C a d x \<Longrightarrow> rt n C b e y \<Longrightarrow> rt n C c g z \<Longrightarrow> rt n C h i w \<Longrightarrow> rt n C j k v \<Longrightarrow> rt n C l m u \<Longrightarrow>
    rt n C (w_seq [a, b, c, h, j, l]) (rlift6 f d e g i k m) (f x y z w v u)"
  unfolding rlift6_def by (erule rt_bind) (rule rt_lift5)

lemmas rt_basic = rt_tag rt_bool rt_count rt_istring rt_string rt_u8 rt_u16 rt_u64 rt_u64c rt_i64c
  rt_double rt_u128 rt_i128
declare rt_basic [rt_intros] rt_map [rt_intros]

text \<open>A tagged value: the tag picks the alternative, and pays for one level.\<close>

lemma rt_switch:
  assumes "map_of alts t = Some d" "rt (n - 1) C (w_seq as) d v"
  shows "rt n C (w_seq (write_tag t # as)) (des_switch what alts) v"
  unfolding des_switch_def using assms by (intro rt_dec [OF grows_tag rt_tag]) simp

lemma rt_switch_n:
  assumes "map_of alts t = Some d" "rt n C (w_seq as) d v"
  shows "rt n C (w_seq (write_tag t # as)) (des_switch what alts) v"
  using assms(1) rt_pred [OF assms(2)] by (rule rt_switch)

lemma index_of_nth: "x \<in> set xs \<Longrightarrow> index_of xs x < length xs \<and> xs ! index_of xs x = x"
  by (induction xs) auto

lemma rt_enum:
  assumes "x \<in> set xs"
  shows "rt n C (write_tag (index_of xs x)) (des_enum xs) x"
  using rt_bind [OF rt_tag, of n C "[]" "\<lambda>t. if t < length xs then rret (xs ! t) else rfail e" "index_of xs x" x for e]
    index_of_nth [OF assms]
  by (simp add: des_enum_def)

lemma rt_core_type [rt_intros]: "rt n C (ser_core_type t) des_core_type t"
  unfolding ser_core_type_def des_core_type_def by (rule rt_enum) (cases t; simp add: core_types_def)

lemma rt_borrow_type [rt_intros]: "rt n C (ser_borrow_type t) des_borrow_type t"
  unfolding ser_borrow_type_def des_borrow_type_def by (rule rt_enum) (cases t; simp add: borrow_types_def)

lemma rt_bin_op [rt_intros]: "rt n C (write_tag (index_of bin_ops x)) (des_enum bin_ops) x"
  by (rule rt_enum) (cases x; simp add: bin_ops_def)

lemma rt_uni_op [rt_intros]: "rt n C (write_tag (index_of uni_ops x)) (des_enum uni_ops) x"
  by (rule rt_enum) (cases x; simp add: uni_ops_def)

lemma rt_asm_direction [rt_intros]: "rt n C (write_tag (index_of asm_directions x)) (des_enum asm_directions) x"
  by (rule rt_enum) (cases x; simp add: asm_directions_def)

lemma rt_register_class [rt_intros]: "rt n C (write_tag (index_of register_classes x)) (des_enum register_classes) x"
  by (rule rt_enum) (cases x; simp add: register_classes_def)

lemma rt_word_count [rt_intros]: "rt n C (write_word_count v) read_word_count v"
  unfolding write_word_count_def read_word_count_def by (rule rt_map_eq [OF rt_count]) simp

section \<open>Containers\<close>

lemma w_foreach_seq: "w_foreach (\<lambda>a. a) as = w_seq as"
  by (induction as) (auto simp: w_seq.simps)

lemma rt_times:
  "(\<And>x. x \<in> set xs \<Longrightarrow> rt n C (s x) d (f x)) \<Longrightarrow> rt n C (w_seq (map s xs)) (read_times (length xs) d) (map f xs)"
proof (induction xs)
  case (Cons x xs)
  then have "rt n C (w_seq (map s xs)) (rbind (read_times (length xs) d) (\<lambda>ys. rret (f x # ys))) (f x # map f xs)"
    using rt_map [of n C _ _ "map f xs" "\<lambda>ys. f x # ys"] by (simp add: rmap_def)
  then show ?case using Cons.prems by (simp add: rt_bind [of n C "s x" d "f x"])
qed simp

lemma rt_items [rt_intros]:
  "(\<And>x. x \<in> set xs \<Longrightarrow> rt n C (s x) d (f x)) \<Longrightarrow> rt n C (ser_items (map s xs)) (des_items d) (map f xs)"
  unfolding ser_items_def des_items_def w_foreach_seq
  by (rule rt_bind [OF rt_count]) (simp add: rt_times)

lemma rt_close: "rt n C close_object r_close_object ()"
  unfolding close_object_def r_close_object_def by (rule rt_u8_bind [of n C]) (simp add: rt_write_Nil)

lemma rt_in_object:
  assumes "length name < 2 ^ 64" "rt (n - 1) C (w_seq body) d v"
  shows "rt n C (in_object name body) (r_in_object name d) v"
  unfolding in_object_def r_in_object_def
proof (rule rt_dec [OF grows_open_object rt_open_object])
  show "rt (n - 1) C (w_seq [w_seq body, close_object]) (rbind d (\<lambda>x. rbind r_close_object (\<lambda>_. rret x))) v"
    using rt_bind [OF rt_close, of "n - 1" C "[]" "\<lambda>_. rret v" v]
    by (intro rt_bind [OF assms(2)]) simp
qed (use assms in simp_all)

lemma grows_in_object: "length name < 2 ^ 64 \<Longrightarrow> rt n C (w_seq body) d v \<Longrightarrow> grows (in_object name body)"
  unfolding in_object_def
  by (rule grows_rt_first [OF grows_open_object rt_open_object, where d' = "rbind d (\<lambda>x. rmap (\<lambda>_. x) r_close_object)"])
     (auto intro!: rt_bind rt_map rt_close)

lemma rt_vec:
  assumes "length ty < 100" "\<And>x. x \<in> set xs \<Longrightarrow> rt (n - 1) C (s x) d (f x)"
  shows "rt n C (ser_vec ty (map s xs)) (des_vec ty d) (map f xs)"
  unfolding ser_vec_def des_vec_def using assms by (intro rt_in_object) (simp_all add: rt_items)

lemma rt_thinvec:
  assumes "length ty < 100" "\<And>x. x \<in> set xs \<Longrightarrow> rt (n - 1) C (s x) d (f x)"
  shows "rt n C (ser_thinvec ty (map s xs)) (des_thinvec ty d) (map f xs)"
  unfolding ser_thinvec_def des_thinvec_def using assms by (intro rt_in_object) (simp_all add: rt_items)

lemma rt_opt:
  assumes "\<And>x. x \<in> set_option y \<Longrightarrow> rt n C (s x) d (f x)"
  shows "rt n C (ser_opt (map_option s y)) (des_opt d) (map_option f y)"
proof (cases y)
  case None
  have "rt n C (w_seq [write_bool False, w_skip]) (des_opt d) None"
    unfolding des_opt_def by (rule rt_bind [OF rt_bool]) simp
  then show ?thesis by (simp add: None ser_opt_def)
next
  case (Some x)
  have "rt n C (w_seq [write_bool True, s x]) (des_opt d) (Some (f x))"
    unfolding des_opt_def using assms Some by (intro rt_bind [OF rt_bool]) (simp add: rt_map)
  then show ?thesis by (simp add: Some ser_opt_def)
qed

lemma rt_istrmap:
  assumes "\<And>e. e \<in> set m \<Longrightarrow> rt n C (s (snd e)) d (f (snd e))"
  shows "rt n C (ser_istrmap (map (map_prod id s) m)) (des_istrmap d)
    (map_of_entries ord_string (map (map_prod id f) m))"
  unfolding ser_istrmap_def des_istrmap_def
proof (rule rt_map)
  have "rt n C (ser_istr_pair (map_prod id s e)) (des_pair read_istring d) (map_prod id f e)" if "e \<in> set m" for e
    using assms [OF that] unfolding ser_istr_pair_def des_pair_def
    by (cases e) (auto intro: rt_lift2 [OF rt_istring, of n C _ _ _ _ Pair, simplified])
  then show "rt n C (ser_items (map ser_istr_pair (map (map_prod id s) m))) (des_items (des_pair read_istring d))
      (map (map_prod id f) m)"
    using rt_items [of m n C "ser_istr_pair \<circ> map_prod id s" _ "map_prod id f"] by simp
qed

lemma rt_sw [rt_intros]:
  "(case map_of alts t of None \<Rightarrow> False | Some d \<Rightarrow> rt n C (w_seq as) d v) \<Longrightarrow>
    rt n C (w_seq (write_tag t # as)) (des_switch what alts) v"
  by (auto split: option.splits intro: rt_switch_n)

lemma rt_sw_single:
  "(case map_of alts t of None \<Rightarrow> False | Some d \<Rightarrow> rt n C (w_seq []) d v) \<Longrightarrow>
    rt n C (write_tag t) (des_switch what alts) v"
  using rt_sw [where as = "[]" and t = t] by simp

section \<open>The contract of a kind of value\<close>

locale codec =
  fixes put :: "'a \<Rightarrow> wact" and get :: "('s, 'a) rd" and nf :: "'a \<Rightarrow> 'a"
  assumes codec_rt: "rt n C (put x) get (nf x)"
begin

lemma items: "rt n C (ser_items (map put xs)) (des_items get) (map nf xs)"
  by (rule rt_items) (rule codec_rt)

lemma vec: "length ty < 100 \<Longrightarrow> rt n C (ser_vec ty (map put xs)) (des_vec ty get) (map nf xs)"
  by (rule rt_vec) (simp_all add: codec_rt)

lemma thinvec: "length ty < 100 \<Longrightarrow> rt n C (ser_thinvec ty (map put xs)) (des_thinvec ty get) (map nf xs)"
  by (rule rt_thinvec) (simp_all add: codec_rt)

lemma opt: "rt n C (ser_opt (map_option put y)) (des_opt get) (map_option nf y)"
  by (rule rt_opt) (rule codec_rt)

lemma istrmap:
  "rt n C (ser_istrmap (map (map_prod id put) m)) (des_istrmap get)
    (map_of_entries ord_string (map (map_prod id nf) m))"
  by (rule rt_istrmap) (rule codec_rt)

lemma vec_codec: "length ty < 100 \<Longrightarrow> codec (\<lambda>xs. ser_vec ty (map put xs)) (des_vec ty get) (map nf)"
  by unfold_locales (rule vec)

end

interpretation string: codec write_string read_string "\<lambda>x. x"
  by unfold_locales (rule rt_string)

interpretation istring: codec write_istring read_istring "\<lambda>x. x"
  by unfold_locales (rule rt_istring)

interpretation bool: codec write_bool read_bool "\<lambda>x. x"
  by unfold_locales (rule rt_bool)

interpretation u8: codec write_u8 read_u8 "\<lambda>x. x"
  by unfold_locales (rule rt_u8)

interpretation word_count: codec "write_word_count :: u32 \<Rightarrow> wact" read_word_count "\<lambda>x. x"
  by unfold_locales (rule rt_word_count)

interpretation u64c: codec write_u64c read_u64c "\<lambda>x. x"
  by unfold_locales (rule rt_u64c)

interpretation i64c: codec write_i64c read_i64c "\<lambda>x. x"
  by unfold_locales (rule rt_i64c)

lemma rt_lifetime_def: "rt n C (ser_lifetime_def x) des_lifetime_def x"
  unfolding ser_lifetime_def_def des_lifetime_def_def by (rule rt_map_eq [OF rt_istring]) simp

lemma rt_lifetime_ref [rt_intros]: "rt n C (ser_lifetime_ref x) des_lifetime_ref x"
  unfolding ser_lifetime_ref_def des_lifetime_ref_def by (rule rt_map_eq [OF rt_word_count]) simp

interpretation lifetime_def: codec ser_lifetime_def des_lifetime_def "\<lambda>x. x"
  by unfold_locales (rule rt_lifetime_def)

interpretation lifetime_ref: codec ser_lifetime_ref des_lifetime_ref "\<lambda>x. x"
  by unfold_locales (rule rt_lifetime_ref)

lemma rt_generic_ref [rt_intros]: "rt n C (ser_generic_ref g) des_generic_ref (norm_generic_ref g)"
proof -
  have "rt n C (w_seq [write_istring (gr_name g), write_u16 (ucast (gr_binding g))]) des_generic_ref
    ((\<lambda>nm b. \<lparr>gr_name = nm, gr_binding = ucast (b :: u16)\<rparr>) (gr_name g) (ucast (gr_binding g)))"
    unfolding des_generic_ref_def by (rule rt_lift2) (rule rt_istring rt_u16)+
  moreover have "\<lparr>gr_name = gr_name g, gr_binding = ucast (ucast (gr_binding g) :: u16)\<rparr> = norm_generic_ref g"
    by (cases g) (simp add: norm_generic_ref_def)
  ultimately show ?thesis by (simp add: ser_generic_ref_def)
qed

interpretation generic_ref: codec ser_generic_ref des_generic_ref norm_generic_ref
  by unfold_locales (rule rt_generic_ref)

lemma rt_strings [rt_intros]: "rt n C (ser_strings ss) des_strings ss"
  using string.vec [of "''string''" n C ss] by (simp add: ser_strings_def des_strings_def)

lemma rt_bytes_vec [rt_intros]: "rt n C (ser_bytes bs) des_bytes bs"
  using u8.vec [of "''uint8_t''" n C bs] by (simp add: ser_bytes_def des_bytes_def)

lemma rt_targets [rt_intros]: "rt n C (ser_targets ts) des_targets ts"
  using word_count.vec [of "''unsigned''" n C ts] by (simp add: ser_targets_def des_targets_def)

interpretation byte_string: codec ser_bytes des_bytes "\<lambda>x. x"
  by unfold_locales (rule rt_bytes_vec)

end
