(* ===== verification/Roundtrip_Mir.thy ===== *)
theory Roundtrip_Mir
  imports Codec
begin

text \<open>
  The round trips of paths, literals and MIR.  \<open>kids n C s d f X\<close> says that every type (constant,
  set of generic parameters) in \<open>X\<close> round-trips; each lemma turns that for the children of
  a value into the round trip of the value.

  Two things are asked of the data.  The reader rejects a path without a crate name when it has no
  name for the crate, so \<open>c_crate C\<close> is not empty; and a root that is not a static has the tag of
  an argument or a local (\<open>storage_ok\<close>, which \<open>mir_ok\<close> demands of every lvalue of a function):
  the writer would write a word with the tag 3, the reader would take it for a static.
\<close>

declare w_seq.simps [simp del]

definition kids :: "nat \<Rightarrow> 's ctx \<Rightarrow> ('a \<Rightarrow> wact) \<Rightarrow> ('s, 'b) rd \<Rightarrow> ('a \<Rightarrow> 'b) \<Rightarrow> 'a set \<Rightarrow> bool" where
  "kids n C s d f X \<longleftrightarrow> (\<forall>x \<in> X. rt n C (s x) d (f x))"

lemma kids_simps [simp]:
  "kids n C s d f {}"
  "kids n C s d f (insert x X) \<longleftrightarrow> rt n C (s x) d (f x) \<and> kids n C s d f X"
  "kids n C s d f (X \<union> Y) \<longleftrightarrow> kids n C s d f X \<and> kids n C s d f Y"
  "kids n C s d f (\<Union>y \<in> A. B y) \<longleftrightarrow> (\<forall>y \<in> A. kids n C s d f (B y))"
  by (auto simp: kids_def)

lemma kids_mono: "kids n C s d f X \<Longrightarrow> m \<le> n \<Longrightarrow> kids m C s d f X"
  by (auto simp: kids_def intro: rt_mono)

lemma kids_pred [intro]: "kids n C s d f X \<Longrightarrow> kids (n - j) C s d f X"
  by (rule kids_mono) auto

lemma kidsD: "kids n C s d f X \<Longrightarrow> x \<in> X \<Longrightarrow> rt n C (s x) d (f x)"
  by (simp add: kids_def)

section \<open>Paths\<close>

lemma rt_simple_path:
  assumes "c_crate C \<noteq> []"
  shows "rt n C (ser_simple_path p) des_simple_path (norm_simple_path (c_crate C) p)"
proof (cases p)
  case (SimplePath ms)
  have e: "ser_simple_path p = ser_thinvec ''RcString'' (map write_istring ms)" by (simp add: SimplePath)
  have "rt n C (w_seq [ser_thinvec ''RcString'' (map write_istring ms)]) des_simple_path
    (norm_simple_path (c_crate C) p)"
    unfolding des_simple_path_def
  proof (rule rt_bind)
    show "rt n C (ser_thinvec ''RcString'' (map write_istring ms)) (des_thinvec ''RcString'' read_istring) ms"
      using istring.thinvec [of "''RcString''" n C ms] by simp
    show "rt n C (w_seq []) (\<lambda>r. let rv = SimplePath ms
       in if crate_name rv = [] \<and> length (components rv) > 0 then
            (if r_crate_name r = [] then Inl (Assert_Fail ''m_crate_name != \"\"'')
             else Inr (update_crate_name (r_crate_name r) rv, r))
          else Inr (rv, r)) (norm_simple_path (c_crate C) p)"
      using assms unfolding SimplePath norm_simple_path_def Let_def
      by (intro rtI) (auto simp: w_seq.simps sync_def)
  qed
  then show ?thesis by (simp add: e)
qed

lemma rt_path_params:
  assumes "kids n C s dt f (set1_path_params p)" "kids n C sv dv fv (set2_path_params p)"
  shows "rt n C (ser_path_params (map_path_params s sv p)) (des_path_params dt dv) (map_path_params f fv p)"
proof (cases p)
  case (PathParams ls ts vs)
  have "rt n C (ser_thinvec ''LifetimeRef'' (map ser_lifetime_ref ls))
    (des_thinvec ''LifetimeRef'' des_lifetime_ref) ls"
    using lifetime_ref.thinvec [of "''LifetimeRef''" n C ls] by simp
  moreover have "rt n C (ser_thinvec ''TypeRef'' (map s ts)) (des_thinvec ''TypeRef'' dt) (map f ts)"
    using assms PathParams by (intro rt_thinvec rt_pred) (simp_all add: kids_def)
  moreover have "rt n C (ser_thinvec ''ConstGeneric'' (map sv vs)) (des_thinvec ''ConstGeneric'' dv) (map fv vs)"
    using assms PathParams by (intro rt_thinvec rt_pred) (simp_all add: kids_def)
  ultimately show ?thesis
    by (simp add: PathParams des_path_params_def rt_lift3)
qed

lemma rt_generic_path:
  assumes "c_crate C \<noteq> []" "kids n C s dt f (set1_generic_path p)" "kids n C sv dv fv (set2_generic_path p)"
  shows "rt n C (ser_generic_path (map_generic_path s sv p)) (des_generic_path dt dv)
    (norm_generic_path (c_crate C) (map_generic_path f fv p))"
  using assms by (cases p) (simp add: des_generic_path_def rt_lift2 rt_simple_path rt_path_params)

lemma rt_aty_equal:
  assumes "c_crate C \<noteq> []" "kids n C s dt f (set1_aty_equal p)" "kids n C sv dv fv (set2_aty_equal p)"
  shows "rt n C (ser_aty_equal (map_aty_equal s sv p)) (des_aty_equal dt dv)
    (norm_aty_equal (c_crate C) (map_aty_equal f fv p))"
  using assms by (cases p) (simp add: des_aty_equal_def rt_lift2 rt_generic_path)

text \<open>A bound on an associated type may hold trait paths again; each level opens an object.\<close>

lemma rt_trait_path:
  assumes "c_crate C \<noteq> []"
  shows "n \<le> k \<Longrightarrow> kids (n - 1) C s dt f (set1_trait_path p) \<Longrightarrow> kids (n - 1) C sv dv fv (set2_trait_path p) \<Longrightarrow>
      kids (n - 1) C sg dg fg (set3_trait_path p) \<Longrightarrow>
      rt n C (ser_trait_path (map_trait_path s sv sg p)) (des_trait_path k dt dv dg)
        (norm_trait_path (c_crate C) (map_trait_path f fv fg p))"
    and "n \<le> k \<Longrightarrow> kids n C s dt f (set1_aty_bound b) \<Longrightarrow> kids n C sv dv fv (set2_aty_bound b) \<Longrightarrow>
      kids n C sg dg fg (set3_aty_bound b) \<Longrightarrow>
      rt n C (ser_aty_bound (map_aty_bound s sv sg b)) (des_aty_bound dt dv (des_trait_path k dt dv dg))
        (norm_aty_bound (c_crate C) (map_aty_bound f fv fg b))"
proof (induction p and b arbitrary: n k and n k)
  case (TraitPath h p tbs rbs ptr)
  let ?body = "[ser_opt (map_option sg h), ser_generic_path (map_generic_path s sv p),
      ser_istrmap (map (map_prod id (ser_aty_equal \<circ> map_aty_equal s sv)) tbs),
      ser_istrmap (map (map_prod id (ser_aty_bound \<circ> map_aty_bound s sv sg)) rbs)]"
  let ?d = "\<lambda>k. rlift4 (\<lambda>hrls gpath tys bounds. TraitPath hrls gpath tys bounds None)
      (des_opt dg) (des_generic_path dt dv) (des_istrmap (des_aty_equal dt dv))
      (des_istrmap (des_aty_bound dt dv (des_trait_path k dt dv dg)))"
  let ?v = "TraitPath (map_option fg h) (norm_generic_path (c_crate C) (map_generic_path f fv p))
      (map_of_entries ord_string (map (map_prod id (norm_aty_equal (c_crate C) \<circ> map_aty_equal f fv)) tbs))
      (map_of_entries ord_string (map (map_prod id (norm_aty_bound (c_crate C) \<circ> map_aty_bound f fv fg)) rbs)) None"
  have body: "rt (n - 1) C (w_seq ?body) (?d k') ?v" if "n - 1 \<le> k'" for k'
  proof (rule rt_lift4)
    show "rt (n - 1) C (ser_opt (map_option sg h)) (des_opt dg) (map_option fg h)"
      using TraitPath.prems by (intro rt_opt) (auto simp: kids_def)
    show "rt (n - 1) C (ser_generic_path (map_generic_path s sv p)) (des_generic_path dt dv)
      (norm_generic_path (c_crate C) (map_generic_path f fv p))"
      using TraitPath.prems assms by (intro rt_generic_path) (auto simp: kids_def)
    show "rt (n - 1) C (ser_istrmap (map (map_prod id (ser_aty_equal \<circ> map_aty_equal s sv)) tbs))
      (des_istrmap (des_aty_equal dt dv))
      (map_of_entries ord_string (map (map_prod id (norm_aty_equal (c_crate C) \<circ> map_aty_equal f fv)) tbs))"
    proof (rule rt_istrmap)
      fix e assume e: "e \<in> set tbs"
      have "kids (n - 1) C s dt f (set1_aty_equal (snd e))" "kids (n - 1) C sv dv fv (set2_aty_equal (snd e))"
        using TraitPath.prems e by (cases e; force simp: kids_def)+
      then show "rt (n - 1) C ((ser_aty_equal \<circ> map_aty_equal s sv) (snd e)) (des_aty_equal dt dv)
          ((norm_aty_equal (c_crate C) \<circ> map_aty_equal f fv) (snd e))"
        using assms by (simp add: rt_aty_equal)
    qed
    show "rt (n - 1) C (ser_istrmap (map (map_prod id (ser_aty_bound \<circ> map_aty_bound s sv sg)) rbs))
      (des_istrmap (des_aty_bound dt dv (des_trait_path k' dt dv dg)))
      (map_of_entries ord_string (map (map_prod id (norm_aty_bound (c_crate C) \<circ> map_aty_bound f fv fg)) rbs))"
    proof (rule rt_istrmap)
      fix e assume e: "e \<in> set rbs"
      have "kids (n - 1) C s dt f (set1_aty_bound (snd e))" "kids (n - 1) C sv dv fv (set2_aty_bound (snd e))"
        "kids (n - 1) C sg dg fg (set3_aty_bound (snd e))"
        using TraitPath.prems e by (cases e; force simp: kids_def)+
      then show "rt (n - 1) C ((ser_aty_bound \<circ> map_aty_bound s sv sg) (snd e))
          (des_aty_bound dt dv (des_trait_path k' dt dv dg))
          ((norm_aty_bound (c_crate C) \<circ> map_aty_bound f fv fg) (snd e))"
        using TraitPath.IH [of e "snd e" "n - 1" k'] e that by (cases e) simp
    qed
  qed
  have act: "ser_trait_path (map_trait_path s sv sg (TraitPath h p tbs rbs ptr)) = in_object ''HIR::TraitPath'' ?body"
    by (simp add: comp_def map_prod_def case_prod_unfold)
  have v: "norm_trait_path (c_crate C) (map_trait_path f fv fg (TraitPath h p tbs rbs ptr)) = ?v"
    by (simp add: comp_def map_prod_def case_prod_unfold)
  have inobj: "rt n C (in_object ''HIR::TraitPath'' ?body) (r_in_object ''HIR::TraitPath'' (?d k')) ?v"
    if "n - 1 \<le> k'" for k'
    using body [OF that] by (intro rt_in_object) simp_all
  show ?case
  proof (cases k)
    case 0
    then have "n = 0" using TraitPath.prems(1) by simp
    have "grows (in_object ''HIR::TraitPath'' ?body)"
      by (rule grows_in_object [OF _ body [of 0]]) (simp_all add: \<open>n = 0\<close>)
    then show ?thesis
      unfolding act v \<open>n = 0\<close>
      by (rule rt_zero [OF inobj [of 0, unfolded \<open>n = 0\<close>], rotated -1]) simp_all
  next
    case (Suc k')
    then show ?thesis unfolding act v using inobj [of k'] TraitPath.prems(1) by simp
  qed
next
  case (AtyBound tr traits)
  have "rt n C (ser_generic_path (map_generic_path s sv tr)) (des_generic_path dt dv)
      (norm_generic_path (c_crate C) (map_generic_path f fv tr))"
    using AtyBound.prems assms by (intro rt_generic_path) (auto simp: kids_def)
  moreover have "rt n C (ser_vec ''TraitPath'' (map (ser_trait_path \<circ> map_trait_path s sv sg) traits))
    (des_vec ''TraitPath'' (des_trait_path k dt dv dg)) (map (norm_trait_path (c_crate C) \<circ> map_trait_path f fv fg) traits)"
  proof (rule rt_vec)
    fix t assume t: "t \<in> set traits"
    have "kids (n - 1 - 1) C s dt f (set1_trait_path t)" "kids (n - 1 - 1) C sv dv fv (set2_trait_path t)"
      "kids (n - 1 - 1) C sg dg fg (set3_trait_path t)"
      using AtyBound.prems t by (auto intro!: kids_pred)
    then show "rt (n - 1) C ((ser_trait_path \<circ> map_trait_path s sv sg) t) (des_trait_path k dt dv dg)
      ((norm_trait_path (c_crate C) \<circ> map_trait_path f fv fg) t)"
      using AtyBound.IH [OF t, of "n - 1" k] AtyBound.prems(1) by simp
  qed simp
  ultimately show ?case by (simp add: des_aty_bound_def rt_lift2 comp_def)
qed

lemma rt_path:
  assumes "c_crate C \<noteq> []" "kids n C s dt f (set1_path p)" "kids n C sv dv fv (set2_path p)"
  shows "rt n C (ser_path (map_path s sv sg p)) (des_path dt dv) (norm_path (c_crate C) (map_path f fv fg p))"
proof (cases p)
  case (Path_Generic x1)
  then show ?thesis using assms
    by (auto simp: des_path_def intro!: rt_sw rt_map rt_generic_path)
next
  case (Path_UfcsInherent x21 x22 x23 x24)
  then show ?thesis using assms
    by (auto simp: des_path_def intro!: rt_sw rt_lift4 rt_path_params rt_istring)
next
  case (Path_UfcsKnown t tr nm pp h)
  have "rt n C (w_seq [s t, ser_generic_path (map_generic_path s sv tr), write_istring nm,
        ser_path_params (map_path_params s sv pp)])
      (rlift4 (\<lambda>t tr n pp. Path_UfcsKnown t tr n pp None) dt (des_generic_path dt dv) read_istring
        (des_path_params dt dv))
      ((\<lambda>t tr n pp. Path_UfcsKnown t tr n pp None) (f t)
        (norm_generic_path (c_crate C) (map_generic_path f fv tr)) nm (map_path_params f fv pp))"
    using assms Path_UfcsKnown by (intro rt_lift4 rt_generic_path rt_istring rt_path_params) simp_all
  then show ?thesis using Path_UfcsKnown by (auto simp: des_path_def intro!: rt_sw)
qed simp

section \<open>Literals\<close>

lemma rt_reloc:
  assumes "c_crate C \<noteq> []" "kids n C s dt f (set1_reloc r)" "kids n C sv dv fv (set2_reloc r)"
  shows "rt n C (ser_reloc (map_reloc s sv sg r)) (des_reloc dt dv) (norm_reloc (c_crate C) (map_reloc f fv fg r))"
proof (cases r)
  case (Reloc ofs len p bs)
  have w: "rt n C (write_count (unat x)) read_word_count x" for x :: u64
    unfolding read_word_count_def by (rule rt_map_eq [OF rt_count]) simp
  show ?thesis
  proof (cases p)
    case None
    have "rt n C (w_seq [write_tag 1, write_string bs])
      (rbind read_tag (\<lambda>t. if t = 0 then rmap (\<lambda>p. Reloc ofs len (Some p) []) (des_path dt dv)
         else if t = 1 then rmap (\<lambda>bs. Reloc ofs len None bs) read_string
         else rfail (Runtime_Error ''abort''))) (Reloc ofs len None bs)"
      by (rule rt_bind [OF rt_tag]) (simp add: rt_map [OF rt_string, of n C bs "Reloc ofs len None"])
    then have "rt n C (w_seq [write_count (unat ofs), write_count (unat len), w_seq [write_tag 1, write_string bs]])
      (des_reloc dt dv) (Reloc ofs len None bs)"
      unfolding des_reloc_def by (intro rt_bind [OF w]) (simp only: w_seq_single)
    then show ?thesis by (simp add: Reloc None)
  next
    case (Some q)
    let ?q = "norm_path (c_crate C) (map_path f fv fg q)"
    have "rt n C (ser_path (map_path s sv sg q)) (des_path dt dv) ?q"
      using assms Reloc Some by (intro rt_path) simp_all
    then have "rt n C (w_seq [write_tag 0, ser_path (map_path s sv sg q)])
      (rbind read_tag (\<lambda>t. if t = 0 then rmap (\<lambda>p. Reloc ofs len (Some p) []) (des_path dt dv)
         else if t = 1 then rmap (\<lambda>bs. Reloc ofs len None bs) read_string
         else rfail (Runtime_Error ''abort''))) (Reloc ofs len (Some ?q) [])"
      by (intro rt_bind [OF rt_tag]) (simp add: rt_map [of n C _ _ _ "\<lambda>p. Reloc ofs len (Some p) []"])
    then have "rt n C (w_seq [write_count (unat ofs), write_count (unat len),
        w_seq [write_tag 0, ser_path (map_path s sv sg q)]]) (des_reloc dt dv) (Reloc ofs len (Some ?q) [])"
      unfolding des_reloc_def by (intro rt_bind [OF w]) (simp only: w_seq_single)
    then show ?thesis by (simp add: Reloc Some)
  qed
qed

lemma rt_encoded_literal:
  assumes "c_crate C \<noteq> []" "kids n C s dt f (set1_encoded_literal l)" "kids n C sv dv fv (set2_encoded_literal l)"
  shows "rt n C (ser_encoded_literal (map_encoded_literal s sv sg l)) (des_encoded_literal dt dv)
    (norm_encoded_literal (c_crate C) (map_encoded_literal f fv fg l))"
proof (cases l)
  case (EncodedLiteral bs rs)
  have "rt n C (ser_items (map (ser_reloc \<circ> map_reloc s sv sg) rs)) (des_items (des_reloc dt dv))
    (map (norm_reloc (c_crate C) \<circ> map_reloc f fv fg) rs)"
  proof (rule rt_items)
    fix r assume r: "r \<in> set rs"
    have "kids n C s dt f (set1_reloc r)" "kids n C sv dv fv (set2_reloc r)"
      using assms(2,3) r by (auto simp: EncodedLiteral kids_def)
    then show "rt n C ((ser_reloc \<circ> map_reloc s sv sg) r) (des_reloc dt dv)
      ((norm_reloc (c_crate C) \<circ> map_reloc f fv fg) r)"
      using assms(1) by (simp add: rt_reloc)
  qed
  then show ?thesis
    by (simp add: EncodedLiteral des_encoded_literal_def rt_lift2 rt_bytes_vec comp_def)
qed

section \<open>MIR\<close>

fun param_ok :: "('t, 'v, 'g) param \<Rightarrow> bool" where
  "param_ok (Pm_LValue lv) = storage_ok (lv_root lv)"
| "param_ok (Pm_Borrow b lv) = storage_ok (lv_root lv)"
| "param_ok (Pm_Constant c) = True"

fun rvalue_ok :: "('t, 'v, 'g) rvalue \<Rightarrow> bool" where
  "rvalue_ok (RV_Use v) = storage_ok (lv_root v)"
| "rvalue_ok (RV_Borrow b v) = storage_ok (lv_root v)"
| "rvalue_ok (RV_Constant c) = True"
| "rvalue_ok (RV_SizedArray v n) = param_ok v"
| "rvalue_ok (RV_Cast v t) = storage_ok (lv_root v)"
| "rvalue_ok (RV_BinOp l oper r) = (param_ok l \<and> param_ok r)"
| "rvalue_ok (RV_UniOp v oper) = storage_ok (lv_root v)"
| "rvalue_ok (RV_DstMeta v) = storage_ok (lv_root v)"
| "rvalue_ok (RV_DstPtr v) = storage_ok (lv_root v)"
| "rvalue_ok (RV_MakeDst p m) = (param_ok p \<and> param_ok m)"
| "rvalue_ok (RV_Tuple vs) = list_all param_ok vs"
| "rvalue_ok (RV_Array vs) = list_all param_ok vs"
| "rvalue_ok (RV_UnionVariant p i v) = param_ok v"
| "rvalue_ok (RV_EnumVariant p i vs) = list_all param_ok vs"
| "rvalue_ok (RV_Struct p vs) = list_all param_ok vs"

fun call_target_ok :: "('t, 'v, 'g) call_target \<Rightarrow> bool" where
  "call_target_ok (CLT_Value v) = storage_ok (lv_root v)"
| "call_target_ok _ = True"

fun terminator_ok :: "('t, 'v, 'g) terminator \<Rightarrow> bool" where
  "terminator_ok (T_If c t f) = storage_ok (lv_root c)"
| "terminator_ok (T_Switch v ts) = storage_ok (lv_root v)"
| "terminator_ok (T_SwitchValue v d ts vals) = storage_ok (lv_root v)"
| "terminator_ok (T_Call rb pb rv f args) =
    (storage_ok (lv_root rv) \<and> call_target_ok f \<and> list_all param_ok args)"
| "terminator_ok _ = True"

fun asm_param_ok :: "('t, 'v, 'g) asm_param \<Rightarrow> bool" where
  "asm_param_ok (AP_Reg d s i ou) = (pred_option param_ok i \<and> pred_option (\<lambda>v. storage_ok (lv_root v)) ou)"
| "asm_param_ok _ = True"

fun statement_ok :: "('t, 'v, 'g) statement \<Rightarrow> bool" where
  "statement_ok (S_Assign d s) = (storage_ok (lv_root d) \<and> rvalue_ok s)"
| "statement_ok (S_Asm tpl os is cl fl) =
    (list_all (\<lambda>e. storage_ok (lv_root (snd e))) os \<and> list_all (\<lambda>e. storage_ok (lv_root (snd e))) is)"
| "statement_ok (S_Asm2 opts ls ps) = list_all asm_param_ok ps"
| "statement_ok (S_Drop k v i) = storage_ok (lv_root v)"
| "statement_ok _ = True"

definition block_ok :: "('t, 'v, 'g) basic_block \<Rightarrow> bool" where
  "block_ok b = (list_all statement_ok (bb_statements b) \<and> terminator_ok (bb_terminator b))"

definition mir_ok :: "('t, 'v, 'g) mir_function \<Rightarrow> bool" where
  "mir_ok m = list_all block_ok (mf_blocks m)"

definition expr_ok :: "('t, 'v, 'g) expr_ptr \<Rightarrow> bool" where
  "expr_ok e = pred_option mir_ok (ep_mir e)"

lemma rt_storage:
  assumes "c_crate C \<noteq> []" "kids n C s dt f (set1_storage r)" "kids n C sv dv fv (set2_storage r)" "storage_ok r"
  shows "rt n C (ser_storage (map_storage s sv sg r)) (des_storage dt dv) (norm_storage (c_crate C) (map_storage f fv fg r))"
proof (cases r)
  case (St_Static p)
  have "rt n C (w_seq [write_count 3, ser_path (map_path s sv sg p)]) (des_storage dt dv)
    (new_Static (norm_path (c_crate C) (map_path f fv fg p)))"
    unfolding des_storage_def
    using assms St_Static by (intro rt_bind [OF rt_count]) (simp add: rt_map rt_path)
  then show ?thesis by (simp add: St_Static new_Static_def)
next
  case (St_Val v)
  have ok: "v AND 3 < 2" using assms(4) by (simp add: St_Val)
  then have "v \<noteq> 3" "\<not> is_Static (St_Val v)" by (auto simp: and_3)
  then have ne: "unat v \<noteq> 3" by (auto simp: word_unat_eq_iff)
  have "rt n C (w_seq [write_count (unat v)]) (des_storage dt dv) (St_Val v)"
    unfolding des_storage_def
    by (rule rt_bind [OF rt_count]) (use ne ok in \<open>auto intro!: rtI simp: w_seq.simps storage_from_inner_def\<close>)
  then show ?thesis using \<open>\<not> is_Static (St_Val v)\<close> by (simp add: St_Val)
qed

lemma rt_lvalue:
  assumes "c_crate C \<noteq> []" "kids n C s dt f (set1_lvalue lv)" "kids n C sv dv fv (set2_lvalue lv)"
    "storage_ok (lv_root lv)"
  shows "rt n C (ser_lvalue (map_lvalue s sv sg lv)) (des_lvalue dt dv) (norm_lvalue (c_crate C) (map_lvalue f fv fg lv))"
proof (cases lv)
  case (LValue r ws)
  have "rt n C (ser_vec ''Wrapper'' (map write_word_count ws)) (des_vec ''Wrapper'' read_word_count) ws"
    using word_count.vec [of "''Wrapper''" n C ws] by simp
  then show ?thesis
    using assms by (simp add: LValue des_lvalue_def rt_lift2 rt_storage)
qed

lemma rt_const_bytes: "rt n C (w_seq [write_count (length bs), write_bytes bs]) (rbind read_count read_bytes) bs"
  by (rule rt_bind [OF rt_count]) (simp add: rt_bytes)

lemma rt_i128_inner: "rt n C (write_u128 (inner v)) read_i128 v"
  using rt_i128 [of n C v] by (simp add: write_i128_def)

lemma rt_mir_constant:
  assumes "c_crate C \<noteq> []" "kids n C s dt f (set1_mir_constant c)" "kids n C sv dv fv (set2_mir_constant c)"
  shows "rt n C (ser_mir_constant (map_mir_constant s sv sg c)) (des_mir_constant dt dv)
    (norm_mir_constant (c_crate C) (map_mir_constant f fv fg c))"
proof (cases c)
  case (C_ItemAddr p)
  show ?thesis
  proof (cases p)
    case (Some q)
    have "rt n C (ser_path (map_path s sv sg q)) (rmap (\<lambda>p. C_ItemAddr (Some p)) (des_path dt dv))
       (C_ItemAddr (Some (norm_path (c_crate C) (map_path f fv fg q))))"
      using assms by (intro rt_map_eq [OF rt_path]) (simp_all add: C_ItemAddr Some)
    then show ?thesis by (auto simp: C_ItemAddr Some des_mir_constant_def intro!: rt_sw)
  qed (auto simp: C_ItemAddr des_mir_constant_def intro!: rt_sw)
qed (use assms in \<open>auto simp: des_mir_constant_def intro!: rt_sw rt_lift2 rt_map rt_i128_inner rt_u128 rt_double
      rt_bool rt_string rt_core_type rt_generic_ref rt_path rt_const_bytes\<close>)

lemma rt_param:
  assumes "c_crate C \<noteq> []" "kids n C s dt f (set1_param p)" "kids n C sv dv fv (set2_param p)" "param_ok p"
  shows "rt n C (ser_param (map_param s sv sg p)) (des_param dt dv) (norm_param (c_crate C) (map_param f fv fg p))"
  using assms by (cases p) (auto simp: des_param_def intro!: rt_sw rt_map rt_lift2 rt_borrow_type rt_lvalue rt_mir_constant)

lemma rt_params:
  assumes "c_crate C \<noteq> []" "\<forall>p \<in> set ps. kids n C s dt f (set1_param p)" "\<forall>p \<in> set ps. kids n C sv dv fv (set2_param p)"
    "list_all param_ok ps"
  shows "rt n C (ser_params (map (map_param s sv sg) ps)) (des_params dt dv)
    (map (norm_param (c_crate C)) (map (map_param f fv fg) ps))"
proof -
  have "rt n C (ser_vec ''Param'' (map (ser_param \<circ> map_param s sv sg) ps)) (des_vec ''Param'' (des_param dt dv))
    (map (norm_param (c_crate C) \<circ> map_param f fv fg) ps)"
    using assms by (intro rt_vec) (auto simp: list_all_iff intro!: rt_param kids_pred)
  then show ?thesis by (simp add: ser_params_def des_params_def)
qed

lemma is_unsize_placeholder_map [simp]: "is_unsize_placeholder (map_param s sv sg p) = is_unsize_placeholder p"
proof (cases p)
  case (Pm_Constant c)
  then show ?thesis by (cases c) (auto split: option.split elim: is_unsize_placeholder.elims)
qed simp_all

lemma unsize_placeholder: "is_unsize_placeholder p \<longleftrightarrow> p = Pm_Constant (C_ItemAddr None)"
  by (cases p rule: is_unsize_placeholder.cases) auto

lemma rt_meta_val:
  assumes "c_crate C \<noteq> []" "kids n C s dt f (set1_param p)" "kids n C sv dv fv (set2_param p)" "param_ok p"
  shows "rt n C (ser_meta_val (map_param s sv sg p)) (des_meta_val dt dv) (norm_param (c_crate C) (map_param f fv fg p))"
  unfolding ser_meta_val_def des_meta_val_def Let_def is_unsize_placeholder_map
proof (rule rt_bind [OF rt_bool])
  show "rt n C (w_seq [if \<not> is_unsize_placeholder p then ser_param (map_param s sv sg p) else w_skip])
    (if \<not> is_unsize_placeholder p then des_param dt dv else rret (Pm_Constant (C_ItemAddr None)))
    (norm_param (c_crate C) (map_param f fv fg p))"
    using assms by (auto simp: unsize_placeholder intro!: rt_param)
qed

lemma rt_array_size:
  assumes "kids n C sv dv fv (set_array_size a)"
  shows "rt n C (ser_array_size (map_array_size sv a)) (des_array_size dv) (map_array_size fv a)"
  using assms by (cases a) (auto simp: des_array_size_def intro!: rt_sw rt_map rt_u64c)

lemmas rt_values = rt_lvalue rt_param rt_params rt_mir_constant rt_meta_val rt_array_size rt_path
  rt_generic_path rt_path_params

lemma rt_rvalue:
  assumes "c_crate C \<noteq> []" "kids n C s dt f (set1_rvalue v)" "kids n C sv dv fv (set2_rvalue v)" "rvalue_ok v"
  shows "rt n C (ser_rvalue (map_rvalue s sv sg v)) (des_rvalue dt dv) (norm_rvalue (c_crate C) (map_rvalue f fv fg v))"
  using assms
  by (cases v)
    (auto simp: des_rvalue_def simp del: map_map list.map_comp intro!: rt_sw rt_map rt_lift2 rt_lift3 rt_values
      rt_borrow_type rt_bin_op rt_uni_op rt_word_count)

lemma rt_call_target:
  assumes "c_crate C \<noteq> []" "kids n C s dt f (set1_call_target t)" "kids n C sv dv fv (set2_call_target t)"
    "call_target_ok t"
  shows "rt n C (ser_call_target (map_call_target s sv sg t)) (des_call_target dt dv)
    (norm_call_target (c_crate C) (map_call_target f fv fg t))"
  using assms by (cases t) (auto simp: des_call_target_def intro!: rt_sw rt_map rt_lift2 rt_values rt_istring)

lemma rt_switch_values: "rt n C (ser_switch_values v) des_switch_values v"
proof (cases v)
  case (SV_Unsigned x)
  then show ?thesis using u64c.vec [of "''uint64_t''" n C x]
    by (auto simp: des_switch_values_def intro!: rt_sw rt_map)
next
  case (SV_Signed x)
  then show ?thesis using i64c.vec [of "''int64_t''" n C x]
    by (auto simp: des_switch_values_def intro!: rt_sw rt_map)
next
  case (SV_String x)
  then show ?thesis using rt_strings [of n C x]
    by (auto simp: des_switch_values_def ser_strings_def intro!: rt_sw rt_map)
next
  case (SV_ByteString x)
  then show ?thesis using byte_string.vec [of "''vector<uint8_t>''" n C x]
    by (auto simp: des_switch_values_def intro!: rt_sw rt_map)
qed

lemma rt_terminator:
  assumes "c_crate C \<noteq> []" "kids n C s dt f (set1_terminator t)" "kids n C sv dv fv (set2_terminator t)"
    "terminator_ok t"
  shows "rt n C (ser_terminator (map_terminator s sv sg t)) (des_terminator dt dv)
    (norm_terminator (c_crate C) (map_terminator f fv fg t))"
  using assms
  by (cases t)
    (auto simp: des_terminator_def simp del: map_map list.map_comp intro!: rt_sw rt_sw_single rt_map rt_lift2 rt_lift3 rt_lift4
      rt_lift5 rt_values rt_call_target rt_switch_values rt_targets rt_word_count)

section \<open>Statements\<close>

lemma char_sign: "ucast (signed_take_bit 7 (ucast (m :: u8) :: u64)) = m"
  by (rule bit_word_eqI) (auto simp: bit_simps)

lemma rt_line_fragment: "rt n C (ser_line_fragment l) des_line_fragment l"
proof -
  have "rt n C (ser_line_fragment l) des_line_fragment
    ((\<lambda>b i m. \<lparr>lf_before = b, lf_index = i, lf_modifier = ucast (m :: u64)\<rparr>) (lf_before l) (lf_index l)
      (signed_take_bit 7 (ucast (lf_modifier l))))"
    unfolding ser_line_fragment_def des_line_fragment_def
    by (rule rt_lift3) (rule rt_string rt_word_count rt_i64c)+
  then show ?thesis by (cases l) (simp add: char_sign)
qed

interpretation line_fragment: codec ser_line_fragment des_line_fragment "\<lambda>x. x"
  by unfold_locales (rule rt_line_fragment)

lemma rt_asm_line: "rt n C (ser_asm_line l) des_asm_line l"
proof -
  have "rt n C (ser_asm_line l) des_asm_line
    ((\<lambda>fs t. \<lparr>al_frags = fs, al_trailing = t\<rparr>) (map (\<lambda>x. x) (al_frags l)) (al_trailing l))"
    unfolding ser_asm_line_def des_asm_line_def
    by (rule rt_lift2) (rule line_fragment.vec rt_string | simp)+
  then show ?thesis by (cases l) simp
qed

interpretation asm_line: codec ser_asm_line des_asm_line "\<lambda>x. x"
  by unfold_locales (rule rt_asm_line)

lemma rt_register_spec: "rt n C (ser_register_spec r) des_register_spec r"
  by (cases r) (auto simp: des_register_spec_def intro!: rt_sw rt_map rt_register_class rt_string)

lemma bit_flag: "bit (flag_bit i b :: u16) j \<longleftrightarrow> b \<and> i = j \<and> j < 16"
  by (auto simp: flag_bit_def bit_simps)

lemma rt_asm_options: "rt n C (ser_asm_options x) des_asm_options x"
proof -
  let ?w = "flag_bit 0 (ao_pure x) OR flag_bit 1 (ao_nomem x) OR flag_bit 2 (ao_readonly x) OR
     flag_bit 3 (ao_preserves_flags x) OR flag_bit 4 (ao_noreturn x) OR flag_bit 5 (ao_nostack x) OR
     flag_bit 6 (ao_att_syntax x) :: u16"
  have b: "?w AND push_bit j 1 \<noteq> 0 \<longleftrightarrow> (j = 0 \<and> ao_pure x) \<or> (j = 1 \<and> ao_nomem x) \<or> (j = 2 \<and> ao_readonly x) \<or>
      (j = 3 \<and> ao_preserves_flags x) \<or> (j = 4 \<and> ao_noreturn x) \<or> (j = 5 \<and> ao_nostack x) \<or> (j = 6 \<and> ao_att_syntax x)"
    if "j < 16" for j
    using that unfolding bit_iff_and_push_bit_not_eq_0 [symmetric] by (auto simp: bit_or_iff bit_flag)
  have "rt n C (ser_asm_options x) des_asm_options
     \<lparr>ao_pure = ?w AND 1 \<noteq> 0, ao_nomem = ?w AND 2 \<noteq> 0, ao_readonly = ?w AND 4 \<noteq> 0,
      ao_preserves_flags = ?w AND 8 \<noteq> 0, ao_noreturn = ?w AND 16 \<noteq> 0, ao_nostack = ?w AND 32 \<noteq> 0,
      ao_att_syntax = ?w AND 64 \<noteq> 0\<rparr>"
    unfolding ser_asm_options_def des_asm_options_def by (rule rt_map_eq [OF rt_u16]) simp
  moreover have "\<lparr>ao_pure = ?w AND 1 \<noteq> 0, ao_nomem = ?w AND 2 \<noteq> 0, ao_readonly = ?w AND 4 \<noteq> 0,
      ao_preserves_flags = ?w AND 8 \<noteq> 0, ao_noreturn = ?w AND 16 \<noteq> 0, ao_nostack = ?w AND 32 \<noteq> 0,
      ao_att_syntax = ?w AND 64 \<noteq> 0\<rparr> = x"
    using b [of 0] b [of 1] b [of 2] b [of 3] b [of 4] b [of 5] b [of 6]
    by (intro asm_options.equality) simp_all
  ultimately show ?thesis by (simp only:)
qed

lemma rt_asm_param:
  assumes "c_crate C \<noteq> []" "kids n C s dt f (set1_asm_param p)" "kids n C sv dv fv (set2_asm_param p)"
    "asm_param_ok p"
  shows "rt n C (ser_asm_param (map_asm_param s sv sg p)) (des_asm_param dt dv)
    (norm_asm_param (c_crate C) (map_asm_param f fv fg p))"
proof (cases p)
  case (AP_Reg d rs i ou)
  have "rt n C (ser_opt (map_option (ser_param \<circ> map_param s sv sg) i)) (des_opt (des_param dt dv))
     (map_option (norm_param (c_crate C) \<circ> map_param f fv fg) i)"
    using assms AP_Reg by (intro rt_opt) (auto intro!: rt_param)
  moreover have "rt n C (ser_opt (map_option (ser_lvalue \<circ> map_lvalue s sv sg) ou)) (des_opt (des_lvalue dt dv))
     (map_option (norm_lvalue (c_crate C) \<circ> map_lvalue f fv fg) ou)"
    using assms AP_Reg by (intro rt_opt) (auto intro!: rt_lvalue)
  ultimately show ?thesis
    by (auto simp: AP_Reg des_asm_param_def option.map_comp comp_def intro!: rt_sw rt_lift4 rt_asm_direction rt_register_spec)
qed (use assms in \<open>auto simp: des_asm_param_def intro!: rt_sw rt_map rt_values\<close>)

lemma rt_asm_specs:
  assumes "c_crate C \<noteq> []" "\<forall>e \<in> set es. kids n C s dt f (set1_lvalue (snd e))"
    "\<forall>e \<in> set es. kids n C sv dv fv (set2_lvalue (snd e))" "list_all (\<lambda>e. storage_ok (lv_root (snd e))) es"
  shows "rt n C (ser_asm_specs (map (map_prod id (map_lvalue s sv sg)) es)) (des_asm_specs dt dv)
    (map (map_prod id (norm_lvalue (c_crate C))) (map (map_prod id (map_lvalue f fv fg)) es))"
proof -
  have "rt n C (ser_vec ''pair<string,LValue>'' (map (\<lambda>e. ser_str_pair (fst e, ser_lvalue (map_lvalue s sv sg (snd e)))) es))
    (des_vec ''pair<string,LValue>'' (des_pair read_string (des_lvalue dt dv)))
    (map (\<lambda>e. (fst e, norm_lvalue (c_crate C) (map_lvalue f fv fg (snd e)))) es)"
    using assms by (intro rt_vec)
      (auto simp: list_all_iff ser_str_pair_def des_pair_def intro!: rt_lift2 rt_string rt_lvalue kids_pred)
  then show ?thesis
    by (simp add: ser_asm_specs_def des_asm_specs_def comp_def map_prod_def case_prod_unfold)
qed

lemma rt_lines: "rt n C (ser_vec ''Line'' (map ser_asm_line ls)) (des_vec ''Line'' des_asm_line) ls"
  using asm_line.vec [of "''Line''" n C ls] by simp

lemma rt_asm_params:
  assumes "c_crate C \<noteq> []" "\<forall>p \<in> set ps. kids n C s dt f (set1_asm_param p)"
    "\<forall>p \<in> set ps. kids n C sv dv fv (set2_asm_param p)" "list_all asm_param_ok ps"
  shows "rt n C (ser_vec ''AsmParam'' (map ser_asm_param (map (map_asm_param s sv sg) ps)))
    (des_vec ''AsmParam'' (des_asm_param dt dv)) (map (norm_asm_param (c_crate C)) (map (map_asm_param f fv fg) ps))"
proof -
  have "rt n C (ser_vec ''AsmParam'' (map (ser_asm_param \<circ> map_asm_param s sv sg) ps))
    (des_vec ''AsmParam'' (des_asm_param dt dv)) (map (norm_asm_param (c_crate C) \<circ> map_asm_param f fv fg) ps)"
    using assms by (intro rt_vec) (auto simp: list_all_iff intro!: rt_asm_param kids_pred)
  then show ?thesis by simp
qed

lemma rt_drop:
  assumes "rt n C a dlv lv"
  shows "rt n C (w_seq [write_bool (k = DK_DEEP), a, write_word_count i])
    (rlift3 (\<lambda>b lv i. S_Drop (if b then DK_DEEP else DK_SHALLOW) lv i) read_bool dlv read_word_count) (S_Drop k lv i)"
proof -
  have "rt n C (w_seq [write_bool (k = DK_DEEP), a, write_word_count i])
    (rlift3 (\<lambda>b lv i. S_Drop (if b then DK_DEEP else DK_SHALLOW) lv i) read_bool dlv read_word_count)
    ((\<lambda>b lv i. S_Drop (if b then DK_DEEP else DK_SHALLOW) lv i) (k = DK_DEEP) lv i)"
    by (rule rt_lift3 [OF rt_bool assms rt_word_count])
  then show ?thesis by (cases k) simp_all
qed

lemma rt_statement_body:
  assumes "c_crate C \<noteq> []" "kids n C s dt f (set1_statement x)" "kids n C sv dv fv (set2_statement x)"
    "statement_ok x"
  shows "rt n C (ser_statement_body (map_statement s sv sg x)) (des_statement_body dt dv)
    (norm_statement (c_crate C) (map_statement f fv fg x))"
proof (cases x)
  case (S_Asm tpl os ins cl fl)
  have "\<forall>e \<in> set os. kids n C s dt f (set1_lvalue (snd e))" "\<forall>e \<in> set ins. kids n C s dt f (set1_lvalue (snd e))"
    "\<forall>e \<in> set os. kids n C sv dv fv (set2_lvalue (snd e))" "\<forall>e \<in> set ins. kids n C sv dv fv (set2_lvalue (snd e))"
    using assms S_Asm by (force simp: kids_def)+
  then show ?thesis
    using assms by (auto simp: S_Asm des_statement_body_def simp del: map_map list.map_comp
        intro!: rt_sw rt_lift5 rt_asm_specs rt_string rt_strings)
qed (use assms in \<open>auto simp: des_statement_body_def simp del: map_map list.map_comp
    intro!: rt_sw rt_map rt_lift2 rt_lift3 rt_values rt_rvalue rt_word_count rt_bool rt_asm_options rt_lines
      rt_asm_params rt_drop rt_targets [unfolded ser_targets_def]\<close>)

lemma rt_statement:
  assumes "c_crate C \<noteq> []" "kids n C s dt f (set1_statement x)" "kids n C sv dv fv (set2_statement x)"
    "statement_ok x"
  shows "rt n C (ser_statement (map_statement s sv sg x)) (des_statement dt dv)
    (norm_statement (c_crate C) (map_statement f fv fg x))"
  unfolding ser_statement_def des_statement_def
  using assms by (intro rt_in_object) (auto intro!: rt_statement_body kids_pred)

lemma rt_basic_block:
  assumes "c_crate C \<noteq> []" "kids n C s dt f (set1_basic_block x)" "kids n C sv dv fv (set2_basic_block x)"
    "block_ok x"
  shows "rt n C (ser_basic_block (map_basic_block s sv sg x)) (des_basic_block dt dv)
    (norm_basic_block (c_crate C) (map_basic_block f fv fg x))"
proof (cases x)
  case (BasicBlock ss t)
  have "rt n C (ser_vec ''Statement'' (map (ser_statement \<circ> map_statement s sv sg) ss))
    (des_vec ''Statement'' (des_statement dt dv)) (map (norm_statement (c_crate C) \<circ> map_statement f fv fg) ss)"
    using assms BasicBlock
    by (intro rt_vec) (auto simp: block_ok_def list_all_iff intro!: rt_statement kids_pred)
  moreover have "rt n C (ser_terminator (map_terminator s sv sg t)) (des_terminator dt dv)
    (norm_terminator (c_crate C) (map_terminator f fv fg t))"
    using assms BasicBlock by (intro rt_terminator) (simp_all add: block_ok_def)
  ultimately show ?thesis by (simp add: BasicBlock des_basic_block_def rt_lift2)
qed

lemma rt_mir_function:
  assumes "c_crate C \<noteq> []" "kids n C s dt f (set1_mir_function x)" "kids n C sv dv fv (set2_mir_function x)"
    "mir_ok x"
  shows "rt n C (ser_mir_function (map_mir_function s sv sg x)) (des_mir_function dt dv)
    (norm_mir_function (c_crate C) (map_mir_function f fv fg x))"
proof (cases x)
  case (MirFunction ls dfs bs)
  have "rt n C (ser_vec ''TypeRef'' (map s ls)) (des_vec ''TypeRef'' dt) (map f ls)"
    using assms MirFunction by (intro rt_vec rt_pred) (simp_all add: kids_def)
  moreover have "rt n C (ser_vec ''bool'' (map write_bool dfs)) (des_vec ''bool'' read_bool) dfs"
    using bool.vec [of "''bool''" n C dfs] by simp
  moreover have "rt n C (ser_vec ''BasicBlock'' (map (ser_basic_block \<circ> map_basic_block s sv sg) bs))
    (des_vec ''BasicBlock'' (des_basic_block dt dv)) (map (norm_basic_block (c_crate C) \<circ> map_basic_block f fv fg) bs)"
    using assms MirFunction
    by (intro rt_vec) (auto simp: mir_ok_def list_all_iff intro!: rt_basic_block kids_pred)
  ultimately show ?thesis by (simp add: MirFunction des_mir_function_def rt_lift3)
qed

lemma rt_expr_ptr:
  assumes "c_crate C \<noteq> []" "kids n C s dt f (set1_expr_ptr x)" "kids n C sv dv fv (set2_expr_ptr x)" "expr_ok x"
  shows "rt n C (ser_expr_ptr save_mir (map_expr_ptr s sv sg x)) (des_expr_ptr dt dv)
    (norm_expr_ptr save_mir (c_crate C) (map_expr_ptr f fv fg x))"
proof (cases x)
  case (ExprPtr nd bs es m)
  define m' where "m' = (if save_mir then m else None)"
  have "rt (n - 1) C (ser_opt (map_option (ser_mir_function \<circ> map_mir_function s sv sg) m'))
    (des_opt (des_mir_function dt dv)) (map_option (norm_mir_function (c_crate C) \<circ> map_mir_function f fv fg) m')"
    using assms ExprPtr
    by (intro rt_opt) (auto simp: m'_def expr_ok_def split: if_splits intro!: rt_mir_function kids_pred)
  moreover have "rt (n - 1) C (ser_vec ''TypeRef'' (map s es)) (des_vec ''TypeRef'' dt) (map f es)"
    using assms ExprPtr by (intro rt_vec rt_pred) (simp_all add: kids_def)
  ultimately have "rt (n - 1) C
    (w_seq [ser_opt (map_option (ser_mir_function \<circ> map_mir_function s sv sg) m'), ser_vec ''TypeRef'' (map s es)])
    (rlift2 (\<lambda>m es. ExprPtr None [] es m) (des_opt (des_mir_function dt dv)) (des_vec ''TypeRef'' dt))
    ((\<lambda>m es. ExprPtr None [] es m) (map_option (norm_mir_function (c_crate C) \<circ> map_mir_function f fv fg) m')
      (map f es))"
    by (rule rt_lift2)
  then have "rt n C
    (in_object ''HIR::ExprPtr'' [ser_opt (map_option (ser_mir_function \<circ> map_mir_function s sv sg) m'),
       ser_vec ''TypeRef'' (map s es)]) (des_expr_ptr dt dv)
    (ExprPtr None [] (map f es) (map_option (norm_mir_function (c_crate C) \<circ> map_mir_function f fv fg) m'))"
    unfolding des_expr_ptr_def by (intro rt_in_object) simp_all
  then show ?thesis by (simp add: ExprPtr m'_def option.map_comp split: if_splits)
qed

end
