(* ===== verification/Roundtrip.thy ===== *)
theory Roundtrip
  imports Roundtrip_Mir
begin

text \<open>
  The round trip of types, constants and generic parameters.

  The caches of the two sides stay in step when two conditions hold for the set \<open>T\<close> of the
  types that are written (\<open>types_ok\<close>): types with the same key come back the same
  (the key is a text that leaves some parts of a type out), and no type is a proper part
  of a type with its own key (the writer's \<open>insert\<close> would then change nothing, while the
  reader enters the type again).
\<close>

declare w_seq.simps [simp del]

section \<open>Generic parameters\<close>

lemma rt_type_param_def:
  assumes "kids n C s dt f (set_type_param_def x)"
  shows "rt n C (ser_type_param_def (map_type_param_def s x)) (des_type_param_def dt) (map_type_param_def f x)"
  using assms by (cases x) (auto simp: des_type_param_def_def intro!: rt_lift3 rt_istring rt_bool)

lemma rt_value_param_def:
  assumes "kids n C s dt f (set1_value_param_def x)"
  shows "rt n C (ser_value_param_def (map_value_param_def s sv sg x)) (des_value_param_def dt)
    (norm_value_param_def (map_value_param_def f fv fg x))"
proof (cases x)
  case (ValueParamDef nm t d)
  have "rt n C (w_seq [write_istring nm, s t]) (rlift2 (\<lambda>n t. ValueParamDef n t (ExprPtr None [] [] None)) read_istring dt)
    ((\<lambda>n t. ValueParamDef n t (ExprPtr None [] [] None)) nm (f t))"
    using assms ValueParamDef by (intro rt_lift2 rt_istring) simp
  then show ?thesis by (simp add: ValueParamDef des_value_param_def_def)
qed

lemma rt_generic_bound:
  assumes "c_crate C \<noteq> []" "n \<le> k" "kids n C s dt f (set1_generic_bound x)"
    "kids n C sv dv fv (set2_generic_bound x)" "kids n C sg dg fg (set3_generic_bound x)"
  shows "rt n C (ser_generic_bound (map_generic_bound s sv sg x)) (des_generic_bound k dt dv dg)
    (norm_generic_bound (c_crate C) (map_generic_bound f fv fg x))"
proof (cases x)
  case (GB_TraitBound h t tr)
  have "rt n C (ser_opt (map_option sg h)) (des_opt dg) (map_option fg h)"
    using assms GB_TraitBound by (intro rt_opt) (simp add: kids_def)
  moreover have "rt n C (ser_trait_path (map_trait_path s sv sg tr)) (des_trait_path k dt dv dg)
    (norm_trait_path (c_crate C) (map_trait_path f fv fg tr))"
    using assms GB_TraitBound by (intro rt_trait_path(1)) auto
  ultimately show ?thesis
    using assms by (auto simp: GB_TraitBound des_generic_bound_def intro!: rt_sw rt_lift3)
qed (use assms in \<open>auto simp: des_generic_bound_def intro!: rt_sw rt_lift2 rt_lifetime_ref\<close>)

lemma grows_vec:
  assumes "length ty < 100" "\<And>x. x \<in> set xs \<Longrightarrow> rt n C (s x) d (f x)"
  shows "grows (ser_vec ty (map s xs))"
proof -
  have "rt n C (w_seq [ser_items (map s xs)]) (des_items d) (map f xs)"
    using rt_items [of xs n C s d f] assms(2) by simp
  then show ?thesis unfolding ser_vec_def by (rule grows_in_object [rotated]) (use assms(1) in simp)
qed

lemma generics_of:
  assumes "c_crate C \<noteq> []" "n - 1 \<le> k"
    "kids (n - 1) C s dt f (\<Union>x \<in> set ts. set_type_param_def x)"
    "kids (n - 1) C s dt f (\<Union>x \<in> set vs. set1_value_param_def x)"
    "kids (n - 1) C s dt f (\<Union>x \<in> set bs. set1_generic_bound x)"
    "kids (n - 1) C sv dv fv (\<Union>x \<in> set bs. set2_generic_bound x)"
    "kids (n - 1) C sg dg fg (\<Union>x \<in> set bs. set3_generic_bound x)"
  shows rt_generics_of: "rt n C (ser_generics_of (map (map_type_param_def s) ts) ls (map (map_value_param_def s sv sg) vs)
      (map (map_generic_bound s sv sg) bs)) (des_generics_of k dt dv dg)
    (GenericParams (map (map_type_param_def f) ts) ls (map norm_value_param_def (map (map_value_param_def f fv fg) vs))
      (map (norm_generic_bound (c_crate C)) (map (map_generic_bound f fv fg) bs)))"
    and grows_generics_of: "grows (ser_generics_of (map (map_type_param_def s) ts) ls
      (map (map_value_param_def s sv sg) vs) (map (map_generic_bound s sv sg) bs))"
proof -
  have el: "rt (n - 1) C ((ser_type_param_def \<circ> map_type_param_def s) t) (des_type_param_def dt) (map_type_param_def f t)"
    if "t \<in> set ts" for t
    using assms that by (auto intro!: rt_type_param_def)
  then have t: "rt n C (ser_vec ''TypeParamDef'' (map (ser_type_param_def \<circ> map_type_param_def s) ts))
    (des_vec ''TypeParamDef'' (des_type_param_def dt)) (map (map_type_param_def f) ts)"
    by (intro rt_vec) simp_all
  have v: "rt n C (ser_vec ''ValueParamDef'' (map (ser_value_param_def \<circ> map_value_param_def s sv sg) vs))
    (des_vec ''ValueParamDef'' (des_value_param_def dt)) (map (norm_value_param_def \<circ> map_value_param_def f fv fg) vs)"
    using assms by (intro rt_vec) (auto intro!: rt_value_param_def)
  have l: "rt n C (ser_vec ''LifetimeDef'' (map ser_lifetime_def ls))
    (des_vec ''LifetimeDef'' des_lifetime_def) ls"
    using lifetime_def.vec [of "''LifetimeDef''" n C ls] by simp
  have b: "rt n C (ser_vec ''GenericBound'' (map (ser_generic_bound \<circ> map_generic_bound s sv sg) bs))
    (des_vec ''GenericBound'' (des_generic_bound k dt dv dg))
    (map (norm_generic_bound (c_crate C) \<circ> map_generic_bound f fv fg) bs)"
    using assms by (intro rt_vec) (auto intro!: rt_generic_bound)
  have "rt n C (w_seq
     [ser_vec ''TypeParamDef'' (map (ser_type_param_def \<circ> map_type_param_def s) ts),
      ser_vec ''ValueParamDef'' (map (ser_value_param_def \<circ> map_value_param_def s sv sg) vs),
      ser_vec ''LifetimeDef'' (map ser_lifetime_def ls),
      ser_vec ''GenericBound'' (map (ser_generic_bound \<circ> map_generic_bound s sv sg) bs)])
    (des_generics_of k dt dv dg)
    ((\<lambda>ts vs ls bs. GenericParams ts ls vs bs) (map (map_type_param_def f) ts)
      (map (norm_value_param_def \<circ> map_value_param_def f fv fg) vs) ls
      (map (norm_generic_bound (c_crate C) \<circ> map_generic_bound f fv fg) bs))"
    unfolding des_generics_of_def by (rule rt_lift4 [OF t v l b])
  then show "rt n C (ser_generics_of (map (map_type_param_def s) ts) ls (map (map_value_param_def s sv sg) vs)
      (map (map_generic_bound s sv sg) bs)) (des_generics_of k dt dv dg)
    (GenericParams (map (map_type_param_def f) ts) ls (map norm_value_param_def (map (map_value_param_def f fv fg) vs))
      (map (norm_generic_bound (c_crate C)) (map (map_generic_bound f fv fg) bs)))"
    by (simp add: ser_generics_of_def)
  have "grows (ser_vec ''TypeParamDef'' (map (ser_type_param_def \<circ> map_type_param_def s) ts))"
    by (rule grows_vec [OF _ el]) simp_all
  from grows_rt_first [OF this t rt_lift3 [OF v l b]]
  show "grows (ser_generics_of (map (map_type_param_def s) ts) ls
      (map (map_value_param_def s sv sg) vs) (map (map_generic_bound s sv sg) bs))"
    by (simp only: ser_generics_of_def map_map)
qed

section \<open>The cache of types\<close>

definition type_key :: "type_ref \<Rightarrow> string" where "type_key t = strip_key (fmt_type t)"

definition cache_rel :: "string \<Rightarrow> type_ref set \<Rightarrow> (string \<times> nat) list \<Rightarrow> type_ref list \<Rightarrow> bool" where
  "cache_rel cr T wt rts \<longleftrightarrow> (\<exists>ts. set ts \<subseteq> T \<and> wt = zip (map type_key ts) [0..<length ts] \<and> rts = map (norm_type cr) ts)"

definition type_ctx :: "string \<Rightarrow> type_ref set \<Rightarrow> string set \<Rightarrow> type_ref ctx" where
  "type_ctx cr T K = \<lparr>c_rel = cache_rel cr T, c_crate = cr, c_keys = K\<rparr>"

lemma type_ctx_sel [simp]:
  "c_rel (type_ctx cr T K) = cache_rel cr T" "c_crate (type_ctx cr T K) = cr" "c_keys (type_ctx cr T K) = K"
  by (simp_all add: type_ctx_def)

lemma sync_type_ctx: "sync (type_ctx cr T K) = sync (type_ctx cr T K')"
  by (rule sync_ctx) simp_all

lemma rt_keys_mono: "rt n (type_ctx cr T K') a d v \<Longrightarrow> K' \<subseteq> K \<Longrightarrow> rt n (type_ctx cr T K) a d v"
  by (erule rt_ctx) simp_all

lemma cache_rel_hit:
  assumes "cache_rel cr T wt rts" "map_of wt (type_key t) = Some i" "t \<in> T"
    "\<And>u. u \<in> T \<Longrightarrow> type_key u = type_key t \<Longrightarrow> norm_type cr u = norm_type cr t"
  shows "i < length rts \<and> i < length wt \<and> rts ! i = norm_type cr t"
proof -
  obtain ts where ts: "set ts \<subseteq> T" "wt = zip (map type_key ts) [0..<length ts]" "rts = map (norm_type cr) ts"
    using assms(1) by (auto simp: cache_rel_def)
  have "i < length ts \<and> type_key (ts ! i) = type_key t"
    using assms(2) map_of_zip_upt [of "map type_key ts" "type_key t" i] unfolding ts(2) by auto
  moreover from this have "ts ! i \<in> T" using ts(1) nth_mem [of i ts] by blast
  ultimately show ?thesis using ts assms(4) [of "ts ! i"] by simp
qed

lemma cache_rel_snoc:
  "cache_rel cr T wt rts \<Longrightarrow> t \<in> T \<Longrightarrow>
    cache_rel cr T (wt @ [(type_key t, length wt)]) (rts @ [norm_type cr t])"
  unfolding cache_rel_def by (elim exE, rule_tac x = "ts @ [t]" in exI) auto

lemma map_of_keys_None: "map_of xs k = None \<longleftrightarrow> k \<notin> fst ` set xs"
  by (simp add: map_of_eq_None_iff)

text \<open>The reader closes the object of a type after it has entered the type.\<close>

lemma des_cached_fresh:
  assumes "rbind read_count (\<lambda>idx. if idx \<noteq> 0xFFFFFFFF then rfail Out_Of_Fuel
      else rbind (r_open_object ''HIR::TypeData'') (\<lambda>_. d)) rs = Inr (v, r3)"
    "r_close_object (r3\<lparr>r_types := r_types r3 @ [v]\<rparr>) = Inr ((), r5)"
  shows "des_cached d rs = Inr (v, r5)"
  using assms by (auto simp: des_cached_def r_in_object_def rbind_def rret_def rfail_def split: if_splits)

lemma close_avail:
  assumes "r_ofs r \<le> length (r_backing r)" "avail r = 0xFF # rest"
  shows "\<exists>r'. r_close_object r = Inr ((), r') \<and> avail r' = rest \<and> r_ofs r' \<le> length (r_backing r') \<and>
    r_strings r' = r_strings r \<and> r_objnames r' = r_objnames r \<and> r_types r' = r_types r \<and>
    r_crate_name r' = r_crate_name r"
  using read_bytes_avail [of r 1] assms
  by (auto simp: r_close_object_def read_u8_def rmap_def rbind_def rret_def)

lemma dry_types_insert: "dry (types_insert key)"
  by (rule dryI) (auto simp: types_insert_def strings_of_def numbered_def split: option.splits if_splits)

lemma dry_cached:
  assumes "dry body"
  shows "dry (ser_cached key body)"
proof -
  have count: "dry (write_count i)" for i :: nat by (rule rt_dry [OF rt_count])
  have full: "dry (w_seq [write_count 0xFFFFFFFF, in_object ''HIR::TypeData'' [body, types_insert key]])"
    unfolding in_object_def
    using assms rt_dry [OF rt_open_object] rt_dry [OF rt_close] dry_types_insert count
    by (intro dry_seq) (auto intro!: dry_seq)
  show ?thesis
    unfolding dry_def
  proof (intro allI impI)
    fix s s' assume s: "\<not> w_open s" "string_map (w_istrings s)" "ser_cached key body s = Inr s'"
    note u = s(3) [unfolded ser_cached_def]
    show "\<not> w_open s' \<and> w_out s' = w_out s \<and> string_map (w_istrings s') \<and> strings_of s \<subseteq> strings_of s' \<and>
    (\<forall>t. w_open t \<longrightarrow> w_types t = w_types s \<longrightarrow> strings_of s' \<subseteq> strings_of t \<longrightarrow> numbered t \<longrightarrow>
      (\<exists>t'. ser_cached key body t = Inr t' \<and> w_open t' \<and> w_types t' = w_types s' \<and> w_istrings t' = w_istrings t))"
      using dryD [OF count s(1,2)] dryD [OF full s(1,2)] u
      by (cases "map_of (w_types s) key") (simp_all add: ser_cached_def)
  qed
qed

lemma rt_cached:
  assumes t: "t \<in> T" "type_key t \<in> K" "K' \<subseteq> K" "type_key t \<notin> K'"
    and T: "\<And>u. u \<in> T \<Longrightarrow> type_key u = type_key t \<Longrightarrow> norm_type cr u = norm_type cr t"
    and body: "rt (n - 1) (type_ctx cr T K') body d (norm_type cr t)"
  shows "rt n (type_ctx cr T K) (ser_cached (type_key t) body) (des_cached d) (norm_type cr t)"
proof (rule rtI [OF dry_cached [OF rt_dry [OF body]]])
  let ?C = "type_ctx cr T K" and ?C' = "type_ctx cr T K'"
  let ?m = "0xFFFFFFFF :: nat" and ?v = "norm_type cr t" and ?key = "type_key t"
  fix ws ws'
  assume w: "w_open ws" "ser_cached ?key body ws = Inr ws'"
  show "w_open ws' \<and> keys_grow ?C ws ws' \<and> (\<exists>bs. w_out ws' = w_out ws @ bs \<and>
       (length bs \<le> n \<longrightarrow> length (w_out ws') < file_limit \<longrightarrow>
         (\<forall>rs rest. sync ?C ws rs \<longrightarrow> avail rs = bs @ rest \<longrightarrow>
           (\<exists>rs'. des_cached d rs = Inr (?v, rs') \<and> avail rs' = rest \<and> sync ?C ws' rs'))))"
  proof (cases "map_of (w_types ws) ?key")
    case (Some i)
    then have wc: "write_count i ws = Inr ws'" using w(2) by (simp add: ser_cached_def)
    then have same: "w_types ws' = w_types ws" using write_count_state by fastforce
    obtain bs where bs: "w_open ws'" "keys_grow ?C ws ws'" "w_out ws' = w_out ws @ bs"
      "\<And>rs rest. length bs \<le> n \<Longrightarrow> length (w_out ws') < file_limit \<Longrightarrow> sync ?C ws rs \<Longrightarrow>
        avail rs = bs @ rest \<Longrightarrow> \<exists>rs'. read_count rs = Inr (i, rs') \<and> avail rs' = rest \<and> sync ?C ws' rs'"
      using rtE [OF rt_count w(1) wc] by metis
    show ?thesis
    proof (intro conjI exI [of _ bs] impI allI)
      fix rs rest
      assume a: "length bs \<le> n" "length (w_out ws') < file_limit" "sync ?C ws rs" "avail rs = bs @ rest"
      obtain r where r: "read_count rs = Inr (i, r)" "avail r = rest" "sync ?C ws' r"
        using bs(4) [OF a] by blast
      have "cache_rel cr T (w_types ws') (r_types r)" "map_of (w_types ws') ?key = Some i"
        using r(3) Some by (simp_all add: sync_def same)
      then have "i < length (r_types r) \<and> i < length (w_types ws') \<and> r_types r ! i = ?v"
        by (rule cache_rel_hit [OF _ _ t(1) T])
      moreover have "length (w_types ws') \<le> length (w_out ws')" using r(3) by (rule sync_lengths)
      ultimately show "\<exists>rs'. des_cached d rs = Inr (?v, rs') \<and> avail rs' = rest \<and> sync ?C ws' rs'"
        using r a(2) by (intro exI [of _ r]) (simp add: des_cached_def rbind_def file_limit_def)
    qed (use bs in simp_all)
  next
    case None
    let ?pre = "w_seq [write_count ?m, open_object ''HIR::TypeData'', body]"
    let ?rd = "rbind read_count (\<lambda>idx. if idx \<noteq> ?m then rfail Out_Of_Fuel
      else rbind (r_open_object ''HIR::TypeData'') (\<lambda>_. d))"
    obtain ws3 where ws3: "?pre ws = Inr ws3" "w_seq [types_insert ?key, close_object] ws3 = Inr ws'"
      using w(2) None by (auto simp: ser_cached_def in_object_def w_seq.simps)
    have "rt (n - 1) ?C' (w_seq [open_object ''HIR::TypeData'', body])
        (rbind (r_open_object ''HIR::TypeData'') (\<lambda>_. d)) ?v"
      by (rule rt_bind [OF rt_open_object]) (use body in simp_all)
    then have pre: "rt n ?C' ?pre ?rd ?v"
      by (intro rt_dec [OF grows_count rt_count]) simp_all
    obtain b3 where b3: "w_open ws3" "keys_grow ?C' ws ws3" "w_out ws3 = w_out ws @ b3"
      "\<And>rs rest. length b3 \<le> n \<Longrightarrow> length (w_out ws3) < file_limit \<Longrightarrow> sync ?C' ws rs \<Longrightarrow>
        avail rs = b3 @ rest \<Longrightarrow> \<exists>rs'. ?rd rs = Inr (?v, rs') \<and> avail rs' = rest \<and> sync ?C' ws3 rs'"
      using rtE [OF pre w(1) ws3(1)] by metis
    have fresh: "map_of (w_types ws3) ?key = None"
      using None b3(2) t(4) by (auto simp: map_of_keys_None keys_grow_def)
    then have ws': "ws' = ws3\<lparr>w_types := w_types ws3 @ [(?key, length (w_types ws3))], w_out := w_out ws3 @ [0xFF]\<rparr>"
      using ws3(2) b3(1) by (simp add: w_seq.simps types_insert_def close_object_def write_u8_def write_bytes_def)
    show ?thesis
    proof (intro conjI exI [of _ "b3 @ [0xFF]"] impI allI)
      show "keys_grow ?C ws ws'" using b3(2) t(2,3) by (auto simp: keys_grow_def ws')
      fix rs rest
      assume a: "length (b3 @ [0xFF]) \<le> n" "length (w_out ws') < file_limit" "sync ?C ws rs"
        "avail rs = (b3 @ [0xFF]) @ rest"
      obtain r3 where r3: "?rd rs = Inr (?v, r3)" "avail r3 = 0xFF # rest" "sync ?C' ws3 r3"
        using b3(4) [of rs "0xFF # rest"] a by (auto simp: ws' sync_type_ctx [of cr T K' K])
      let ?r4 = "r3\<lparr>r_types := r_types r3 @ [?v]\<rparr>"
      obtain r5 where r5: "r_close_object ?r4 = Inr ((), r5)" "avail r5 = rest" "r_ofs r5 \<le> length (r_backing r5)"
        "r_strings r5 = r_strings ?r4" "r_objnames r5 = r_objnames ?r4" "r_types r5 = r_types ?r4"
        "r_crate_name r5 = r_crate_name ?r4"
        using close_avail [of ?r4 rest] r3(2,3) by (auto simp: sync_def avail_def)
      have "sync ?C ws' r5"
        using r3(3) r5 cache_rel_snoc [of cr T "w_types ws3" "r_types r3" t] t(1) by (auto simp: sync_def ws')
      then show "\<exists>rs'. des_cached d rs = Inr (?v, rs') \<and> avail rs' = rest \<and> sync ?C ws' rs'"
        using des_cached_fresh [OF r3(1) r5(1)] r5(2) by blast
    qed (use b3 in \<open>simp_all add: ws'\<close>)
  qed
qed

section \<open>The parts of a type\<close>

text \<open>The types that occur below a type, a constant or generic parameters.\<close>

primrec ty_proper :: "type_ref \<Rightarrow> type_ref set"
  and cg_parts :: "const_generic \<Rightarrow> type_ref set"
  and gp_parts :: "generic_params \<Rightarrow> type_ref set" where
  "ty_proper (Ty_Infer i c) = {}"
| "ty_proper Ty_Diverge = {}"
| "ty_proper (Ty_Primitive c) = {}"
| "ty_proper (Ty_Path p b h) =
    \<Union> (set1_path (map_path (\<lambda>t. insert t (ty_proper t)) cg_parts gp_parts p)) \<union>
    \<Union> (set2_path (map_path (\<lambda>t. insert t (ty_proper t)) cg_parts gp_parts p)) \<union>
    \<Union> (set3_path (map_path (\<lambda>t. insert t (ty_proper t)) cg_parts gp_parts p)) \<union>
    \<Union> (set_option (map_option gp_parts h))"
| "ty_proper (Ty_Generic g) = {}"
| "ty_proper (Ty_TraitObject tr ms l) =
    \<Union> (set1_trait_path (map_trait_path (\<lambda>t. insert t (ty_proper t)) cg_parts gp_parts tr)) \<union>
    \<Union> (set2_trait_path (map_trait_path (\<lambda>t. insert t (ty_proper t)) cg_parts gp_parts tr)) \<union>
    \<Union> (set3_trait_path (map_trait_path (\<lambda>t. insert t (ty_proper t)) cg_parts gp_parts tr)) \<union>
    \<Union> (\<Union> (set1_generic_path ` set (map (map_generic_path (\<lambda>t. insert t (ty_proper t)) cg_parts) ms))) \<union>
    \<Union> (\<Union> (set2_generic_path ` set (map (map_generic_path (\<lambda>t. insert t (ty_proper t)) cg_parts) ms)))"
| "ty_proper (Ty_ErasedType sized trs ls i) = {}"
| "ty_proper (Ty_Array t n) = insert t (ty_proper t) \<union> \<Union> (set_array_size (map_array_size cg_parts n))"
| "ty_proper (Ty_Slice t) = insert t (ty_proper t)"
| "ty_proper (Ty_Tuple ts) = \<Union> (set (map (\<lambda>t. insert t (ty_proper t)) ts))"
| "ty_proper (Ty_Borrow l b t) = insert t (ty_proper t)"
| "ty_proper (Ty_Pointer b t) = insert t (ty_proper t)"
| "ty_proper (Ty_NamedFunction p d) =
    \<Union> (set1_path (map_path (\<lambda>t. insert t (ty_proper t)) cg_parts gp_parts p)) \<union>
    \<Union> (set2_path (map_path (\<lambda>t. insert t (ty_proper t)) cg_parts gp_parts p)) \<union>
    \<Union> (set3_path (map_path (\<lambda>t. insert t (ty_proper t)) cg_parts gp_parts p))"
| "ty_proper (Ty_Function h uns var abi ret args) =
    gp_parts h \<union> insert ret (ty_proper ret) \<union> \<Union> (set (map (\<lambda>t. insert t (ty_proper t)) args))"
| "ty_proper (Ty_Closure n) = {}"
| "ty_proper (Ty_Generator n) = {}"
| "cg_parts (CG_Infer i) = {}"
| "cg_parts (CG_Unevaluated pi pp e) =
    \<Union> (set1_path_params (map_path_params (\<lambda>t. insert t (ty_proper t)) cg_parts pi)) \<union>
    \<Union> (set2_path_params (map_path_params (\<lambda>t. insert t (ty_proper t)) cg_parts pi)) \<union>
    \<Union> (set1_path_params (map_path_params (\<lambda>t. insert t (ty_proper t)) cg_parts pp)) \<union>
    \<Union> (set2_path_params (map_path_params (\<lambda>t. insert t (ty_proper t)) cg_parts pp)) \<union>
    \<Union> (set1_expr_ptr (map_expr_ptr (\<lambda>t. insert t (ty_proper t)) cg_parts gp_parts e)) \<union>
    \<Union> (set2_expr_ptr (map_expr_ptr (\<lambda>t. insert t (ty_proper t)) cg_parts gp_parts e))"
| "cg_parts (CG_Generic g) = {}"
| "cg_parts (CG_Evaluated l) =
    \<Union> (set1_encoded_literal (map_encoded_literal (\<lambda>t. insert t (ty_proper t)) cg_parts gp_parts l)) \<union>
    \<Union> (set2_encoded_literal (map_encoded_literal (\<lambda>t. insert t (ty_proper t)) cg_parts gp_parts l))"
| "gp_parts (GenericParams ts ls vs bs) =
    \<Union> (\<Union> (set_type_param_def ` set (map (map_type_param_def (\<lambda>t. insert t (ty_proper t))) ts))) \<union>
    \<Union> (\<Union> (set1_value_param_def ` set (map (map_value_param_def (\<lambda>t. insert t (ty_proper t)) cg_parts gp_parts) vs))) \<union>
    \<Union> (\<Union> (set1_generic_bound ` set (map (map_generic_bound (\<lambda>t. insert t (ty_proper t)) cg_parts gp_parts) bs))) \<union>
    \<Union> (\<Union> (set2_generic_bound ` set (map (map_generic_bound (\<lambda>t. insert t (ty_proper t)) cg_parts gp_parts) bs))) \<union>
    \<Union> (\<Union> (set3_generic_bound ` set (map (map_generic_bound (\<lambda>t. insert t (ty_proper t)) cg_parts gp_parts) bs)))"

definition ty_parts :: "type_ref \<Rightarrow> type_ref set" where "ty_parts t = insert t (ty_proper t)"

lemmas parts_set = path.set_map trait_path.set_map generic_path.set_map array_size.set_map path_params.set_map
  expr_ptr.set_map encoded_literal.set_map type_param_def.set_map value_param_def.set_map generic_bound.set_map
  option.set_map

lemma Union_nested: "\<Union> (\<Union>x \<in> A. g ` B x) = (\<Union>x \<in> A. \<Union>y \<in> B x. g y)"
  by blast

lemma ty_proper_nested:
  "ty_proper (Ty_Path p b h) = (\<Union>x \<in> set1_path p. ty_parts x) \<union> (\<Union>x \<in> set2_path p. cg_parts x) \<union>
    (\<Union>x \<in> set3_path p. gp_parts x) \<union> (\<Union>x \<in> set_option h. gp_parts x)"
  "ty_proper (Ty_TraitObject tr ms l) = (\<Union>x \<in> set1_trait_path tr. ty_parts x) \<union>
    (\<Union>x \<in> set2_trait_path tr. cg_parts x) \<union> (\<Union>x \<in> set3_trait_path tr. gp_parts x) \<union>
    (\<Union>m \<in> set ms. \<Union>x \<in> set1_generic_path m. ty_parts x) \<union> (\<Union>m \<in> set ms. \<Union>x \<in> set2_generic_path m. cg_parts x)"
  "ty_proper (Ty_Array t n) = ty_parts t \<union> (\<Union>x \<in> set_array_size n. cg_parts x)"
  "ty_proper (Ty_Tuple ts) = (\<Union>x \<in> set ts. ty_parts x)"
  "ty_proper (Ty_NamedFunction p d) = (\<Union>x \<in> set1_path p. ty_parts x) \<union> (\<Union>x \<in> set2_path p. cg_parts x) \<union>
    (\<Union>x \<in> set3_path p. gp_parts x)"
  "ty_proper (Ty_Function g uns var abi ret args) = gp_parts g \<union> ty_parts ret \<union> (\<Union>x \<in> set args. ty_parts x)"
  "cg_parts (CG_Unevaluated pi pp ex) = (\<Union>x \<in> set1_path_params pi. ty_parts x) \<union>
    (\<Union>x \<in> set2_path_params pi. cg_parts x) \<union> (\<Union>x \<in> set1_path_params pp. ty_parts x) \<union>
    (\<Union>x \<in> set2_path_params pp. cg_parts x) \<union> (\<Union>x \<in> set1_expr_ptr ex. ty_parts x) \<union>
    (\<Union>x \<in> set2_expr_ptr ex. cg_parts x)"
  "cg_parts (CG_Evaluated el) = (\<Union>x \<in> set1_encoded_literal el. ty_parts x) \<union> (\<Union>x \<in> set2_encoded_literal el. cg_parts x)"
  "gp_parts (GenericParams tds ls vs bs) =
    (\<Union>x1 \<in> set tds. \<Union>x \<in> set_type_param_def x1. ty_parts x) \<union>
    (\<Union>x1 \<in> set vs. \<Union>x \<in> set1_value_param_def x1. ty_parts x) \<union>
    (\<Union>x1 \<in> set bs. \<Union>x \<in> set1_generic_bound x1. ty_parts x) \<union>
    (\<Union>x1 \<in> set bs. \<Union>x \<in> set2_generic_bound x1. cg_parts x) \<union>
    (\<Union>x1 \<in> set bs. \<Union>x \<in> set3_generic_bound x1. gp_parts x)"
  by (simp_all add: parts_set ty_parts_def image_Union SUP_UNION Union_nested Un_ac)

declare ty_proper.simps [simp del] cg_parts.simps [simp del] gp_parts.simps [simp del]

lemma ty_proper_simps [simp]:
  "ty_proper (Ty_Infer i c) = {}" "ty_proper Ty_Diverge = {}" "ty_proper (Ty_Primitive ct) = {}"
  "ty_proper (Ty_Generic gr) = {}" "ty_proper (Ty_ErasedType sized trs ls ei) = {}"
  "ty_proper (Ty_Slice t) = ty_parts t" "ty_proper (Ty_Borrow l b t) = ty_parts t"
  "ty_proper (Ty_Pointer b t) = ty_parts t" "ty_proper (Ty_Closure m) = {}" "ty_proper (Ty_Generator m) = {}"
  "cg_parts (CG_Infer j) = {}" "cg_parts (CG_Generic gr) = {}"
  by (simp_all add: ty_proper.simps cg_parts.simps ty_parts_def)

declare ty_proper_nested [simp]

text \<open>The MIR below a type has lvalues with proper roots.\<close>

primrec ty_ok :: "type_ref \<Rightarrow> bool"
  and cg_ok :: "const_generic \<Rightarrow> bool"
  and gp_ok :: "generic_params \<Rightarrow> bool" where
  "ty_ok (Ty_Infer i c) = True"
| "ty_ok Ty_Diverge = True"
| "ty_ok (Ty_Primitive c) = True"
| "ty_ok (Ty_Path p b h) = (pred_path id id id (map_path ty_ok cg_ok gp_ok p) \<and> pred_option id (map_option gp_ok h))"
| "ty_ok (Ty_Generic g) = True"
| "ty_ok (Ty_TraitObject tr ms l) = (pred_trait_path id id id (map_trait_path ty_ok cg_ok gp_ok tr) \<and>
    list_all (pred_generic_path id id) (map (map_generic_path ty_ok cg_ok) ms))"
| "ty_ok (Ty_ErasedType sized trs ls i) = True"
| "ty_ok (Ty_Array t n) = (ty_ok t \<and> pred_array_size id (map_array_size cg_ok n))"
| "ty_ok (Ty_Slice t) = ty_ok t"
| "ty_ok (Ty_Tuple ts) = list_all id (map ty_ok ts)"
| "ty_ok (Ty_Borrow l b t) = ty_ok t"
| "ty_ok (Ty_Pointer b t) = ty_ok t"
| "ty_ok (Ty_NamedFunction p d) = pred_path id id id (map_path ty_ok cg_ok gp_ok p)"
| "ty_ok (Ty_Function h uns var abi ret args) = (gp_ok h \<and> ty_ok ret \<and> list_all id (map ty_ok args))"
| "ty_ok (Ty_Closure n) = True"
| "ty_ok (Ty_Generator n) = True"
| "cg_ok (CG_Infer i) = True"
| "cg_ok (CG_Unevaluated pi pp e) = (pred_path_params id id (map_path_params ty_ok cg_ok pi) \<and>
    pred_path_params id id (map_path_params ty_ok cg_ok pp) \<and>
    pred_expr_ptr id id id (map_expr_ptr ty_ok cg_ok gp_ok e) \<and> expr_ok e)"
| "cg_ok (CG_Generic g) = True"
| "cg_ok (CG_Evaluated l) = pred_encoded_literal id id id (map_encoded_literal ty_ok cg_ok gp_ok l)"
| "gp_ok (GenericParams ts ls vs bs) =
    (list_all (pred_type_param_def id) (map (map_type_param_def ty_ok) ts) \<and>
     list_all (pred_value_param_def id id id) (map (map_value_param_def ty_ok cg_ok gp_ok) vs) \<and>
     list_all (pred_generic_bound id id id) (map (map_generic_bound ty_ok cg_ok gp_ok) bs))"

lemmas ok_pred = path.pred_set trait_path.pred_set generic_path.pred_set array_size.pred_set path_params.pred_set
  expr_ptr.pred_set encoded_literal.pred_set type_param_def.pred_set value_param_def.pred_set generic_bound.pred_set
  option.pred_set list_all_iff

lemma ty_ok_nested:
  "ty_ok (Ty_Path p b h) = ((\<forall>x \<in> set1_path p. ty_ok x) \<and> (\<forall>x \<in> set2_path p. cg_ok x) \<and>
    (\<forall>x \<in> set3_path p. gp_ok x) \<and> (\<forall>x \<in> set_option h. gp_ok x))"
  "ty_ok (Ty_TraitObject tr ms l) = ((\<forall>x \<in> set1_trait_path tr. ty_ok x) \<and> (\<forall>x \<in> set2_trait_path tr. cg_ok x) \<and>
    (\<forall>x \<in> set3_trait_path tr. gp_ok x) \<and> (\<forall>m \<in> set ms. \<forall>x \<in> set1_generic_path m. ty_ok x) \<and>
    (\<forall>m \<in> set ms. \<forall>x \<in> set2_generic_path m. cg_ok x))"
  "ty_ok (Ty_Array t n) = (ty_ok t \<and> (\<forall>x \<in> set_array_size n. cg_ok x))"
  "ty_ok (Ty_Tuple ts) = (\<forall>x \<in> set ts. ty_ok x)"
  "ty_ok (Ty_NamedFunction p d) = ((\<forall>x \<in> set1_path p. ty_ok x) \<and> (\<forall>x \<in> set2_path p. cg_ok x) \<and>
    (\<forall>x \<in> set3_path p. gp_ok x))"
  "ty_ok (Ty_Function g uns var abi ret args) = (gp_ok g \<and> ty_ok ret \<and> (\<forall>x \<in> set args. ty_ok x))"
  "cg_ok (CG_Unevaluated pi pp ex) = ((\<forall>x \<in> set1_path_params pi. ty_ok x) \<and> (\<forall>x \<in> set2_path_params pi. cg_ok x) \<and>
    (\<forall>x \<in> set1_path_params pp. ty_ok x) \<and> (\<forall>x \<in> set2_path_params pp. cg_ok x) \<and>
    (\<forall>x \<in> set1_expr_ptr ex. ty_ok x) \<and> (\<forall>x \<in> set2_expr_ptr ex. cg_ok x) \<and>
    (\<forall>x \<in> set3_expr_ptr ex. gp_ok x) \<and> expr_ok ex)"
  "cg_ok (CG_Evaluated el) = ((\<forall>x \<in> set1_encoded_literal el. ty_ok x) \<and> (\<forall>x \<in> set2_encoded_literal el. cg_ok x) \<and>
    (\<forall>x \<in> set3_encoded_literal el. gp_ok x))"
  "gp_ok (GenericParams tds ls vs bs) =
    ((\<forall>m \<in> set tds. \<forall>x \<in> set_type_param_def m. ty_ok x) \<and>
     (\<forall>m \<in> set vs. (\<forall>x \<in> set1_value_param_def m. ty_ok x) \<and> (\<forall>x \<in> set2_value_param_def m. cg_ok x) \<and>
       (\<forall>x \<in> set3_value_param_def m. gp_ok x)) \<and>
     (\<forall>m \<in> set bs. (\<forall>x \<in> set1_generic_bound m. ty_ok x) \<and> (\<forall>x \<in> set2_generic_bound m. cg_ok x) \<and>
       (\<forall>x \<in> set3_generic_bound m. gp_ok x)))"
  by (simp_all add: ok_pred parts_set) blast+

declare ty_ok.simps(4,6,8,10,13,14) [simp del] cg_ok.simps(2,4) [simp del] gp_ok.simps [simp del]
declare ty_ok_nested [simp]

definition types_ok :: "string \<Rightarrow> type_ref set \<Rightarrow> bool" where
  "types_ok cr T \<longleftrightarrow>
    (\<forall>t \<in> T. \<forall>u \<in> T. type_key t = type_key u \<longrightarrow> norm_type cr t = norm_type cr u) \<and>
    (\<forall>t \<in> T. type_key t \<notin> type_key ` ty_proper t)"

section \<open>Types, constants, generic parameters\<close>

lemma grows_then: "grows a \<Longrightarrow> rt n C a d x \<Longrightarrow> rt n' C' b d' y \<Longrightarrow> grows (w_seq [a, b])"
  by (rule grows_rt_first) simp_all

lemma rt_fuel:
  assumes "grows a" "n \<le> f" "\<And>k. n - 1 \<le> k \<Longrightarrow> rt n C a (d k) v"
  shows "rt n C a (case f of 0 \<Rightarrow> rfail Out_Of_Fuel | Suc k \<Rightarrow> d k) v"
proof (cases f)
  case 0
  then show ?thesis using assms by (auto intro: rt_zero)
next
  case (Suc k)
  then show ?thesis using assms by simp
qed

lemma types_insert_out: "types_insert k s = Inr s' \<Longrightarrow> w_out s' = w_out s \<and> w_open s' = w_open s"
  by (auto simp: types_insert_def split: if_splits)

lemma grows_cached:
  assumes "rt m C body d v"
  shows "grows (ser_cached key body)"
proof (rule growsI)
  fix s s'
  assume s: "w_open s" "ser_cached key body s = Inr s'"
  show "length (w_out s) < length (w_out s')"
  proof (cases "map_of (w_types s) key")
    case (Some i)
    then show ?thesis using s grows_count by (auto simp: ser_cached_def grows_def)
  next
    case None
    let ?pre = "w_seq [write_count 0xFFFFFFFF, w_seq [open_object ''HIR::TypeData'', body]]"
    have "rt m C (w_seq [open_object ''HIR::TypeData'', body]) (rbind (r_open_object ''HIR::TypeData'') (\<lambda>_. d)) v"
      by (rule rt_bind [OF rt_open_object]) (use assms in simp_all)
    then have g: "grows ?pre" by (rule grows_then [OF grows_count rt_count])
    obtain s1 where s1: "?pre s = Inr s1" "w_seq [types_insert key, close_object] s1 = Inr s'"
      using s None by (auto simp: ser_cached_def in_object_def w_seq.simps)
    then have "length (w_out s1) \<le> length (w_out s')"
      by (auto simp: w_seq.simps close_object_def write_u8_def write_bytes_def split: if_splits
          dest!: types_insert_out)
    then show ?thesis using g s(1) s1(1) by (force simp: grows_def)
  qed
qed

definition rt_ty :: "string \<Rightarrow> type_ref set \<Rightarrow> type_ref \<Rightarrow> bool" where
  "rt_ty cr T t \<longleftrightarrow> (\<forall>n f. n \<le> f \<longrightarrow> ty_parts t \<subseteq> T \<longrightarrow> ty_ok t \<longrightarrow>
     rt n (type_ctx cr T (type_key ` ty_parts t)) (ser_type t) (des_type f) (norm_type cr t))"

definition rt_cg :: "string \<Rightarrow> type_ref set \<Rightarrow> const_generic \<Rightarrow> bool" where
  "rt_cg cr T v \<longleftrightarrow> (\<forall>n f. n \<le> f \<longrightarrow> cg_parts v \<subseteq> T \<longrightarrow> cg_ok v \<longrightarrow>
     rt n (type_ctx cr T (type_key ` cg_parts v)) (ser_const_generic v) (des_const_generic f) (norm_const_generic cr v))"

definition rt_gp :: "string \<Rightarrow> type_ref set \<Rightarrow> generic_params \<Rightarrow> bool" where
  "rt_gp cr T g \<longleftrightarrow> (\<forall>n f. n \<le> f \<longrightarrow> gp_parts g \<subseteq> T \<longrightarrow> gp_ok g \<longrightarrow>
     rt n (type_ctx cr T (type_key ` gp_parts g)) (ser_generics g) (des_generics f) (norm_generics cr g))"

lemma kids_ty:
  assumes "n \<le> f" "\<And>x. x \<in> X \<Longrightarrow> rt_ty cr T x" "\<And>x. x \<in> X \<Longrightarrow> ty_ok x" "(\<Union>x \<in> X. ty_parts x) \<subseteq> S" "S \<subseteq> T"
  shows "kids n (type_ctx cr T (type_key ` S)) ser_type (des_type f) (norm_type cr) X"
  unfolding kids_def
proof
  fix x assume x: "x \<in> X"
  then have "ty_parts x \<subseteq> S" using assms(4) by blast
  then show "rt n (type_ctx cr T (type_key ` S)) (ser_type x) (des_type f) (norm_type cr x)"
    using assms x unfolding rt_ty_def by (meson rt_keys_mono image_mono order_trans)
qed

lemma kids_cg:
  assumes "n \<le> f" "\<And>x. x \<in> X \<Longrightarrow> rt_cg cr T x" "\<And>x. x \<in> X \<Longrightarrow> cg_ok x" "(\<Union>x \<in> X. cg_parts x) \<subseteq> S" "S \<subseteq> T"
  shows "kids n (type_ctx cr T (type_key ` S)) ser_const_generic (des_const_generic f) (norm_const_generic cr) X"
  unfolding kids_def
proof
  fix x assume x: "x \<in> X"
  then have "cg_parts x \<subseteq> S" using assms(4) by blast
  then show "rt n (type_ctx cr T (type_key ` S)) (ser_const_generic x) (des_const_generic f) (norm_const_generic cr x)"
    using assms x unfolding rt_cg_def by (meson rt_keys_mono image_mono order_trans)
qed

lemma kids_gp:
  assumes "n \<le> f" "\<And>x. x \<in> X \<Longrightarrow> rt_gp cr T x" "\<And>x. x \<in> X \<Longrightarrow> gp_ok x" "(\<Union>x \<in> X. gp_parts x) \<subseteq> S" "S \<subseteq> T"
  shows "kids n (type_ctx cr T (type_key ` S)) ser_generics (des_generics f) (norm_generics cr) X"
  unfolding kids_def
proof
  fix x assume x: "x \<in> X"
  then have "gp_parts x \<subseteq> S" using assms(4) by blast
  then show "rt n (type_ctx cr T (type_key ` S)) (ser_generics x) (des_generics f) (norm_generics cr x)"
    using assms x unfolding rt_gp_def by (meson rt_keys_mono image_mono order_trans)
qed

text \<open>One level of a type: the round trip of what is inside its object is enough.\<close>

lemma rt_type_step:
  assumes "types_ok cr T" "ser_type t = ser_cached (type_key t) body"
    and body: "\<And>n k. n \<le> k \<Longrightarrow> ty_proper t \<subseteq> T \<Longrightarrow> ty_ok t \<Longrightarrow>
      rt n (type_ctx cr T (type_key ` ty_proper t)) body
        (des_type_data k (des_type k) (des_const_generic k) (des_generics k)) (norm_type cr t)"
  shows "rt_ty cr T t"
  unfolding rt_ty_def
proof (intro allI impI)
  fix n f :: nat
  assume a: "n \<le> f" "ty_parts t \<subseteq> T" "ty_ok t"
  let ?C = "type_ctx cr T (type_key ` ty_parts t)"
  have b: "rt n' (type_ctx cr T (type_key ` ty_proper t)) body
        (des_type_data k (des_type k) (des_const_generic k) (des_generics k)) (norm_type cr t)" if "n' \<le> k" for n' k
    using body [OF that] a by (simp add: ty_parts_def)
  have "rt n ?C (ser_cached (type_key t) body)
    (des_cached (des_type_data k (des_type k) (des_const_generic k) (des_generics k))) (norm_type cr t)"
    if "n - 1 \<le> k" for k
  proof (rule rt_cached [OF _ _ _ _ _ b [OF that]])
    show t: "t \<in> T" using a(2) by (simp add: ty_parts_def)
    show "type_key t \<notin> type_key ` ty_proper t" using assms(1) t unfolding types_ok_def by blast
    show "norm_type cr u = norm_type cr t" if "u \<in> T" "type_key u = type_key t" for u
      using assms(1) t that unfolding types_ok_def by blast
  qed (simp_all add: ty_parts_def subset_insertI image_mono)
  then have "rt n ?C (ser_type t) (case f of 0 \<Rightarrow> rfail Out_Of_Fuel
      | Suc k \<Rightarrow> des_cached (des_type_data k (des_type k) (des_const_generic k) (des_generics k))) (norm_type cr t)"
    unfolding assms(2) using grows_cached [OF b [of 0 0]] a(1) by (intro rt_fuel) simp_all
  then show "rt n ?C (ser_type t) (des_type f) (norm_type cr t)" by (cases f) simp_all
qed

lemma rt_assert: "(b \<Longrightarrow> rt n C (w_seq as) d v) \<Longrightarrow> rt n C (w_seq (w_assert b e # as)) d v"
  by (simp add: w_seq_assert)

lemma rt_sw_dec:
  "(case map_of alts t of None \<Rightarrow> False | Some d \<Rightarrow> rt (n - 1) C (w_seq as) d v) \<Longrightarrow>
    rt n C (w_seq (write_tag t # as)) (des_switch what alts) v"
  by (auto split: option.splits intro: rt_switch)

lemma rt_cg_step:
  assumes "ser_const_generic v = w_seq (write_tag t # as)"
    and body: "\<And>n k. n \<le> k \<Longrightarrow> cg_parts v \<subseteq> T \<Longrightarrow> cg_ok v \<Longrightarrow>
      (case map_of [(1::nat, rret (CG_Infer (-1))),
         (2, rmap (\<lambda>(pi, pm, e). CG_Unevaluated pi pm e) (des_unevaluated (des_type k) (des_const_generic k))),
         (3, rmap CG_Generic des_generic_ref),
         (4, rmap CG_Evaluated (des_encoded_literal (des_type k) (des_const_generic k)))] t of
       None \<Rightarrow> False
     | Some d \<Rightarrow> rt n (type_ctx cr T (type_key ` cg_parts v)) (w_seq as) d (norm_const_generic cr v))"
  shows "rt_cg cr T v"
  unfolding rt_cg_def
proof (intro allI impI)
  fix n f :: nat
  assume a: "n \<le> f" "cg_parts v \<subseteq> T" "cg_ok v"
  let ?C = "type_ctx cr T (type_key ` cg_parts v)"
  obtain d where "rt 0 ?C (w_seq as) d (norm_const_generic cr v)"
    using body [of 0 0] a by (auto split: option.splits)
  then have "grows (ser_const_generic v)"
    unfolding assms(1) by (rule grows_rt_first [OF grows_tag rt_tag])
  moreover have "rt n ?C (ser_const_generic v) (des_const_generic_of (des_type k) (des_const_generic k))
      (norm_const_generic cr v)" if "n - 1 \<le> k" for k
    unfolding assms(1) des_const_generic_of_def by (rule rt_sw_dec, rule body [OF that a(2,3)])
  ultimately have "rt n ?C (ser_const_generic v) (case f of 0 \<Rightarrow> rfail Out_Of_Fuel
      | Suc k \<Rightarrow> des_const_generic_of (des_type k) (des_const_generic k)) (norm_const_generic cr v)"
    using a(1) by (intro rt_fuel)
  then show "rt n ?C (ser_const_generic v) (des_const_generic f) (norm_const_generic cr v)"
    by (cases f) simp_all
qed

lemma w_seq_tag_fail: "rt n C (w_seq [write_tag t, w_fail e]) d v"
proof (rule rtI)
  show "dry (w_seq [write_tag t, w_fail e])"
    by (rule dry_Cons [OF rt_dry [OF rt_tag]]) (simp only: w_seq_single dry_fail)
qed (auto simp: w_seq.simps w_fail_def)

theorem rt_types:
  assumes cr: "cr \<noteq> []" and T: "types_ok cr T"
  shows "rt_ty cr T t" and "rt_cg cr T v" and "rt_gp cr T g"
proof (induction t and v and g)
  case (Ty_Infer i c)
  show ?case
    by (rule rt_type_step [OF T, where body = "write_tag 1"])
       (auto simp: type_key_def des_type_data_def intro!: rt_sw_single)
next
  case Ty_Diverge
  show ?case
    by (rule rt_type_step [OF T, where body = "write_tag 2"])
       (auto simp: type_key_def des_type_data_def intro!: rt_sw_single)
next
  case (Ty_Primitive c)
  show ?case
    by (rule rt_type_step [OF T, where body = "w_seq [write_tag 3, ser_core_type c]"])
       (auto simp: type_key_def des_type_data_def intro!: rt_sw rt_map rt_core_type)
next
  case (Ty_Path p b h)
  let ?body = "w_seq [write_tag 4, ser_path (map_path ser_type ser_const_generic ser_generics p),
            ser_opt (map_option ser_generics h)]"
  show ?case
  proof (rule rt_type_step [OF T, where body = ?body])
    let ?t = "Ty_Path p b h"
    fix n k :: nat
    assume a: "n \<le> k" "ty_proper ?t \<subseteq> T" "ty_ok ?t"
    let ?C = "type_ctx cr T (type_key ` ty_proper ?t)"
    have kt: "kids n ?C ser_type (des_type k) (norm_type cr) (set1_path p)"
      by (rule kids_ty [OF a(1) _ _ _ a(2)], erule Ty_Path) (use a(3) in auto)
    have kv: "kids n ?C ser_const_generic (des_const_generic k) (norm_const_generic cr) (set2_path p)"
      by (rule kids_cg [OF a(1) _ _ _ a(2)], erule Ty_Path) (use a(3) in auto)
    have kh: "kids n ?C ser_generics (des_generics k) (norm_generics cr) (set_option h)"
      by (rule kids_gp [OF a(1) _ _ _ a(2)], erule Ty_Path) (use a(3) in auto)
    have "rt n ?C (w_seq [ser_path (map_path ser_type ser_const_generic ser_generics p),
            ser_opt (map_option ser_generics h)])
        (rlift2 (\<lambda>p h. Ty_Path p TPB_Unbound h) (des_path (des_type k) (des_const_generic k)) (des_opt (des_generics k)))
        ((\<lambda>p h. Ty_Path p TPB_Unbound h)
          (norm_path (c_crate ?C) (map_path (norm_type cr) (norm_const_generic cr) (norm_generics cr) p))
          (map_option (norm_generics cr) h))"
      using cr kt kv kh by (intro rt_lift2 rt_path rt_opt) (auto simp: kids_def)
    then show "rt n ?C ?body (des_type_data k (des_type k) (des_const_generic k) (des_generics k)) (norm_type cr ?t)"
      by (auto simp: des_type_data_def intro!: rt_sw)
  qed (simp add: type_key_def)
next
  case (Ty_Generic g)
  show ?case
    by (rule rt_type_step [OF T, where body = "w_seq [write_tag 5, ser_generic_ref g]"])
       (auto simp: type_key_def des_type_data_def intro!: rt_sw rt_map rt_generic_ref)
next
  case (Ty_TraitObject tr ms l)
  let ?body = "w_seq [write_tag 6, ser_trait_path (map_trait_path ser_type ser_const_generic ser_generics tr),
            ser_vec ''GenericPath'' (map ser_generic_path (map (map_generic_path ser_type ser_const_generic) ms)),
            ser_lifetime_ref l]"
  show ?case
  proof (rule rt_type_step [OF T, where body = ?body])
    let ?t = "Ty_TraitObject tr ms l"
    fix n k :: nat
    assume a: "n \<le> k" "ty_proper ?t \<subseteq> T" "ty_ok ?t"
    let ?C = "type_ctx cr T (type_key ` ty_proper ?t)"
    have kt: "kids n ?C ser_type (des_type k) (norm_type cr) (set1_trait_path tr)"
      by (rule kids_ty [OF a(1) _ _ _ a(2)], use Ty_TraitObject in blast) (use a(3) in auto)
    have kv: "kids n ?C ser_const_generic (des_const_generic k) (norm_const_generic cr) (set2_trait_path tr)"
      by (rule kids_cg [OF a(1) _ _ _ a(2)], use Ty_TraitObject in blast) (use a(3) in auto)
    have kg: "kids n ?C ser_generics (des_generics k) (norm_generics cr) (set3_trait_path tr)"
      by (rule kids_gp [OF a(1) _ _ _ a(2)], erule Ty_TraitObject) (use a(3) in auto)
    have mt: "kids n ?C ser_type (des_type k) (norm_type cr) (\<Union>m \<in> set ms. set1_generic_path m)"
      by (rule kids_ty [OF a(1) _ _ _ a(2)], use Ty_TraitObject in blast) (use a(3) in auto)
    have mv: "kids n ?C ser_const_generic (des_const_generic k) (norm_const_generic cr) (\<Union>m \<in> set ms. set2_generic_path m)"
      by (rule kids_cg [OF a(1) _ _ _ a(2)], use Ty_TraitObject in blast) (use a(3) in auto)
    have g: "rt (n - 1) ?C (ser_generic_path (map_generic_path ser_type ser_const_generic m))
        (des_generic_path (des_type k) (des_const_generic k))
        (norm_generic_path (c_crate ?C) (map_generic_path (norm_type cr) (norm_const_generic cr) m))" if "m \<in> set ms" for m
      using mt mv that cr
      by (intro rt_generic_path kids_pred) (auto simp only: kids_def type_ctx_sel UN_iff)
    have "rt n ?C (ser_vec ''GenericPath'' (map (ser_generic_path \<circ> map_generic_path ser_type ser_const_generic) ms))
        (des_vec ''GenericPath'' (des_generic_path (des_type k) (des_const_generic k)))
        (map (norm_generic_path (c_crate ?C) \<circ> map_generic_path (norm_type cr) (norm_const_generic cr)) ms)"
      by (rule rt_vec) (simp, unfold comp_def, rule g)
    moreover have "rt n ?C (ser_trait_path (map_trait_path ser_type ser_const_generic ser_generics tr))
        (des_trait_path k (des_type k) (des_const_generic k) (des_generics k))
        (norm_trait_path (c_crate ?C) (map_trait_path (norm_type cr) (norm_const_generic cr) (norm_generics cr) tr))"
      using cr kt kv kg a(1) by (intro rt_trait_path(1)) auto
    ultimately show "rt n ?C ?body (des_type_data k (des_type k) (des_const_generic k) (des_generics k)) (norm_type cr ?t)"
      by (auto simp: des_type_data_def intro!: rt_sw rt_lift3 rt_lifetime_ref)
  qed (simp add: type_key_def)
next
  case (Ty_ErasedType sized trs ls i)
  show ?case
    by (rule rt_type_step [OF T, where body = "w_seq [write_tag 7, w_fail (Todo ''Serialse ErasedType?'')]"])
       (auto simp: type_key_def des_type_data_def intro!: rt_sw)
next
  case (Ty_Array t m)
  show ?case
  proof (rule rt_type_step [OF T, where body =
      "w_seq [write_tag 8, ser_type t, ser_array_size (map_array_size ser_const_generic m)]"])
    let ?t = "Ty_Array t m"
    fix n k :: nat
    assume a: "n \<le> k" "ty_proper ?t \<subseteq> T" "ty_ok ?t"
    let ?C = "type_ctx cr T (type_key ` ty_proper ?t)"
    have "kids n ?C ser_type (des_type k) (norm_type cr) {t}"
      using Ty_Array a by (intro kids_ty) (auto)
    moreover have "kids n ?C ser_const_generic (des_const_generic k) (norm_const_generic cr) (set_array_size m)"
      using Ty_Array a by (intro kids_cg) (auto simp: array_size.pred_set)
    ultimately show "rt n ?C (w_seq [write_tag 8, ser_type t, ser_array_size (map_array_size ser_const_generic m)])
      (des_type_data k (des_type k) (des_const_generic k) (des_generics k)) (norm_type cr ?t)"
      by (auto simp: des_type_data_def intro!: rt_sw rt_lift2 rt_array_size)
  qed (simp add: type_key_def)
next
  case (Ty_Slice t)
  show ?case
  proof (rule rt_type_step [OF T, where body = "w_seq [write_tag 9, ser_type t]"])
    fix n k :: nat
    assume a: "n \<le> k" "ty_proper (Ty_Slice t) \<subseteq> T" "ty_ok (Ty_Slice t)"
    have "kids n (type_ctx cr T (type_key ` ty_proper (Ty_Slice t))) ser_type (des_type k) (norm_type cr) {t}"
      using Ty_Slice a by (intro kids_ty) (auto)
    then show "rt n (type_ctx cr T (type_key ` ty_proper (Ty_Slice t))) (w_seq [write_tag 9, ser_type t])
      (des_type_data k (des_type k) (des_const_generic k) (des_generics k)) (norm_type cr (Ty_Slice t))"
      by (auto simp: des_type_data_def intro!: rt_sw rt_map)
  qed (simp add: type_key_def)
next
  case (Ty_Tuple ts)
  show ?case
  proof (rule rt_type_step [OF T, where body = "w_seq [write_tag 10, ser_vec ''TypeRef'' (map ser_type ts)]"])
    let ?t = "Ty_Tuple ts"
    fix n k :: nat
    assume a: "n \<le> k" "ty_proper ?t \<subseteq> T" "ty_ok ?t"
    let ?C = "type_ctx cr T (type_key ` ty_proper ?t)"
    have "kids n ?C ser_type (des_type k) (norm_type cr) (set ts)"
      by (rule kids_ty [OF a(1) _ _ _ a(2)], erule Ty_Tuple) (use a(3) in auto)
    then have "rt n ?C (ser_vec ''TypeRef'' (map ser_type ts)) (des_vec ''TypeRef'' (des_type k)) (map (norm_type cr) ts)"
      by (intro rt_vec rt_pred) (simp_all add: kids_def)
    then show "rt n ?C (w_seq [write_tag 10, ser_vec ''TypeRef'' (map ser_type ts)])
      (des_type_data k (des_type k) (des_const_generic k) (des_generics k)) (norm_type cr ?t)"
      by (auto simp: des_type_data_def intro!: rt_sw rt_map)
  qed (simp add: type_key_def)
next
  case (Ty_Borrow l b t)
  show ?case
  proof (rule rt_type_step [OF T, where body = "w_seq [write_tag 11, ser_lifetime_ref l, ser_borrow_type b, ser_type t]"])
    let ?t = "Ty_Borrow l b t"
    fix n k :: nat
    assume a: "n \<le> k" "ty_proper ?t \<subseteq> T" "ty_ok ?t"
    have "kids n (type_ctx cr T (type_key ` ty_proper ?t)) ser_type (des_type k) (norm_type cr) {t}"
      using Ty_Borrow a by (intro kids_ty) (auto)
    then show "rt n (type_ctx cr T (type_key ` ty_proper ?t))
        (w_seq [write_tag 11, ser_lifetime_ref l, ser_borrow_type b, ser_type t])
        (des_type_data k (des_type k) (des_const_generic k) (des_generics k)) (norm_type cr ?t)"
      by (auto simp: des_type_data_def intro!: rt_sw rt_lift3 rt_lifetime_ref rt_borrow_type)
  qed (simp add: type_key_def)
next
  case (Ty_Pointer b t)
  show ?case
  proof (rule rt_type_step [OF T, where body = "w_seq [write_tag 12, ser_borrow_type b, ser_type t]"])
    let ?t = "Ty_Pointer b t"
    fix n k :: nat
    assume a: "n \<le> k" "ty_proper ?t \<subseteq> T" "ty_ok ?t"
    have "kids n (type_ctx cr T (type_key ` ty_proper ?t)) ser_type (des_type k) (norm_type cr) {t}"
      using Ty_Pointer a by (intro kids_ty) (auto)
    then show "rt n (type_ctx cr T (type_key ` ty_proper ?t)) (w_seq [write_tag 12, ser_borrow_type b, ser_type t])
        (des_type_data k (des_type k) (des_const_generic k) (des_generics k)) (norm_type cr ?t)"
      by (auto simp: des_type_data_def intro!: rt_sw rt_lift2 rt_borrow_type)
  qed (simp add: type_key_def)
next
  case (Ty_NamedFunction p d)
  let ?body = "w_seq [write_tag 13, ser_path (map_path ser_type ser_const_generic ser_generics p)]"
  show ?case
  proof (rule rt_type_step [OF T, where body = ?body])
    let ?t = "Ty_NamedFunction p d"
    fix n k :: nat
    assume a: "n \<le> k" "ty_proper ?t \<subseteq> T" "ty_ok ?t"
    let ?C = "type_ctx cr T (type_key ` ty_proper ?t)"
    have kt: "kids n ?C ser_type (des_type k) (norm_type cr) (set1_path p)"
      by (rule kids_ty [OF a(1) _ _ _ a(2)], erule Ty_NamedFunction) (use a(3) in auto)
    have kv: "kids n ?C ser_const_generic (des_const_generic k) (norm_const_generic cr) (set2_path p)"
      by (rule kids_cg [OF a(1) _ _ _ a(2)], erule Ty_NamedFunction) (use a(3) in auto)
    have "rt n ?C (ser_path (map_path ser_type ser_const_generic ser_generics p))
        (rmap (\<lambda>p. Ty_NamedFunction p (NF_Function None)) (des_path (des_type k) (des_const_generic k)))
        (Ty_NamedFunction (norm_path (c_crate ?C)
          (map_path (norm_type cr) (norm_const_generic cr) (norm_generics cr) p)) (NF_Function None))"
      using cr kt kv by (intro rt_map_eq [OF rt_path]) simp_all
    then show "rt n ?C ?body (des_type_data k (des_type k) (des_const_generic k) (des_generics k)) (norm_type cr ?t)"
      by (auto simp: des_type_data_def intro!: rt_sw)
  qed (simp add: type_key_def)
next
  case (Ty_Function h uns var abi ret args)
  let ?body = "w_seq [write_tag 14, ser_generics h, write_bool uns, write_bool var, write_istring abi, ser_type ret,
            ser_vec ''TypeRef'' (map ser_type args)]"
  show ?case
  proof (rule rt_type_step [OF T, where body = ?body])
    let ?t = "Ty_Function h uns var abi ret args"
    fix n k :: nat
    assume a: "n \<le> k" "ty_proper ?t \<subseteq> T" "ty_ok ?t"
    let ?C = "type_ctx cr T (type_key ` ty_proper ?t)"
    have "kids n ?C ser_generics (des_generics k) (norm_generics cr) {h}"
      using Ty_Function a by (intro kids_gp) auto
    moreover have kt: "kids n ?C ser_type (des_type k) (norm_type cr) (insert ret (set args))"
      using Ty_Function a by (intro kids_ty) (auto simp: list_all_iff)
    then have "rt n ?C (ser_vec ''TypeRef'' (map ser_type args)) (des_vec ''TypeRef'' (des_type k)) (map (norm_type cr) args)"
      by (intro rt_vec rt_pred) (simp_all add: kids_def)
    ultimately show "rt n ?C ?body (des_type_data k (des_type k) (des_const_generic k) (des_generics k)) (norm_type cr ?t)"
      using kt by (auto simp: des_type_data_def intro!: rt_sw rt_lift6 rt_bool rt_istring)
  qed (simp add: type_key_def)
next
  case (Ty_Closure m)
  show ?case
    by (rule rt_type_step [OF T, where body = "w_seq [write_tag 15, w_fail (Bug ''Encountered invalid type when serialising'')]"])
       (auto simp: type_key_def w_seq_tag_fail)
next
  case (Ty_Generator m)
  show ?case
    by (rule rt_type_step [OF T, where body = "w_seq [write_tag 16, w_fail (Bug ''Encountered invalid type when serialising'')]"])
       (auto simp: type_key_def w_seq_tag_fail)
next
  case (CG_Infer i)
  show ?case by (rule rt_cg_step [where t = 1 and as = "[]"]) simp_all
next
  case (CG_Unevaluated pi pp e)
  let ?as = "[ser_unevaluated (map_path_params ser_type ser_const_generic pi)
    (map_path_params ser_type ser_const_generic pp) (map_expr_ptr ser_type ser_const_generic ser_generics e)]"
  show ?case
  proof (rule rt_cg_step [where t = 2 and as = ?as])
    let ?v = "CG_Unevaluated pi pp e"
    fix n k :: nat
    assume a: "n \<le> k" "cg_parts ?v \<subseteq> T" "cg_ok ?v"
    let ?C = "type_ctx cr T (type_key ` cg_parts ?v)"
    have t: "kids n ?C ser_type (des_type k) (norm_type cr) X"
      if "X = set1_path_params pi \<or> X = set1_path_params pp \<or> X = set1_expr_ptr e" for X
      by (rule kids_ty [OF a(1) _ _ _ a(2)], use CG_Unevaluated that in blast) (use a(3) that in auto)
    have v: "kids n ?C ser_const_generic (des_const_generic k) (norm_const_generic cr) X"
      if "X = set2_path_params pi \<or> X = set2_path_params pp \<or> X = set2_expr_ptr e" for X
      by (rule kids_cg [OF a(1) _ _ _ a(2)], use CG_Unevaluated that in blast) (use a(3) that in auto)
    have "rt n ?C (hd ?as) (des_unevaluated (des_type k) (des_const_generic k))
      (map_path_params (norm_type cr) (norm_const_generic cr) pi, map_path_params (norm_type cr) (norm_const_generic cr) pp,
       norm_expr_ptr True (c_crate ?C) (map_expr_ptr (norm_type cr) (norm_const_generic cr) (norm_generics cr) e))"
      unfolding ser_unevaluated_def des_unevaluated_def list.sel
      by (intro rt_assert rt_lift3 rt_path_params rt_expr_ptr t v) (use a(3) cr in simp_all)
    from rt_map [OF this, of "\<lambda>(pi, pm, e). CG_Unevaluated pi pm e"]
    show "case map_of [(1::nat, rret (CG_Infer (-1))),
         (2, rmap (\<lambda>(pi, pm, e). CG_Unevaluated pi pm e) (des_unevaluated (des_type k) (des_const_generic k))),
         (3, rmap CG_Generic des_generic_ref),
         (4, rmap CG_Evaluated (des_encoded_literal (des_type k) (des_const_generic k)))] 2 of
       None \<Rightarrow> False
     | Some d \<Rightarrow> rt n ?C (w_seq ?as) d (norm_const_generic cr ?v)" by simp
  qed simp
next
  case (CG_Generic g)
  show ?case by (rule rt_cg_step [where t = 3 and as = "[ser_generic_ref g]"]) (simp_all add: rt_map rt_generic_ref)
next
  case (CG_Evaluated l)
  let ?as = "[ser_encoded_literal (map_encoded_literal ser_type ser_const_generic ser_generics l)]"
  show ?case
  proof (rule rt_cg_step [where t = 4 and as = ?as])
    let ?v = "CG_Evaluated l"
    fix n k :: nat
    assume a: "n \<le> k" "cg_parts ?v \<subseteq> T" "cg_ok ?v"
    let ?C = "type_ctx cr T (type_key ` cg_parts ?v)"
    have "kids n ?C ser_type (des_type k) (norm_type cr) (set1_encoded_literal l)"
      by (rule kids_ty [OF a(1) _ _ _ a(2)], erule CG_Evaluated) (use a(3) in auto)
    moreover have "kids n ?C ser_const_generic (des_const_generic k) (norm_const_generic cr) (set2_encoded_literal l)"
      by (rule kids_cg [OF a(1) _ _ _ a(2)], erule CG_Evaluated) (use a(3) in auto)
    ultimately have "rt n ?C (hd ?as) (des_encoded_literal (des_type k) (des_const_generic k))
      (norm_encoded_literal (c_crate ?C) (map_encoded_literal (norm_type cr) (norm_const_generic cr) (norm_generics cr) l))"
      unfolding list.sel using cr by (intro rt_encoded_literal) simp_all
    from rt_map [OF this, of CG_Evaluated]
    show "case map_of [(1::nat, rret (CG_Infer (-1))),
         (2, rmap (\<lambda>(pi, pm, e). CG_Unevaluated pi pm e) (des_unevaluated (des_type k) (des_const_generic k))),
         (3, rmap CG_Generic des_generic_ref),
         (4, rmap CG_Evaluated (des_encoded_literal (des_type k) (des_const_generic k)))] 4 of
       None \<Rightarrow> False
     | Some d \<Rightarrow> rt n ?C (w_seq ?as) d (norm_const_generic cr ?v)" by simp
  qed simp
next
  case (GenericParams ts ls vs bs)
  let ?g = "GenericParams ts ls vs bs"
  show ?case
    unfolding rt_gp_def
  proof (intro allI impI)
    fix n f :: nat
    assume b: "n \<le> f" "gp_parts ?g \<subseteq> T" "gp_ok ?g"
    let ?C = "type_ctx cr T (type_key ` gp_parts ?g)"
    have step: "rt m ?C (ser_generics ?g) (des_generics_of k (des_type k) (des_const_generic k) (des_generics k))
        (norm_generics cr ?g) \<and> grows (ser_generics ?g)" if a: "m - 1 \<le> k" for m k
    proof -
      have t: "kids (m - 1) ?C ser_type (des_type k) (norm_type cr) X"
        if "X = (\<Union>x \<in> set ts. set_type_param_def x) \<or> X = (\<Union>x \<in> set vs. set1_value_param_def x) \<or>
          X = (\<Union>x \<in> set bs. set1_generic_bound x)" for X
        by (rule kids_ty [OF a _ _ _ b(2)], use GenericParams that in blast) (use b(3) that in auto)
      have v: "kids (m - 1) ?C ser_const_generic (des_const_generic k) (norm_const_generic cr) (\<Union>x \<in> set bs. set2_generic_bound x)"
        by (rule kids_cg [OF a _ _ _ b(2)], use GenericParams in blast) (use b(3) in auto)
      have g: "kids (m - 1) ?C ser_generics (des_generics k) (norm_generics cr) (\<Union>x \<in> set bs. set3_generic_bound x)"
        by (rule kids_gp [OF a _ _ _ b(2)], use GenericParams in blast) (use b(3) in auto)
      have c: "c_crate ?C \<noteq> []" using cr by simp
      show ?thesis
        using rt_generics_of [OF c a t t t v g, where ls = ls] grows_generics_of [OF c a t t t v g, where ls = ls]
        by (simp only: ser_generics.simps norm_generics.simps type_ctx_sel simp_thms)
    qed
    have "rt n ?C (ser_generics ?g) (case f of 0 \<Rightarrow> rfail Out_Of_Fuel
        | Suc k \<Rightarrow> des_generics_of k (des_type k) (des_const_generic k) (des_generics k)) (norm_generics cr ?g)"
      using step [of 0 0] step b(1) by (intro rt_fuel) simp_all
    then show "rt n ?C (ser_generics ?g) (des_generics f) (norm_generics cr ?g)" by (cases f) simp_all
  qed
qed

end
