(* ===== verification/Macro_Rules.thy ===== *)
theory Macro_Rules
  imports Deserialise
begin

text \<open>
  Tokens and macro rules (\<open>src/include/ident.hpp\<close>, \<open>src/parse/token.hpp\<close>,
  \<open>src/macro_rules/macro_rules.hpp\<close>) and their serialisation in \<open>src/hir/serialise.cpp\<close> and
  \<open>deserialise.cpp\<close>.

  The type of a token is its place in \<open>eTokenType.enum.h\<close>, a core type its place in
  \<open>eCoreType\<close>; a \<open>double\<close> is its bit pattern.  An interpolated fragment is a pointer, here
  a number.  Spans and positions are not kept.
\<close>

unbundle bit_operations_syntax

record mod_path =
  mp_crate :: string
  mp_ents :: "string list"

text \<open>\<open>Ident::Hygiene\<close>.\<close>

record hygiene =
  hy_contexts :: "u32 list"
  hy_search_module :: "mod_path option"

record ident =
  id_hygiene :: hygiene
  id_name :: string

datatype (plugins only: code size) token_data =
    TD_None
  | TD_Ident ident
  | TD_String string
  | TD_Integer nat u128
  | TD_Float nat u64
  | TD_Fragment nat

record token =
  tk_type :: nat
  tk_data :: token_data
  tk_hygiene :: hygiene

definition hygiene_new :: hygiene where "hygiene_new = \<lparr>hy_contexts = [], hy_search_module = None\<rparr>"

text \<open>\<open>MacroPatEnt::Type\<close>.\<close>

datatype (plugins only: code size) pat_type =
    PAT_TOKEN | PAT_LOOP | PAT_TT | PAT_PAT | PAT_IDENT | PAT_PATH | PAT_TYPE | PAT_EXPR | PAT_STMT
  | PAT_BLOCK | PAT_META | PAT_ITEM | PAT_VIS | PAT_LIFETIME | PAT_LITERAL

definition pat_types :: "pat_type list" where
  "pat_types = [PAT_TOKEN, PAT_LOOP, PAT_TT, PAT_PAT, PAT_IDENT, PAT_PATH, PAT_TYPE, PAT_EXPR, PAT_STMT,
    PAT_BLOCK, PAT_META, PAT_ITEM, PAT_VIS, PAT_LIFETIME, PAT_LITERAL]"

datatype (plugins only: code size) macro_pat_ent =
  MacroPatEnt (mpe_name: string) (mpe_name_index: u32) (mpe_tok: token) (mpe_subpats: "macro_pat_ent list")
    (mpe_type: pat_type)

record simple_pat_if_check =
  ic_ty :: pat_type
  ic_tok :: token

text \<open>Jump targets are of type \<open>size_t\<close>.\<close>

datatype (plugins only: code size) simple_pat_ent =
    SPE_End
  | SPE_LoopStart u32
  | SPE_LoopNext
  | SPE_LoopEnd
  | SPE_Jump nat
  | SPE_ExpectTok token
  | SPE_ExpectPat pat_type u32
  | SPE_If bool nat "simple_pat_if_check list"

datatype (plugins only: code size) macro_expansion_ent =
    MEE_Token token
  | MEE_NamedValue u32
  | MEE_Loop "macro_expansion_ent list" token "u32 list"

record macro_rules_arm =
  ma_param_names :: "string list"
  ma_pattern :: "simple_pat_ent list"
  ma_contents :: "macro_expansion_ent list"

datatype (plugins only: code size) edition = Rust2015 | Rust2018 | Rust2021

definition editions :: "edition list" where "editions = [Rust2015, Rust2018, Rust2021]"

record macro_rules =
  mr_exported :: bool
  mr_is_macro_item :: bool
  mr_source_crate :: string
  mr_edition :: edition
  mr_hygiene :: hygiene
  mr_rules :: "macro_rules_arm list"

section \<open>Writing\<close>

definition ser_hygiene :: "hygiene \<Rightarrow> wact" where
  "ser_hygiene h = in_object ''Ident::Hygiene''
    [write_bool (hy_search_module h \<noteq> None),
     (case hy_search_module h of
        None \<Rightarrow> w_skip
      | Some mp \<Rightarrow> w_seq [write_istring (mp_crate mp), ser_vec ''RcString'' (map write_istring (mp_ents mp))])]"

fun ser_token_data :: "token_data \<Rightarrow> wact" where
  "ser_token_data TD_None = w_seq [write_tag 1]"
| "ser_token_data (TD_Ident i) = w_seq [write_tag 2, ser_hygiene (id_hygiene i), write_istring (id_name i)]"
| "ser_token_data (TD_String s) = w_seq [write_tag 3, write_string s]"
| "ser_token_data (TD_Integer t v) = w_seq [write_tag 4, write_tag t, write_u128 v]"
| "ser_token_data (TD_Float t v) = w_seq [write_tag 5, write_tag t, write_double v]"
| "ser_token_data (TD_Fragment p) =
    w_seq [write_tag 6, w_fail (Assert_Fail ''Serialising interpolated macro fragment'')]"

definition ser_token :: "token \<Rightarrow> wact" where
  "ser_token tok = w_seq [write_tag (tk_type tok), ser_token_data (tk_data tok)]"

definition ser_pat_type :: "pat_type \<Rightarrow> wact" where "ser_pat_type t = write_tag (index_of pat_types t)"

primrec ser_macro_pat_ent :: "macro_pat_ent \<Rightarrow> wact" where
  "ser_macro_pat_ent (MacroPatEnt name idx tok subpats ty) = w_seq
    [write_istring name, write_word_count idx, ser_pat_type ty,
     (if ty = PAT_TOKEN then ser_token tok
      else if ty = PAT_LOOP then w_seq [ser_token tok, ser_vec ''MacroPatEnt'' (map ser_macro_pat_ent subpats)]
      else w_skip)]"

definition ser_simple_pat_if_check :: "simple_pat_if_check \<Rightarrow> wact" where
  "ser_simple_pat_if_check e = w_seq [ser_pat_type (ic_ty e), ser_token (ic_tok e)]"

fun ser_simple_pat_ent :: "simple_pat_ent \<Rightarrow> wact" where
  "ser_simple_pat_ent SPE_End = w_seq [write_tag 1]"
| "ser_simple_pat_ent (SPE_LoopStart i) = w_seq [write_tag 2, write_word_count i]"
| "ser_simple_pat_ent SPE_LoopNext = w_seq [write_tag 3]"
| "ser_simple_pat_ent SPE_LoopEnd = w_seq [write_tag 4]"
| "ser_simple_pat_ent (SPE_Jump t) = w_seq [write_tag 5, write_count t]"
| "ser_simple_pat_ent (SPE_ExpectTok tok) = w_seq [write_tag 6, ser_token tok]"
| "ser_simple_pat_ent (SPE_ExpectPat ty i) = w_seq [write_tag 7, ser_pat_type ty, write_word_count i]"
| "ser_simple_pat_ent (SPE_If eq t ents) = w_seq
    [write_tag 8, write_bool eq, write_count t, ser_vec ''SimplePatIfCheck'' (map ser_simple_pat_if_check ents)]"

text \<open>A \<open>std::set\<close> of loop indexes is the list of its elements in order.\<close>

primrec ser_macro_expansion_ent :: "macro_expansion_ent \<Rightarrow> wact" where
  "ser_macro_expansion_ent (MEE_Token tok) = w_seq [write_tag 0, ser_token tok]"
| "ser_macro_expansion_ent (MEE_NamedValue v) = w_seq
    [write_tag 1, write_u8 (ucast (drop_bit 24 v)), write_word_count (v AND 0x00FFFFFF)]"
| "ser_macro_expansion_ent (MEE_Loop entries joiner controllers) = w_seq
    [write_tag 2, ser_vec ''MacroExpansionEnt'' (map ser_macro_expansion_ent entries), ser_token joiner,
     ser_set ''unsigned'' (map write_word_count controllers)]"

definition ser_macro_rules_arm :: "macro_rules_arm \<Rightarrow> wact" where
  "ser_macro_rules_arm arm = w_seq
    [ser_vec ''RcString'' (map write_istring (ma_param_names arm)),
     ser_vec ''SimplePatEnt'' (map ser_simple_pat_ent (ma_pattern arm)),
     ser_vec ''MacroExpansionEnt'' (map ser_macro_expansion_ent (ma_contents arm))]"

definition ser_edition :: "edition \<Rightarrow> wact" where "ser_edition e = write_tag (index_of editions e)"

definition ser_macro_rules :: "macro_rules \<Rightarrow> wact" where
  "ser_macro_rules mac = w_seq
    [write_istring (mr_source_crate mac), ser_edition (mr_edition mac),
     w_assert (length (mr_rules mac) > 0) ''mac.m_rules.size() > 0'',
     write_bool (mr_is_macro_item mac),
     ser_vec ''MacroRulesArm'' (map ser_macro_rules_arm (mr_rules mac)),
     ser_hygiene (mr_hygiene mac)]"

section \<open>Reading\<close>

definition des_mod_path :: "('s, mod_path) rd" where
  "des_mod_path = rbind read_istring (\<lambda>c. rbind (des_vec ''RcString'' read_istring) (\<lambda>es r.
     if c = [] then
       (if r_crate_name r = [] then Inl (Assert_Fail ''m_crate_name != \"\"'')
        else Inr (\<lparr>mp_crate = r_crate_name r, mp_ents = es\<rparr>, r))
     else Inr (\<lparr>mp_crate = c, mp_ents = es\<rparr>, r)))"

definition des_hygiene :: "('s, hygiene) rd" where
  "des_hygiene = r_in_object ''Ident::Hygiene''
     (rmap (\<lambda>mp. \<lparr>hy_contexts = [], hy_search_module = mp\<rparr>) (des_opt des_mod_path))"

definition des_token_data :: "('s, token_data) rd" where
  "des_token_data = des_switch ''Token::Data''
    [(1, rret TD_None),
     (3, rmap TD_String read_string),
     (2, rlift2 (\<lambda>h n. TD_Ident \<lparr>id_hygiene = h, id_name = n\<rparr>) des_hygiene read_istring),
     (4, rlift2 TD_Integer read_tag read_u128),
     (5, rlift2 TD_Float read_tag read_double)]"

definition des_token :: "('s, token) rd" where
  "des_token = rlift2 (\<lambda>t d. \<lparr>tk_type = t, tk_data = d, tk_hygiene = hygiene_new\<rparr>) read_tag des_token_data"

definition token_null :: token where
  "token_null = \<lparr>tk_type = 0, tk_data = TD_None, tk_hygiene = hygiene_new\<rparr>"

definition des_pat_type :: "('s, pat_type) rd" where "des_pat_type = des_enum pat_types"

fun des_macro_pat_ent :: "nat \<Rightarrow> ('s, macro_pat_ent) rd" where
  "des_macro_pat_ent 0 = rfail Out_Of_Fuel"
| "des_macro_pat_ent (Suc f) = rbind read_istring (\<lambda>s. rbind read_word_count (\<lambda>n. rbind des_pat_type (\<lambda>ty.
     if ty = PAT_TOKEN then rmap (\<lambda>tok. MacroPatEnt s n tok [] ty) des_token
     else if ty = PAT_LOOP then
       rlift2 (\<lambda>tok subpats. MacroPatEnt s n tok subpats ty) des_token (des_vec ''MacroPatEnt'' (des_macro_pat_ent f))
     else if ty = PAT_LIFETIME \<or> ty = PAT_LITERAL then rfail (Bug ''Bad tag for MacroPatEnt'')
     else rret (MacroPatEnt s n token_null [] ty))))"

definition des_simple_pat_if_check :: "('s, simple_pat_if_check) rd" where
  "des_simple_pat_if_check = rlift2 (\<lambda>ty tok. \<lparr>ic_ty = ty, ic_tok = tok\<rparr>) des_pat_type des_token"

definition des_simple_pat_ent :: "('s, simple_pat_ent) rd" where
  "des_simple_pat_ent = des_switch ''MacroPatEnt''
    [(1, rret SPE_End),
     (2, rmap SPE_LoopStart read_word_count),
     (3, rret SPE_LoopNext),
     (4, rret SPE_LoopEnd),
     (5, rmap SPE_Jump read_count),
     (6, rmap SPE_ExpectTok des_token),
     (7, rlift2 SPE_ExpectPat des_pat_type read_word_count),
     (8, rlift3 SPE_If read_bool read_count (des_vec ''SimplePatIfCheck'' des_simple_pat_if_check))]"

text \<open>Reading a \<open>std::set\<close> inserts the elements one by one.\<close>

fun set_insert :: "('a \<Rightarrow> 'a \<Rightarrow> Ordering) \<Rightarrow> 'a \<Rightarrow> 'a list \<Rightarrow> 'a list" where
  "set_insert cmp x [] = [x]"
| "set_insert cmp x (y # ys) =
    (case cmp x y of OrdLess \<Rightarrow> x # y # ys | OrdEqual \<Rightarrow> y # ys | OrdGreater \<Rightarrow> y # set_insert cmp x ys)"

definition set_of_items :: "('a \<Rightarrow> 'a \<Rightarrow> Ordering) \<Rightarrow> 'a list \<Rightarrow> 'a list" where
  "set_of_items cmp xs = fold (set_insert cmp) xs []"

definition des_set :: "string \<Rightarrow> ('a \<Rightarrow> 'a \<Rightarrow> Ordering) \<Rightarrow> ('s, 'a) rd \<Rightarrow> ('s, 'a list) rd" where
  "des_set ty cmp d = r_in_object (''set:'' @ ty) (rmap (set_of_items cmp) (des_items d))"

fun des_macro_expansion_ent :: "nat \<Rightarrow> ('s, macro_expansion_ent) rd" where
  "des_macro_expansion_ent 0 = rfail Out_Of_Fuel"
| "des_macro_expansion_ent (Suc f) = des_switch ''MacroExpansionEnt''
    [(0, rmap MEE_Token des_token),
     (1, rlift2 (\<lambda>v c. MEE_NamedValue (push_bit 24 (ucast v) OR c)) read_u8 read_word_count),
     (2, rlift3 MEE_Loop (des_vec ''MacroExpansionEnt'' (des_macro_expansion_ent f)) des_token
           (des_set ''unsigned'' ord_int read_word_count))]"

definition des_macro_rules_arm :: "nat \<Rightarrow> ('s, macro_rules_arm) rd" where
  "des_macro_rules_arm f = rlift3 (\<lambda>ps pat cs. \<lparr>ma_param_names = ps, ma_pattern = pat, ma_contents = cs\<rparr>)
    (des_vec ''RcString'' read_istring) (des_vec ''SimplePatEnt'' des_simple_pat_ent)
    (des_vec ''MacroExpansionEnt'' (des_macro_expansion_ent f))"

definition des_edition :: "('s, edition) rd" where "des_edition = des_enum editions"

definition des_macro_rules :: "nat \<Rightarrow> ('s, macro_rules) rd" where
  "des_macro_rules f = rlift5 (\<lambda>c e i rs h.
     \<lparr>mr_exported = False, mr_is_macro_item = i, mr_source_crate = c, mr_edition = e, mr_hygiene = h, mr_rules = rs\<rparr>)
    read_istring des_edition read_bool (des_vec ''MacroRulesArm'' (des_macro_rules_arm f)) des_hygiene"

end
