(* ===== verification/Roundtrip_Macro.thy ===== *)
theory Roundtrip_Macro
  imports Roundtrip Macro_Rules
begin

text \<open>
  The round trip of tokens and macro rules: the normal forms, which say what the file does
  not keep, and the reader against the writer.
\<close>

unbundle bit_operations_syntax

declare w_seq.simps [simp del]

section \<open>Normal forms\<close>

definition norm_mod_path :: "string \<Rightarrow> mod_path \<Rightarrow> mod_path" where
  "norm_mod_path cr mp = \<lparr>mp_crate = (if mp_crate mp = [] then cr else mp_crate mp), mp_ents = mp_ents mp\<rparr>"

definition norm_hygiene :: "string \<Rightarrow> hygiene \<Rightarrow> hygiene" where
  "norm_hygiene cr h = \<lparr>hy_contexts = [], hy_search_module = map_option (norm_mod_path cr) (hy_search_module h)\<rparr>"

fun norm_token_data :: "string \<Rightarrow> token_data \<Rightarrow> token_data" where
  "norm_token_data cr (TD_Ident i) = TD_Ident \<lparr>id_hygiene = norm_hygiene cr (id_hygiene i), id_name = id_name i\<rparr>"
| "norm_token_data cr d = d"

definition norm_token :: "string \<Rightarrow> token \<Rightarrow> token" where
  "norm_token cr tok =
    \<lparr>tk_type = tk_type tok, tk_data = norm_token_data cr (tk_data tok), tk_hygiene = hygiene_new\<rparr>"

primrec norm_macro_pat_ent :: "string \<Rightarrow> macro_pat_ent \<Rightarrow> macro_pat_ent" where
  "norm_macro_pat_ent cr (MacroPatEnt name idx tok subpats ty) = MacroPatEnt name idx
    (if ty = PAT_TOKEN \<or> ty = PAT_LOOP then norm_token cr tok else token_null)
    (if ty = PAT_LOOP then map (norm_macro_pat_ent cr) subpats else []) ty"

definition norm_simple_pat_if_check :: "string \<Rightarrow> simple_pat_if_check \<Rightarrow> simple_pat_if_check" where
  "norm_simple_pat_if_check cr e = \<lparr>ic_ty = ic_ty e, ic_tok = norm_token cr (ic_tok e)\<rparr>"

fun norm_simple_pat_ent :: "string \<Rightarrow> simple_pat_ent \<Rightarrow> simple_pat_ent" where
  "norm_simple_pat_ent cr (SPE_ExpectTok tok) = SPE_ExpectTok (norm_token cr tok)"
| "norm_simple_pat_ent cr (SPE_If eq t ents) = SPE_If eq t (map (norm_simple_pat_if_check cr) ents)"
| "norm_simple_pat_ent cr e = e"

primrec norm_macro_expansion_ent :: "string \<Rightarrow> macro_expansion_ent \<Rightarrow> macro_expansion_ent" where
  "norm_macro_expansion_ent cr (MEE_Token tok) = MEE_Token (norm_token cr tok)"
| "norm_macro_expansion_ent cr (MEE_NamedValue v) = MEE_NamedValue v"
| "norm_macro_expansion_ent cr (MEE_Loop entries joiner controllers) =
    MEE_Loop (map (norm_macro_expansion_ent cr) entries) (norm_token cr joiner) (set_of_items ord_int controllers)"

definition norm_macro_rules_arm :: "string \<Rightarrow> macro_rules_arm \<Rightarrow> macro_rules_arm" where
  "norm_macro_rules_arm cr arm = \<lparr>ma_param_names = ma_param_names arm,
    ma_pattern = map (norm_simple_pat_ent cr) (ma_pattern arm),
    ma_contents = map (norm_macro_expansion_ent cr) (ma_contents arm)\<rparr>"

definition norm_macro_rules :: "string \<Rightarrow> macro_rules \<Rightarrow> macro_rules" where
  "norm_macro_rules cr mac = \<lparr>mr_exported = False, mr_is_macro_item = mr_is_macro_item mac,
    mr_source_crate = mr_source_crate mac, mr_edition = mr_edition mac,
    mr_hygiene = norm_hygiene cr (mr_hygiene mac), mr_rules = map (norm_macro_rules_arm cr) (mr_rules mac)\<rparr>"

lemma set_of_items_sorted:
  assumes "sorted_wrt (<) (xs :: 'a :: linorder list)"
  shows "set_of_items ord_int xs = xs"
proof -
  have snoc: "set_insert ord_int x ys = ys @ [x]" if "\<forall>y \<in> set ys. y < x" for x and ys :: "'a list"
    using that by (induction ys) (auto simp: ord_int_def)
  have "fold (set_insert ord_int) xs ys = ys @ xs" if "sorted_wrt (<) (ys @ xs)" for ys
    using that
  proof (induction xs arbitrary: ys)
    case (Cons x xs)
    then show ?case using snoc [of ys x] by (auto simp: sorted_wrt_append)
  qed simp
  from this [of "[]"] assms show ?thesis by (simp add: set_of_items_def)
qed

section \<open>Tokens\<close>

lemma in_object_seq: "in_object name [w_seq as] = in_object name as"
  by (simp add: in_object_def)

definition ser_mod_path :: "mod_path \<Rightarrow> wact" where
  "ser_mod_path mp = w_seq [write_istring (mp_crate mp), ser_vec ''RcString'' (map write_istring (mp_ents mp))]"

lemma ser_hygiene_opt:
  "ser_hygiene h = in_object ''Ident::Hygiene'' [ser_opt (map_option ser_mod_path (hy_search_module h))]"
  by (cases "hy_search_module h") (simp_all add: ser_hygiene_def ser_opt_def ser_mod_path_def in_object_seq)

lemma rt_istring_vec [rt_intros]:
  "rt n C (ser_vec ''RcString'' (map write_istring xs)) (des_vec ''RcString'' read_istring) xs"
  using istring.vec [of "''RcString''" n C xs] by simp

lemma rt_mod_path:
  assumes "c_crate C \<noteq> []"
  shows "rt n C (ser_mod_path mp) des_mod_path (norm_mod_path (c_crate C) mp)"
proof -
  have "rt n C (w_seq []) (\<lambda>r.
     if mp_crate mp = [] then
       (if r_crate_name r = [] then Inl (Assert_Fail ''m_crate_name != \"\"'')
        else Inr (\<lparr>mp_crate = r_crate_name r, mp_ents = mp_ents mp\<rparr>, r))
     else Inr (\<lparr>mp_crate = mp_crate mp, mp_ents = mp_ents mp\<rparr>, r)) (norm_mod_path (c_crate C) mp)"
    using assms by (intro rtI) (auto simp: w_seq.simps sync_def norm_mod_path_def)
  then show ?thesis
    unfolding ser_mod_path_def des_mod_path_def by (intro rt_bind [OF rt_istring] rt_bind [OF rt_istring_vec])
qed

lemma rt_hygiene [rt_intros]:
  assumes "c_crate C \<noteq> []"
  shows "rt n C (ser_hygiene h) des_hygiene (norm_hygiene (c_crate C) h)"
proof -
  have "rt (n - 1) C (ser_opt (map_option ser_mod_path (hy_search_module h))) (des_opt des_mod_path)
      (map_option (norm_mod_path (c_crate C)) (hy_search_module h))"
    by (rule rt_opt) (rule rt_mod_path [OF assms])
  then show ?thesis unfolding ser_hygiene_opt des_hygiene_def norm_hygiene_def
    by (intro rt_in_object) (auto intro: rt_map_eq)
qed

lemma rt_token_data [rt_intros]:
  assumes "c_crate C \<noteq> []"
  shows "rt n C (ser_token_data d) des_token_data (norm_token_data (c_crate C) d)"
proof (cases d)
  case (TD_Ident i)
  have "rt n C (w_seq [ser_hygiene (id_hygiene i), write_istring (id_name i)])
    (rlift2 (\<lambda>h n. TD_Ident \<lparr>id_hygiene = h, id_name = n\<rparr>) des_hygiene read_istring)
    ((\<lambda>h n. TD_Ident \<lparr>id_hygiene = h, id_name = n\<rparr>) (norm_hygiene (c_crate C) (id_hygiene i)) (id_name i))"
    using assms by (intro rt_lift2 rt_hygiene rt_istring)
  then show ?thesis by (auto simp: TD_Ident des_token_data_def intro!: rt_sw)
qed (auto simp: des_token_data_def w_seq_tag_fail intro!: rt_sw rt_sw_single rt_lift2 rt_map rt_string rt_tag rt_u128 rt_double)

lemma rt_token [rt_intros]:
  assumes "c_crate C \<noteq> []"
  shows "rt n C (ser_token tok) des_token (norm_token (c_crate C) tok)"
  unfolding ser_token_def des_token_def norm_token_def
  by (rule rt_lift2 [OF rt_tag rt_token_data [OF assms], where f = "\<lambda>t d. \<lparr>tk_type = t, tk_data = d, tk_hygiene = hygiene_new\<rparr>"])

lemma rt_pat_type [rt_intros]: "rt n C (ser_pat_type t) des_pat_type t"
  unfolding ser_pat_type_def des_pat_type_def by (rule rt_enum) (cases t; simp add: pat_types_def)

lemma rt_edition [rt_intros]: "rt n C (ser_edition e) des_edition e"
  unfolding ser_edition_def des_edition_def by (rule rt_enum) (cases e; simp add: editions_def)

section \<open>Patterns and expansions\<close>

lemma grows_istring [simp, intro]: "grows (write_istring v)"
  by (rule growsI) (auto simp: write_istring_def split: option.splits dest: grows_count [unfolded grows_def, rule_format, rotated])

text \<open>A recursive reader that starts with a tag.\<close>

lemma rt_switch_fuel:
  assumes "n \<le> f" "\<And>m k. m \<le> k \<Longrightarrow> m \<le> n \<Longrightarrow>
      (case map_of (alts k) t of None \<Rightarrow> False | Some d \<Rightarrow> rt m C (w_seq as) d v)"
  shows "rt n C (w_seq (write_tag t # as)) (case f of 0 \<Rightarrow> rfail Out_Of_Fuel | Suc k \<Rightarrow> des_switch what (alts k)) v"
proof (rule rt_fuel [OF _ assms(1)])
  obtain d where "rt 0 C (w_seq as) d v"
    using assms(2) [of 0 0] by (auto split: option.splits)
  then show "grows (w_seq (write_tag t # as))" by (rule grows_rt_first [OF grows_tag rt_tag])
qed (use assms(2) [of "n - 1"] in \<open>auto intro!: rt_sw_dec\<close>)

lemma named_value_parts: "push_bit 24 (ucast (ucast (drop_bit 24 v) :: u8)) OR (v AND 0x00FFFFFF) = (v :: u32)"
proof (rule bit_word_eqI)
  fix i assume "i < LENGTH(32)"
  then have i: "i < 32" by simp
  have m: "(0x00FFFFFF :: u32) = mask 24" by (simp add: mask_eq_exp_minus_1)
  show "bit (push_bit 24 (ucast (ucast (drop_bit 24 v) :: u8)) OR (v AND 0x00FFFFFF)) i = bit v i"
    unfolding m using i by (auto simp: bit_simps)
qed

lemma rt_set:
  assumes "length ty < 100" "\<And>x. x \<in> set xs \<Longrightarrow> rt (n - 1) C (s x) d (f x)"
  shows "rt n C (ser_set ty (map s xs)) (des_set ty cmp d) (set_of_items cmp (map f xs))"
  unfolding ser_set_def des_set_def using assms
  by (intro rt_in_object) (simp_all add: rt_map rt_items)

abbreviation mee_alts :: "nat \<Rightarrow> (nat \<times> ('s, macro_expansion_ent) rd) list" where
  "mee_alts f \<equiv>
    [(0, rmap MEE_Token des_token),
     (1, rlift2 (\<lambda>v c. MEE_NamedValue (push_bit 24 (ucast v) OR c)) read_u8 read_word_count),
     (2, rlift3 MEE_Loop (des_vec ''MacroExpansionEnt'' (des_macro_expansion_ent f)) des_token
           (des_set ''unsigned'' ord_int read_word_count))]"

lemma des_macro_expansion_ent_cases:
  "des_macro_expansion_ent f = (case f of 0 \<Rightarrow> rfail Out_Of_Fuel | Suc k \<Rightarrow> des_switch ''MacroExpansionEnt'' (mee_alts k))"
  by (cases f) simp_all

lemma rt_macro_expansion_ent:
  assumes "c_crate C \<noteq> []" "n \<le> f"
  shows "rt n C (ser_macro_expansion_ent x) (des_macro_expansion_ent f) (norm_macro_expansion_ent (c_crate C) x)"
  using assms(2)
proof (induction x arbitrary: n f)
  case (MEE_Token tok)
  show ?case
    unfolding ser_macro_expansion_ent.simps des_macro_expansion_ent_cases [of f]
    by (rule rt_switch_fuel [OF MEE_Token]) (simp add: rt_map rt_token [OF assms(1)])
next
  case (MEE_NamedValue v)
  have "rt m C (w_seq [write_u8 (ucast (drop_bit 24 v)), write_word_count (v AND 0x00FFFFFF)])
    (rlift2 (\<lambda>v c. MEE_NamedValue (push_bit 24 (ucast v) OR c)) read_u8 read_word_count) (MEE_NamedValue v)" for m
    using rt_lift2 [OF rt_u8 rt_word_count, of m C "ucast (drop_bit 24 v)" "v AND 0x00FFFFFF"
        "\<lambda>v c. MEE_NamedValue (push_bit 24 (ucast v) OR c)"] by (simp only: named_value_parts)
  then show ?case
    unfolding ser_macro_expansion_ent.simps des_macro_expansion_ent_cases [of f] norm_macro_expansion_ent.simps
    by (intro rt_switch_fuel [OF MEE_NamedValue]) simp
next
  case (MEE_Loop entries joiner controllers)
  have "rt m C (w_seq [ser_vec ''MacroExpansionEnt'' (map ser_macro_expansion_ent entries), ser_token joiner,
      ser_set ''unsigned'' (map write_word_count controllers)])
    (rlift3 MEE_Loop (des_vec ''MacroExpansionEnt'' (des_macro_expansion_ent k)) des_token
           (des_set ''unsigned'' ord_int read_word_count))
    (norm_macro_expansion_ent (c_crate C) (MEE_Loop entries joiner controllers))" if "m \<le> k" for m k
  proof -
    have "rt m C (ser_set ''unsigned'' (map write_word_count controllers)) (des_set ''unsigned'' ord_int read_word_count)
        (set_of_items ord_int (map (\<lambda>x. x) controllers))"
      by (rule rt_set) (simp_all add: rt_word_count)
    then show ?thesis using that assms(1)
      unfolding norm_macro_expansion_ent.simps by (intro rt_lift3 rt_vec rt_token MEE_Loop.IH) simp_all
  qed
  then show ?case
    unfolding ser_macro_expansion_ent.simps(3) des_macro_expansion_ent_cases [of f]
    by (intro rt_switch_fuel [OF MEE_Loop.prems]) simp
qed

lemma rt_simple_pat_if_check:
  assumes "c_crate C \<noteq> []"
  shows "rt n C (ser_simple_pat_if_check e) des_simple_pat_if_check (norm_simple_pat_if_check (c_crate C) e)"
  unfolding ser_simple_pat_if_check_def des_simple_pat_if_check_def norm_simple_pat_if_check_def
  by (rule rt_lift2 [OF rt_pat_type rt_token [OF assms], where f = "\<lambda>ty tok. \<lparr>ic_ty = ty, ic_tok = tok\<rparr>"])

lemma rt_simple_pat_ent:
  assumes "c_crate C \<noteq> []"
  shows "rt n C (ser_simple_pat_ent e) des_simple_pat_ent (norm_simple_pat_ent (c_crate C) e)"
  using assms
  by (cases e) (auto simp: des_simple_pat_ent_def intro!: rt_sw rt_sw_single rt_lift2 rt_lift3 rt_map rt_word_count rt_count
      rt_token rt_pat_type rt_bool rt_vec rt_simple_pat_if_check)

lemma rt_macro_rules_arm:
  assumes "c_crate C \<noteq> []" "n \<le> f"
  shows "rt n C (ser_macro_rules_arm arm) (des_macro_rules_arm f) (norm_macro_rules_arm (c_crate C) arm)"
proof -
  have "rt n C (ser_vec ''SimplePatEnt'' (map ser_simple_pat_ent (ma_pattern arm))) (des_vec ''SimplePatEnt'' des_simple_pat_ent)
      (map (norm_simple_pat_ent (c_crate C)) (ma_pattern arm))"
    using assms(1) by (intro rt_vec rt_simple_pat_ent) simp_all
  moreover have "rt n C (ser_vec ''MacroExpansionEnt'' (map ser_macro_expansion_ent (ma_contents arm)))
      (des_vec ''MacroExpansionEnt'' (des_macro_expansion_ent f)) (map (norm_macro_expansion_ent (c_crate C)) (ma_contents arm))"
    using assms by (intro rt_vec rt_macro_expansion_ent) simp_all
  ultimately show ?thesis
    unfolding ser_macro_rules_arm_def des_macro_rules_arm_def norm_macro_rules_arm_def
    by (rule rt_lift3 [OF rt_istring_vec, where f = "\<lambda>ps pat cs. \<lparr>ma_param_names = ps, ma_pattern = pat, ma_contents = cs\<rparr>"])
qed

lemma rt_macro_rules:
  assumes "c_crate C \<noteq> []" "n \<le> f"
  shows "rt n C (ser_macro_rules mac) (des_macro_rules f) (norm_macro_rules (c_crate C) mac)"
proof -
  have rules: "rt n C (ser_vec ''MacroRulesArm'' (map ser_macro_rules_arm (mr_rules mac)))
      (des_vec ''MacroRulesArm'' (des_macro_rules_arm f)) (map (norm_macro_rules_arm (c_crate C)) (mr_rules mac))"
    using assms by (intro rt_vec rt_macro_rules_arm) simp_all
  show ?thesis
    unfolding ser_macro_rules_def des_macro_rules_def norm_macro_rules_def rlift5_def rlift4_def
    by (intro rt_bind [OF rt_istring] rt_bind [OF rt_edition] rt_assert)
       (rule rt_lift3 [OF rt_bool rules rt_hygiene [OF assms(1)], where f = "\<lambda>i rs h. \<lparr>mr_exported = False, mr_is_macro_item = i, mr_source_crate = mr_source_crate mac,
        mr_edition = mr_edition mac, mr_hygiene = h, mr_rules = rs\<rparr>"])
qed

text \<open>
  The reader of a \<open>MacroPatEnt\<close> has no case for lifetimes and literals.
\<close>

primrec mpe_ok :: "macro_pat_ent \<Rightarrow> bool" where
  "mpe_ok (MacroPatEnt name idx tok subpats ty) \<longleftrightarrow>
    ty \<noteq> PAT_LIFETIME \<and> ty \<noteq> PAT_LITERAL \<and> (ty = PAT_LOOP \<longrightarrow> list_all id (map mpe_ok subpats))"

lemma rt_macro_pat_ent:
  assumes "c_crate C \<noteq> []" "n \<le> f" "mpe_ok x"
  shows "rt n C (ser_macro_pat_ent x) (des_macro_pat_ent f) (norm_macro_pat_ent (c_crate C) x)"
  using assms(2,3)
proof (induction x arbitrary: n f)
  case (MacroPatEnt name idx tok subpats ty)
  let ?tail = "if ty = PAT_TOKEN then ser_token tok
      else if ty = PAT_LOOP then w_seq [ser_token tok, ser_vec ''MacroPatEnt'' (map ser_macro_pat_ent subpats)] else w_skip"
  let ?dtail = "\<lambda>k ty. if ty = PAT_TOKEN then rmap (\<lambda>tok. MacroPatEnt name idx tok [] ty) des_token
     else if ty = PAT_LOOP then
       rlift2 (\<lambda>tok subpats. MacroPatEnt name idx tok subpats ty) des_token (des_vec ''MacroPatEnt'' (des_macro_pat_ent k))
     else if ty = PAT_LIFETIME \<or> ty = PAT_LITERAL then rfail (Bug ''Bad tag for MacroPatEnt'')
     else rret (MacroPatEnt name idx token_null [] ty)"
  let ?v = "norm_macro_pat_ent (c_crate C) (MacroPatEnt name idx tok subpats ty)"
  have tail: "rt m C ?tail (?dtail k ty) ?v" if "m - 1 \<le> k" for m k
  proof (cases "ty = PAT_TOKEN \<or> ty = PAT_LOOP")
    case True
    have "rt m C (ser_vec ''MacroPatEnt'' (map ser_macro_pat_ent subpats)) (des_vec ''MacroPatEnt'' (des_macro_pat_ent k))
        (map (norm_macro_pat_ent (c_crate C)) subpats)" if "ty = PAT_LOOP"
      using MacroPatEnt.prems(2) that \<open>m - 1 \<le> k\<close> by (intro rt_vec MacroPatEnt.IH) (simp_all add: list_all_iff)
    then show ?thesis using True assms(1)
      by (elim disjE)
         (simp_all add: rt_map_eq [OF rt_token] rt_lift2 [OF rt_token, where f = "\<lambda>tok subpats. MacroPatEnt name idx tok subpats PAT_LOOP"])
  qed (use MacroPatEnt.prems(2) in simp)
  have step: "rt m C (ser_macro_pat_ent (MacroPatEnt name idx tok subpats ty)) (des_macro_pat_ent (Suc k)) ?v"
    if "m - 1 \<le> k" for m k
    unfolding ser_macro_pat_ent.simps des_macro_pat_ent.simps
    by (intro rt_bind [OF rt_istring] rt_bind [OF rt_word_count] rt_bind [OF rt_pat_type]) (use tail [OF that] in \<open>simp only: w_seq_single\<close>)
  have "rt 0 C (w_seq [write_word_count idx, ser_pat_type ty, ?tail])
      (rbind read_word_count (\<lambda>_ :: u32. rbind des_pat_type (\<lambda>_. ?dtail 0 ty))) ?v"
    by (intro rt_bind [OF rt_word_count] rt_bind [OF rt_pat_type], unfold w_seq_single) (rule tail [OF diff_le_self])
  from grows_rt_first [OF grows_istring rt_istring this]
  have "grows (ser_macro_pat_ent (MacroPatEnt name idx tok subpats ty))"
    by (simp only: ser_macro_pat_ent.simps)
  from rt_fuel [OF this MacroPatEnt.prems(1), where d = "\<lambda>k. des_macro_pat_ent (Suc k)", OF step]
  show ?case by (cases f) simp_all
qed

end
