(* ===== verification/Hir_Items.thy ===== *)
theory Hir_Items
  imports Hir_Types Macro_Rules
begin

text \<open>
  The items of a crate (\<open>src/hir/hir.hpp\<close>): statics, constants, functions, the type
  items, traits, implementations, modules and the crate.

  Left out are what the code itself marks as caches or fills in again after loading: the
  monomorphisation caches, the inherent method cache, the merged implementation lists, the
  types and values made by constant evaluation, and the inline statics.  The pattern of a
  function argument is a number (0 the default pattern).  A \<open>std::map\<close> is the list of its entries
  in the order of the keys, an unordered map the list of its entries in the order the container
  gives them.
\<close>

type_synonym hir_path_params = "(type_ref, const_generic) path_params"
type_synonym hir_generic_path = "(type_ref, const_generic) generic_path"
type_synonym hir_trait_path = "(type_ref, const_generic, generic_params) trait_path"
type_synonym hir_path = "(type_ref, const_generic, generic_params) path"
type_synonym hir_expr_ptr = "(type_ref, const_generic, generic_params) expr_ptr"
type_synonym hir_literal = "(type_ref, const_generic, generic_params) encoded_literal"

text \<open>\<open>Publicity\<close>: no path is global visibility; \<open>none_path\<close> is visible nowhere.\<close>

record publicity = vis_path :: "simple_path option"

definition none_path :: simple_path where "none_path = SimplePath [''#'']"

definition pub_new_global :: publicity where "pub_new_global = \<lparr>vis_path = None\<rparr>"
definition pub_new_none :: publicity where "pub_new_none = \<lparr>vis_path = Some none_path\<rparr>"
definition pub_is_global :: "publicity \<Rightarrow> bool" where "pub_is_global p \<longleftrightarrow> vis_path p = None"

datatype (plugins only: code size) 'e vis_ent = VisEnt (ve_publicity: publicity) (ve_ent: 'e)

section \<open>Values\<close>

datatype (plugins only: code size) linkage_type = Link_Auto | Link_Weak | Link_External | Link_ExternWeak

record linkage =
  lk_type :: linkage_type
  lk_name :: string
  lk_section :: string

record hir_static =
  st_params :: generic_params
  st_linkage :: linkage
  st_is_mut :: bool
  st_type :: type_ref
  st_value :: hir_expr_ptr
  st_value_res :: hir_literal
  st_value_generated :: bool
  st_save_literal :: bool
  st_no_emit_value :: bool

datatype (plugins only: code size) value_state = VS_Unknown | VS_Generic | VS_Known

record hir_constant =
  co_params :: generic_params
  co_type :: type_ref
  co_value :: hir_expr_ptr
  co_value_res :: hir_literal
  co_value_state :: value_state

datatype (plugins only: code size) receiver =
  Rcv_Free | Rcv_Value | Rcv_BorrowOwned | Rcv_BorrowUnique | Rcv_BorrowShared | Rcv_Box | Rcv_Custom

datatype (plugins only: code size) inline_type = Inline_Auto | Inline_Never | Inline_Normal | Inline_Always

record fn_markings =
  fm_legacy_const_generics :: "u32 list"
  fm_track_caller :: bool
  fm_inline_type :: inline_type

record hir_function =
  fn_save_code :: bool
  fn_linkage :: linkage
  fn_receiver :: receiver
  fn_receiver_type :: type_ref
  fn_abi :: string
  fn_unsafe :: bool
  fn_const :: bool
  fn_params :: generic_params
  fn_args :: "(nat \<times> type_ref) list"
  fn_variadic :: bool
  fn_return :: type_ref
  fn_code :: hir_expr_ptr
  fn_markings :: fn_markings

section \<open>Types\<close>

record ty_alias =
  ta_params :: generic_params
  ta_type :: type_ref

record trait_alias =
  tra_params :: generic_params
  tra_traits :: "hir_trait_path list"

record auto_marking =
  am_conditions :: "type_ref list"
  am_is_impled :: bool

record trait_markings =
  tm_has_a_deref :: bool
  tm_has_drop_impl :: bool
  tm_is_copy :: bool
  tm_auto_impls :: "(simple_path \<times> auto_marking) list"

datatype (plugins only: code size) dst_type = Dst_None | Dst_Possible | Dst_Slice | Dst_TraitObject

datatype (plugins only: code size) coerce_kind = Coerce_None | Coerce_Passthrough | Coerce_Pointer

record struct_markings =
  sm_can_unsize :: bool
  sm_unsized_param :: u32
  sm_dst_type :: dst_type
  sm_unsized_field :: u32
  sm_coerce_unsized :: coerce_kind
  sm_coerce_unsized_index :: u32
  sm_coerce_param :: u32
  sm_is_nonzero :: bool
  sm_bounded_max :: bool
  sm_bounded_max_value :: u128

record extern_type = et_markings :: trait_markings

record data_variant =
  dv_name :: string
  dv_is_struct :: bool
  dv_type :: type_ref

record value_variant =
  vv_name :: string
  vv_expr :: hir_expr_ptr
  vv_val :: u64

datatype (plugins only: code size) enum_repr =
    ER_Auto | ER_Usize | ER_U8 | ER_U16 | ER_U32 | ER_U64 | ER_Isize | ER_I8 | ER_I16 | ER_I32 | ER_I64

datatype (plugins only: code size) enum_class = EC_Data "data_variant list" | EC_Value "value_variant list" bool

record hir_enum =
  en_params :: generic_params
  en_is_c_repr :: bool
  en_tag_repr :: enum_repr
  en_data :: enum_class
  en_markings :: trait_markings

datatype (plugins only: code size) struct_repr = SR_Rust | SR_C | SR_Simd | SR_Transparent

type_synonym tuple_fields = "type_ref vis_ent list"
type_synonym struct_fields = "(string \<times> type_ref vis_ent) list"

datatype (plugins only: code size) struct_data = SD_Unit | SD_Tuple tuple_fields | SD_Named struct_fields

datatype (plugins only: code size) const_eval_state = CE_None | CE_Active | CE_Complete

record hir_struct =
  su_params :: generic_params
  su_repr :: struct_repr
  su_data :: struct_data
  su_forced_alignment :: u32
  su_max_field_alignment :: u32
  su_markings :: trait_markings
  su_struct_markings :: struct_markings
  su_const_eval_state :: const_eval_state

datatype (plugins only: code size) union_repr = UR_Rust | UR_C | UR_Transparent

record hir_union =
  un_params :: generic_params
  un_repr :: union_repr
  un_variants :: struct_fields
  un_markings :: trait_markings

section \<open>Traits\<close>

record associated_type =
  at_generics :: generic_params
  at_is_sized :: bool
  at_lifetime_bound :: lifetime_ref
  at_trait_bounds :: "hir_trait_path list"
  at_default :: type_ref

datatype (plugins only: code size) trait_value_item =
  TVI_Constant hir_constant | TVI_Static hir_static | TVI_Function hir_function

record hir_trait =
  tr_params :: generic_params
  tr_lifetime :: lifetime_ref
  tr_parent_traits :: "hir_trait_path list"
  tr_is_marker :: bool
  tr_types :: "(string \<times> associated_type) list"
  tr_values :: "(string \<times> trait_value_item) list"
  tr_value_indexes :: "(string \<times> u32 \<times> hir_generic_path) list"
  tr_type_indexes :: "(string \<times> u32) list"
  tr_vtable_parent_traits_start :: u32
  tr_all_parent_traits :: "hir_trait_path list"
  tr_vtable_path :: simple_path

section \<open>Modules\<close>

datatype (plugins only: code size) proc_macro_ty = PM_Function | PM_Derive | PM_Attribute

record proc_macro =
  pm_ty :: proc_macro_ty
  pm_name :: string
  pm_path :: simple_path
  pm_attributes :: "string list"

datatype (plugins only: code size) value_item =
    VI_Import simple_path bool u32
  | VI_Constant hir_constant
  | VI_Static hir_static
  | VI_StructConstant simple_path
  | VI_Function hir_function
  | VI_StructConstructor simple_path

datatype (plugins only: code size) macro_item =
    MI_Import simple_path
  | MI_MacroRules macro_rules
  | MI_ProcMacro proc_macro

datatype (plugins only: code size) hir_module =
  Module (md_traits: "simple_path list") (md_value_items: "(string \<times> value_item vis_ent) list")
    (md_mod_items: "(string \<times> type_item vis_ent) list") (md_macro_items: "(string \<times> macro_item vis_ent) list")
and type_item =
    TI_Import simple_path bool u32
  | TI_Module hir_module
  | TI_TypeAlias ty_alias
  | TI_TraitAlias trait_alias
  | TI_ExternType extern_type
  | TI_Enum hir_enum
  | TI_Struct hir_struct
  | TI_Union hir_union
  | TI_Trait hir_trait

section \<open>Implementations, the crate\<close>

record 'e vis_impl_ent =
  vie_publicity :: publicity
  vie_is_specialisable :: bool
  vie_data :: 'e

record 'e impl_ent =
  ie_is_specialisable :: bool
  ie_data :: 'e

record type_impl =
  ti_params :: generic_params
  ti_type :: type_ref
  ti_methods :: "(string \<times> hir_function vis_impl_ent) list"
  ti_constants :: "(string \<times> hir_constant vis_impl_ent) list"
  ti_src_module :: simple_path

record trait_impl =
  tim_params :: generic_params
  tim_trait_args :: hir_path_params
  tim_type :: type_ref
  tim_methods :: "(string \<times> hir_function impl_ent) list"
  tim_constants :: "(string \<times> hir_constant impl_ent) list"
  tim_statics :: "(string \<times> hir_static impl_ent) list"
  tim_types :: "(string \<times> type_ref impl_ent) list"
  tim_src_module :: simple_path

record marker_impl =
  mi_params :: generic_params
  mi_trait_args :: hir_path_params
  mi_is_positive :: bool
  mi_type :: type_ref
  mi_src_module :: simple_path

record 'i impl_group =
  ig_named :: "(simple_path \<times> 'i list) list"
  ig_non_named :: "'i list"
  ig_generic :: "'i list"

record extern_crate =
  ec_basename :: string
  ec_path :: string

record hir_crate =
  cr_crate_name :: string
  cr_edition :: edition
  cr_root_module :: hir_module
  cr_type_impls :: "type_impl impl_group"
  cr_trait_impls :: "(simple_path \<times> trait_impl impl_group) list"
  cr_marker_impls :: "(simple_path \<times> marker_impl impl_group) list"
  cr_exported_macro_names :: "string list"
  cr_lang_items :: "(string \<times> simple_path) list"
  cr_ext_crates :: "(string \<times> extern_crate) list"
  cr_ext_libs :: "string list"
  cr_link_paths :: "string list"

end
