(* ===== verification/Serialise_Items.thy ===== *)
theory Serialise_Items
  imports Serialise Hir_Items
begin

text \<open>
  The operations of \<open>HirSerialiser\<close> (\<open>src/hir/serialise.cpp\<close>) for items, implementations,
  modules and the crate.
\<close>

unbundle bit_operations_syntax

section \<open>What holds types\<close>

definition put_path_params :: "hir_path_params \<Rightarrow> wact" where
  "put_path_params p = ser_path_params (map_path_params ser_type ser_const_generic p)"

definition put_generic_path :: "hir_generic_path \<Rightarrow> wact" where
  "put_generic_path p = ser_generic_path (map_generic_path ser_type ser_const_generic p)"

definition put_trait_path :: "hir_trait_path \<Rightarrow> wact" where
  "put_trait_path p = ser_trait_path (map_trait_path ser_type ser_const_generic ser_generics p)"

definition put_expr_ptr :: "bool \<Rightarrow> hir_expr_ptr \<Rightarrow> wact" where
  "put_expr_ptr save_mir e = ser_expr_ptr save_mir (map_expr_ptr ser_type ser_const_generic ser_generics e)"

definition put_literal :: "hir_literal \<Rightarrow> wact" where
  "put_literal l = ser_encoded_literal (map_encoded_literal ser_type ser_const_generic ser_generics l)"

definition ser_trait_paths :: "hir_trait_path list \<Rightarrow> wact" where
  "ser_trait_paths ps = ser_vec ''TraitPath'' (map put_trait_path ps)"

definition ser_publicity :: "publicity \<Rightarrow> wact" where "ser_publicity p = write_bool (pub_is_global p)"

fun ser_vis_ent :: "wact vis_ent \<Rightarrow> wact" where
  "ser_vis_ent (VisEnt p e) = w_seq [ser_publicity p, e]"

text \<open>A byte of flags: \<open>BIT(i, fld)\<close> sets bit \<open>i\<close>.\<close>

definition bitflags :: "bool list \<Rightarrow> u8" where
  "bitflags bs = foldr (\<lambda>b w. push_bit 1 w OR (if b then 1 else 0)) bs 0"

section \<open>Values\<close>

definition ser_linkage :: "linkage \<Rightarrow> wact" where "ser_linkage l = write_string (lk_name l)"

definition receivers :: "receiver list" where
  "receivers = [Rcv_Free, Rcv_Value, Rcv_BorrowOwned, Rcv_BorrowUnique, Rcv_BorrowShared, Rcv_Box, Rcv_Custom]"

definition ser_fn_markings :: "fn_markings \<Rightarrow> wact" where
  "ser_fn_markings m = in_object ''HIR::Function::Markings''
    [ser_vec ''unsigned'' (map write_word_count (fm_legacy_const_generics m)), write_bool (fm_track_caller m)]"

definition ser_function :: "hir_function \<Rightarrow> wact" where
  "ser_function fcn = in_object ''HIR::Function''
    [ser_linkage (fn_linkage fcn),
     write_tag (index_of receivers (fn_receiver fcn)),
     ser_type (fn_receiver_type fcn),
     write_istring (fn_abi fcn),
     write_bool (fn_unsafe fcn),
     write_bool (fn_const fcn),
     ser_fn_markings (fn_markings fcn),
     ser_generics (fn_params fcn),
     ser_items (map (\<lambda>a. ser_type (snd a)) (fn_args fcn)),
     write_bool (fn_variadic fcn),
     ser_type (fn_return fcn),
     put_expr_ptr (fn_save_code fcn \<or> fn_const fcn) (fn_code fcn)]"

definition ser_constant :: "hir_constant \<Rightarrow> wact" where
  "ser_constant item =
    (let write_val = (co_value_state item = VS_Known) in w_seq
      [ser_generics (co_params item),
       ser_type (co_type item),
       put_expr_ptr True (co_value item),
       write_bool write_val,
       (if write_val then put_literal (co_value_res item) else w_skip)])"

fun gp_is_generic :: "generic_params \<Rightarrow> bool" where
  "gp_is_generic (GenericParams ts ls vs bs) = (if ts \<noteq> [] then True else if vs \<noteq> [] then True else False)"

definition ser_static :: "hir_static \<Rightarrow> wact" where
  "ser_static item = w_seq
    [ser_linkage (st_linkage item),
     ser_generics (st_params item),
     write_u8 (bitflags [st_is_mut item, st_save_literal item]),
     ser_type (st_type item),
     (if gp_is_generic (st_params item) then put_expr_ptr True (st_value item) else w_skip),
     (if st_save_literal item then put_literal (st_value_res item) else w_skip)]"

section \<open>Types\<close>

definition ser_type_alias :: "ty_alias \<Rightarrow> wact" where
  "ser_type_alias ta = w_seq [ser_generics (ta_params ta), ser_type (ta_type ta)]"

definition ser_trait_alias :: "trait_alias \<Rightarrow> wact" where
  "ser_trait_alias ta = w_seq [ser_generics (tra_params ta), ser_trait_paths (tra_traits ta)]"

definition ser_trait_markings :: "trait_markings \<Rightarrow> wact" where
  "ser_trait_markings m = write_u8 (bitflags [tm_has_a_deref m, tm_is_copy m, tm_has_drop_impl m])"

definition dst_types :: "dst_type list" where "dst_types = [Dst_None, Dst_Possible, Dst_Slice, Dst_TraitObject]"

definition coerce_kinds :: "coerce_kind list" where
  "coerce_kinds = [Coerce_None, Coerce_Passthrough, Coerce_Pointer]"

definition ser_struct_markings :: "struct_markings \<Rightarrow> wact" where
  "ser_struct_markings m = w_seq
    [write_u8 (bitflags [sm_can_unsize m, sm_is_nonzero m, sm_bounded_max m]),
     write_tag (index_of dst_types (sm_dst_type m)),
     write_tag (index_of coerce_kinds (sm_coerce_unsized m)),
     write_word_count (sm_coerce_unsized_index m),
     write_word_count (sm_coerce_param m),
     write_word_count (sm_unsized_field m),
     write_word_count (sm_unsized_param m),
     (if sm_bounded_max m then write_u128 (sm_bounded_max_value m) else w_skip)]"

definition ser_data_variant :: "data_variant \<Rightarrow> wact" where
  "ser_data_variant v = w_seq [write_istring (dv_name v), write_bool (dv_is_struct v), ser_type (dv_type v)]"

definition ser_value_variant :: "value_variant \<Rightarrow> wact" where
  "ser_value_variant v = w_seq [write_istring (vv_name v), write_u64 (vv_val v)]"

fun ser_enum_class :: "enum_class \<Rightarrow> wact" where
  "ser_enum_class (EC_Data vs) = w_seq [write_tag 1, ser_vec ''DataVariant'' (map ser_data_variant vs)]"
| "ser_enum_class (EC_Value vs evaluated) = w_seq [write_tag 2, ser_vec ''ValueVariant'' (map ser_value_variant vs)]"

definition enum_reprs :: "enum_repr list" where
  "enum_reprs = [ER_Auto, ER_Usize, ER_U8, ER_U16, ER_U32, ER_U64, ER_Isize, ER_I8, ER_I16, ER_I32, ER_I64]"

definition ser_enum :: "hir_enum \<Rightarrow> wact" where
  "ser_enum item = in_object ''HIR::Enum''
    [ser_generics (en_params item),
     write_bool (en_is_c_repr item),
     write_tag (index_of enum_reprs (en_tag_repr item)),
     ser_enum_class (en_data item),
     ser_trait_markings (en_markings item)]"

definition struct_reprs :: "struct_repr list" where "struct_reprs = [SR_Rust, SR_C, SR_Simd, SR_Transparent]"

definition ser_tuple_fields :: "tuple_fields \<Rightarrow> wact" where
  "ser_tuple_fields fs = ser_vec ''VisEnt<TypeRef>'' (map (\<lambda>e. ser_vis_ent (map_vis_ent ser_type e)) fs)"

definition ser_struct_fields :: "struct_fields \<Rightarrow> wact" where
  "ser_struct_fields fs = ser_vec ''pair<RcString,VisEnt<TypeRef>>''
    (map (\<lambda>(n, e). ser_istr_pair (n, ser_vis_ent (map_vis_ent ser_type e))) fs)"

text \<open>The tag of the union and the fields of the variant.\<close>

fun ser_struct_data :: "struct_data \<Rightarrow> wact" where
  "ser_struct_data SD_Unit = w_seq [write_tag 1]"
| "ser_struct_data (SD_Tuple fs) = w_seq [write_tag 2, ser_tuple_fields fs]"
| "ser_struct_data (SD_Named fs) = w_seq [write_tag 3, ser_struct_fields fs]"

definition ser_struct :: "hir_struct \<Rightarrow> wact" where
  "ser_struct item = in_object ''HIR::Struct''
    [ser_generics (su_params item),
     write_tag (index_of struct_reprs (su_repr item)),
     ser_struct_data (su_data item),
     write_word_count (su_forced_alignment item),
     write_word_count (su_max_field_alignment item),
     ser_trait_markings (su_markings item),
     ser_struct_markings (su_struct_markings item)]"

definition union_reprs :: "union_repr list" where "union_reprs = [UR_Rust, UR_C, UR_Transparent]"

definition ser_union :: "hir_union \<Rightarrow> wact" where
  "ser_union item = w_seq
    [ser_generics (un_params item),
     write_tag (index_of union_reprs (un_repr item)),
     ser_struct_fields (un_variants item),
     ser_trait_markings (un_markings item)]"

definition ser_extern_type :: "extern_type \<Rightarrow> wact" where
  "ser_extern_type item = ser_trait_markings (et_markings item)"

section \<open>Traits\<close>

definition ser_associated_type :: "associated_type \<Rightarrow> wact" where
  "ser_associated_type ty = w_seq
    [ser_generics (at_generics ty),
     write_bool (at_is_sized ty),
     ser_lifetime_ref (at_lifetime_bound ty),
     ser_trait_paths (at_trait_bounds ty),
     ser_type (at_default ty)]"

fun ser_trait_value_item :: "trait_value_item \<Rightarrow> wact" where
  "ser_trait_value_item (TVI_Constant e) = w_seq [write_tag 1, ser_constant e]"
| "ser_trait_value_item (TVI_Static e) = w_seq [write_tag 2, ser_static e]"
| "ser_trait_value_item (TVI_Function e) = w_seq [write_tag 3, ser_function e]"

definition ser_trait :: "hir_trait \<Rightarrow> wact" where
  "ser_trait item = in_object ''HIR::Trait''
    [ser_generics (tr_params item),
     ser_lifetime_ref (tr_lifetime item),
     write_bool (tr_is_marker item),
     ser_istrmap (map (map_prod id ser_associated_type) (tr_types item)),
     ser_istrmap (map (map_prod id ser_trait_value_item) (tr_values item)),
     ser_istrmap (map (map_prod id (\<lambda>(i, p). w_seq [write_word_count i, put_generic_path p])) (tr_value_indexes item)),
     ser_istrmap (map (map_prod id write_word_count) (tr_type_indexes item)),
     write_word_count (tr_vtable_parent_traits_start item),
     ser_trait_paths (tr_all_parent_traits item),
     ser_simple_path (tr_vtable_path item)]"

section \<open>Modules\<close>

definition ser_proc_macro :: "proc_macro \<Rightarrow> wact" where
  "ser_proc_macro pm = w_seq
    [(case pm_ty pm of PM_Function \<Rightarrow> write_tag 0 | PM_Derive \<Rightarrow> write_tag 1 | PM_Attribute \<Rightarrow> write_tag 2),
     write_istring (pm_name pm), ser_simple_path (pm_path pm), ser_strings (pm_attributes pm)]"

fun ser_value_item :: "value_item \<Rightarrow> wact" where
  "ser_value_item (VI_Import p is_variant idx) =
    w_seq [write_tag 0, ser_simple_path p, write_bool is_variant, write_word_count idx]"
| "ser_value_item (VI_Constant e) = w_seq [write_tag 1, ser_constant e]"
| "ser_value_item (VI_Static e) = w_seq [write_tag 2, ser_static e]"
| "ser_value_item (VI_StructConstant ty) = w_seq [write_tag 3, ser_simple_path ty]"
| "ser_value_item (VI_Function e) = w_seq [write_tag 4, ser_function e]"
| "ser_value_item (VI_StructConstructor ty) = w_seq [write_tag 5, ser_simple_path ty]"

fun ser_macro_item :: "macro_item \<Rightarrow> wact" where
  "ser_macro_item (MI_Import p) = in_object ''HIR::MacroItem'' [write_tag 1, ser_simple_path p]"
| "ser_macro_item (MI_MacroRules e) = in_object ''HIR::MacroItem'' [write_tag 2, ser_macro_rules e]"
| "ser_macro_item (MI_ProcMacro e) = in_object ''HIR::MacroItem'' [write_tag 3, ser_proc_macro e]"

primrec ser_module :: "hir_module \<Rightarrow> wact"
  and ser_type_item :: "type_item \<Rightarrow> wact" where
  "ser_module (Module traits value_items mod_items macro_items) = in_object ''HIR::Module''
    [ser_istrmap (map (map_prod id (\<lambda>e. ser_vis_ent (map_vis_ent ser_value_item e))) value_items),
     ser_istrmap (map (map_prod id ser_vis_ent) (map (map_prod id (map_vis_ent ser_type_item)) mod_items)),
     ser_istrmap (map (map_prod id (\<lambda>e. ser_vis_ent (map_vis_ent ser_macro_item e))) macro_items)]"
| "ser_type_item (TI_Import p is_variant idx) =
    w_seq [write_tag 0, ser_simple_path p, write_bool is_variant, write_word_count idx]"
| "ser_type_item (TI_Module e) = w_seq [write_tag 1, ser_module e]"
| "ser_type_item (TI_TypeAlias e) = w_seq [write_tag 2, ser_type_alias e]"
| "ser_type_item (TI_Enum e) = w_seq [write_tag 3, ser_enum e]"
| "ser_type_item (TI_Struct e) = w_seq [write_tag 4, ser_struct e]"
| "ser_type_item (TI_Trait e) = w_seq [write_tag 5, ser_trait e]"
| "ser_type_item (TI_Union e) = w_seq [write_tag 6, ser_union e]"
| "ser_type_item (TI_ExternType e) = w_seq [write_tag 7, ser_extern_type e]"
| "ser_type_item (TI_TraitAlias e) = w_seq [write_tag 8, ser_trait_alias e]"

section \<open>Implementations\<close>

definition ser_vis_impl_ent :: "('e \<Rightarrow> wact) \<Rightarrow> string \<times> 'e vis_impl_ent \<Rightarrow> wact" where
  "ser_vis_impl_ent put v = w_seq
    [write_istring (fst v), write_bool (pub_is_global (vie_publicity (snd v))),
     write_bool (vie_is_specialisable (snd v)), put (vie_data (snd v))]"

definition ser_type_impl :: "type_impl \<Rightarrow> wact" where
  "ser_type_impl impl = w_seq
    [ser_generics (ti_params impl), ser_type (ti_type impl),
     ser_items (map (ser_vis_impl_ent ser_function) (ti_methods impl)),
     ser_items (map (ser_vis_impl_ent ser_constant) (ti_constants impl))]"

definition ser_impl_ent :: "('e \<Rightarrow> wact) \<Rightarrow> string \<times> 'e impl_ent \<Rightarrow> wact" where
  "ser_impl_ent put v = w_seq
    [write_istring (fst v), write_bool (ie_is_specialisable (snd v)), put (ie_data (snd v))]"

definition ser_trait_impl :: "trait_impl \<Rightarrow> wact" where
  "ser_trait_impl impl = w_seq
    [ser_generics (tim_params impl), put_path_params (tim_trait_args impl), ser_type (tim_type impl),
     ser_items (map (ser_impl_ent ser_function) (tim_methods impl)),
     ser_items (map (ser_impl_ent ser_constant) (tim_constants impl)),
     ser_items (map (ser_impl_ent ser_static) (tim_statics impl)),
     ser_items (map (ser_impl_ent ser_type) (tim_types impl))]"

definition ser_marker_impl :: "marker_impl \<Rightarrow> wact" where
  "ser_marker_impl impl = w_seq
    [ser_generics (mi_params impl), put_path_params (mi_trait_args impl),
     write_bool (mi_is_positive impl), ser_type (mi_type impl)]"

section \<open>The crate\<close>

definition ser_pathmap :: "('e \<Rightarrow> wact) \<Rightarrow> (simple_path \<times> 'e) list \<Rightarrow> wact" where
  "ser_pathmap put m = ser_items (map (\<lambda>(p, e). w_seq [ser_simple_path p, put e]) m)"

definition ser_impl_group :: "string \<Rightarrow> ('i \<Rightarrow> wact) \<Rightarrow> 'i impl_group \<Rightarrow> wact" where
  "ser_impl_group ty put ig = w_seq
    [ser_pathmap (\<lambda>l. ser_vec ty (map put l)) (ig_named ig),
     ser_vec ty (map put (ig_non_named ig)),
     ser_vec ty (map put (ig_generic ig))]"

definition lang_items_filtered :: "string \<Rightarrow> (string \<times> simple_path) list \<Rightarrow> (string \<times> simple_path) list" where
  "lang_items_filtered name items = filter (\<lambda>ent. crate_name (snd ent) = [] \<or> crate_name (snd ent) = name) items"

definition ser_crate_body :: "hir_crate \<Rightarrow> wact list" where
  "ser_crate_body crate =
    [ser_edition (cr_edition crate),
     ser_module (cr_root_module crate),
     ser_impl_group ''unique_ptr<TypeImpl>'' ser_type_impl (cr_type_impls crate),
     ser_pathmap (ser_impl_group ''unique_ptr<TraitImpl>'' ser_trait_impl) (cr_trait_impls crate),
     ser_pathmap (ser_impl_group ''unique_ptr<MarkerImpl>'' ser_marker_impl) (cr_marker_impls crate),
     ser_vec ''RcString'' (map write_istring (cr_exported_macro_names crate)),
     ser_strmap (map (map_prod id ser_simple_path) (lang_items_filtered (cr_crate_name crate) (cr_lang_items crate))),
     ser_items (map (\<lambda>(n, e). w_seq [write_istring n, write_string (ec_basename e)]) (cr_ext_crates crate)),
     ser_vec ''ExternLibrary'' (map write_string (cr_ext_libs crate)),
     ser_vec ''string'' (map write_string (cr_link_paths crate))]"

definition ser_crate :: "hir_crate \<Rightarrow> wact" where
  "ser_crate crate = w_seq (write_istring (cr_crate_name crate) # ser_crate_body crate)"

end
