(* ===== verification/Deserialise_Items.thy ===== *)
theory Deserialise_Items
  imports Deserialise Serialise_Items
begin

text \<open>
  The operations of \<open>HirDeserialiser\<close> (\<open>src/hir/deserialise.cpp\<close>) for items, implementations,
  modules and the crate.

  The number \<open>f\<close> bounds the nesting of types, trait paths, macro fragments and modules.  A
  \<open>std::map\<close> is filled in the order of its keys.  An unordered map keeps, of the
  entries with one key, the first; here its entries stay in the order of the file.
\<close>

unbundle bit_operations_syntax

section \<open>Containers and what holds types\<close>

text \<open>\<open>insert\<close> into an unordered map does nothing when the key is there.\<close>

definition umap_insert :: "'k \<times> 'v \<Rightarrow> ('k \<times> 'v) list \<Rightarrow> ('k \<times> 'v) list" where
  "umap_insert e m = (if fst e \<in> set (map fst m) then m else m @ [e])"

definition umap_of_entries :: "('k \<times> 'v) list \<Rightarrow> ('k \<times> 'v) list" where
  "umap_of_entries es = fold umap_insert es []"

definition des_istrumap :: "('s, 'a) rd \<Rightarrow> ('s, (string \<times> 'a) list) rd" where
  "des_istrumap d = rmap umap_of_entries (des_items (des_pair read_istring d))"

definition des_istrummap :: "('s, 'a) rd \<Rightarrow> ('s, (string \<times> 'a) list) rd" where
  "des_istrummap d = des_items (des_pair read_istring d)"

definition des_strumap :: "('s, 'a) rd \<Rightarrow> ('s, (string \<times> 'a) list) rd" where
  "des_strumap d = rmap umap_of_entries (des_items (des_pair read_string d))"

definition des_pathmap :: "('s, 'a) rd \<Rightarrow> ('s, (simple_path \<times> 'a) list) rd" where
  "des_pathmap d = rmap (map_of_entries ord_simple_path) (des_items (des_pair des_simple_path d))"

definition get_path_params :: "nat \<Rightarrow> (type_ref, hir_path_params) rd" where
  "get_path_params f = des_path_params (des_type f) (des_const_generic f)"

definition get_generic_path :: "nat \<Rightarrow> (type_ref, hir_generic_path) rd" where
  "get_generic_path f = des_generic_path (des_type f) (des_const_generic f)"

definition get_trait_path :: "nat \<Rightarrow> (type_ref, hir_trait_path) rd" where
  "get_trait_path f = des_trait_path f (des_type f) (des_const_generic f) (des_generics f)"

definition get_expr_ptr :: "nat \<Rightarrow> (type_ref, hir_expr_ptr) rd" where
  "get_expr_ptr f = des_expr_ptr (des_type f) (des_const_generic f)"

definition get_literal :: "nat \<Rightarrow> (type_ref, hir_literal) rd" where
  "get_literal f = des_encoded_literal (des_type f) (des_const_generic f)"

definition des_trait_paths :: "nat \<Rightarrow> (type_ref, hir_trait_path list) rd" where
  "des_trait_paths f = des_vec ''TraitPath'' (get_trait_path f)"

definition des_pub :: "('s, publicity) rd" where
  "des_pub = rmap (\<lambda>b. if b then pub_new_global else pub_new_none) read_bool"

definition des_vis_ent :: "('s, 'e) rd \<Rightarrow> ('s, 'e vis_ent) rd" where
  "des_vis_ent d = rlift2 VisEnt des_pub d"

section \<open>Values\<close>

definition des_linkage :: "('s, linkage) rd" where
  "des_linkage = rmap (\<lambda>n. \<lparr>lk_type = Link_Auto, lk_name = n, lk_section = []\<rparr>) read_string"

definition des_fn_markings :: "('s, fn_markings) rd" where
  "des_fn_markings = r_in_object ''HIR::Function::Markings''
    (rlift2 (\<lambda>lg tc. \<lparr>fm_legacy_const_generics = lg, fm_track_caller = tc, fm_inline_type = Inline_Auto\<rparr>)
      (des_vec ''unsigned'' read_word_count) read_bool)"

text \<open>\<open>HIR::Pattern{}\<close> is the pattern 0.\<close>

definition des_fcnargs :: "nat \<Rightarrow> (type_ref, (nat \<times> type_ref) list) rd" where
  "des_fcnargs f = des_items (rmap (Pair 0) (des_type f))"

definition des_function :: "nat \<Rightarrow> (type_ref, hir_function) rd" where
  "des_function f = r_in_object ''HIR::Function''
    (rbind des_linkage (\<lambda>lk. rbind (des_enum receivers) (\<lambda>rc. rbind (des_type f) (\<lambda>rt.
     rbind read_istring (\<lambda>abi. rbind read_bool (\<lambda>us. rbind read_bool (\<lambda>cn. rbind des_fn_markings (\<lambda>mk.
     rbind (des_generics f) (\<lambda>ps. rbind (des_fcnargs f) (\<lambda>as. rbind read_bool (\<lambda>va. rbind (des_type f) (\<lambda>ret.
     rmap (\<lambda>code. \<lparr>fn_save_code = False, fn_linkage = lk, fn_receiver = rc, fn_receiver_type = rt, fn_abi = abi,
       fn_unsafe = us, fn_const = cn, fn_params = ps, fn_args = as, fn_variadic = va, fn_return = ret,
       fn_code = code, fn_markings = mk\<rparr>) (get_expr_ptr f)))))))))))))"

definition no_expr :: hir_expr_ptr where "no_expr = ExprPtr None [] [] None"
definition no_literal :: hir_literal where "no_literal = EncodedLiteral [] []"

definition des_constant :: "nat \<Rightarrow> (type_ref, hir_constant) rd" where
  "des_constant f = rbind (des_generics f) (\<lambda>ps. rbind (des_type f) (\<lambda>t. rbind (get_expr_ptr f) (\<lambda>v.
     rbind read_bool (\<lambda>known.
       if known then
         rmap (\<lambda>l. \<lparr>co_params = ps, co_type = t, co_value = v, co_value_res = l, co_value_state = VS_Known\<rparr>)
           (get_literal f)
       else rret \<lparr>co_params = ps, co_type = t, co_value = v, co_value_res = no_literal,
                  co_value_state = VS_Generic\<rparr>))))"

definition des_static :: "nat \<Rightarrow> (type_ref, hir_static) rd" where
  "des_static f = rbind des_linkage (\<lambda>lk. rbind (des_generics f) (\<lambda>ps. rbind read_u8 (\<lambda>flags. rbind (des_type f) (\<lambda>t.
     let is_mut = bit flags 0; save_literal = bit flags 1 in
     rbind (if gp_is_generic ps then get_expr_ptr f else rret no_expr) (\<lambda>v.
       if save_literal then
         rmap (\<lambda>l. \<lparr>st_params = ps, st_linkage = lk, st_is_mut = is_mut, st_type = t, st_value = v,
           st_value_res = l, st_value_generated = True, st_save_literal = False, st_no_emit_value = True\<rparr>)
           (get_literal f)
       else rret \<lparr>st_params = ps, st_linkage = lk, st_is_mut = is_mut, st_type = t, st_value = v,
           st_value_res = no_literal, st_value_generated = False, st_save_literal = False,
           st_no_emit_value = False\<rparr>)))))"

section \<open>Types\<close>

definition des_type_alias :: "nat \<Rightarrow> (type_ref, ty_alias) rd" where
  "des_type_alias f = rlift2 (\<lambda>ps t. \<lparr>ta_params = ps, ta_type = t\<rparr>) (des_generics f) (des_type f)"

definition des_trait_alias :: "nat \<Rightarrow> (type_ref, trait_alias) rd" where
  "des_trait_alias f = rlift2 (\<lambda>ps ts. \<lparr>tra_params = ps, tra_traits = ts\<rparr>) (des_generics f) (des_trait_paths f)"

definition des_markings :: "('s, trait_markings) rd" where
  "des_markings = rmap (\<lambda>flags. \<lparr>tm_has_a_deref = bit flags 0, tm_has_drop_impl = bit flags 2,
     tm_is_copy = bit flags 1, tm_auto_impls = []\<rparr>) read_u8"

definition des_struct_markings :: "('s, struct_markings) rd" where
  "des_struct_markings = rbind read_u8 (\<lambda>flags. rbind (des_enum dst_types) (\<lambda>dst. rbind (des_enum coerce_kinds) (\<lambda>cu.
     rbind read_word_count (\<lambda>cui. rbind read_word_count (\<lambda>cp. rbind read_word_count (\<lambda>uf. rbind read_word_count (\<lambda>up.
     rmap (\<lambda>mx. \<lparr>sm_can_unsize = bit flags 0, sm_unsized_param = up, sm_dst_type = dst, sm_unsized_field = uf,
         sm_coerce_unsized = cu, sm_coerce_unsized_index = cui, sm_coerce_param = cp, sm_is_nonzero = bit flags 1,
         sm_bounded_max = bit flags 2, sm_bounded_max_value = mx\<rparr>)
       (if bit flags 2 then read_u128 else rret (U128 0 0)))))))))"

definition des_data_variant :: "nat \<Rightarrow> (type_ref, data_variant) rd" where
  "des_data_variant f = rlift3 (\<lambda>n s t. \<lparr>dv_name = n, dv_is_struct = s, dv_type = t\<rparr>) read_istring read_bool (des_type f)"

definition des_value_variant :: "('s, value_variant) rd" where
  "des_value_variant = rlift2 (\<lambda>n v. \<lparr>vv_name = n, vv_expr = no_expr, vv_val = v\<rparr>) read_istring read_u64"

definition des_enum_class :: "nat \<Rightarrow> (type_ref, enum_class) rd" where
  "des_enum_class f = des_switch ''HIR::Enum::Class''
    [(1, rmap EC_Data (des_vec ''DataVariant'' (des_data_variant f))),
     (2, rmap (\<lambda>vs. EC_Value vs True) (des_vec ''ValueVariant'' des_value_variant))]"

definition des_hir_enum :: "nat \<Rightarrow> (type_ref, hir_enum) rd" where
  "des_hir_enum f = r_in_object ''HIR::Enum''
    (rlift5 (\<lambda>ps c r d m. \<lparr>en_params = ps, en_is_c_repr = c, en_tag_repr = r, en_data = d, en_markings = m\<rparr>)
      (des_generics f) read_bool (des_enum enum_reprs) (des_enum_class f) des_markings)"

definition des_tuple_fields :: "nat \<Rightarrow> (type_ref, tuple_fields) rd" where
  "des_tuple_fields f = des_vec ''VisEnt<TypeRef>'' (des_vis_ent (des_type f))"

definition des_struct_fields :: "nat \<Rightarrow> (type_ref, struct_fields) rd" where
  "des_struct_fields f = des_vec ''pair<RcString,VisEnt<TypeRef>>'' (des_pair read_istring (des_vis_ent (des_type f)))"

definition des_struct_data :: "nat \<Rightarrow> (type_ref, struct_data) rd" where
  "des_struct_data f = des_switch ''HIR::Struct::Data''
    [(1, rret SD_Unit), (2, rmap SD_Tuple (des_tuple_fields f)), (3, rmap SD_Named (des_struct_fields f))]"

definition des_struct :: "nat \<Rightarrow> (type_ref, hir_struct) rd" where
  "des_struct f = r_in_object ''HIR::Struct''
    (rbind (des_generics f) (\<lambda>ps. rbind (des_enum struct_reprs) (\<lambda>r.
     rlift5 (\<lambda>d al ml m sm. \<lparr>su_params = ps, su_repr = r, su_data = d, su_forced_alignment = al,
         su_max_field_alignment = ml, su_markings = m, su_struct_markings = sm, su_const_eval_state = CE_None\<rparr>)
       (des_struct_data f) read_word_count read_word_count des_markings des_struct_markings)))"

definition des_union :: "nat \<Rightarrow> (type_ref, hir_union) rd" where
  "des_union f = rlift4 (\<lambda>ps r vs m. \<lparr>un_params = ps, un_repr = r, un_variants = vs, un_markings = m\<rparr>)
    (des_generics f) (des_enum union_reprs) (des_struct_fields f) des_markings"

definition des_extern_type :: "('s, extern_type) rd" where
  "des_extern_type = rmap (\<lambda>m. \<lparr>et_markings = m\<rparr>) des_markings"

section \<open>Traits\<close>

definition des_associated_type :: "nat \<Rightarrow> (type_ref, associated_type) rd" where
  "des_associated_type f = rlift5
    (\<lambda>g s l bs t. \<lparr>at_generics = g, at_is_sized = s, at_lifetime_bound = l, at_trait_bounds = bs, at_default = t\<rparr>)
    (des_generics f) read_bool des_lifetime_ref (des_trait_paths f) (des_type f)"

definition des_trait_value_item :: "nat \<Rightarrow> (type_ref, trait_value_item) rd" where
  "des_trait_value_item f = des_switch ''HIR::TraitValueItem''
    [(1, rmap TVI_Constant (des_constant f)), (2, rmap TVI_Static (des_static f)),
     (3, rmap TVI_Function (des_function f))]"

definition des_trait :: "nat \<Rightarrow> (type_ref, hir_trait) rd" where
  "des_trait f = r_in_object ''HIR::Trait''
    (rbind (des_generics f) (\<lambda>ps. rbind des_lifetime_ref (\<lambda>lt. rbind read_bool (\<lambda>mk.
     rbind (des_istrumap (des_associated_type f)) (\<lambda>ts. rbind (des_istrumap (des_trait_value_item f)) (\<lambda>vs.
     rbind (des_istrummap (des_pair read_word_count (get_generic_path f))) (\<lambda>vi.
     rbind (des_istrumap read_word_count) (\<lambda>tyi.
     rlift3 (\<lambda>st aps vp. \<lparr>tr_params = ps, tr_lifetime = lt, tr_parent_traits = [], tr_is_marker = mk, tr_types = ts,
         tr_values = vs, tr_value_indexes = vi, tr_type_indexes = tyi, tr_vtable_parent_traits_start = st,
         tr_all_parent_traits = aps, tr_vtable_path = vp\<rparr>)
       read_word_count (des_trait_paths f) des_simple_path))))))))"

section \<open>Modules\<close>

text \<open>Any tag but 0, 1 and 2 leaves \<open>pm.ty\<close> as it is, uninitialised.\<close>

definition des_proc_macro :: "('s, proc_macro) rd" where
  "des_proc_macro = rlift4 (\<lambda>t n p as. \<lparr>pm_ty = t, pm_name = n, pm_path = p, pm_attributes = as\<rparr>)
    (des_enum [PM_Function, PM_Derive, PM_Attribute]) read_istring des_simple_path des_strings"

definition des_value_item :: "nat \<Rightarrow> (type_ref, value_item) rd" where
  "des_value_item f = des_switch ''HIR::ValueItem''
    [(0, rlift3 VI_Import des_simple_path read_bool read_word_count),
     (1, rmap VI_Constant (des_constant f)),
     (2, rmap VI_Static (des_static f)),
     (3, rmap VI_StructConstant des_simple_path),
     (4, rmap VI_Function (des_function f)),
     (5, rmap VI_StructConstructor des_simple_path)]"

definition des_macro_item :: "nat \<Rightarrow> (type_ref, macro_item) rd" where
  "des_macro_item f = r_in_object ''HIR::MacroItem'' (des_switch ''MacroItem''
    [(1, rmap MI_Import des_simple_path),
     (2, rmap MI_MacroRules (des_macro_rules f)),
     (3, rmap MI_ProcMacro des_proc_macro)])"

fun des_module :: "nat \<Rightarrow> (type_ref, hir_module) rd"
  and des_type_item :: "nat \<Rightarrow> (type_ref, type_item) rd" where
  "des_module 0 = rfail Out_Of_Fuel"
| "des_module (Suc f) = r_in_object ''HIR::Module'' (rlift3 (Module [])
    (des_istrumap (des_vis_ent (des_value_item (Suc f))))
    (des_istrumap (des_vis_ent (des_type_item f)))
    (des_istrumap (des_vis_ent (des_macro_item (Suc f)))))"
| "des_type_item 0 = rfail Out_Of_Fuel"
| "des_type_item (Suc f) = des_switch ''HIR::TypeItem''
    [(0, rlift3 TI_Import des_simple_path read_bool read_word_count),
     (1, rmap TI_Module (des_module f)),
     (2, rmap TI_TypeAlias (des_type_alias (Suc f))),
     (3, rmap TI_Enum (des_hir_enum (Suc f))),
     (4, rmap TI_Struct (des_struct (Suc f))),
     (5, rmap TI_Trait (des_trait (Suc f))),
     (6, rmap TI_Union (des_union (Suc f))),
     (7, rmap TI_ExternType des_extern_type),
     (8, rmap TI_TraitAlias (des_trait_alias (Suc f)))]"

section \<open>Implementations\<close>

definition des_vis_impl_ent :: "('s, 'e) rd \<Rightarrow> ('s, 'e vis_impl_ent) rd" where
  "des_vis_impl_ent d = rlift3 (\<lambda>p s e. \<lparr>vie_publicity = p, vie_is_specialisable = s, vie_data = e\<rparr>) des_pub read_bool d"

definition des_type_impl :: "nat \<Rightarrow> (type_ref, type_impl) rd" where
  "des_type_impl f = rlift4
    (\<lambda>ps t ms cs. \<lparr>ti_params = ps, ti_type = t, ti_methods = ms, ti_constants = cs, ti_src_module = SimplePath []\<rparr>)
    (des_generics f) (des_type f)
    (des_istrmap (des_vis_impl_ent (des_function f)))
    (des_istrmap (des_vis_impl_ent (des_constant f)))"

definition des_impl_ent :: "('s, 'e) rd \<Rightarrow> ('s, 'e impl_ent) rd" where
  "des_impl_ent d = rlift2 (\<lambda>s e. \<lparr>ie_is_specialisable = s, ie_data = e\<rparr>) read_bool d"

definition des_trait_impl :: "nat \<Rightarrow> (type_ref, trait_impl) rd" where
  "des_trait_impl f = rbind (des_generics f) (\<lambda>ps. rbind (get_path_params f) (\<lambda>ta. rbind (des_type f) (\<lambda>t.
     rlift4 (\<lambda>ms cs ss ts. \<lparr>tim_params = ps, tim_trait_args = ta, tim_type = t, tim_methods = ms,
         tim_constants = cs, tim_statics = ss, tim_types = ts, tim_src_module = SimplePath []\<rparr>)
       (des_istrmap (des_impl_ent (des_function f)))
       (des_istrmap (des_impl_ent (des_constant f)))
       (des_istrmap (des_impl_ent (des_static f)))
       (des_istrmap (des_impl_ent (des_type f))))))"

definition des_marker_impl :: "nat \<Rightarrow> (type_ref, marker_impl) rd" where
  "des_marker_impl f = rlift4
    (\<lambda>ps ta pos t. \<lparr>mi_params = ps, mi_trait_args = ta, mi_is_positive = pos, mi_type = t, mi_src_module = SimplePath []\<rparr>)
    (des_generics f) (get_path_params f) read_bool (des_type f)"

section \<open>The crate\<close>

definition des_impl_group :: "string \<Rightarrow> ('s, 'i) rd \<Rightarrow> ('s, 'i impl_group) rd" where
  "des_impl_group ty d = rlift3 (\<lambda>nm nn g. \<lparr>ig_named = nm, ig_non_named = nn, ig_generic = g\<rparr>)
    (des_pathmap (des_vec ty d)) (des_vec ty d) (des_vec ty d)"

definition des_ext_crate :: "('s, extern_crate) rd" where
  "des_ext_crate = rmap (\<lambda>file. \<lparr>ec_basename = file, ec_path = file\<rparr>) read_string"

definition des_crate_body :: "nat \<Rightarrow> string \<Rightarrow> (type_ref, hir_crate) rd" where
  "des_crate_body f name = rbind des_edition (\<lambda>ed. rbind (des_module f) (\<lambda>root.
     rbind (des_impl_group ''unique_ptr<TypeImpl>'' (des_type_impl f)) (\<lambda>tis.
     rbind (des_pathmap (des_impl_group ''unique_ptr<TraitImpl>'' (des_trait_impl f))) (\<lambda>tris.
     rbind (des_pathmap (des_impl_group ''unique_ptr<MarkerImpl>'' (des_marker_impl f))) (\<lambda>mis.
     rlift5 (\<lambda>ms ls ecs els lps.
         \<lparr>cr_crate_name = name, cr_edition = ed, cr_root_module = root, cr_type_impls = tis, cr_trait_impls = tris,
          cr_marker_impls = mis, cr_exported_macro_names = ms, cr_lang_items = ls, cr_ext_crates = ecs,
          cr_ext_libs = els, cr_link_paths = lps\<rparr>)
       (des_vec ''RcString'' read_istring) (des_strumap des_simple_path) (des_istrumap des_ext_crate)
       (des_vec ''ExternLibrary'' read_string) (des_vec ''string'' read_string))))))"

end
