(* ===== verification/Normal_Items.thy ===== *)
theory Normal_Items
  imports Roundtrip_Macro Deserialise_Items
begin

text \<open>
  What the metadata keeps of an item and of a crate, as functions \<open>norm_\<close>: paths and types in
  their normal form, publicity as one bit, and the defaults for everything the writer
  leaves out (linkage types, patterns of arguments, values that are not evaluated, the markings of
  auto traits, parent traits, source modules).
\<close>

unbundle bit_operations_syntax

section \<open>Normal forms\<close>

definition norm_path_params :: "string \<Rightarrow> hir_path_params \<Rightarrow> hir_path_params" where
  "norm_path_params cr p = map_path_params (norm_type cr) (norm_const_generic cr) p"

definition norm_gpath :: "string \<Rightarrow> hir_generic_path \<Rightarrow> hir_generic_path" where
  "norm_gpath cr p = norm_generic_path cr (map_generic_path (norm_type cr) (norm_const_generic cr) p)"

definition norm_tpath :: "string \<Rightarrow> hir_trait_path \<Rightarrow> hir_trait_path" where
  "norm_tpath cr p = norm_trait_path cr (map_trait_path (norm_type cr) (norm_const_generic cr) (norm_generics cr) p)"

definition norm_expr :: "bool \<Rightarrow> string \<Rightarrow> hir_expr_ptr \<Rightarrow> hir_expr_ptr" where
  "norm_expr save cr e = norm_expr_ptr save cr (map_expr_ptr (norm_type cr) (norm_const_generic cr) (norm_generics cr) e)"

definition norm_literal :: "string \<Rightarrow> hir_literal \<Rightarrow> hir_literal" where
  "norm_literal cr l = norm_encoded_literal cr (map_encoded_literal (norm_type cr) (norm_const_generic cr) (norm_generics cr) l)"

definition norm_publicity :: "publicity \<Rightarrow> publicity" where
  "norm_publicity p = (if pub_is_global p then pub_new_global else pub_new_none)"

fun norm_vis :: "'e vis_ent \<Rightarrow> 'e vis_ent" where
  "norm_vis (VisEnt p e) = VisEnt (norm_publicity p) e"

definition norm_linkage :: "linkage \<Rightarrow> linkage" where
  "norm_linkage l = \<lparr>lk_type = Link_Auto, lk_name = lk_name l, lk_section = []\<rparr>"

definition norm_fn_markings :: "fn_markings \<Rightarrow> fn_markings" where
  "norm_fn_markings m = m\<lparr>fm_inline_type := Inline_Auto\<rparr>"

definition norm_function :: "string \<Rightarrow> hir_function \<Rightarrow> hir_function" where
  "norm_function cr fcn =
    \<lparr>fn_save_code = False, fn_linkage = norm_linkage (fn_linkage fcn), fn_receiver = fn_receiver fcn,
     fn_receiver_type = norm_type cr (fn_receiver_type fcn), fn_abi = fn_abi fcn, fn_unsafe = fn_unsafe fcn,
     fn_const = fn_const fcn, fn_params = norm_generics cr (fn_params fcn),
     fn_args = map (\<lambda>a. (0, norm_type cr (snd a))) (fn_args fcn), fn_variadic = fn_variadic fcn,
     fn_return = norm_type cr (fn_return fcn),
     fn_code = norm_expr (fn_save_code fcn \<or> fn_const fcn) cr (fn_code fcn),
     fn_markings = norm_fn_markings (fn_markings fcn)\<rparr>"

definition norm_constant :: "string \<Rightarrow> hir_constant \<Rightarrow> hir_constant" where
  "norm_constant cr item =
    \<lparr>co_params = norm_generics cr (co_params item), co_type = norm_type cr (co_type item),
     co_value = norm_expr True cr (co_value item),
     co_value_res = (if co_value_state item = VS_Known then norm_literal cr (co_value_res item) else no_literal),
     co_value_state = (if co_value_state item = VS_Known then VS_Known else VS_Generic)\<rparr>"

definition norm_static :: "string \<Rightarrow> hir_static \<Rightarrow> hir_static" where
  "norm_static cr item =
    \<lparr>st_params = norm_generics cr (st_params item), st_linkage = norm_linkage (st_linkage item),
     st_is_mut = st_is_mut item, st_type = norm_type cr (st_type item),
     st_value = (if gp_is_generic (st_params item) then norm_expr True cr (st_value item) else no_expr),
     st_value_res = (if st_save_literal item then norm_literal cr (st_value_res item) else no_literal),
     st_value_generated = st_save_literal item, st_save_literal = False, st_no_emit_value = st_save_literal item\<rparr>"

definition norm_type_alias :: "string \<Rightarrow> ty_alias \<Rightarrow> ty_alias" where
  "norm_type_alias cr ta = \<lparr>ta_params = norm_generics cr (ta_params ta), ta_type = norm_type cr (ta_type ta)\<rparr>"

definition norm_trait_alias :: "string \<Rightarrow> trait_alias \<Rightarrow> trait_alias" where
  "norm_trait_alias cr ta = \<lparr>tra_params = norm_generics cr (tra_params ta), tra_traits = map (norm_tpath cr) (tra_traits ta)\<rparr>"

definition norm_markings :: "trait_markings \<Rightarrow> trait_markings" where "norm_markings m = m\<lparr>tm_auto_impls := []\<rparr>"

definition norm_struct_markings :: "struct_markings \<Rightarrow> struct_markings" where
  "norm_struct_markings m = (if sm_bounded_max m then m else m\<lparr>sm_bounded_max_value := U128 0 0\<rparr>)"

definition norm_data_variant :: "string \<Rightarrow> data_variant \<Rightarrow> data_variant" where
  "norm_data_variant cr v = v\<lparr>dv_type := norm_type cr (dv_type v)\<rparr>"

definition norm_value_variant :: "value_variant \<Rightarrow> value_variant" where "norm_value_variant v = v\<lparr>vv_expr := no_expr\<rparr>"

fun norm_enum_class :: "string \<Rightarrow> enum_class \<Rightarrow> enum_class" where
  "norm_enum_class cr (EC_Data vs) = EC_Data (map (norm_data_variant cr) vs)"
| "norm_enum_class cr (EC_Value vs evaluated) = EC_Value (map norm_value_variant vs) True"

definition norm_hir_enum :: "string \<Rightarrow> hir_enum \<Rightarrow> hir_enum" where
  "norm_hir_enum cr item = \<lparr>en_params = norm_generics cr (en_params item), en_is_c_repr = en_is_c_repr item,
    en_tag_repr = en_tag_repr item, en_data = norm_enum_class cr (en_data item),
    en_markings = norm_markings (en_markings item)\<rparr>"

definition norm_tuple_fields :: "string \<Rightarrow> tuple_fields \<Rightarrow> tuple_fields" where
  "norm_tuple_fields cr fs = map (\<lambda>e. norm_vis (map_vis_ent (norm_type cr) e)) fs"

definition norm_struct_fields :: "string \<Rightarrow> struct_fields \<Rightarrow> struct_fields" where
  "norm_struct_fields cr fs = map (\<lambda>(n, e). (n, norm_vis (map_vis_ent (norm_type cr) e))) fs"

fun norm_struct_data :: "string \<Rightarrow> struct_data \<Rightarrow> struct_data" where
  "norm_struct_data cr SD_Unit = SD_Unit"
| "norm_struct_data cr (SD_Tuple fs) = SD_Tuple (norm_tuple_fields cr fs)"
| "norm_struct_data cr (SD_Named fs) = SD_Named (norm_struct_fields cr fs)"

definition norm_struct :: "string \<Rightarrow> hir_struct \<Rightarrow> hir_struct" where
  "norm_struct cr item = \<lparr>su_params = norm_generics cr (su_params item), su_repr = su_repr item,
    su_data = norm_struct_data cr (su_data item), su_forced_alignment = su_forced_alignment item,
    su_max_field_alignment = su_max_field_alignment item, su_markings = norm_markings (su_markings item),
    su_struct_markings = norm_struct_markings (su_struct_markings item), su_const_eval_state = CE_None\<rparr>"

definition norm_union :: "string \<Rightarrow> hir_union \<Rightarrow> hir_union" where
  "norm_union cr item = \<lparr>un_params = norm_generics cr (un_params item), un_repr = un_repr item,
    un_variants = norm_struct_fields cr (un_variants item), un_markings = norm_markings (un_markings item)\<rparr>"

definition norm_extern_type :: "extern_type \<Rightarrow> extern_type" where
  "norm_extern_type item = \<lparr>et_markings = norm_markings (et_markings item)\<rparr>"

definition norm_associated_type :: "string \<Rightarrow> associated_type \<Rightarrow> associated_type" where
  "norm_associated_type cr ty = \<lparr>at_generics = norm_generics cr (at_generics ty), at_is_sized = at_is_sized ty,
    at_lifetime_bound = at_lifetime_bound ty, at_trait_bounds = map (norm_tpath cr) (at_trait_bounds ty),
    at_default = norm_type cr (at_default ty)\<rparr>"

fun norm_trait_value_item :: "string \<Rightarrow> trait_value_item \<Rightarrow> trait_value_item" where
  "norm_trait_value_item cr (TVI_Constant e) = TVI_Constant (norm_constant cr e)"
| "norm_trait_value_item cr (TVI_Static e) = TVI_Static (norm_static cr e)"
| "norm_trait_value_item cr (TVI_Function e) = TVI_Function (norm_function cr e)"

definition norm_trait :: "string \<Rightarrow> hir_trait \<Rightarrow> hir_trait" where
  "norm_trait cr item = \<lparr>tr_params = norm_generics cr (tr_params item), tr_lifetime = tr_lifetime item,
    tr_parent_traits = [], tr_is_marker = tr_is_marker item,
    tr_types = umap_of_entries (map (map_prod id (norm_associated_type cr)) (tr_types item)),
    tr_values = umap_of_entries (map (map_prod id (norm_trait_value_item cr)) (tr_values item)),
    tr_value_indexes = map (map_prod id (map_prod id (norm_gpath cr))) (tr_value_indexes item),
    tr_type_indexes = umap_of_entries (tr_type_indexes item),
    tr_vtable_parent_traits_start = tr_vtable_parent_traits_start item,
    tr_all_parent_traits = map (norm_tpath cr) (tr_all_parent_traits item),
    tr_vtable_path = norm_simple_path cr (tr_vtable_path item)\<rparr>"

definition norm_proc_macro :: "string \<Rightarrow> proc_macro \<Rightarrow> proc_macro" where
  "norm_proc_macro cr pm = pm\<lparr>pm_path := norm_simple_path cr (pm_path pm)\<rparr>"

fun norm_value_item :: "string \<Rightarrow> value_item \<Rightarrow> value_item" where
  "norm_value_item cr (VI_Import p v i) = VI_Import (norm_simple_path cr p) v i"
| "norm_value_item cr (VI_Constant e) = VI_Constant (norm_constant cr e)"
| "norm_value_item cr (VI_Static e) = VI_Static (norm_static cr e)"
| "norm_value_item cr (VI_StructConstant p) = VI_StructConstant (norm_simple_path cr p)"
| "norm_value_item cr (VI_Function e) = VI_Function (norm_function cr e)"
| "norm_value_item cr (VI_StructConstructor p) = VI_StructConstructor (norm_simple_path cr p)"

fun norm_macro_item :: "string \<Rightarrow> macro_item \<Rightarrow> macro_item" where
  "norm_macro_item cr (MI_Import p) = MI_Import (norm_simple_path cr p)"
| "norm_macro_item cr (MI_MacroRules e) = MI_MacroRules (norm_macro_rules cr e)"
| "norm_macro_item cr (MI_ProcMacro e) = MI_ProcMacro (norm_proc_macro cr e)"

primrec norm_module :: "string \<Rightarrow> hir_module \<Rightarrow> hir_module"
  and norm_type_item :: "string \<Rightarrow> type_item \<Rightarrow> type_item" where
  "norm_module cr (Module traits vis mis mcs) = Module []
    (umap_of_entries (map (map_prod id (\<lambda>e. norm_vis (map_vis_ent (norm_value_item cr) e))) vis))
    (umap_of_entries (map (map_prod id norm_vis) (map (map_prod id (map_vis_ent (norm_type_item cr))) mis)))
    (umap_of_entries (map (map_prod id (\<lambda>e. norm_vis (map_vis_ent (norm_macro_item cr) e))) mcs))"
| "norm_type_item cr (TI_Import p v i) = TI_Import (norm_simple_path cr p) v i"
| "norm_type_item cr (TI_Module e) = TI_Module (norm_module cr e)"
| "norm_type_item cr (TI_TypeAlias e) = TI_TypeAlias (norm_type_alias cr e)"
| "norm_type_item cr (TI_Enum e) = TI_Enum (norm_hir_enum cr e)"
| "norm_type_item cr (TI_Struct e) = TI_Struct (norm_struct cr e)"
| "norm_type_item cr (TI_Trait e) = TI_Trait (norm_trait cr e)"
| "norm_type_item cr (TI_Union e) = TI_Union (norm_union cr e)"
| "norm_type_item cr (TI_ExternType e) = TI_ExternType (norm_extern_type e)"
| "norm_type_item cr (TI_TraitAlias e) = TI_TraitAlias (norm_trait_alias cr e)"

definition norm_vis_impl :: "('e \<Rightarrow> 'e) \<Rightarrow> 'e vis_impl_ent \<Rightarrow> 'e vis_impl_ent" where
  "norm_vis_impl nf e = \<lparr>vie_publicity = norm_publicity (vie_publicity e),
    vie_is_specialisable = vie_is_specialisable e, vie_data = nf (vie_data e)\<rparr>"

definition norm_impl_ent :: "('e \<Rightarrow> 'e) \<Rightarrow> 'e impl_ent \<Rightarrow> 'e impl_ent" where
  "norm_impl_ent nf e = e\<lparr>ie_data := nf (ie_data e)\<rparr>"

definition norm_entries :: "('e \<Rightarrow> 'e) \<Rightarrow> (string \<times> 'e) list \<Rightarrow> (string \<times> 'e) list" where
  "norm_entries nf m = map_of_entries ord_string (map (map_prod id nf) m)"

definition norm_type_impl :: "string \<Rightarrow> type_impl \<Rightarrow> type_impl" where
  "norm_type_impl cr impl = \<lparr>ti_params = norm_generics cr (ti_params impl), ti_type = norm_type cr (ti_type impl),
    ti_methods = norm_entries (norm_vis_impl (norm_function cr)) (ti_methods impl),
    ti_constants = norm_entries (norm_vis_impl (norm_constant cr)) (ti_constants impl),
    ti_src_module = SimplePath []\<rparr>"

definition norm_trait_impl :: "string \<Rightarrow> trait_impl \<Rightarrow> trait_impl" where
  "norm_trait_impl cr impl = \<lparr>tim_params = norm_generics cr (tim_params impl),
    tim_trait_args = norm_path_params cr (tim_trait_args impl), tim_type = norm_type cr (tim_type impl),
    tim_methods = norm_entries (norm_impl_ent (norm_function cr)) (tim_methods impl),
    tim_constants = norm_entries (norm_impl_ent (norm_constant cr)) (tim_constants impl),
    tim_statics = norm_entries (norm_impl_ent (norm_static cr)) (tim_statics impl),
    tim_types = norm_entries (norm_impl_ent (norm_type cr)) (tim_types impl), tim_src_module = SimplePath []\<rparr>"

definition norm_marker_impl :: "string \<Rightarrow> marker_impl \<Rightarrow> marker_impl" where
  "norm_marker_impl cr impl = \<lparr>mi_params = norm_generics cr (mi_params impl),
    mi_trait_args = norm_path_params cr (mi_trait_args impl), mi_is_positive = mi_is_positive impl,
    mi_type = norm_type cr (mi_type impl), mi_src_module = SimplePath []\<rparr>"

definition norm_pathmap :: "string \<Rightarrow> ('e \<Rightarrow> 'e) \<Rightarrow> (simple_path \<times> 'e) list \<Rightarrow> (simple_path \<times> 'e) list" where
  "norm_pathmap cr nf m = map_of_entries ord_simple_path (map (map_prod (norm_simple_path cr) nf) m)"

definition norm_impl_group :: "string \<Rightarrow> ('i \<Rightarrow> 'i) \<Rightarrow> 'i impl_group \<Rightarrow> 'i impl_group" where
  "norm_impl_group cr nf ig = \<lparr>ig_named = norm_pathmap cr (map nf) (ig_named ig),
    ig_non_named = map nf (ig_non_named ig), ig_generic = map nf (ig_generic ig)\<rparr>"

definition norm_crate :: "hir_crate \<Rightarrow> hir_crate" where
  "norm_crate c = (let cr = cr_crate_name c in
    \<lparr>cr_crate_name = cr, cr_edition = cr_edition c, cr_root_module = norm_module cr (cr_root_module c),
     cr_type_impls = norm_impl_group cr (norm_type_impl cr) (cr_type_impls c),
     cr_trait_impls = norm_pathmap cr (norm_impl_group cr (norm_trait_impl cr)) (cr_trait_impls c),
     cr_marker_impls = norm_pathmap cr (norm_impl_group cr (norm_marker_impl cr)) (cr_marker_impls c),
     cr_exported_macro_names = cr_exported_macro_names c,
     cr_lang_items = umap_of_entries (map (map_prod id (norm_simple_path cr)) (lang_items_filtered cr (cr_lang_items c))),
     cr_ext_crates = umap_of_entries
       (map (map_prod id (\<lambda>e. \<lparr>ec_basename = ec_basename e, ec_path = ec_basename e\<rparr>)) (cr_ext_crates c)),
     cr_ext_libs = cr_ext_libs c, cr_link_paths = cr_link_paths c\<rparr>)"

end
