(* ===== verification/Metadata_File.thy ===== *)
theory Metadata_File
  imports Roundtrip "HOL-Library.Multiset"
begin

text \<open>
  A metadata file: \<open>HIR_Serialise\<close> (\<open>src/hir/serialise.cpp\<close>) makes a first pass over
  the crate with the file closed, which counts the strings, opens the file, which writes the table
  of strings sorted by their use, and makes the second pass.  \<open>HIR_Deserialise\<close>
  (\<open>src/hir/deserialise.cpp\<close>) reads the table and then the crate, whose name comes first.

  The crate is a parameter here: the operation \<open>ser\<close> that writes it and the operation
  \<open>d\<close> that reads what follows its name.
\<close>

definition serialiser_clear :: wact where
  "serialiser_clear = (\<lambda>s. Inr (s\<lparr>w_types := []\<rparr>))"

definition hir_serialise :: "((string \<times> nat) list \<Rightarrow> (string \<times> nat) list) \<Rightarrow> wact \<Rightarrow> error + bytes" where
  "hir_serialise std_sort ser =
    res_bind (w_seq [ser, serialiser_clear, writer_open std_sort, ser] w_init) (\<lambda>s. Inr (w_out s))"

definition crate_named :: "(string \<Rightarrow> ('t, 'a) rd) \<Rightarrow> ('t, 'a) rd" where
  "crate_named d = rbind read_istring (\<lambda>name.
    if name = '''' then rfail (Assert_Fail ''Empty crate name loaded from metadata'')
    else (\<lambda>r. d name (r\<lparr>r_crate_name := name\<rparr>)))"

definition hir_deserialise :: "('t, 'a) rd \<Rightarrow> bytes \<Rightarrow> error + 'a" where
  "hir_deserialise d contents = res_bind (reader_new contents) (\<lambda>r. res_bind (d r) (\<lambda>(v, r). Inr v))"

section \<open>The table of strings\<close>

lemma write_string_bytes:
  "length v < 0x800000 \<Longrightarrow> \<exists>e. \<forall>s. write_string v s = write_bytes e s"
  "\<not> length v < 0x800000 \<Longrightarrow> \<exists>e. \<forall>s. write_string v s = Inl e"
  by (auto simp: write_string_def Let_def w_seq_assert write_u8_def write_u16_def write_bytes_append w_seq_flatten
      intro!: exI) (auto simp: w_seq.simps write_bytes_def w_fail_def)

definition renumber :: "(nat \<times> string \<times> nat) list \<Rightarrow> (string \<times> nat) list \<Rightarrow> (string \<times> nat) list" where
  "renumber xs m = fold (\<lambda>(i, e). map_update (fst e) (\<lambda>_. i mod 0x100000000)) xs m"

lemma renumber_keys [simp]: "map fst (renumber xs m) = map fst m"
  unfolding renumber_def by (induction xs arbitrary: m) auto

lemma renumber_strings [simp]: "fst ` set (renumber xs m) = fst ` set m"
  using arg_cong [OF renumber_keys [of xs m], of set] by (simp only: set_map)

lemma write_count_limit: "write_count c s = Inr s' \<Longrightarrow> c < 0x100000000"
  by (auto simp: write_count_def w_seq_assert w_fail_def split: if_splits)

lemma map_of_map_update:
  "distinct (map fst m) \<Longrightarrow> map_of (map_update k f m) k' = (if k = k' then map_option f (map_of m k) else map_of m k')"
  by (induction k f m rule: map_update.induct) (auto simp: map_of_eq_None_iff)

lemma map_of_renumber:
  assumes "distinct (map fst m)" "distinct (map fst xs)" "map_of (renumber (List.enumerate n xs) m) k = Some j"
    "\<And>k i. map_of m k = Some i \<Longrightarrow> k \<in> fst ` set xs \<or> P k i"
  shows "(\<exists>i < length xs. fst (xs ! i) = k \<and> j = (n + i) mod 0x100000000) \<or> P k j"
  using assms
proof (induction xs arbitrary: n m P)
  case Nil
  then show ?case by (auto simp: renumber_def)
next
  case (Cons x xs)
  let ?m = "map_update (fst x) (\<lambda>_. n mod 0x100000000) m"
  let ?P = "\<lambda>k i. P k i \<or> k = fst x \<and> i = n mod 0x100000000"
  have "k \<in> fst ` set xs \<or> ?P k i" if "map_of ?m k = Some i" for k i
    using that Cons.prems(1) Cons.prems(4) [of k] by (auto simp: map_of_map_update split: if_splits)
  then have "(\<exists>i < length xs. fst (xs ! i) = k \<and> j = (Suc n + i) mod 0x100000000) \<or> ?P k j"
    using Cons.prems by (intro Cons.IH [of ?m "Suc n" ?P]) (auto simp: renumber_def)
  then show ?case by (auto intro: exI [of _ 0] exI [of _ "Suc i" for i])
qed

lemma map_of_keys_in: "map_of m k = Some i \<Longrightarrow> k \<in> fst ` set m"
  by (metis map_of_eq_None_iff option.distinct(1))

lemma write_table:
  assumes "w_open s"
    "w_foreach (\<lambda>(i, e). w_seq [write_string (fst e),
       (\<lambda>s. Inr (s\<lparr>w_istrings := map_update (fst e) (\<lambda>_. i mod 0x100000000) (w_istrings s)\<rparr>))]) xs s = Inr s'"
  shows "\<exists>bs. s' = s\<lparr>w_out := w_out s @ bs, w_istrings := renumber xs (w_istrings s)\<rparr> \<and>
    w_seq (map (\<lambda>(i, e). write_string (fst e)) xs) (s\<lparr>w_istrings := m\<rparr>) =
      Inr (s\<lparr>w_out := w_out s @ bs, w_istrings := m\<rparr>)"
  using assms
proof (induction xs arbitrary: s)
  case Nil
  then show ?case by (auto simp: renumber_def w_seq.simps intro: exI [of _ "[]"])
next
  case (Cons x xs)
  obtain i k v where x: "x = (i, k, v)" by (cases x) auto
  have "length k < 0x800000"
    using Cons.prems write_string_bytes(2) [of k] by (force simp: x w_seq.simps)
  then obtain e where e: "write_string k s = write_bytes e s" for s using write_string_bytes(1) by metis
  let ?s = "s\<lparr>w_out := w_out s @ e, w_istrings := map_update k (\<lambda>_. i mod 0x100000000) (w_istrings s)\<rparr>"
  obtain bs where bs: "s' = ?s\<lparr>w_out := w_out ?s @ bs, w_istrings := renumber xs (w_istrings ?s)\<rparr>"
    "w_seq (map (\<lambda>(i, e). write_string (fst e)) xs) (?s\<lparr>w_istrings := m\<rparr>) =
      Inr (?s\<lparr>w_out := w_out ?s @ bs, w_istrings := m\<rparr>)"
    using Cons.IH [of ?s] Cons.prems by (auto simp: x e w_seq.simps write_bytes_def)
  then show ?case using Cons.prems(1)
    by (intro exI [of _ "e @ bs"]) (cases s, auto simp: x e w_seq.simps write_bytes_def renumber_def)
qed

lemma write_count_strings:
  "write_count c s = Inr s' \<Longrightarrow> write_count c (s\<lparr>w_istrings := m\<rparr>) = Inr (s'\<lparr>w_istrings := m\<rparr>)"
  by (cases s) (auto simp: write_count_def w_seq_assert w_fail_def w_skip_def w_assert_def write_u8_def write_u16_def
      write_u32_def w_seq.simps write_bytes_def split: if_splits)

lemma table_written:
  assumes "w_open s" "\<And>i k v. (i, k, v) \<in> set xs \<Longrightarrow> length k < 0x800000"
  shows "\<exists>s'. w_foreach (\<lambda>(i, e). w_seq [write_string (fst e),
       (\<lambda>s. Inr (s\<lparr>w_istrings := map_update (fst e) (\<lambda>_. i mod 0x100000000) (w_istrings s)\<rparr>))]) xs s = Inr s'"
  using assms
proof (induction xs arbitrary: s)
  case (Cons x xs)
  obtain i k v where x: "x = (i, k, v)" by (cases x) auto
  obtain e where "write_string k s = write_bytes e s" using write_string_bytes(1) [of k] Cons.prems(2) x by force
  then show ?case using Cons.prems Cons.IH [of "s\<lparr>w_out := w_out s @ e,
    w_istrings := map_update k (\<lambda>_. i mod 0x100000000) (w_istrings s)\<rparr>"]
    by (auto simp: x w_seq.simps write_bytes_def)
qed auto

section \<open>Opening the file, and reading its table\<close>

definition start_ctx :: "'t ctx \<Rightarrow> 't ctx" where "start_ctx C = C\<lparr>c_crate := ''''\<rparr>"

lemma enumerate_strings: "map (\<lambda>(i, e). write_string (fst e)) (List.enumerate n xs) = map write_string (map fst xs)"
  by (induction xs arbitrary: n) auto

lemma perm_keys: "mset xs = mset m \<Longrightarrow> fst ` set xs = fst ` set m \<and> (distinct (map fst xs) \<longleftrightarrow> distinct (map fst m))"
  using mset_eq_imp_distinct_iff [of "map fst xs" "map fst m"] mset_eq_setD [of xs m] by simp

lemma writer_open_result:
  assumes "mset (std_sort (w_istrings s)) = mset (w_istrings s)" "distinct (map fst (w_istrings s))"
    "w_out s = []" "w_types s = []" "writer_open std_sort s = Inr w" "c_rel C [] []"
  shows "w_open w" "w_types w = []" "strings_of w = strings_of s"
    "\<And>rest. length (w_out w) < file_limit \<Longrightarrow>
      \<exists>r. reader_new (w_out w @ rest) = Inr r \<and> avail r = rest \<and> sync (start_ctx C) w r"
    "length (w_istrings s) < 0x80000000 \<Longrightarrow> numbered w"
proof -
  let ?xs = "std_sort (w_istrings s)" and ?s = "s\<lparr>w_objnames := [], w_open := True\<rparr>"
  let ?m = "renumber (List.enumerate 0 ?xs) (w_istrings s)"
  note keys = perm_keys [OF assms(1)]
  obtain s1 where s1: "write_count (length ?xs) ?s = Inr s1"
    "res_bind (w_foreach (\<lambda>(i, e). w_seq [write_string (fst e),
       (\<lambda>s. Inr (s\<lparr>w_istrings := map_update (fst e) (\<lambda>_. i mod 0x100000000) (w_istrings s)\<rparr>))])
      (List.enumerate 0 ?xs) s1)
      (\<lambda>s. if (\<forall>e \<in> set (w_istrings s). snd e < length ?xs) then Inr s
            else Inl (Assert_Fail ''e.second < sorted.size()'')) = Inr w"
    using assms(5) by (auto simp: writer_open_def Let_def w_seq.simps)
  obtain b0 where b0: "s1 = ?s\<lparr>w_out := b0\<rparr>" using write_count_state [OF s1(1)] by auto
  obtain bs where bs: "w = s1\<lparr>w_out := b0 @ bs, w_istrings := ?m\<rparr>"
    "w_seq (map write_string (map fst ?xs)) (s1\<lparr>w_istrings := []\<rparr>) = Inr (s1\<lparr>w_out := b0 @ bs, w_istrings := []\<rparr>)"
    "\<forall>e \<in> set ?m. snd e < length ?xs"
    using s1(2) write_table [of s1 "List.enumerate 0 ?xs" w "[]"]
    by (fastforce simp: b0 enumerate_strings split: if_splits)
  show "w_open w" "w_types w = []" by (simp_all add: bs(1) b0 assms(4))
  show "strings_of w = strings_of s" by (simp add: bs(1) strings_of_def)
  show "numbered w" if "length (w_istrings s) < 0x80000000"
    using bs(1,3) that mset_eq_length [OF assms(1)] by (auto simp: numbered_def)
  fix rest
  assume lim: "length (w_out w) < file_limit"
  let ?C = "start_ctx C\<lparr>c_keys := UNIV\<rparr>"
  let ?s0 = "?s\<lparr>w_istrings := []\<rparr>" and ?r0 = "r_init (b0 @ bs @ rest)"
  let ?act = "w_seq [write_count (length ?xs), w_seq (map write_string (map fst ?xs))]"
  let ?rd = "rbind read_count (\<lambda>n. read_times n read_string)"
  have table: "rt (length (w_out w)) ?C ?act ?rd (map fst ?xs)"
    by (rule rt_bind [OF rt_count])
       (use rt_times [of "map fst ?xs" _ ?C write_string read_string "\<lambda>x. x", OF rt_string] in simp)
  have "write_count (length ?xs) ?s0 = Inr (s1\<lparr>w_istrings := []\<rparr>)"
    using write_count_strings [OF s1(1), of "[]"] by simp
  then have run: "?act ?s0 = Inr (s1\<lparr>w_out := b0 @ bs, w_istrings := []\<rparr>)"
    using bs(2) by (simp add: w_seq.simps)
  have start: "sync ?C ?s0 ?r0" using assms(4,6) by (simp add: sync_def r_init_def start_ctx_def)
  obtain b where b: "b0 @ bs = b"
    "\<And>rs rest. length b \<le> length (w_out w) \<Longrightarrow> length (b0 @ bs) < file_limit \<Longrightarrow> sync ?C ?s0 rs \<Longrightarrow> avail rs = b @ rest \<Longrightarrow>
      \<exists>rs'. ?rd rs = Inr (map fst ?xs, rs') \<and> avail rs' = rest \<and> sync ?C (s1\<lparr>w_out := b0 @ bs, w_istrings := []\<rparr>) rs'"
    using rtE [OF table _ run] assms(3) by (auto simp: b0)
  obtain r where r: "?rd ?r0 = Inr (map fst ?xs, r)" "avail r = rest"
    "sync ?C (s1\<lparr>w_out := b0 @ bs, w_istrings := []\<rparr>) r"
    using b(2) [of ?r0 rest] start lim b(1) by (auto simp: bs(1) r_init_def avail_def)
  let ?r = "r\<lparr>r_strings := map fst ?xs\<rparr>"
  have "j < length ?xs \<and> fst (?xs ! j) = k" if "map_of ?m k = Some j" for k j
  proof -
    have "(\<exists>i < length ?xs. fst (?xs ! i) = k \<and> j = (0 + i) mod 0x100000000) \<or> False"
      using keys assms(2) by (intro map_of_renumber [OF assms(2) _ that]) (auto simp: map_of_keys_in)
    then show ?thesis using write_count_limit [OF s1(1)] by auto
  qed
  then have "sync (start_ctx C) w ?r"
    using r(3) by (auto simp: sync_def bs(1) start_ctx_def)
  then show "\<exists>r. reader_new (w_out w @ rest) = Inr r \<and> avail r = rest \<and> sync (start_ctx C) w r"
    using r(1,2) by (intro exI [of _ ?r]) (simp add: reader_new_def bs(1) b0 avail_def)
qed

lemma writer_open_succeeds:
  assumes "mset (std_sort (w_istrings s)) = mset (w_istrings s)" "distinct (map fst (w_istrings s))"
    "length (w_istrings s) < 0x80000000" "\<And>x. x \<in> strings_of s \<Longrightarrow> length x < 0x800000"
  shows "\<exists>w. writer_open std_sort s = Inr w"
proof -
  let ?xs = "std_sort (w_istrings s)" and ?s = "s\<lparr>w_objnames := [], w_open := True\<rparr>"
  note keys = perm_keys [OF assms(1)]
  have len: "length ?xs < 0x80000000" using assms(1,3) mset_eq_length by metis
  then obtain s1 where s1: "write_count (length ?xs) ?s = Inr s1" using write_count_succeeds by blast
  then have b0: "w_open s1" "w_istrings s1 = w_istrings s" using write_count_state [OF s1] by auto
  have "length k < 0x800000" if "(i, k, v) \<in> set (List.enumerate 0 ?xs)" for i k v
  proof -
    have "(k, v) \<in> set ?xs" using that by (auto simp: in_set_enumerate_eq dest: nth_mem)
    then have "k \<in> fst ` set ?xs" by force
    then show ?thesis using assms(4) keys by (simp add: strings_of_def)
  qed
  then obtain s2 where s2: "w_foreach (\<lambda>(i, e). w_seq [write_string (fst e),
       (\<lambda>s. Inr (s\<lparr>w_istrings := map_update (fst e) (\<lambda>_. i mod 0x100000000) (w_istrings s)\<rparr>))])
      (List.enumerate 0 ?xs) s1 = Inr s2"
    using table_written [OF b0(1), of "List.enumerate 0 ?xs"] by blast
  have "w_istrings s2 = renumber (List.enumerate 0 ?xs) (w_istrings s)"
    using write_table [OF b0(1) s2, of "[]"] b0(2) by auto
  moreover have "snd e < length ?xs" if "e \<in> set (renumber (List.enumerate 0 ?xs) (w_istrings s))" for e
  proof -
    have "distinct (map fst (renumber (List.enumerate 0 ?xs) (w_istrings s)))" using assms(2) by simp
    then have "map_of (renumber (List.enumerate 0 ?xs) (w_istrings s)) (fst e) = Some (snd e)"
      using that by (cases e) auto
    then have "(\<exists>i < length ?xs. fst (?xs ! i) = fst e \<and> snd e = (0 + i) mod 0x100000000) \<or> False"
      using keys assms(2) by (intro map_of_renumber [OF assms(2)]) (auto simp: map_of_keys_in)
    then show ?thesis using len by auto
  qed
  ultimately show ?thesis using s1 s2 by (simp add: writer_open_def Let_def w_seq.simps)
qed

section \<open>The whole file\<close>

text \<open>What the reader does with the name of the crate turns one context into the other.\<close>

lemma file_read_back:
  assumes body: "rt n C (w_seq body) (d cr) v" and C: "c_crate C = cr" "c_rel C [] []" "cr \<noteq> ''''"
    and sort: "mset (std_sort (w_istrings s1)) = mset (w_istrings s1)"
    and run: "w_seq (write_istring cr # body) w_init = Inr s1"
      "w_seq [serialiser_clear, writer_open std_sort, w_seq (write_istring cr # body)] s1 = Inr w"
    and lim: "length (w_out w) \<le> n" "length (w_out w) < file_limit"
  shows "hir_deserialise (crate_named d) (w_out w) = Inr v"
proof -
  have "dry (w_seq (write_istring cr # body))" by (rule dry_Cons [OF dry_istring rt_dry [OF body]])
  from dryD [OF this _ _ run(1)]
  have s1: "\<not> w_open s1" "w_out s1 = []" "string_map (w_istrings s1)"
    by (simp_all add: w_init_def string_map_def string_ord.keys_sorted_def)
  have dist: "distinct (map fst (w_istrings s1))"
    using string_ord.keys_sorted_distinct s1(3) by (simp add: string_map_def)
  obtain w1 w2 where w12: "writer_open std_sort (s1\<lparr>w_types := []\<rparr>) = Inr w1" "write_istring cr w1 = Inr w2"
    "w_seq body w2 = Inr w"
    using run(2) by (auto simp: w_seq.simps serialiser_clear_def)
  note opened = writer_open_result [OF _ _ _ _ w12(1) C(2), simplified, OF sort dist s1(2)]
  obtain b1 where b1: "w_open w2" "w_out w2 = w_out w1 @ b1"
    "\<And>rs rest. length b1 \<le> n \<Longrightarrow> length (w_out w2) < file_limit \<Longrightarrow> sync (start_ctx C) w1 rs \<Longrightarrow>
      avail rs = b1 @ rest \<Longrightarrow> \<exists>rs'. read_istring rs = Inr (cr, rs') \<and> avail rs' = rest \<and> sync (start_ctx C) w2 rs'"
    using rtE [OF rt_istring opened(1) w12(2)] by metis
  obtain b2 where b2: "w_out w = w_out w2 @ b2"
    "\<And>rs rest. length b2 \<le> n \<Longrightarrow> length (w_out w) < file_limit \<Longrightarrow> sync C w2 rs \<Longrightarrow>
      avail rs = b2 @ rest \<Longrightarrow> \<exists>rs'. d cr rs = Inr (v, rs') \<and> avail rs' = rest \<and> sync C w rs'"
    using rtE [OF body b1(1) w12(3)] by metis
  obtain r where r: "reader_new (w_out w) = Inr r" "avail r = b1 @ b2" "sync (start_ctx C) w1 r"
    using opened(4) [of "b1 @ b2"] lim b1(2) b2(1) by auto
  obtain r' where r': "read_istring r = Inr (cr, r')" "avail r' = b2" "sync (start_ctx C) w2 r'"
    using b1(3) [OF _ _ r(3,2)] lim b1(2) b2(1) by auto
  have "sync C w2 (r'\<lparr>r_crate_name := cr\<rparr>)"
    using r'(3) C(1) by (auto simp: sync_def start_ctx_def)
  then obtain r'' where "d cr (r'\<lparr>r_crate_name := cr\<rparr>) = Inr (v, r'')"
    using b2(2) [of "r'\<lparr>r_crate_name := cr\<rparr>" "[]"] r'(2) lim b2(1) by (auto simp: avail_def)
  then show ?thesis
    using r(1) r'(1) C(3) by (simp add: hir_deserialise_def crate_named_def rbind_def)
qed

lemma hir_serialise_passes:
  "hir_serialise std_sort ser = Inr bs \<longleftrightarrow> (\<exists>s1 w. ser w_init = Inr s1 \<and>
    w_seq [serialiser_clear, writer_open std_sort, ser] s1 = Inr w \<and> bs = w_out w)"
  by (auto simp: hir_serialise_def w_seq.simps)

theorem file_roundtrip:
  assumes body: "rt n C (w_seq body) (d cr) v" and C: "c_crate C = cr" "c_rel C [] []" "cr \<noteq> ''''"
    and sort: "\<And>xs. mset (std_sort xs) = mset xs"
    and run: "hir_serialise std_sort (w_seq (write_istring cr # body)) = Inr bs"
    and lim: "length bs \<le> n" "length bs < file_limit"
  shows "hir_deserialise (crate_named d) bs = Inr v"
proof -
  let ?ser = "w_seq (write_istring cr # body)"
  obtain s1 w where s1: "?ser w_init = Inr s1" "w_seq [serialiser_clear, writer_open std_sort, ?ser] s1 = Inr w" "bs = w_out w"
    using run unfolding hir_serialise_passes by blast
  show ?thesis unfolding s1(3)
    by (rule file_read_back [where C = C and body = body and d = d, OF body C sort s1(1,2)]) (use lim s1(3) in simp_all)
qed

text \<open>The second pass gets through whenever the first does and the table of strings can be written.\<close>

theorem file_written:
  assumes body: "rt n C ser d v" and sort: "\<And>xs. mset (std_sort xs) = mset xs"
    and run: "ser w_init = Inr s1"
    and lim: "length (w_istrings s1) < 0x80000000" "\<And>x. x \<in> strings_of s1 \<Longrightarrow> length x < 0x800000"
  shows "\<exists>bs. hir_serialise std_sort ser = Inr bs"
proof -
  note d = dryD [OF rt_dry [OF body] _ _ run]
  have s1: "\<not> w_open s1" "w_out s1 = []" "string_map (w_istrings s1)"
    using d by (simp_all add: w_init_def string_map_def string_ord.keys_sorted_def)
  have dist: "distinct (map fst (w_istrings s1))"
    using string_ord.keys_sorted_distinct s1(3) by (simp add: string_map_def)
  let ?s = "s1\<lparr>w_types := []\<rparr>" and ?xs = "std_sort (w_istrings s1)"
  note keys = perm_keys [OF sort [of "w_istrings s1"]]
  obtain w where w: "writer_open std_sort ?s = Inr w"
    using writer_open_succeeds [of std_sort ?s, simplified, OF sort dist lim(1)] lim(2)
    by (auto simp: strings_of_def)
  note opened = writer_open_result [OF _ _ _ _ w, of "\<lparr>c_rel = \<lambda>_ _. True, c_crate = cr, c_keys = {}\<rparr>",
      simplified, OF sort dist s1(2)]
  obtain w' where "ser w = Inr w'"
    using d(5) [of w] opened(1-3,5) lim(1)
    by (auto simp: w_init_def string_map_def string_ord.keys_sorted_def strings_of_def)
  then show ?thesis using run w unfolding hir_serialise_passes
    by (auto simp: w_seq.simps serialiser_clear_def)
qed

end
