(* ===== verification/Roundtrip_Items.thy ===== *)
theory Roundtrip_Items
  imports Normal_Items Metadata_File
begin

text \<open>
  The round trip of items and of a whole crate.

  The \<open>_fits\<close> predicates collect, for a set \<open>T\<close> of types that is closed under parts, what the theorem of
  \<open>Roundtrip\<close> asks of the types, constants and bodies in an item.  The collection
  \<open>item_rts\<close> holds the round trip of each kind of item; each proof takes the writer and the reader apart
  in step, with the rules of \<open>item_steps\<close>.
\<close>

unbundle bit_operations_syntax

declare w_seq.simps [simp del]

named_theorems item_steps \<open>rules that take a writer and its reader apart in step\<close>
named_theorems item_rts \<open>round trips of what an item is made of\<close>
named_theorems item_fits \<open>what the theorem on types asks of an item\<close>

section \<open>What the theorem on types asks\<close>

definition ty_fits :: "type_ref set \<Rightarrow> type_ref \<Rightarrow> bool" where "ty_fits T t \<longleftrightarrow> ty_parts t \<subseteq> T \<and> ty_ok t"
definition cg_fits :: "type_ref set \<Rightarrow> const_generic \<Rightarrow> bool" where "cg_fits T v \<longleftrightarrow> cg_parts v \<subseteq> T \<and> cg_ok v"
definition gp_fits :: "type_ref set \<Rightarrow> generic_params \<Rightarrow> bool" where "gp_fits T g \<longleftrightarrow> gp_parts g \<subseteq> T \<and> gp_ok g"

definition pp_fits :: "type_ref set \<Rightarrow> hir_path_params \<Rightarrow> bool" where
  "pp_fits T p \<longleftrightarrow> (\<forall>t \<in> set1_path_params p. ty_fits T t) \<and> (\<forall>v \<in> set2_path_params p. cg_fits T v)"

definition gpath_fits :: "type_ref set \<Rightarrow> hir_generic_path \<Rightarrow> bool" where
  "gpath_fits T p \<longleftrightarrow> (\<forall>t \<in> set1_generic_path p. ty_fits T t) \<and> (\<forall>v \<in> set2_generic_path p. cg_fits T v)"

definition tpath_fits :: "type_ref set \<Rightarrow> hir_trait_path \<Rightarrow> bool" where
  "tpath_fits T p \<longleftrightarrow> (\<forall>t \<in> set1_trait_path p. ty_fits T t) \<and> (\<forall>v \<in> set2_trait_path p. cg_fits T v) \<and>
    (\<forall>g \<in> set3_trait_path p. gp_fits T g)"

definition expr_fits :: "type_ref set \<Rightarrow> hir_expr_ptr \<Rightarrow> bool" where
  "expr_fits T e \<longleftrightarrow> (\<forall>t \<in> set1_expr_ptr e. ty_fits T t) \<and> (\<forall>v \<in> set2_expr_ptr e. cg_fits T v) \<and> expr_ok e"

definition lit_fits :: "type_ref set \<Rightarrow> hir_literal \<Rightarrow> bool" where
  "lit_fits T l \<longleftrightarrow> (\<forall>t \<in> set1_encoded_literal l. ty_fits T t) \<and> (\<forall>v \<in> set2_encoded_literal l. cg_fits T v)"

definition function_fits :: "type_ref set \<Rightarrow> hir_function \<Rightarrow> bool" where
  "function_fits T fcn \<longleftrightarrow> ty_fits T (fn_receiver_type fcn) \<and> gp_fits T (fn_params fcn) \<and>
    (\<forall>a \<in> set (fn_args fcn). ty_fits T (snd a)) \<and> ty_fits T (fn_return fcn) \<and> expr_fits T (fn_code fcn)"

definition constant_fits :: "type_ref set \<Rightarrow> hir_constant \<Rightarrow> bool" where
  "constant_fits T item \<longleftrightarrow> gp_fits T (co_params item) \<and> ty_fits T (co_type item) \<and> expr_fits T (co_value item) \<and>
    lit_fits T (co_value_res item)"

definition static_fits :: "type_ref set \<Rightarrow> hir_static \<Rightarrow> bool" where
  "static_fits T item \<longleftrightarrow> gp_fits T (st_params item) \<and> ty_fits T (st_type item) \<and> expr_fits T (st_value item) \<and>
    lit_fits T (st_value_res item)"

definition type_alias_fits :: "type_ref set \<Rightarrow> ty_alias \<Rightarrow> bool" where
  "type_alias_fits T ta \<longleftrightarrow> gp_fits T (ta_params ta) \<and> ty_fits T (ta_type ta)"

definition trait_alias_fits :: "type_ref set \<Rightarrow> trait_alias \<Rightarrow> bool" where
  "trait_alias_fits T ta \<longleftrightarrow> gp_fits T (tra_params ta) \<and> (\<forall>p \<in> set (tra_traits ta). tpath_fits T p)"

fun enum_class_fits :: "type_ref set \<Rightarrow> enum_class \<Rightarrow> bool" where
  "enum_class_fits T (EC_Data vs) \<longleftrightarrow> (\<forall>v \<in> set vs. ty_fits T (dv_type v))"
| "enum_class_fits T (EC_Value vs evaluated) \<longleftrightarrow> True"

definition enum_fits :: "type_ref set \<Rightarrow> hir_enum \<Rightarrow> bool" where
  "enum_fits T item \<longleftrightarrow> gp_fits T (en_params item) \<and> enum_class_fits T (en_data item)"

definition fields_fit :: "type_ref set \<Rightarrow> struct_fields \<Rightarrow> bool" where
  "fields_fit T fs \<longleftrightarrow> (\<forall>e \<in> set fs. ty_fits T (ve_ent (snd e)))"

fun struct_data_fits :: "type_ref set \<Rightarrow> struct_data \<Rightarrow> bool" where
  "struct_data_fits T SD_Unit \<longleftrightarrow> True"
| "struct_data_fits T (SD_Tuple fs) \<longleftrightarrow> (\<forall>e \<in> set fs. ty_fits T (ve_ent e))"
| "struct_data_fits T (SD_Named fs) \<longleftrightarrow> fields_fit T fs"

definition struct_fits :: "type_ref set \<Rightarrow> hir_struct \<Rightarrow> bool" where
  "struct_fits T item \<longleftrightarrow> gp_fits T (su_params item) \<and> struct_data_fits T (su_data item)"

definition union_fits :: "type_ref set \<Rightarrow> hir_union \<Rightarrow> bool" where
  "union_fits T item \<longleftrightarrow> gp_fits T (un_params item) \<and> fields_fit T (un_variants item)"

definition associated_type_fits :: "type_ref set \<Rightarrow> associated_type \<Rightarrow> bool" where
  "associated_type_fits T ty \<longleftrightarrow> gp_fits T (at_generics ty) \<and> (\<forall>p \<in> set (at_trait_bounds ty). tpath_fits T p) \<and>
    ty_fits T (at_default ty)"

fun trait_value_item_fits :: "type_ref set \<Rightarrow> trait_value_item \<Rightarrow> bool" where
  "trait_value_item_fits T (TVI_Constant e) \<longleftrightarrow> constant_fits T e"
| "trait_value_item_fits T (TVI_Static e) \<longleftrightarrow> static_fits T e"
| "trait_value_item_fits T (TVI_Function e) \<longleftrightarrow> function_fits T e"

definition trait_fits :: "type_ref set \<Rightarrow> hir_trait \<Rightarrow> bool" where
  "trait_fits T item \<longleftrightarrow> gp_fits T (tr_params item) \<and> (\<forall>e \<in> set (tr_types item). associated_type_fits T (snd e)) \<and>
    (\<forall>e \<in> set (tr_values item). trait_value_item_fits T (snd e)) \<and>
    (\<forall>e \<in> set (tr_value_indexes item). gpath_fits T (snd (snd e))) \<and>
    (\<forall>p \<in> set (tr_all_parent_traits item). tpath_fits T p)"

fun value_item_fits :: "type_ref set \<Rightarrow> value_item \<Rightarrow> bool" where
  "value_item_fits T (VI_Constant e) \<longleftrightarrow> constant_fits T e"
| "value_item_fits T (VI_Static e) \<longleftrightarrow> static_fits T e"
| "value_item_fits T (VI_Function e) \<longleftrightarrow> function_fits T e"
| "value_item_fits T item \<longleftrightarrow> True"

primrec module_fits :: "type_ref set \<Rightarrow> hir_module \<Rightarrow> bool"
  and type_item_fits :: "type_ref set \<Rightarrow> type_item \<Rightarrow> bool" where
  "module_fits T (Module traits vis mis mcs) \<longleftrightarrow> (\<forall>e \<in> set vis. value_item_fits T (ve_ent (snd e))) \<and>
    (\<forall>e \<in> set (map (map_prod id (map_vis_ent (type_item_fits T))) mis). ve_ent (snd e))"
| "type_item_fits T (TI_Import p v i) \<longleftrightarrow> True"
| "type_item_fits T (TI_Module e) \<longleftrightarrow> module_fits T e"
| "type_item_fits T (TI_TypeAlias e) \<longleftrightarrow> type_alias_fits T e"
| "type_item_fits T (TI_Enum e) \<longleftrightarrow> enum_fits T e"
| "type_item_fits T (TI_Struct e) \<longleftrightarrow> struct_fits T e"
| "type_item_fits T (TI_Trait e) \<longleftrightarrow> trait_fits T e"
| "type_item_fits T (TI_Union e) \<longleftrightarrow> union_fits T e"
| "type_item_fits T (TI_ExternType e) \<longleftrightarrow> True"
| "type_item_fits T (TI_TraitAlias e) \<longleftrightarrow> trait_alias_fits T e"

definition type_impl_fits :: "type_ref set \<Rightarrow> type_impl \<Rightarrow> bool" where
  "type_impl_fits T impl \<longleftrightarrow> gp_fits T (ti_params impl) \<and> ty_fits T (ti_type impl) \<and>
    (\<forall>e \<in> set (ti_methods impl). function_fits T (vie_data (snd e))) \<and>
    (\<forall>e \<in> set (ti_constants impl). constant_fits T (vie_data (snd e)))"

definition trait_impl_fits :: "type_ref set \<Rightarrow> trait_impl \<Rightarrow> bool" where
  "trait_impl_fits T impl \<longleftrightarrow> gp_fits T (tim_params impl) \<and> pp_fits T (tim_trait_args impl) \<and>
    ty_fits T (tim_type impl) \<and> (\<forall>e \<in> set (tim_methods impl). function_fits T (ie_data (snd e))) \<and>
    (\<forall>e \<in> set (tim_constants impl). constant_fits T (ie_data (snd e))) \<and>
    (\<forall>e \<in> set (tim_statics impl). static_fits T (ie_data (snd e))) \<and>
    (\<forall>e \<in> set (tim_types impl). ty_fits T (ie_data (snd e)))"

definition marker_impl_fits :: "type_ref set \<Rightarrow> marker_impl \<Rightarrow> bool" where
  "marker_impl_fits T impl \<longleftrightarrow> gp_fits T (mi_params impl) \<and> pp_fits T (mi_trait_args impl) \<and> ty_fits T (mi_type impl)"

definition group_fits :: "('i \<Rightarrow> bool) \<Rightarrow> 'i impl_group \<Rightarrow> bool" where
  "group_fits P ig \<longleftrightarrow> (\<forall>e \<in> set (ig_named ig). \<forall>i \<in> set (snd e). P i) \<and> (\<forall>i \<in> set (ig_non_named ig). P i) \<and>
    (\<forall>i \<in> set (ig_generic ig). P i)"

definition crate_fits :: "type_ref set \<Rightarrow> hir_crate \<Rightarrow> bool" where
  "crate_fits T c \<longleftrightarrow> module_fits T (cr_root_module c) \<and> group_fits (type_impl_fits T) (cr_type_impls c) \<and>
    (\<forall>e \<in> set (cr_trait_impls c). group_fits (trait_impl_fits T) (snd e)) \<and>
    (\<forall>e \<in> set (cr_marker_impls c). group_fits (marker_impl_fits T) (snd e))"

declare function_fits_def [item_fits] constant_fits_def [item_fits] static_fits_def [item_fits]
  type_alias_fits_def [item_fits] trait_alias_fits_def [item_fits] enum_fits_def [item_fits] fields_fit_def [item_fits]
  struct_fits_def [item_fits] union_fits_def [item_fits] associated_type_fits_def [item_fits]
  trait_fits_def [item_fits] type_impl_fits_def [item_fits] trait_impl_fits_def [item_fits]
  marker_impl_fits_def [item_fits] group_fits_def [item_fits] crate_fits_def [item_fits]

section \<open>Types and what is made of them\<close>

definition metadata_ok :: "string \<Rightarrow> type_ref set \<Rightarrow> bool" where
  "metadata_ok cr T \<longleftrightarrow> cr \<noteq> [] \<and> types_ok cr T"

definition crate_ctx :: "string \<Rightarrow> type_ref set \<Rightarrow> type_ref ctx" where
  "crate_ctx cr T = type_ctx cr T (type_key ` T)"

lemma crate_ctx_sel [simp]: "c_crate (crate_ctx cr T) = cr"
  by (simp add: crate_ctx_def)

lemma crate_nonempty: "metadata_ok cr T \<Longrightarrow> c_crate (crate_ctx cr T) \<noteq> []"
  by (simp add: metadata_ok_def)

lemma fit_kids:
  assumes "metadata_ok cr T" "n \<le> f"
  shows "(\<forall>t \<in> X. ty_fits T t) \<Longrightarrow> kids n (crate_ctx cr T) ser_type (des_type f) (norm_type cr) X"
    and "(\<forall>v \<in> Y. cg_fits T v) \<Longrightarrow> kids n (crate_ctx cr T) ser_const_generic (des_const_generic f) (norm_const_generic cr) Y"
    and "(\<forall>g \<in> Z. gp_fits T g) \<Longrightarrow> kids n (crate_ctx cr T) ser_generics (des_generics f) (norm_generics cr) Z"
  unfolding crate_ctx_def
  using assms rt_types [of cr T]
  by (auto simp: metadata_ok_def ty_fits_def cg_fits_def gp_fits_def intro!: kids_ty kids_cg kids_gp)

lemma rt_item_type [item_rts]:
  "metadata_ok cr T \<Longrightarrow> n \<le> f \<Longrightarrow> ty_fits T t \<Longrightarrow> rt n (crate_ctx cr T) (ser_type t) (des_type f) (norm_type cr t)"
  using fit_kids(1) [of cr T n f "{t}"] by simp

lemma rt_item_generics [item_rts]:
  "metadata_ok cr T \<Longrightarrow> n \<le> f \<Longrightarrow> gp_fits T g \<Longrightarrow>
    rt n (crate_ctx cr T) (ser_generics g) (des_generics f) (norm_generics cr g)"
  using fit_kids(3) [of cr T n f "{g}"] by simp

lemma rt_item_simple_path [item_rts]:
  "metadata_ok cr T \<Longrightarrow> rt n (crate_ctx cr T) (ser_simple_path p) des_simple_path (norm_simple_path cr p)"
  using rt_simple_path [of "crate_ctx cr T" n p] by (simp add: metadata_ok_def)

lemma rt_item_path_params [item_rts]:
  "metadata_ok cr T \<Longrightarrow> n \<le> f \<Longrightarrow> pp_fits T p \<Longrightarrow>
    rt n (crate_ctx cr T) (put_path_params p) (get_path_params f) (norm_path_params cr p)"
  unfolding put_path_params_def get_path_params_def norm_path_params_def pp_fits_def
  by (intro rt_path_params fit_kids) auto

lemma rt_item_generic_path [item_rts]:
  "metadata_ok cr T \<Longrightarrow> n \<le> f \<Longrightarrow> gpath_fits T p \<Longrightarrow>
    rt n (crate_ctx cr T) (put_generic_path p) (get_generic_path f) (norm_gpath cr p)"
  unfolding put_generic_path_def get_generic_path_def norm_gpath_def gpath_fits_def
  using rt_generic_path [OF crate_nonempty fit_kids(1) fit_kids(2)] by simp

lemma rt_item_trait_path [item_rts]:
  "metadata_ok cr T \<Longrightarrow> n \<le> f \<Longrightarrow> tpath_fits T p \<Longrightarrow>
    rt n (crate_ctx cr T) (put_trait_path p) (get_trait_path f) (norm_tpath cr p)"
  unfolding put_trait_path_def get_trait_path_def norm_tpath_def tpath_fits_def
  using rt_trait_path(1) [OF crate_nonempty _ fit_kids(1) fit_kids(2) fit_kids(3)] by simp

lemma rt_item_expr [item_rts]:
  "metadata_ok cr T \<Longrightarrow> n \<le> f \<Longrightarrow> expr_fits T e \<Longrightarrow>
    rt n (crate_ctx cr T) (put_expr_ptr save e) (get_expr_ptr f) (norm_expr save cr e)"
  unfolding put_expr_ptr_def get_expr_ptr_def norm_expr_def expr_fits_def
  by (auto intro: rt_expr_ptr [OF crate_nonempty fit_kids(1) fit_kids(2), simplified])

lemma rt_item_literal [item_rts]:
  "metadata_ok cr T \<Longrightarrow> n \<le> f \<Longrightarrow> lit_fits T l \<Longrightarrow>
    rt n (crate_ctx cr T) (put_literal l) (get_literal f) (norm_literal cr l)"
  unfolding put_literal_def get_literal_def norm_literal_def lit_fits_def
  by (auto intro: rt_encoded_literal [OF crate_nonempty fit_kids(1) fit_kids(2), simplified])

lemma rt_item_macro_rules [item_rts]:
  "metadata_ok cr T \<Longrightarrow> n \<le> f \<Longrightarrow>
    rt n (crate_ctx cr T) (ser_macro_rules mac) (des_macro_rules f) (norm_macro_rules cr mac)"
  using rt_macro_rules [of "crate_ctx cr T" n f mac] by (simp add: metadata_ok_def)

section \<open>Rules in step\<close>

lemma rt_val: "rt n C a d v \<Longrightarrow> v = v' \<Longrightarrow> rt n C a d v'"
  by simp

lemma rt_last: "rt n C a d v \<Longrightarrow> rt n C (w_seq [a]) d v"
  by simp

lemma rt_cond:
  "(b \<Longrightarrow> rt n C a d x) \<Longrightarrow> (\<not> b \<Longrightarrow> rt n C a' d' x') \<Longrightarrow>
    rt n C (if b then a else a') (if b then d else d') (if b then x else x')"
  by simp

lemma rt_object: "length name < 100 \<Longrightarrow> rt (n - 1) C (w_seq body) d v \<Longrightarrow> rt n C (in_object name body) (r_in_object name d) v"
  by (rule rt_in_object) simp_all

lemma rt_tagged:
  "(case map_of alts t of None \<Rightarrow> False | Some d \<Rightarrow> rt (n - 1) C (w_seq as) d v) \<Longrightarrow>
    rt n C (w_seq (write_tag t # as)) (des_switch what alts) v"
  by (rule rt_sw_dec)

lemma alt_here: "rt n C (w_seq as) d v \<Longrightarrow> (case map_of ((t, d) # alts) t of None \<Rightarrow> False | Some d \<Rightarrow> rt n C (w_seq as) d v)"
  by simp

lemma alt_later:
  "t \<noteq> t' \<Longrightarrow> (case map_of alts t of None \<Rightarrow> False | Some d \<Rightarrow> rt n C (w_seq as) d v) \<Longrightarrow>
    (case map_of ((t', d') # alts) t of None \<Rightarrow> False | Some d \<Rightarrow> rt n C (w_seq as) d v)"
  by simp

declare rt_ret [item_steps] rt_skip [item_steps] rt_strings [item_steps] rt_lift2 [item_steps] rt_lift3 [item_steps]
  rt_lift4 [item_steps] rt_lift5 [item_steps] rt_lift6 [item_steps] rt_map [item_steps] rt_basic [item_steps]
  rt_word_count [item_steps] rt_lifetime_ref [item_steps] rt_edition [item_steps] rt_cond [item_steps]
  rt_object [item_steps] rt_tagged [item_steps] alt_here [item_steps] rt_vec [item_steps] rt_items [item_steps]
  rt_targets [item_steps] rt_istring_vec [item_steps] rt_bind [item_steps] rt_last [item_steps]

section \<open>Maps\<close>

lemma rt_istr_entries:
  assumes "\<And>e. e \<in> set m \<Longrightarrow> rt n C (s (snd e)) d (f (snd e))"
  shows "rt n C (ser_istrmap (map (map_prod id s) m)) (des_items (des_pair read_istring d)) (map (map_prod id f) m)"
proof -
  have "rt n C (ser_istr_pair (map_prod id s e)) (des_pair read_istring d) (map_prod id f e)" if "e \<in> set m" for e
    using assms [OF that] unfolding ser_istr_pair_def des_pair_def
    by (cases e) (auto intro: rt_lift2 [OF rt_istring, of n C _ _ _ _ Pair, simplified])
  then show ?thesis
    using rt_items [of m n C "ser_istr_pair \<circ> map_prod id s" _ "map_prod id f"] by (simp add: ser_istrmap_def)
qed

lemma rt_istrumap [item_steps]:
  "(\<And>e. e \<in> set m \<Longrightarrow> rt n C (s (snd e)) d (f (snd e))) \<Longrightarrow>
    rt n C (ser_istrmap (map (map_prod id s) m)) (des_istrumap d) (umap_of_entries (map (map_prod id f) m))"
  unfolding des_istrumap_def by (rule rt_map) (rule rt_istr_entries)

lemma rt_istrummap [item_steps]:
  "(\<And>e. e \<in> set m \<Longrightarrow> rt n C (s (snd e)) d (f (snd e))) \<Longrightarrow>
    rt n C (ser_istrmap (map (map_prod id s) m)) (des_istrummap d) (map (map_prod id f) m)"
  unfolding des_istrummap_def by (rule rt_istr_entries)

lemma rt_impl_entries [item_steps]:
  assumes "\<And>e. e \<in> set m \<Longrightarrow> rt n C (put e) (des_pair read_istring d) (fst e, f (snd e))"
  shows "rt n C (ser_items (map put m)) (des_istrmap d) (norm_entries f m)"
  unfolding des_istrmap_def norm_entries_def
proof (rule rt_map, rule rt_items)
  fix e assume "e \<in> set m"
  from assms [OF this] show "rt n C (put e) (des_pair read_istring d) (map_prod id f e)" by (cases e) simp
qed

lemma rt_pathmap [item_steps]:
  assumes "metadata_ok cr T" "\<And>e. e \<in> set m \<Longrightarrow> rt n (crate_ctx cr T) (put (snd e)) d (f (snd e))"
  shows "rt n (crate_ctx cr T) (ser_pathmap put m) (des_pathmap d) (norm_pathmap cr f m)"
  unfolding ser_pathmap_def des_pathmap_def norm_pathmap_def
proof (rule rt_map, rule rt_items)
  fix e assume e: "e \<in> set m"
  show "rt n (crate_ctx cr T) ((\<lambda>(p, e). w_seq [ser_simple_path p, put e]) e) (des_pair des_simple_path d)
      (map_prod (norm_simple_path cr) f e)"
    using rt_lift2 [OF rt_item_simple_path [OF assms(1)] assms(2) [OF e], of "fst e" Pair]
    by (cases e) (simp add: des_pair_def)
qed

section \<open>Enumerations and flags\<close>

lemma rt_receiver [item_steps]: "rt n C (write_tag (index_of receivers x)) (des_enum receivers) x"
  by (rule rt_enum) (cases x; simp add: receivers_def)

lemma rt_dst_type [item_steps]: "rt n C (write_tag (index_of dst_types x)) (des_enum dst_types) x"
  by (rule rt_enum) (cases x; simp add: dst_types_def)

lemma rt_coerce_kind [item_steps]: "rt n C (write_tag (index_of coerce_kinds x)) (des_enum coerce_kinds) x"
  by (rule rt_enum) (cases x; simp add: coerce_kinds_def)

lemma rt_enum_repr [item_steps]: "rt n C (write_tag (index_of enum_reprs x)) (des_enum enum_reprs) x"
  by (rule rt_enum) (cases x; simp add: enum_reprs_def)

lemma rt_struct_repr [item_steps]: "rt n C (write_tag (index_of struct_reprs x)) (des_enum struct_reprs) x"
  by (rule rt_enum) (cases x; simp add: struct_reprs_def)

lemma rt_union_repr [item_steps]: "rt n C (write_tag (index_of union_reprs x)) (des_enum union_reprs) x"
  by (rule rt_enum) (cases x; simp add: union_reprs_def)

lemma bit_flag_step:
  "bit (push_bit 1 w OR (if b then 1 else 0) :: u8) i \<longleftrightarrow> i < 8 \<and> (if i = 0 then b else bit w (i - 1))"
  by (cases "i = 0") (auto simp only: bit_or_iff bit_push_bit_iff bit_1_iff bit_0_eq bot_apply bot_bool_def simp_thms if_True if_False
      possible_bit_word len_bit0 len_num1 split: if_splits)

lemma bit_bitflags: "length bs \<le> 8 \<Longrightarrow> bit (bitflags bs) i \<longleftrightarrow> i < length bs \<and> bs ! i"
proof (induction bs arbitrary: i)
  case (Cons b bs)
  have "bitflags (b # bs) = push_bit 1 (bitflags bs) OR (if b then 1 else 0)" by (simp add: bitflags_def)
  then show ?case using Cons.IH [of "i - 1"] Cons.prems unfolding bit_flag_step
    by (cases i) (simp_all only: bit_flag_step, auto)
qed (simp add: bitflags_def)

lemma bitflags_2: "bit (bitflags [a, b]) 0 \<longleftrightarrow> a" "bit (bitflags [a, b]) (Suc 0) \<longleftrightarrow> b" "bit (bitflags [a, b]) 1 \<longleftrightarrow> b"
  by (simp_all add: bit_bitflags)

lemma bitflags_3: "bit (bitflags [a, b, c]) 0 \<longleftrightarrow> a" "bit (bitflags [a, b, c]) (Suc 0) \<longleftrightarrow> b"
    "bit (bitflags [a, b, c]) 1 \<longleftrightarrow> b" "bit (bitflags [a, b, c]) 2 \<longleftrightarrow> c"
  by (simp_all add: bit_bitflags)

lemmas bitflags_bits = bitflags_2 bitflags_3

lemma rt_pub [item_steps]: "rt n C (ser_publicity p) des_pub (norm_publicity p)"
  unfolding ser_publicity_def des_pub_def norm_publicity_def by (rule rt_map [OF rt_bool])

lemma rt_vis_ent [item_steps]:
  "rt n C (s (ve_ent e)) d (f (ve_ent e)) \<Longrightarrow>
    rt n C (ser_vis_ent (map_vis_ent s e)) (des_vis_ent d) (norm_vis (map_vis_ent f e))"
  unfolding des_vis_ent_def by (cases e) (simp add: rt_lift2 rt_pub)

lemma rt_linkage [item_steps]: "rt n C (ser_linkage l) des_linkage (norm_linkage l)"
  unfolding ser_linkage_def des_linkage_def norm_linkage_def
  by (rule rt_val) ((rule item_steps)+, simp)

lemma rt_fn_markings [item_steps]: "rt n C (ser_fn_markings m) des_fn_markings (norm_fn_markings m)"
  unfolding ser_fn_markings_def des_fn_markings_def norm_fn_markings_def
  by (rule rt_val) ((rule item_steps | simp)+)

lemma rt_markings [item_steps]: "rt n C (ser_trait_markings m) des_markings (norm_markings m)"
  unfolding ser_trait_markings_def des_markings_def norm_markings_def
  by (rule rt_val) ((rule item_steps)+, simp add: bitflags_bits)

section \<open>Values\<close>

lemma rt_trait_paths [item_rts]:
  assumes rd: "metadata_ok cr T" and n: "n \<le> f" and fits: "\<forall>p \<in> set ps. tpath_fits T p"
  shows "rt n (crate_ctx cr T) (ser_trait_paths ps) (des_trait_paths f) (map (norm_tpath cr) ps)"
  unfolding ser_trait_paths_def des_trait_paths_def
  by (rule rt_vec) (use n fits in \<open>auto intro!: item_rts [OF rd]\<close>)

lemma rt_function [item_rts]:
  assumes rd: "metadata_ok cr T" and n: "n \<le> f" and fits: "function_fits T x"
  shows "rt n (crate_ctx cr T) (ser_function x) (des_function f) (norm_function cr x)"
  unfolding ser_function_def des_function_def des_fcnargs_def
  by (rule rt_val)
     (rule item_steps item_rts [OF rd] | (use n fits in \<open>auto simp: item_fits norm_function_def\<close>))+

lemma rt_constant [item_rts]:
  assumes rd: "metadata_ok cr T" and n: "n \<le> f" and fits: "constant_fits T x"
  shows "rt n (crate_ctx cr T) (ser_constant x) (des_constant f) (norm_constant cr x)"
  unfolding ser_constant_def des_constant_def Let_def
  by (rule rt_val)
     (rule item_steps item_rts [OF rd] | (use n fits in \<open>auto simp: item_fits norm_constant_def\<close>))+

lemma gp_is_generic_norm: "gp_is_generic (norm_generics cr g) = gp_is_generic g"
  by (cases g) simp

lemma rt_static [item_rts]:
  assumes rd: "metadata_ok cr T" and n: "n \<le> f" and fits: "static_fits T x"
  shows "rt n (crate_ctx cr T) (ser_static x) (des_static f) (norm_static cr x)"
  unfolding ser_static_def des_static_def Let_def
  by (rule rt_val)
     (rule item_steps item_rts [OF rd] | simp only: bitflags_bits gp_is_generic_norm | (use n fits in \<open>auto simp: item_fits norm_static_def\<close>))+

section \<open>Types\<close>

lemma rt_type_alias [item_rts]:
  assumes rd: "metadata_ok cr T" and n: "n \<le> f" and fits: "type_alias_fits T x"
  shows "rt n (crate_ctx cr T) (ser_type_alias x) (des_type_alias f) (norm_type_alias cr x)"
  unfolding ser_type_alias_def des_type_alias_def
  by (rule rt_val)
     (rule item_steps item_rts [OF rd] | (use n fits in \<open>auto simp: item_fits norm_type_alias_def\<close>))+

lemma rt_trait_alias [item_rts]:
  assumes rd: "metadata_ok cr T" and n: "n \<le> f" and fits: "trait_alias_fits T x"
  shows "rt n (crate_ctx cr T) (ser_trait_alias x) (des_trait_alias f) (norm_trait_alias cr x)"
  unfolding ser_trait_alias_def des_trait_alias_def
  by (rule rt_val)
     (rule item_steps item_rts [OF rd] | (use n fits in \<open>auto simp: item_fits norm_trait_alias_def\<close>))+

lemma rt_data_variant [item_rts]:
  assumes rd: "metadata_ok cr T" and n: "n \<le> f" and fits: "ty_fits T (dv_type x)"
  shows "rt n (crate_ctx cr T) (ser_data_variant x) (des_data_variant f) (norm_data_variant cr x)"
  unfolding ser_data_variant_def des_data_variant_def
  by (rule rt_val)
     (rule item_steps item_rts [OF rd] | (use n fits in \<open>auto simp: item_fits norm_data_variant_def\<close>))+

lemma rt_value_variant [item_steps]: "rt n C (ser_value_variant v) des_value_variant (norm_value_variant v)"
  unfolding ser_value_variant_def des_value_variant_def norm_value_variant_def
  by (rule rt_val) ((rule item_steps)+, simp)

lemma rt_struct_markings [item_steps]: "rt n C (ser_struct_markings m) des_struct_markings (norm_struct_markings m)"
  unfolding ser_struct_markings_def des_struct_markings_def norm_struct_markings_def
  by (rule rt_val) (rule item_steps | simp only: bitflags_bits | simp)+

lemma rt_enum_class [item_rts]:
  assumes rd: "metadata_ok cr T" and n: "n \<le> f" and fits: "enum_class_fits T x"
  shows "rt n (crate_ctx cr T) (ser_enum_class x) (des_enum_class f) (norm_enum_class cr x)"
  by (insert n fits, cases x; hypsubst; unfold ser_enum_class.simps des_enum_class_def norm_enum_class.simps; rule rt_val;
      (rule item_steps item_rts [OF rd] | (auto simp: item_fits ) | rule alt_later)+)

lemma rt_hir_enum [item_rts]:
  assumes rd: "metadata_ok cr T" and n: "n \<le> f" and fits: "enum_fits T x"
  shows "rt n (crate_ctx cr T) (ser_enum x) (des_hir_enum f) (norm_hir_enum cr x)"
  unfolding ser_enum_def des_hir_enum_def
  by (rule rt_val)
     (rule item_steps item_rts [OF rd] | (use n fits in \<open>auto simp: item_fits norm_hir_enum_def\<close>))+

lemma rt_tuple_fields [item_rts]:
  assumes rd: "metadata_ok cr T" and n: "n \<le> f" and fits: "\<forall>e \<in> set fs. ty_fits T (ve_ent e)"
  shows "rt n (crate_ctx cr T) (ser_tuple_fields fs) (des_tuple_fields f) (norm_tuple_fields cr fs)"
  unfolding ser_tuple_fields_def des_tuple_fields_def norm_tuple_fields_def
  by (rule rt_vec) (use n fits in \<open>auto intro!: rt_vis_ent item_rts [OF rd]\<close>)

lemma rt_struct_fields [item_rts]:
  assumes rd: "metadata_ok cr T" and n: "n \<le> f" and fits: "fields_fit T fs"
  shows "rt n (crate_ctx cr T) (ser_struct_fields fs) (des_struct_fields f) (norm_struct_fields cr fs)"
  unfolding ser_struct_fields_def des_struct_fields_def norm_struct_fields_def
proof (rule rt_vec)
  fix x assume x: "x \<in> set fs"
  then have "rt (n - 1) (crate_ctx cr T) (ser_vis_ent (map_vis_ent ser_type (snd x))) (des_vis_ent (des_type f))
      (norm_vis (map_vis_ent (norm_type cr) (snd x)))"
    using n fits by (intro rt_vis_ent item_rts [OF rd]) (auto simp: item_fits)
  from rt_lift2 [OF rt_istring this, of "fst x" Pair]
  show "rt (n - 1) (crate_ctx cr T) ((\<lambda>(n, e). ser_istr_pair (n, ser_vis_ent (map_vis_ent ser_type e))) x)
      (des_pair read_istring (des_vis_ent (des_type f))) ((\<lambda>(n, e). (n, norm_vis (map_vis_ent (norm_type cr) e))) x)"
    by (cases x) (simp add: des_pair_def ser_istr_pair_def)
qed simp

lemma rt_struct_data [item_rts]:
  assumes rd: "metadata_ok cr T" and n: "n \<le> f" and fits: "struct_data_fits T x"
  shows "rt n (crate_ctx cr T) (ser_struct_data x) (des_struct_data f) (norm_struct_data cr x)"
  by (insert n fits, cases x; hypsubst; unfold ser_struct_data.simps des_struct_data_def norm_struct_data.simps; rule rt_val;
      (rule item_steps item_rts [OF rd] | (auto simp: item_fits ) | rule alt_later)+)

lemma rt_struct [item_rts]:
  assumes rd: "metadata_ok cr T" and n: "n \<le> f" and fits: "struct_fits T x"
  shows "rt n (crate_ctx cr T) (ser_struct x) (des_struct f) (norm_struct cr x)"
  unfolding ser_struct_def des_struct_def
  by (rule rt_val)
     (rule item_steps item_rts [OF rd] | (use n fits in \<open>auto simp: item_fits norm_struct_def\<close>))+

lemma rt_union [item_rts]:
  assumes rd: "metadata_ok cr T" and n: "n \<le> f" and fits: "union_fits T x"
  shows "rt n (crate_ctx cr T) (ser_union x) (des_union f) (norm_union cr x)"
  unfolding ser_union_def des_union_def
  by (rule rt_val)
     (rule item_steps item_rts [OF rd] | (use n fits in \<open>auto simp: item_fits norm_union_def\<close>))+

lemma rt_extern_type [item_steps]: "rt n C (ser_extern_type x) des_extern_type (norm_extern_type x)"
  unfolding ser_extern_type_def des_extern_type_def norm_extern_type_def by (rule rt_map [OF rt_markings])

section \<open>Traits\<close>

lemma rt_associated_type [item_rts]:
  assumes rd: "metadata_ok cr T" and n: "n \<le> f" and fits: "associated_type_fits T x"
  shows "rt n (crate_ctx cr T) (ser_associated_type x) (des_associated_type f) (norm_associated_type cr x)"
  unfolding ser_associated_type_def des_associated_type_def
  by (rule rt_val)
     (rule item_steps item_rts [OF rd] | (use n fits in \<open>auto simp: item_fits norm_associated_type_def\<close>))+

lemma rt_trait_value_item [item_rts]:
  assumes rd: "metadata_ok cr T" and n: "n \<le> f" and fits: "trait_value_item_fits T x"
  shows "rt n (crate_ctx cr T) (ser_trait_value_item x) (des_trait_value_item f) (norm_trait_value_item cr x)"
  by (insert n fits, cases x; hypsubst; unfold ser_trait_value_item.simps des_trait_value_item_def norm_trait_value_item.simps; rule rt_val;
      (rule item_steps item_rts [OF rd] | (auto simp: item_fits ) | rule alt_later)+)

lemma rt_value_index [item_rts]:
  assumes rd: "metadata_ok cr T" and n: "n \<le> f" and fits: "gpath_fits T (snd e)"
  shows "rt n (crate_ctx cr T) ((\<lambda>(i, p). w_seq [write_word_count i, put_generic_path p]) e)
    (des_pair read_word_count (get_generic_path f)) (map_prod id (norm_gpath cr) e)"
  using rt_lift2 [OF rt_word_count rt_item_generic_path [OF rd n fits], of "fst e" Pair]
  by (cases e) (simp add: des_pair_def)

lemma rt_trait [item_rts]:
  assumes rd: "metadata_ok cr T" and n: "n \<le> f" and fits: "trait_fits T x"
  shows "rt n (crate_ctx cr T) (ser_trait x) (des_trait f) (norm_trait cr x)"
  unfolding ser_trait_def des_trait_def
  by (rule rt_val)
     (rule item_steps item_rts [OF rd] | (use n in simp; fail) | (use fits in \<open>simp add: trait_fits_def; fail\<close>)
      | simp add: norm_trait_def id_def)+

section \<open>Modules\<close>

lemma rt_proc_macro_ty [item_steps]:
  "rt n C (case t of PM_Function \<Rightarrow> write_tag 0 | PM_Derive \<Rightarrow> write_tag 1 | PM_Attribute \<Rightarrow> write_tag 2)
    (des_enum [PM_Function, PM_Derive, PM_Attribute]) t"
  using rt_enum [of t "[PM_Function, PM_Derive, PM_Attribute]" n C] by (cases t) (simp_all add: numeral_2_eq_2)

lemma rt_proc_macro [item_rts]:
  assumes rd: "metadata_ok cr T"
  shows "rt n (crate_ctx cr T) (ser_proc_macro x) (des_proc_macro) (norm_proc_macro cr x)"
  unfolding ser_proc_macro_def des_proc_macro_def
  by (rule rt_val)
     (rule item_steps item_rts [OF rd] | (auto simp: item_fits norm_proc_macro_def))+

lemma rt_value_item [item_rts]:
  assumes rd: "metadata_ok cr T" and n: "n \<le> f" and fits: "value_item_fits T x"
  shows "rt n (crate_ctx cr T) (ser_value_item x) (des_value_item f) (norm_value_item cr x)"
  by (insert n fits, cases x; hypsubst; unfold ser_value_item.simps des_value_item_def norm_value_item.simps; rule rt_val;
      (rule item_steps item_rts [OF rd] | (auto simp: item_fits ) | rule alt_later)+)

lemma rt_macro_item [item_rts]:
  assumes rd: "metadata_ok cr T" and n: "n \<le> f"
  shows "rt n (crate_ctx cr T) (ser_macro_item x) (des_macro_item f) (norm_macro_item cr x)"
  by (insert n, cases x; hypsubst; unfold ser_macro_item.simps des_macro_item_def norm_macro_item.simps; rule rt_val;
      (rule item_steps item_rts [OF rd] | (auto simp: item_fits ) | rule alt_later)+)

abbreviation ti_alts :: "nat \<Rightarrow> (nat \<times> (type_ref, type_item) rd) list" where
  "ti_alts f \<equiv>
    [(0, rlift3 TI_Import des_simple_path read_bool read_word_count),
     (1, rmap TI_Module (des_module f)),
     (2, rmap TI_TypeAlias (des_type_alias (Suc f))),
     (3, rmap TI_Enum (des_hir_enum (Suc f))),
     (4, rmap TI_Struct (des_struct (Suc f))),
     (5, rmap TI_Trait (des_trait (Suc f))),
     (6, rmap TI_Union (des_union (Suc f))),
     (7, rmap TI_ExternType des_extern_type),
     (8, rmap TI_TraitAlias (des_trait_alias (Suc f)))]"

lemma des_type_item_cases:
  "des_type_item f = (case f of 0 \<Rightarrow> rfail Out_Of_Fuel | Suc k \<Rightarrow> des_switch ''HIR::TypeItem'' (ti_alts k))"
  by (cases f) simp_all

lemma rt_type_item_leaf:
  "n \<le> f \<Longrightarrow> (\<And>m k. m \<le> k \<Longrightarrow>
      (case map_of (ti_alts k) t of None \<Rightarrow> False | Some d \<Rightarrow> rt m C (w_seq as) d v)) \<Longrightarrow>
    rt n C (w_seq (write_tag t # as)) (des_type_item f) v"
  unfolding des_type_item_cases by (rule rt_switch_fuel)

lemma des_module_cases:
  "des_module f = (case f of 0 \<Rightarrow> rfail Out_Of_Fuel | Suc k \<Rightarrow> r_in_object ''HIR::Module'' (rlift3 (Module [])
    (des_istrumap (des_vis_ent (des_value_item (Suc k)))) (des_istrumap (des_vis_ent (des_type_item k)))
    (des_istrumap (des_vis_ent (des_macro_item (Suc k))))))"
  by (cases f) simp_all

lemma rt_vis_items:
  "(\<And>e. e \<in> set m \<Longrightarrow> rt n C (s (ve_ent (snd e))) d (f (ve_ent (snd e)))) \<Longrightarrow>
    rt n C (ser_istrmap (map (map_prod id (\<lambda>e. ser_vis_ent (map_vis_ent s e))) m)) (des_istrumap (des_vis_ent d))
      (umap_of_entries (map (map_prod id (\<lambda>e. norm_vis (map_vis_ent f e))) m))"
  by (rule rt_istrumap) (rule rt_vis_ent)

lemma vis_ent_parts: "e \<in> set m \<Longrightarrow> ve_ent (snd e) \<in> set_vis_ent (snd e) \<and> snd e \<in> Basic_BNFs.snds e"
  by (cases e; cases "snd e") auto

lemma rt_module_type_item:
  assumes rd: "metadata_ok cr T"
  shows "n \<le> f \<Longrightarrow> module_fits T m \<Longrightarrow> rt n (crate_ctx cr T) (ser_module m) (des_module f) (norm_module cr m)"
    and "n \<le> f \<Longrightarrow> type_item_fits T t \<Longrightarrow>
      rt n (crate_ctx cr T) (ser_type_item t) (des_type_item f) (norm_type_item cr t)"
proof (induction m and t arbitrary: n f and n f)
  case (Module traits vis mis mcs)
  let ?body = "[ser_istrmap (map (map_prod id (\<lambda>e. ser_vis_ent (map_vis_ent ser_value_item e))) vis),
     ser_istrmap (map (map_prod id ser_vis_ent) (map (map_prod id (map_vis_ent ser_type_item)) mis)),
     ser_istrmap (map (map_prod id (\<lambda>e. ser_vis_ent (map_vis_ent ser_macro_item e))) mcs)]"
  have items: "rt k (crate_ctx cr T) (ser_istrmap (map (map_prod id ser_vis_ent) (map (map_prod id (map_vis_ent ser_type_item)) mis)))
      (des_istrumap (des_vis_ent (des_type_item j)))
      (umap_of_entries (map (map_prod id norm_vis) (map (map_prod id (map_vis_ent (norm_type_item cr))) mis)))" if "k \<le> j" for k j
  proof -
    have "rt k (crate_ctx cr T) (ser_type_item (ve_ent (snd e))) (des_type_item j) (norm_type_item cr (ve_ent (snd e)))"
      if e: "e \<in> set mis" for e
    proof (rule Module.IH [OF _ _ _ \<open>k \<le> j\<close>])
      show "type_item_fits T (ve_ent (snd e))"
        using Module.prems(2) e by (cases e; cases "snd e") (force simp: image_iff)
    qed (use e vis_ent_parts [OF e] in auto)
    then show ?thesis
      using rt_vis_items [of mis k "crate_ctx cr T" ser_type_item "des_type_item j" "norm_type_item cr"] by (simp add: comp_def map_prod_def split_def)
  qed
  have body: "rt k (crate_ctx cr T) (w_seq ?body) (rlift3 (Module [])
    (des_istrumap (des_vis_ent (des_value_item (Suc j)))) (des_istrumap (des_vis_ent (des_type_item j)))
    (des_istrumap (des_vis_ent (des_macro_item (Suc j))))) (norm_module cr (Module traits vis mis mcs))" if "k \<le> j" for k j
    unfolding norm_module.simps using Module.prems(2) that
    by (intro rt_lift3 items rt_vis_items rt_value_item [OF rd] rt_macro_item [OF rd]) auto
  show ?case unfolding ser_module.simps des_module_cases [of f]
  proof (rule rt_fuel [OF _ Module.prems(1)])
    show "grows (in_object ''HIR::Module'' ?body)" by (rule grows_in_object [OF _ body [OF order_refl]]) simp
  qed (intro rt_object body; simp)
next
  case (TI_Module e)
  then show ?case unfolding ser_type_item.simps des_type_item_cases [of f]
    by (intro rt_switch_fuel) (auto intro!: rt_map)
qed (simp only: ser_type_item.simps norm_type_item.simps, rule rt_type_item_leaf, assumption,
    (auto intro!: rt_map rt_lift3 rt_bool rt_word_count rt_extern_type item_rts [OF rd] simp del: des_type_item.simps)[1])+

section \<open>Implementations\<close>

lemma rt_vis_impl_ent:
  assumes "rt n C (s (vie_data (snd e))) d (g (vie_data (snd e)))"
  shows "rt n C (ser_vis_impl_ent s e) (des_pair read_istring (des_vis_impl_ent d)) (fst e, norm_vis_impl g (snd e))"
  unfolding ser_vis_impl_ent_def des_pair_def des_vis_impl_ent_def rlift2_def norm_vis_impl_def
  by (rule rt_bind [OF rt_istring], rule rt_map, rule rt_val)
     (rule rt_lift3 rt_pub [unfolded ser_publicity_def] rt_bool assms refl)+

lemma rt_impl_ent:
  assumes "rt n C (s (ie_data (snd e))) d (g (ie_data (snd e)))"
  shows "rt n C (ser_impl_ent s e) (des_pair read_istring (des_impl_ent d)) (fst e, norm_impl_ent g (snd e))"
  unfolding ser_impl_ent_def des_pair_def des_impl_ent_def rlift2_def norm_impl_ent_def
  by (rule rt_bind [OF rt_istring], rule rt_map, rule rt_val)
     (rule rt_lift2 [unfolded rlift2_def] rt_bool assms | simp)+

lemma rt_type_impl [item_rts]:
  assumes rd: "metadata_ok cr T" and n: "n \<le> f" and fits: "type_impl_fits T x"
  shows "rt n (crate_ctx cr T) (ser_type_impl x) (des_type_impl f) (norm_type_impl cr x)"
  unfolding ser_type_impl_def des_type_impl_def
  by (rule rt_val) (rule rt_lift4 rt_impl_entries rt_vis_impl_ent item_rts [OF rd]
      | (use n in simp; fail) | (use fits in \<open>simp add: type_impl_fits_def; fail\<close>) | simp add: norm_type_impl_def)+

lemma rt_trait_impl [item_rts]:
  assumes rd: "metadata_ok cr T" and n: "n \<le> f" and fits: "trait_impl_fits T x"
  shows "rt n (crate_ctx cr T) (ser_trait_impl x) (des_trait_impl f) (norm_trait_impl cr x)"
  unfolding ser_trait_impl_def des_trait_impl_def
  by (rule rt_val) (rule rt_bind rt_lift4 rt_impl_entries rt_impl_ent item_rts [OF rd]
      | (use n in simp; fail) | (use fits in \<open>simp add: trait_impl_fits_def; fail\<close>) | simp add: norm_trait_impl_def)+

lemma rt_marker_impl [item_rts]:
  assumes rd: "metadata_ok cr T" and n: "n \<le> f" and fits: "marker_impl_fits T x"
  shows "rt n (crate_ctx cr T) (ser_marker_impl x) (des_marker_impl f) (norm_marker_impl cr x)"
  unfolding ser_marker_impl_def des_marker_impl_def
  by (rule rt_val) (rule rt_lift4 rt_bool item_rts [OF rd]
      | (use n in simp; fail) | (use fits in \<open>simp add: marker_impl_fits_def; fail\<close>) | simp add: norm_marker_impl_def)+

section \<open>The crate\<close>

lemma rt_impl_group:
  assumes rd: "metadata_ok cr T" and ty: "length ty < 100" and fits: "group_fits P ig"
    and item: "\<And>k i. k \<le> n \<Longrightarrow> P i \<Longrightarrow> rt k (crate_ctx cr T) (put i) d (nf i)"
  shows "rt n (crate_ctx cr T) (ser_impl_group ty put ig) (des_impl_group ty d) (norm_impl_group cr nf ig)"
  unfolding ser_impl_group_def des_impl_group_def
  by (rule rt_val) (rule rt_lift3 rt_pathmap rd rt_vec ty item
      | (use fits in \<open>simp add: group_fits_def; fail\<close>) | simp add: norm_impl_group_def)+

lemma rt_type_impls:
  assumes rd: "metadata_ok cr T" and n: "n \<le> f" and fits: "group_fits (type_impl_fits T) ig"
  shows "rt n (crate_ctx cr T) (ser_impl_group ''unique_ptr<TypeImpl>'' ser_type_impl ig)
    (des_impl_group ''unique_ptr<TypeImpl>'' (des_type_impl f)) (norm_impl_group cr (norm_type_impl cr) ig)"
  by (rule rt_impl_group [OF rd _ fits]) (use n in \<open>auto intro: rt_type_impl [OF rd]\<close>)

lemma rt_trait_impls:
  assumes rd: "metadata_ok cr T" and n: "n \<le> f" and fits: "group_fits (trait_impl_fits T) ig"
  shows "rt n (crate_ctx cr T) (ser_impl_group ''unique_ptr<TraitImpl>'' ser_trait_impl ig)
    (des_impl_group ''unique_ptr<TraitImpl>'' (des_trait_impl f)) (norm_impl_group cr (norm_trait_impl cr) ig)"
  by (rule rt_impl_group [OF rd _ fits]) (use n in \<open>auto intro: rt_trait_impl [OF rd]\<close>)

lemma rt_marker_impls:
  assumes rd: "metadata_ok cr T" and n: "n \<le> f" and fits: "group_fits (marker_impl_fits T) ig"
  shows "rt n (crate_ctx cr T) (ser_impl_group ''unique_ptr<MarkerImpl>'' ser_marker_impl ig)
    (des_impl_group ''unique_ptr<MarkerImpl>'' (des_marker_impl f)) (norm_impl_group cr (norm_marker_impl cr) ig)"
  by (rule rt_impl_group [OF rd _ fits]) (use n in \<open>auto intro: rt_marker_impl [OF rd]\<close>)

lemma rt_ext_crates:
  "rt n C (ser_items (map (\<lambda>(n, e). w_seq [write_istring n, write_string (ec_basename e)]) m)) (des_istrumap des_ext_crate)
    (umap_of_entries (map (map_prod id (\<lambda>e. \<lparr>ec_basename = ec_basename e, ec_path = ec_basename e\<rparr>)) m))"
proof -
  have "rt n C (ser_istrmap (map (map_prod id (\<lambda>e. write_string (ec_basename e))) m)) (des_istrumap des_ext_crate)
    (umap_of_entries (map (map_prod id (\<lambda>e. \<lparr>ec_basename = ec_basename e, ec_path = ec_basename e\<rparr>)) m))"
    unfolding des_ext_crate_def by (rule rt_istrumap) (rule rt_map_eq [OF rt_string], simp)
  then show ?thesis by (simp add: ser_istrmap_def comp_def ser_istr_pair_def split_def)
qed

lemma rt_strumap:
  assumes "\<And>e. e \<in> set m \<Longrightarrow> rt n C (s (snd e)) d (f (snd e))"
  shows "rt n C (ser_strmap (map (map_prod id s) m)) (des_strumap d) (umap_of_entries (map (map_prod id f) m))"
  unfolding des_strumap_def
proof (rule rt_map)
  have "rt n C (ser_str_pair (map_prod id s e)) (des_pair read_string d) (map_prod id f e)" if "e \<in> set m" for e
    using assms [OF that] unfolding ser_str_pair_def des_pair_def
    by (cases e) (auto intro: rt_lift2 [OF rt_string, of n C _ _ _ _ Pair, simplified])
  then show "rt n C (ser_strmap (map (map_prod id s) m)) (des_items (des_pair read_string d)) (map (map_prod id f) m)"
    using rt_items [of m n C "ser_str_pair \<circ> map_prod id s" _ "map_prod id f"] by (simp add: ser_strmap_def)
qed

lemma rt_string_vec: "length ty < 100 \<Longrightarrow> rt n C (ser_vec ty (map write_string xs)) (des_vec ty read_string) xs"
  using string.vec [of ty n C xs] by simp

theorem rt_crate_body:
  assumes rd: "metadata_ok (cr_crate_name c) T" and n: "n \<le> f" and fits: "crate_fits T c"
  shows "rt n (crate_ctx (cr_crate_name c) T) (w_seq (ser_crate_body c)) (des_crate_body f (cr_crate_name c)) (norm_crate c)"
  unfolding ser_crate_body_def des_crate_body_def
  by (rule rt_val) (rule rt_bind rt_edition rt_module_type_item(1) [OF rd] rt_type_impls [OF rd]
        rt_trait_impls [OF rd] rt_marker_impls [OF rd] rt_pathmap rt_lift5
        rt_istring_vec rt_strumap rt_ext_crates rt_string_vec rd item_rts [OF rd]
      | (use n in simp; fail) | (use fits in \<open>simp add: crate_fits_def; fail\<close>) | simp add: norm_crate_def Let_def)+

end
