(* ===== verification/Reader_Total.thy ===== *)
theory Reader_Total
  imports Deserialise_Items Wire_Codec
begin

text \<open>
  Reading ends.  The recursive readers are given a number of levels; here it is shown that more
  levels than there are bytes left is enough, whatever the bytes are: a reader never runs out,
  and its result does not depend on the number.

  \<open>steady n d d'\<close> says that with at most \<open>n\<close> bytes left the readers \<open>d\<close> and \<open>d'\<close> do the same,
  leave no more bytes than there were and do not run out of levels.  The rules follow the combinators
  of the readers.  \<open>pays d\<close> says that \<open>d\<close> takes at least a byte when it succeeds; what comes after it
  has fewer bytes left, which pays for a level.
\<close>

definition steady :: "nat \<Rightarrow> ('t, 'a) rd \<Rightarrow> ('t, 'a) rd \<Rightarrow> bool" where
  "steady n d d' \<longleftrightarrow> (\<forall>r. r_ofs r \<le> length (r_backing r) \<longrightarrow> length (avail r) \<le> n \<longrightarrow>
     d r = d' r \<and> d r \<noteq> Inl Out_Of_Fuel \<and>
     (\<forall>x r'. d r = Inr (x, r') \<longrightarrow> r_ofs r' \<le> length (r_backing r') \<and> length (avail r') \<le> length (avail r)))"

definition pays :: "('t, 'a) rd \<Rightarrow> bool" where
  "pays d \<longleftrightarrow> (\<forall>r x r'. r_ofs r \<le> length (r_backing r) \<longrightarrow> d r = Inr (x, r') \<longrightarrow> length (avail r') < length (avail r))"

named_theorems steady_intros \<open>readers from their parts\<close>

section \<open>Sequencing\<close>

lemma steadyI:
  "(\<And>r. r_ofs r \<le> length (r_backing r) \<Longrightarrow> length (avail r) \<le> n \<Longrightarrow> d r = d' r \<and> d r \<noteq> Inl Out_Of_Fuel \<and>
     (\<forall>x r'. d r = Inr (x, r') \<longrightarrow> r_ofs r' \<le> length (r_backing r') \<and> length (avail r') \<le> length (avail r))) \<Longrightarrow>
   steady n d d'"
  unfolding steady_def by blast

lemma steady_mono: "steady n d d' \<Longrightarrow> m \<le> n \<Longrightarrow> steady m d d'"
  by (auto simp: steady_def)

lemma steady_pred: "steady n d d' \<Longrightarrow> steady (n - j) d d'"
  by (erule steady_mono) simp

lemma steady_ret [steady_intros]: "steady n (rret x) (rret x)"
  by (auto simp: steady_def rret_def)

lemma steady_fail [steady_intros]: "e \<noteq> Out_Of_Fuel \<Longrightarrow> steady n (rfail e) (rfail e)"
  by (auto simp: steady_def rfail_def)

lemma steady_bind [steady_intros]:
  assumes "steady n a a'" "\<And>x. steady n (k x) (k' x)"
  shows "steady n (rbind a k) (rbind a' k')"
proof (rule steadyI)
  fix r :: "'a rstate" assume r: "r_ofs r \<le> length (r_backing r)" "length (avail r) \<le> n"
  show "rbind a k r = rbind a' k' r \<and> rbind a k r \<noteq> Inl Out_Of_Fuel \<and>
     (\<forall>x r'. rbind a k r = Inr (x, r') \<longrightarrow> r_ofs r' \<le> length (r_backing r') \<and> length (avail r') \<le> length (avail r))"
  proof (cases "a r")
    case (Inr p)
    obtain x r1 where p: "p = (x, r1)" by (cases p)
    then have "a' r = Inr (x, r1)" "r_ofs r1 \<le> length (r_backing r1)" "length (avail r1) \<le> length (avail r)"
      using assms(1) r Inr by (auto simp: steady_def)
    then show ?thesis using assms(2) [of x] r Inr p by (fastforce simp: steady_def rbind_def)
  qed (use assms(1) r in \<open>auto simp: steady_def rbind_def\<close>)
qed

lemma steady_pay:
  assumes "steady n a a'" "pays a" "\<And>x. 0 < n \<Longrightarrow> steady (n - 1) (k x) (k' x)"
  shows "steady n (rbind a k) (rbind a' k')"
proof (rule steadyI)
  fix r :: "'a rstate" assume r: "r_ofs r \<le> length (r_backing r)" "length (avail r) \<le> n"
  show "rbind a k r = rbind a' k' r \<and> rbind a k r \<noteq> Inl Out_Of_Fuel \<and>
     (\<forall>x r'. rbind a k r = Inr (x, r') \<longrightarrow> r_ofs r' \<le> length (r_backing r') \<and> length (avail r') \<le> length (avail r))"
  proof (cases "a r")
    case (Inr p)
    obtain x r1 where p: "p = (x, r1)" by (cases p)
    then have r1: "a' r = Inr (x, r1)" "r_ofs r1 \<le> length (r_backing r1)" "length (avail r1) < length (avail r)"
      using assms(1,2) r Inr by (auto simp: steady_def pays_def)
    then have "steady (n - 1) (k x) (k' x)" using assms(3) r by simp
    moreover have "length (avail r1) \<le> n - 1" using r1 r by simp
    ultimately show ?thesis using r1 Inr p by (fastforce simp: steady_def rbind_def)
  qed (use assms(1) r in \<open>auto simp: steady_def rbind_def\<close>)
qed

lemma pays_bind: "pays a \<Longrightarrow> (\<And>n x. steady n (k x) (k x)) \<Longrightarrow> (\<And>n. steady n a a) \<Longrightarrow> pays (rbind a k)"
  unfolding pays_def
proof (intro allI impI)
  fix r x r'
  assume a: "\<forall>r x r'. r_ofs r \<le> length (r_backing r) \<longrightarrow> a r = Inr (x, r') \<longrightarrow> length (avail r') < length (avail r)"
    "\<And>n x. steady n (k x) (k x)" "\<And>n. steady n a a" "r_ofs r \<le> length (r_backing r)" "rbind a k r = Inr (x, r')"
  then obtain y r1 where y: "a r = Inr (y, r1)" "k y r1 = Inr (x, r')"
    by (auto simp: rbind_def)
  then have "length (avail r1) < length (avail r)" "r_ofs r1 \<le> length (r_backing r1)"
    using a(1) a(3) [of "length (avail r)"] a(4) by (auto simp: steady_def)
  then show "length (avail r') < length (avail r)"
    using a(2) [of "length (avail r1)" y] y(2) by (fastforce simp: steady_def)
qed

lemma steady_map [steady_intros]: "steady n a a' \<Longrightarrow> steady n (rmap f a) (rmap f a')"
  unfolding rmap_def by (intro steady_bind steady_ret)

lemma pays_map: "pays a \<Longrightarrow> pays (rmap f a)"
  unfolding pays_def rmap_def rbind_def rret_def by auto

lemma steady_lift2 [steady_intros]:
  "steady n a a' \<Longrightarrow> steady n b b' \<Longrightarrow> steady n (rlift2 f a b) (rlift2 f a' b')"
  unfolding rlift2_def by (intro steady_bind steady_map)

lemma steady_lift3 [steady_intros]:
  "steady n a a' \<Longrightarrow> steady n b b' \<Longrightarrow> steady n c c' \<Longrightarrow> steady n (rlift3 f a b c) (rlift3 f a' b' c')"
  unfolding rlift3_def by (intro steady_bind steady_lift2)

lemma steady_lift4 [steady_intros]:
  "steady n a a' \<Longrightarrow> steady n b b' \<Longrightarrow> steady n c c' \<Longrightarrow> steady n d d' \<Longrightarrow>
    steady n (rlift4 f a b c d) (rlift4 f a' b' c' d')"
  unfolding rlift4_def by (intro steady_bind steady_lift3)

lemma steady_lift5 [steady_intros]:
  "steady n a a' \<Longrightarrow> steady n b b' \<Longrightarrow> steady n c c' \<Longrightarrow> steady n d d' \<Longrightarrow> steady n e e' \<Longrightarrow>
    steady n (rlift5 f a b c d e) (rlift5 f a' b' c' d' e')"
  unfolding rlift5_def by (intro steady_bind steady_lift4)

lemma steady_lift6 [steady_intros]:
  "steady n a a' \<Longrightarrow> steady n b b' \<Longrightarrow> steady n c c' \<Longrightarrow> steady n d d' \<Longrightarrow> steady n e e' \<Longrightarrow> steady n g g' \<Longrightarrow>
    steady n (rlift6 f a b c d e g) (rlift6 f a' b' c' d' e' g')"
  unfolding rlift6_def by (intro steady_bind steady_lift5)

lemma steady_if [steady_intros]:
  "(b \<Longrightarrow> steady n d d') \<Longrightarrow> (\<not> b \<Longrightarrow> steady n e e') \<Longrightarrow> steady n (if b then d else e) (if b then d' else e')"
  by simp

lemma steady_if_state [steady_intros]:
  "(b \<Longrightarrow> steady n d d') \<Longrightarrow> (\<not> b \<Longrightarrow> steady n e e') \<Longrightarrow>
    steady n (\<lambda>r. if b then d r else e r) (\<lambda>r. if b then d' r else e' r)"
  by (cases b) simp_all

section \<open>The primitives\<close>

lemma steady_bytes [steady_intros]: "steady n (read_bytes k) (read_bytes k)"
proof (rule steadyI, intro conjI allI impI)
  fix r :: "'t rstate" and x r' assume "r_ofs r \<le> length (r_backing r)" "read_bytes k r = Inr (x, r')"
  then show "r_ofs r' \<le> length (r_backing r')" "length (avail r') \<le> length (avail r)"
    by (auto simp: read_bytes_def read_buffer_read_def read_buffer_populate_def inner_read_def avail_def Let_def
        min_def split: if_splits)
next
  fix r :: "'t rstate"
  show "read_bytes k r \<noteq> Inl Out_Of_Fuel"
    by (auto simp: read_bytes_def Let_def split: prod.splits)
qed simp

lemma pays_u8: "pays read_u8"
  unfolding read_u8_def
proof (rule pays_map, unfold pays_def, intro allI impI)
  fix r :: "'t rstate" and x r' assume r: "r_ofs r \<le> length (r_backing r)" "read_bytes 1 r = Inr (x, r')"
  show "length (avail r') < length (avail r)"
  proof (cases "avail r = []")
    case True
    then show ?thesis using r
      by (auto simp: read_bytes_def read_buffer_read_def read_buffer_populate_def inner_read_def avail_def Let_def
        read_buffer_capacity_def split: if_splits)
  next
    case False
    then show ?thesis using read_bytes_avail [OF r(1), of 1] r(2) by (cases "avail r") auto
  qed
qed

lemma steady_u8 [steady_intros]: "steady n read_u8 read_u8"
  unfolding read_u8_def by (intro steady_intros)

lemma steady_u16 [steady_intros]: "steady n read_u16 read_u16"
  unfolding read_u16_def by (intro steady_intros)

lemma steady_u32 [steady_intros]: "steady n read_u32 read_u32"
  unfolding read_u32_def by (intro steady_intros)

lemma steady_u64 [steady_intros]: "steady n read_u64 read_u64"
  unfolding read_u64_def by (intro steady_intros)

lemma steady_u128 [steady_intros]: "steady n read_u128 read_u128"
  unfolding read_u128_def by (intro steady_intros)

lemma steady_i128 [steady_intros]: "steady n read_i128 read_i128"
  unfolding read_i128_def by (intro steady_intros)

lemma steady_double [steady_intros]: "steady n read_double read_double"
  unfolding read_double_def by (intro steady_intros)

lemma steady_u64c [steady_intros]: "steady n read_u64c read_u64c"
  unfolding read_u64c_def by (intro steady_intros)

lemma steady_i64c [steady_intros]: "steady n read_i64c read_i64c"
  unfolding read_i64c_def Let_def by (intro steady_intros)

lemma steady_tag [steady_intros]: "steady n read_tag read_tag"
  unfolding read_tag_def by (intro steady_intros)

lemma pays_tag: "pays read_tag"
  unfolding read_tag_def by (intro pays_map pays_u8)

lemma steady_count [steady_intros]: "steady n read_count read_count"
  unfolding read_count_def by (intro steady_intros)

lemma pays_count: "pays read_count"
  unfolding read_count_def by (intro pays_bind pays_u8 steady_intros)

lemma steady_istring [steady_intros]: "steady n read_istring read_istring"
  unfolding read_istring_def by (intro steady_bind steady_count) (auto simp: steady_def)

lemma steady_string [steady_intros]: "steady n read_string read_string"
  unfolding read_string_def Let_def by (intro steady_intros)

lemma pays_istring: "pays read_istring"
  unfolding read_istring_def
  by (intro pays_bind pays_count steady_count) (auto simp: steady_def)

lemma steady_bool [steady_intros]: "steady n read_bool read_bool"
  unfolding read_bool_def by (intro steady_intros) simp

lemma steady_uint_bytes [steady_intros]: "steady n (raw_read_uint_bytes k p v) (raw_read_uint_bytes k p v)"
  by (induction k arbitrary: p v) (auto intro: steady_intros)

lemma steady_uint [steady_intros]: "steady n raw_read_uint raw_read_uint"
  unfolding raw_read_uint_def by (intro steady_intros) simp

lemma steady_len [steady_intros]: "steady n raw_read_len raw_read_len"
  unfolding raw_read_len_def by (intro steady_intros) simp_all

lemma steady_stdstring [steady_intros]: "steady n raw_read_bytes_stdstring raw_read_bytes_stdstring"
  unfolding raw_read_bytes_stdstring_def by (intro steady_intros)

lemma steady_objname [steady_intros]:
  "steady n (\<lambda>r. if k = length (r_objnames r)
                  then rbind raw_read_bytes_stdstring (\<lambda>s r. Inr ((), r\<lparr>r_objnames := r_objnames r @ [s]\<rparr>)) r
                  else Inr ((), r))
           (\<lambda>r. if k = length (r_objnames r)
                  then rbind raw_read_bytes_stdstring (\<lambda>s r. Inr ((), r\<lparr>r_objnames := r_objnames r @ [s]\<rparr>)) r
                  else Inr ((), r))"
proof -
  have "steady n (rbind raw_read_bytes_stdstring (\<lambda>s r. Inr ((), r\<lparr>r_objnames := r_objnames r @ [s]\<rparr>)))
      (rbind raw_read_bytes_stdstring (\<lambda>s r. Inr ((), r\<lparr>r_objnames := r_objnames r @ [s]\<rparr>)))" for n
    by (intro steady_intros) (auto simp: steady_def avail_def)
  then show ?thesis by (auto simp: steady_def)
qed

lemma steady_open_rest:
  "steady n (rbind raw_read_uint (\<lambda>key.
       rbind (\<lambda>r. if unat key = length (r_objnames r)
                  then rbind raw_read_bytes_stdstring (\<lambda>s r. Inr ((), r\<lparr>r_objnames := r_objnames r @ [s]\<rparr>)) r
                  else Inr ((), r))
         (\<lambda>_ r. if \<not> unat key < length (r_objnames r) then Inl (Assert_Fail ''key < m_objname_cache.size()'')
                else if r_objnames r ! unat key \<noteq> name then Inl (Runtime_Error ''Expecting OpenNamed'')
                else Inr ((), r))))
   (rbind raw_read_uint (\<lambda>key.
       rbind (\<lambda>r. if unat key = length (r_objnames r)
                  then rbind raw_read_bytes_stdstring (\<lambda>s r. Inr ((), r\<lparr>r_objnames := r_objnames r @ [s]\<rparr>)) r
                  else Inr ((), r))
         (\<lambda>_ r. if \<not> unat key < length (r_objnames r) then Inl (Assert_Fail ''key < m_objname_cache.size()'')
                else if r_objnames r ! unat key \<noteq> name then Inl (Runtime_Error ''Expecting OpenNamed'')
                else Inr ((), r))))"
  by (intro steady_bind steady_uint steady_objname) (auto simp: steady_def)

lemma steady_open_object [steady_intros]: "steady n (r_open_object name) (r_open_object name)"
  unfolding r_open_object_def by (intro steady_bind steady_u8 steady_if steady_fail steady_open_rest) simp

lemma pays_open_object: "pays (r_open_object name)"
  unfolding r_open_object_def by (intro pays_bind pays_u8 steady_u8 steady_if steady_fail steady_open_rest) simp

lemma steady_close_object [steady_intros]: "steady n r_close_object r_close_object"
  unfolding r_close_object_def by (intro steady_intros) simp

section \<open>Objects, containers, tagged values\<close>

lemma steady_object [steady_intros]: "steady n d d' \<Longrightarrow> steady n (r_in_object name d) (r_in_object name d')"
  unfolding r_in_object_def by (intro steady_intros)

lemma steady_object_pay: "(0 < n \<Longrightarrow> steady (n - 1) d d') \<Longrightarrow> steady n (r_in_object name d) (r_in_object name d')"
  unfolding r_in_object_def
  by (rule steady_pay [OF steady_open_object pays_open_object]) (intro steady_bind steady_close_object steady_ret; simp)

lemma pays_object: "(\<And>n. steady n d d) \<Longrightarrow> pays (r_in_object name d)"
  unfolding r_in_object_def by (intro pays_bind pays_open_object steady_intros)

lemma steady_times [steady_intros]: "steady n d d' \<Longrightarrow> steady n (read_times k d) (read_times k d')"
  by (induction k) (auto intro: steady_intros)

lemma steady_items [steady_intros]: "steady n d d' \<Longrightarrow> steady n (des_items d) (des_items d')"
  unfolding des_items_def by (intro steady_intros)

lemma steady_vec [steady_intros]: "steady n d d' \<Longrightarrow> steady n (des_vec ty d) (des_vec ty d')"
  unfolding des_vec_def by (intro steady_intros)

lemma steady_vec_pay: "(0 < n \<Longrightarrow> steady (n - 1) d d') \<Longrightarrow> steady n (des_vec ty d) (des_vec ty d')"
  unfolding des_vec_def by (intro steady_object_pay steady_items)

lemma steady_thinvec [steady_intros]: "steady n d d' \<Longrightarrow> steady n (des_thinvec ty d) (des_thinvec ty d')"
  unfolding des_thinvec_def by (intro steady_intros)

lemma steady_pair [steady_intros]: "steady n a a' \<Longrightarrow> steady n b b' \<Longrightarrow> steady n (des_pair a b) (des_pair a' b')"
  unfolding des_pair_def by (intro steady_intros)

lemma steady_pair_pay:
  "steady n a a' \<Longrightarrow> pays a \<Longrightarrow> (0 < n \<Longrightarrow> steady (n - 1) b b') \<Longrightarrow> steady n (des_pair a b) (des_pair a' b')"
  unfolding des_pair_def rlift2_def by (intro steady_pay steady_map)

lemma steady_istrmap [steady_intros]: "steady n d d' \<Longrightarrow> steady n (des_istrmap d) (des_istrmap d')"
  unfolding des_istrmap_def by (intro steady_intros)

lemma steady_opt [steady_intros]: "steady n d d' \<Longrightarrow> steady n (des_opt d) (des_opt d')"
  unfolding des_opt_def by (intro steady_intros)

lemma steady_set [steady_intros]: "steady n d d' \<Longrightarrow> steady n (des_set ty cmp d) (des_set ty cmp d')"
  unfolding des_set_def by (intro steady_intros)

lemma steady_istrumap [steady_intros]: "steady n d d' \<Longrightarrow> steady n (des_istrumap d) (des_istrumap d')"
  unfolding des_istrumap_def by (intro steady_intros)

lemma steady_istrummap [steady_intros]: "steady n d d' \<Longrightarrow> steady n (des_istrummap d) (des_istrummap d')"
  unfolding des_istrummap_def by (intro steady_intros)

lemma steady_strumap [steady_intros]: "steady n d d' \<Longrightarrow> steady n (des_strumap d) (des_strumap d')"
  unfolding des_strumap_def by (intro steady_intros)

definition steady_alts :: "nat \<Rightarrow> (nat \<times> ('t, 'a) rd) list \<Rightarrow> (nat \<times> ('t, 'a) rd) list \<Rightarrow> bool" where
  "steady_alts n as as' \<longleftrightarrow> list_all2 (\<lambda>a a'. fst a = fst a' \<and> steady n (snd a) (snd a')) as as'"

lemma steady_alts_Nil [steady_intros]: "steady_alts n [] []"
  by (simp add: steady_alts_def)

lemma steady_alts_Cons [steady_intros]:
  "steady n d d' \<Longrightarrow> steady_alts n as as' \<Longrightarrow> steady_alts n ((t, d) # as) ((t, d') # as')"
  by (simp add: steady_alts_def)

lemma steady_alts_of:
  "steady_alts n as as' \<Longrightarrow> steady n (case map_of as t of Some d \<Rightarrow> d | None \<Rightarrow> rfail (Bug e))
    (case map_of as' t of Some d \<Rightarrow> d | None \<Rightarrow> rfail (Bug e))"
  unfolding steady_alts_def by (induction rule: list_all2_induct) (auto intro: steady_intros)

lemma steady_switch [steady_intros]: "steady_alts n as as' \<Longrightarrow> steady n (des_switch what as) (des_switch what as')"
  unfolding des_switch_def by (intro steady_bind steady_tag steady_alts_of)

lemma steady_switch_pay:
  "(0 < n \<Longrightarrow> steady_alts (n - 1) as as') \<Longrightarrow> steady n (des_switch what as) (des_switch what as')"
  unfolding des_switch_def by (intro steady_pay steady_tag pays_tag steady_alts_of)

lemma steady_enum [steady_intros]: "steady n (des_enum xs) (des_enum xs)"
  unfolding des_enum_def by (intro steady_intros) simp

lemma steady_word_count [steady_intros]: "steady n read_word_count read_word_count"
  unfolding read_word_count_def by (intro steady_intros)

section \<open>Paths, literals, MIR\<close>

lemma steady_lifetime_def [steady_intros]: "steady n des_lifetime_def des_lifetime_def"
  unfolding des_lifetime_def_def by (intro steady_intros)

lemma steady_lifetime_ref [steady_intros]: "steady n des_lifetime_ref des_lifetime_ref"
  unfolding des_lifetime_ref_def by (intro steady_intros)

lemma steady_generic_ref [steady_intros]: "steady n des_generic_ref des_generic_ref"
  unfolding des_generic_ref_def by (intro steady_intros)

lemma steady_array_size [steady_intros]: "steady n dv dv' \<Longrightarrow> steady n (des_array_size dv) (des_array_size dv')"
  unfolding des_array_size_def by (intro steady_intros)

lemma steady_simple_path [steady_intros]: "steady n des_simple_path des_simple_path"
  unfolding des_simple_path_def by (intro steady_bind steady_thinvec steady_istring) (auto simp: steady_def Let_def)

lemma pays_simple_path: "pays des_simple_path"
  unfolding des_simple_path_def des_thinvec_def
  by (intro pays_bind pays_object steady_intros) (auto simp: steady_def Let_def)

lemma steady_pathmap [steady_intros]: "steady n d d' \<Longrightarrow> steady n (des_pathmap d) (des_pathmap d')"
  unfolding des_pathmap_def by (intro steady_intros)

lemma steady_path_params [steady_intros]:
  "steady n dt dt' \<Longrightarrow> steady n dv dv' \<Longrightarrow> steady n (des_path_params dt dv) (des_path_params dt' dv')"
  unfolding des_path_params_def by (intro steady_intros)

lemma steady_generic_path [steady_intros]:
  "steady n dt dt' \<Longrightarrow> steady n dv dv' \<Longrightarrow> steady n (des_generic_path dt dv) (des_generic_path dt' dv')"
  unfolding des_generic_path_def by (intro steady_intros)

lemma steady_aty_equal [steady_intros]:
  "steady n dt dt' \<Longrightarrow> steady n dv dv' \<Longrightarrow> steady n (des_aty_equal dt dv) (des_aty_equal dt' dv')"
  unfolding des_aty_equal_def by (intro steady_intros)

lemma steady_aty_bound [steady_intros]:
  "steady n dt dt' \<Longrightarrow> steady n dv dv' \<Longrightarrow> steady n tp tp' \<Longrightarrow>
    steady n (des_aty_bound dt dv tp) (des_aty_bound dt' dv' tp')"
  unfolding des_aty_bound_def by (intro steady_intros)

lemma steady_trait_path [steady_intros]:
  "n < f \<Longrightarrow> n < f' \<Longrightarrow> steady n dt dt' \<Longrightarrow> steady n dv dv' \<Longrightarrow> steady n dg dg' \<Longrightarrow>
    steady n (des_trait_path f dt dv dg) (des_trait_path f' dt' dv' dg')"
proof (induction n arbitrary: f f')
  case (Suc n)
  obtain k k' where k: "f = Suc k" "f' = Suc k'" using Suc.prems(1,2) by (cases f; cases f') auto
  have "steady n (des_trait_path k dt dv dg) (des_trait_path k' dt' dv' dg')"
    using Suc.prems k by (intro Suc.IH) (auto intro: steady_mono)
  moreover have "steady n dt dt'" "steady n dv dv'" "steady n dg dg'"
    using Suc.prems(3-5) by (auto intro: steady_mono)
  ultimately show ?case unfolding k des_trait_path.simps
    by (intro steady_object_pay) (simp only: diff_Suc_1, intro steady_lift4 steady_opt steady_generic_path steady_istrmap
        steady_aty_equal steady_aty_bound)
next
  case 0
  then show ?case by (cases f; cases f') (auto intro: steady_object_pay)
qed

lemma steady_path [steady_intros]:
  "steady n dt dt' \<Longrightarrow> steady n dv dv' \<Longrightarrow> steady n (des_path dt dv) (des_path dt' dv')"
  unfolding des_path_def by (intro steady_intros)

lemma steady_reloc [steady_intros]:
  "steady n dt dt' \<Longrightarrow> steady n dv dv' \<Longrightarrow> steady n (des_reloc dt dv) (des_reloc dt' dv')"
  unfolding des_reloc_def by (intro steady_intros) simp_all

lemma steady_des_bytes [steady_intros]: "steady n des_bytes des_bytes"
  unfolding des_bytes_def by (intro steady_intros)

lemma steady_literal [steady_intros]:
  "steady n dt dt' \<Longrightarrow> steady n dv dv' \<Longrightarrow> steady n (des_encoded_literal dt dv) (des_encoded_literal dt' dv')"
  unfolding des_encoded_literal_def by (intro steady_intros)

lemma steady_result:
  "x \<noteq> Inl Out_Of_Fuel \<Longrightarrow> steady n (\<lambda>r. res_bind x (\<lambda>s. Inr (s, r))) (\<lambda>r. res_bind x (\<lambda>s. Inr (s, r)))"
  by (cases x) (auto simp: steady_def)

lemma steady_storage [steady_intros]:
  "steady n dt dt' \<Longrightarrow> steady n dv dv' \<Longrightarrow> steady n (des_storage dt dv) (des_storage dt' dv')"
  unfolding des_storage_def
  by (intro steady_bind steady_count steady_if steady_map steady_path steady_result)
     (auto simp: storage_from_inner_def split: if_splits)

lemma steady_lvalue [steady_intros]:
  "steady n dt dt' \<Longrightarrow> steady n dv dv' \<Longrightarrow> steady n (des_lvalue dt dv) (des_lvalue dt' dv')"
  unfolding des_lvalue_def by (intro steady_intros)


section \<open>MIR\<close>

lemma steady_core_type [steady_intros]: "steady n des_core_type des_core_type"
  unfolding des_core_type_def by (intro steady_intros)

lemma steady_borrow_type [steady_intros]: "steady n des_borrow_type des_borrow_type"
  unfolding des_borrow_type_def by (intro steady_intros)

lemma steady_mir_constant [steady_intros]:
  "steady n dt dt' \<Longrightarrow> steady n dv dv' \<Longrightarrow> steady n (des_mir_constant dt dv) (des_mir_constant dt' dv')"
  unfolding des_mir_constant_def by (intro steady_intros)

lemma steady_param [steady_intros]:
  "steady n dt dt' \<Longrightarrow> steady n dv dv' \<Longrightarrow> steady n (des_param dt dv) (des_param dt' dv')"
  unfolding des_param_def by (intro steady_intros)

lemma steady_params [steady_intros]:
  "steady n dt dt' \<Longrightarrow> steady n dv dv' \<Longrightarrow> steady n (des_params dt dv) (des_params dt' dv')"
  unfolding des_params_def by (intro steady_intros)

lemma steady_meta_val [steady_intros]:
  "steady n dt dt' \<Longrightarrow> steady n dv dv' \<Longrightarrow> steady n (des_meta_val dt dv) (des_meta_val dt' dv')"
  unfolding des_meta_val_def by (intro steady_intros)

lemma steady_rvalue [steady_intros]:
  "steady n dt dt' \<Longrightarrow> steady n dv dv' \<Longrightarrow> steady n (des_rvalue dt dv) (des_rvalue dt' dv')"
  unfolding des_rvalue_def by (intro steady_intros)

lemma steady_call_target [steady_intros]:
  "steady n dt dt' \<Longrightarrow> steady n dv dv' \<Longrightarrow> steady n (des_call_target dt dv) (des_call_target dt' dv')"
  unfolding des_call_target_def by (intro steady_intros)

lemma steady_strings [steady_intros]: "steady n des_strings des_strings"
  unfolding des_strings_def by (intro steady_intros)

lemma steady_switch_values [steady_intros]: "steady n des_switch_values des_switch_values"
  unfolding des_switch_values_def by (intro steady_intros)

lemma steady_targets [steady_intros]: "steady n des_targets des_targets"
  unfolding des_targets_def by (intro steady_intros)

lemma steady_terminator [steady_intros]:
  "steady n dt dt' \<Longrightarrow> steady n dv dv' \<Longrightarrow> steady n (des_terminator dt dv) (des_terminator dt' dv')"
  unfolding des_terminator_def by (intro steady_intros)

lemma steady_line_fragment [steady_intros]: "steady n des_line_fragment des_line_fragment"
  unfolding des_line_fragment_def by (intro steady_intros)

lemma steady_asm_line [steady_intros]: "steady n des_asm_line des_asm_line"
  unfolding des_asm_line_def by (intro steady_intros)

lemma steady_register_spec [steady_intros]: "steady n des_register_spec des_register_spec"
  unfolding des_register_spec_def by (intro steady_intros)

lemma steady_asm_param [steady_intros]:
  "steady n dt dt' \<Longrightarrow> steady n dv dv' \<Longrightarrow> steady n (des_asm_param dt dv) (des_asm_param dt' dv')"
  unfolding des_asm_param_def by (intro steady_intros)

lemma steady_asm_options [steady_intros]: "steady n des_asm_options des_asm_options"
  unfolding des_asm_options_def by (intro steady_intros)

lemma steady_asm_specs [steady_intros]:
  "steady n dt dt' \<Longrightarrow> steady n dv dv' \<Longrightarrow> steady n (des_asm_specs dt dv) (des_asm_specs dt' dv')"
  unfolding des_asm_specs_def by (intro steady_intros)

lemma steady_statement_body [steady_intros]:
  "steady n dt dt' \<Longrightarrow> steady n dv dv' \<Longrightarrow> steady n (des_statement_body dt dv) (des_statement_body dt' dv')"
  unfolding des_statement_body_def by (intro steady_intros)

lemma steady_statement [steady_intros]:
  "steady n dt dt' \<Longrightarrow> steady n dv dv' \<Longrightarrow> steady n (des_statement dt dv) (des_statement dt' dv')"
  unfolding des_statement_def by (intro steady_intros)

lemma steady_basic_block [steady_intros]:
  "steady n dt dt' \<Longrightarrow> steady n dv dv' \<Longrightarrow> steady n (des_basic_block dt dv) (des_basic_block dt' dv')"
  unfolding des_basic_block_def by (intro steady_intros)

lemma steady_mir_function [steady_intros]:
  "steady n dt dt' \<Longrightarrow> steady n dv dv' \<Longrightarrow> steady n (des_mir_function dt dv) (des_mir_function dt' dv')"
  unfolding des_mir_function_def by (intro steady_intros)

lemma steady_expr_ptr [steady_intros]:
  "steady n dt dt' \<Longrightarrow> steady n dv dv' \<Longrightarrow> steady n (des_expr_ptr dt dv) (des_expr_ptr dt' dv')"
  unfolding des_expr_ptr_def by (intro steady_intros)

section \<open>Types\<close>

lemma steady_type_param_def [steady_intros]:
  "steady n dt dt' \<Longrightarrow> steady n (des_type_param_def dt) (des_type_param_def dt')"
  unfolding des_type_param_def_def by (intro steady_intros)

lemma steady_value_param_def [steady_intros]:
  "steady n dt dt' \<Longrightarrow> steady n (des_value_param_def dt) (des_value_param_def dt')"
  unfolding des_value_param_def_def by (intro steady_intros)

lemma steady_generic_bound [steady_intros]:
  "n < f \<Longrightarrow> n < f' \<Longrightarrow> steady n dt dt' \<Longrightarrow> steady n dv dv' \<Longrightarrow> steady n dg dg' \<Longrightarrow>
    steady n (des_generic_bound f dt dv dg) (des_generic_bound f' dt' dv' dg')"
  unfolding des_generic_bound_def by (intro steady_intros)

lemma steady_unevaluated [steady_intros]:
  "steady n dt dt' \<Longrightarrow> steady n dv dv' \<Longrightarrow> steady n (des_unevaluated dt dv) (des_unevaluated dt' dv')"
  unfolding des_unevaluated_def by (intro steady_intros)

lemma steady_type_data [steady_intros]:
  "n < f \<Longrightarrow> n < f' \<Longrightarrow> steady n dt dt' \<Longrightarrow> steady n dv dv' \<Longrightarrow> steady n dg dg' \<Longrightarrow>
    steady n (des_type_data f dt dv dg) (des_type_data f' dt' dv' dg')"
  unfolding des_type_data_def by (intro steady_intros) simp_all

lemma steady_cached:
  assumes "0 < n \<Longrightarrow> steady (n - 1) d d'"
  shows "steady n (des_cached d) (des_cached d')"
  unfolding des_cached_def
proof (intro steady_bind steady_count steady_if steady_object_pay)
  fix idx :: nat assume "0 < n"
  from assms [OF this] show "steady (n - 1) d d'" .
next
  fix rv :: 'a
  show "steady (n - 1) (\<lambda>r. Inr (rv, r\<lparr>r_types := r_types r @ [rv]\<rparr>)) (\<lambda>r. Inr (rv, r\<lparr>r_types := r_types r @ [rv]\<rparr>))"
    by (auto simp: steady_def avail_def)
qed (auto simp: steady_def)

lemma steady_types:
  "n < f \<Longrightarrow> n < f' \<Longrightarrow>
    steady n (des_type f) (des_type f') \<and> steady n (des_const_generic f) (des_const_generic f') \<and>
    steady n (des_generics f) (des_generics f')"
proof (induction n arbitrary: f f' rule: less_induct)
  case (less n)
  obtain k k' where k: "f = Suc k" "f' = Suc k'" using less.prems by (cases f; cases f') auto
  have parts: "steady (n - 1) (des_type k) (des_type k')" "steady (n - 1) (des_const_generic k) (des_const_generic k')"
    "steady (n - 1) (des_generics k) (des_generics k')" if "0 < n"
    using less.IH [of "n - 1" k k'] less.prems k that by auto
  have fuel: "n - 1 < k" "n - 1 < k'" if "0 < n" using less.prems k that by auto
  have "steady n (des_type f) (des_type f')" unfolding k des_type.simps des_const_generic.simps des_generics.simps
    by (intro steady_cached steady_type_data parts fuel)
  moreover have "steady n (des_const_generic f) (des_const_generic f')"
    unfolding k des_type.simps des_const_generic.simps des_generics.simps des_const_generic_of_def
    by (intro steady_switch_pay steady_alts_Nil steady_alts_Cons steady_ret steady_map steady_unevaluated steady_generic_ref
        steady_literal parts)
  moreover have "steady n (des_generics f) (des_generics f')"
    unfolding k des_type.simps des_const_generic.simps des_generics.simps des_generics_of_def
    by (intro steady_lift4 steady_vec_pay steady_type_param_def steady_value_param_def steady_lifetime_def
        steady_generic_bound parts fuel)
  ultimately show ?case by blast
qed

lemma steady_des_type [steady_intros]: "n < f \<Longrightarrow> n < f' \<Longrightarrow> steady n (des_type f) (des_type f')"
  and steady_des_const_generic [steady_intros]: "n < f \<Longrightarrow> n < f' \<Longrightarrow> steady n (des_const_generic f) (des_const_generic f')"
  and steady_des_generics [steady_intros]: "n < f \<Longrightarrow> n < f' \<Longrightarrow> steady n (des_generics f) (des_generics f')"
  using steady_types by blast+

section \<open>Macros\<close>

lemma steady_mod_path [steady_intros]: "steady n des_mod_path des_mod_path"
  unfolding des_mod_path_def by (intro steady_bind steady_istring steady_vec) (auto simp: steady_def)

lemma steady_hygiene [steady_intros]: "steady n des_hygiene des_hygiene"
  unfolding des_hygiene_def by (intro steady_intros)

lemma steady_token_data [steady_intros]: "steady n des_token_data des_token_data"
  unfolding des_token_data_def by (intro steady_intros)

lemma steady_token [steady_intros]: "steady n des_token des_token"
  unfolding des_token_def by (intro steady_intros)

lemma steady_pat_type [steady_intros]: "steady n des_pat_type des_pat_type"
  unfolding des_pat_type_def by (intro steady_intros)

lemma steady_simple_pat_if_check [steady_intros]: "steady n des_simple_pat_if_check des_simple_pat_if_check"
  unfolding des_simple_pat_if_check_def by (intro steady_intros)

lemma steady_simple_pat_ent [steady_intros]: "steady n des_simple_pat_ent des_simple_pat_ent"
  unfolding des_simple_pat_ent_def by (intro steady_intros)

lemma steady_edition [steady_intros]: "steady n des_edition des_edition"
  unfolding des_edition_def by (intro steady_intros)

lemma steady_macro_expansion_ent [steady_intros]:
  "n < f \<Longrightarrow> n < f' \<Longrightarrow> steady n (des_macro_expansion_ent f :: ('t, macro_expansion_ent) rd) (des_macro_expansion_ent f')"
proof (induction n arbitrary: f f' rule: less_induct)
  case (less n)
  obtain k k' where k: "f = Suc k" "f' = Suc k'" using less.prems by (cases f; cases f') auto
  have parts: "steady (n - 1) (des_macro_expansion_ent k :: ('t, macro_expansion_ent) rd) (des_macro_expansion_ent k')" if "0 < n"
    by (rule less.IH) (use less.prems k that in linarith)+
  show ?case unfolding k des_macro_expansion_ent.simps
    by (intro steady_switch_pay steady_alts_Nil steady_alts_Cons steady_map steady_lift2 steady_lift3 steady_token steady_u8
        steady_word_count steady_vec steady_set parts)
qed

lemma steady_macro_rules_arm [steady_intros]: "n < f \<Longrightarrow> n < f' \<Longrightarrow> steady n (des_macro_rules_arm f) (des_macro_rules_arm f')"
  unfolding des_macro_rules_arm_def by (intro steady_intros)

lemma steady_macro_rules [steady_intros]: "n < f \<Longrightarrow> n < f' \<Longrightarrow> steady n (des_macro_rules f) (des_macro_rules f')"
  unfolding des_macro_rules_def by (intro steady_intros)

section \<open>Items\<close>

lemma steady_get_path_params [steady_intros]: "n < f \<Longrightarrow> n < f' \<Longrightarrow> steady n (get_path_params f) (get_path_params f')"
  unfolding get_path_params_def by (intro steady_intros)

lemma steady_get_generic_path [steady_intros]: "n < f \<Longrightarrow> n < f' \<Longrightarrow> steady n (get_generic_path f) (get_generic_path f')"
  unfolding get_generic_path_def by (intro steady_intros)

lemma steady_get_trait_path [steady_intros]: "n < f \<Longrightarrow> n < f' \<Longrightarrow> steady n (get_trait_path f) (get_trait_path f')"
  unfolding get_trait_path_def by (intro steady_intros)

lemma steady_get_expr_ptr [steady_intros]: "n < f \<Longrightarrow> n < f' \<Longrightarrow> steady n (get_expr_ptr f) (get_expr_ptr f')"
  unfolding get_expr_ptr_def by (intro steady_intros)

lemma steady_get_literal [steady_intros]: "n < f \<Longrightarrow> n < f' \<Longrightarrow> steady n (get_literal f) (get_literal f')"
  unfolding get_literal_def by (intro steady_intros)

lemma steady_trait_paths [steady_intros]: "n < f \<Longrightarrow> n < f' \<Longrightarrow> steady n (des_trait_paths f) (des_trait_paths f')"
  unfolding des_trait_paths_def by (intro steady_intros)

lemma steady_pub [steady_intros]: "steady n des_pub des_pub"
  unfolding des_pub_def by (intro steady_intros)

lemma steady_vis_ent [steady_intros]: "steady n d d' \<Longrightarrow> steady n (des_vis_ent d) (des_vis_ent d')"
  unfolding des_vis_ent_def by (intro steady_intros)

lemma steady_linkage [steady_intros]: "steady n des_linkage des_linkage"
  unfolding des_linkage_def by (intro steady_intros)

lemma steady_fn_markings [steady_intros]: "steady n des_fn_markings des_fn_markings"
  unfolding des_fn_markings_def by (intro steady_intros)

lemma steady_fcnargs [steady_intros]: "n < f \<Longrightarrow> n < f' \<Longrightarrow> steady n (des_fcnargs f) (des_fcnargs f')"
  unfolding des_fcnargs_def by (intro steady_intros)

lemma steady_function [steady_intros]: "n < f \<Longrightarrow> n < f' \<Longrightarrow> steady n (des_function f) (des_function f')"
  unfolding des_function_def by (intro steady_intros)

lemma steady_constant [steady_intros]: "n < f \<Longrightarrow> n < f' \<Longrightarrow> steady n (des_constant f) (des_constant f')"
  unfolding des_constant_def by (intro steady_intros)

lemma steady_static [steady_intros]: "n < f \<Longrightarrow> n < f' \<Longrightarrow> steady n (des_static f) (des_static f')"
  unfolding des_static_def Let_def by (intro steady_intros)

lemma steady_type_alias [steady_intros]: "n < f \<Longrightarrow> n < f' \<Longrightarrow> steady n (des_type_alias f) (des_type_alias f')"
  unfolding des_type_alias_def by (intro steady_intros)

lemma steady_trait_alias [steady_intros]: "n < f \<Longrightarrow> n < f' \<Longrightarrow> steady n (des_trait_alias f) (des_trait_alias f')"
  unfolding des_trait_alias_def by (intro steady_intros)

lemma steady_markings [steady_intros]: "steady n des_markings des_markings"
  unfolding des_markings_def by (intro steady_intros)

lemma steady_struct_markings [steady_intros]: "steady n des_struct_markings des_struct_markings"
  unfolding des_struct_markings_def by (intro steady_intros)

lemma steady_data_variant [steady_intros]: "n < f \<Longrightarrow> n < f' \<Longrightarrow> steady n (des_data_variant f) (des_data_variant f')"
  unfolding des_data_variant_def by (intro steady_intros)

lemma steady_value_variant [steady_intros]: "steady n des_value_variant des_value_variant"
  unfolding des_value_variant_def by (intro steady_intros)

lemma steady_enum_class [steady_intros]: "n < f \<Longrightarrow> n < f' \<Longrightarrow> steady n (des_enum_class f) (des_enum_class f')"
  unfolding des_enum_class_def by (intro steady_intros)

lemma steady_hir_enum [steady_intros]: "n < f \<Longrightarrow> n < f' \<Longrightarrow> steady n (des_hir_enum f) (des_hir_enum f')"
  unfolding des_hir_enum_def by (intro steady_intros)

lemma steady_tuple_fields [steady_intros]: "n < f \<Longrightarrow> n < f' \<Longrightarrow> steady n (des_tuple_fields f) (des_tuple_fields f')"
  unfolding des_tuple_fields_def by (intro steady_intros)

lemma steady_struct_fields [steady_intros]: "n < f \<Longrightarrow> n < f' \<Longrightarrow> steady n (des_struct_fields f) (des_struct_fields f')"
  unfolding des_struct_fields_def by (intro steady_intros)

lemma steady_struct_data [steady_intros]: "n < f \<Longrightarrow> n < f' \<Longrightarrow> steady n (des_struct_data f) (des_struct_data f')"
  unfolding des_struct_data_def by (intro steady_intros)

lemma steady_struct [steady_intros]: "n < f \<Longrightarrow> n < f' \<Longrightarrow> steady n (des_struct f) (des_struct f')"
  unfolding des_struct_def by (intro steady_intros)

lemma steady_union [steady_intros]: "n < f \<Longrightarrow> n < f' \<Longrightarrow> steady n (des_union f) (des_union f')"
  unfolding des_union_def by (intro steady_intros)

lemma steady_extern_type [steady_intros]: "steady n des_extern_type des_extern_type"
  unfolding des_extern_type_def by (intro steady_intros)

lemma steady_associated_type [steady_intros]: "n < f \<Longrightarrow> n < f' \<Longrightarrow> steady n (des_associated_type f) (des_associated_type f')"
  unfolding des_associated_type_def by (intro steady_intros)

lemma steady_trait_value_item [steady_intros]: "n < f \<Longrightarrow> n < f' \<Longrightarrow> steady n (des_trait_value_item f) (des_trait_value_item f')"
  unfolding des_trait_value_item_def by (intro steady_intros)

lemma steady_trait [steady_intros]: "n < f \<Longrightarrow> n < f' \<Longrightarrow> steady n (des_trait f) (des_trait f')"
  unfolding des_trait_def by (intro steady_intros)

lemma steady_proc_macro [steady_intros]: "steady n des_proc_macro des_proc_macro"
  unfolding des_proc_macro_def by (intro steady_intros)

lemma steady_value_item [steady_intros]: "n < f \<Longrightarrow> n < f' \<Longrightarrow> steady n (des_value_item f) (des_value_item f')"
  unfolding des_value_item_def by (intro steady_intros)

lemma steady_macro_item [steady_intros]: "n < f \<Longrightarrow> n < f' \<Longrightarrow> steady n (des_macro_item f) (des_macro_item f')"
  unfolding des_macro_item_def by (intro steady_intros)

lemma steady_modules:
  "n < f \<Longrightarrow> n < f' \<Longrightarrow>
    steady n (des_module f) (des_module f') \<and> steady n (des_type_item f) (des_type_item f')"
proof (induction n arbitrary: f f' rule: less_induct)
  case (less n)
  obtain k k' where k: "f = Suc k" "f' = Suc k'" using less.prems by (cases f; cases f') auto
  have parts: "steady (n - 1) (des_module k) (des_module k')" "steady (n - 1) (des_type_item k) (des_type_item k')"
    if "0 < n"
    using less.IH [of "n - 1" k k'] less.prems k that by auto
  have fuel: "n - 1 < Suc k" "n - 1 < Suc k'" using less.prems k by auto
  have "steady n (des_module f) (des_module f')" unfolding k des_module.simps
    by (intro steady_object_pay steady_lift3 steady_istrumap steady_vis_ent steady_value_item steady_macro_item parts fuel)
  moreover have "steady n (des_type_item f) (des_type_item f')" unfolding k des_type_item.simps
    by (intro steady_switch_pay steady_alts_Nil steady_alts_Cons steady_map steady_lift3 steady_simple_path steady_bool
        steady_word_count steady_type_alias steady_hir_enum steady_struct steady_trait steady_union steady_extern_type
        steady_trait_alias parts fuel)
  ultimately show ?case by blast
qed

lemma steady_vis_impl_ent [steady_intros]: "steady n d d' \<Longrightarrow> steady n (des_vis_impl_ent d) (des_vis_impl_ent d')"
  unfolding des_vis_impl_ent_def by (intro steady_intros)

lemma steady_impl_ent [steady_intros]: "steady n d d' \<Longrightarrow> steady n (des_impl_ent d) (des_impl_ent d')"
  unfolding des_impl_ent_def by (intro steady_intros)

lemma steady_type_impl [steady_intros]: "n < f \<Longrightarrow> n < f' \<Longrightarrow> steady n (des_type_impl f) (des_type_impl f')"
  unfolding des_type_impl_def by (intro steady_intros)

lemma steady_trait_impl [steady_intros]: "n < f \<Longrightarrow> n < f' \<Longrightarrow> steady n (des_trait_impl f) (des_trait_impl f')"
  unfolding des_trait_impl_def by (intro steady_intros)

lemma steady_marker_impl [steady_intros]: "n < f \<Longrightarrow> n < f' \<Longrightarrow> steady n (des_marker_impl f) (des_marker_impl f')"
  unfolding des_marker_impl_def by (intro steady_intros)

lemma steady_impl_group [steady_intros]: "steady n d d' \<Longrightarrow> steady n (des_impl_group ty d) (des_impl_group ty d')"
  unfolding des_impl_group_def by (intro steady_intros)

lemma steady_ext_crate [steady_intros]: "steady n des_ext_crate des_ext_crate"
  unfolding des_ext_crate_def by (intro steady_intros)

lemma steady_crate_body: "n < f \<Longrightarrow> n < f' \<Longrightarrow> steady n (des_crate_body f name) (des_crate_body f' name)"
  unfolding des_crate_body_def using steady_modules [of n f f'] by (intro steady_intros) simp_all

end
