(* ===== verification/Crate_File.thy ===== *)
theory Crate_File
  imports Roundtrip_Items Reader_Total
begin

text \<open>
  A crate and its metadata file: \<open>deserialise_crate\<close> and \<open>HIR_Deserialise_JustName\<close> of
  \<open>src/hir/deserialise.cpp\<close> over the operations of \<open>Metadata_File\<close>, and the theorems
  of the previous theories put together.
\<close>

declare w_seq.simps [simp del]

definition des_crate :: "nat \<Rightarrow> (type_ref, hir_crate) rd" where
  "des_crate f = crate_named (des_crate_body f)"

text \<open>The name is read and checked as in \<open>deserialise_crate\<close>; nothing else of the file is.\<close>

definition hir_deserialise_just_name :: "bytes \<Rightarrow> error + string" where
  "hir_deserialise_just_name contents = res_bind (reader_new contents) (\<lambda>r :: type_ref rstate.
     res_bind (read_istring r) (\<lambda>(name, r).
       if name = '''' then Inl (Assert_Fail ''Empty crate name loaded from metadata'') else Inr name))"

lemma crate_read_back:
  assumes "cr_crate_name c \<noteq> ''''" "types_ok (cr_crate_name c) T" "crate_fits T c" "\<And>xs. mset (std_sort xs) = mset xs"
    and "hir_serialise std_sort (ser_crate c) = Inr bs" "length bs < file_limit" "length bs \<le> f"
  shows "hir_deserialise (des_crate f) bs = Inr (norm_crate c)"
  unfolding des_crate_def
proof (rule file_roundtrip)
  let ?C = "crate_ctx (cr_crate_name c) T"
  show "rt f ?C (w_seq (ser_crate_body c)) (des_crate_body f (cr_crate_name c)) (norm_crate c)"
    using assms by (intro rt_crate_body) (simp_all add: metadata_ok_def)
  show "c_rel ?C [] []" by (simp add: crate_ctx_def cache_rel_def)
qed (use assms in \<open>simp_all add: ser_crate_def\<close>)

lemma crate_gets_written:
  assumes "cr_crate_name c \<noteq> ''''" "types_ok (cr_crate_name c) T" "crate_fits T c" "\<And>xs. mset (std_sort xs) = mset xs"
    and run: "ser_crate c w_init = Inr s1"
    and lim: "length (w_istrings s1) < 0x80000000" "\<And>x. x \<in> strings_of s1 \<Longrightarrow> length x < 0x800000"
  shows "\<exists>bs. hir_serialise std_sort (ser_crate c) = Inr bs"
proof (rule file_written)
  show "rt 0 (crate_ctx (cr_crate_name c) T) (ser_crate c)
      (rbind read_istring (\<lambda>_. des_crate_body 0 (cr_crate_name c))) (norm_crate c)"
    unfolding ser_crate_def using assms
    by (intro rt_bind [OF rt_istring] rt_crate_body) (simp_all add: metadata_ok_def)
qed (use assms in auto)

lemma rbind_InrD: "rbind d k r = Inr (v, r') \<Longrightarrow> \<exists>x r1. d r = Inr (x, r1) \<and> k x r1 = Inr (v, r')"
  by (auto simp: rbind_def)

lemma crate_body_name: "des_crate_body f name r = Inr (c, r') \<Longrightarrow> cr_crate_name c = name"
  unfolding des_crate_body_def rlift5_def rlift4_def rlift3_def rlift2_def rmap_def rret_def
  by (elim exE conjE rbind_InrD [elim_format]) auto

lemma just_name:
  assumes "hir_deserialise (des_crate f) bs = Inr c"
  shows "hir_deserialise_just_name bs = Inr (cr_crate_name c)"
  using assms crate_body_name
  by (auto simp: hir_deserialise_def des_crate_def crate_named_def hir_deserialise_just_name_def rbind_def rfail_def
      split: if_splits)


section \<open>Reading ends\<close>

lemma steady_crate_name:
  assumes "steady n d d'"
  shows "steady n (\<lambda>r. d (r\<lparr>r_crate_name := name\<rparr>)) (\<lambda>r. d' (r\<lparr>r_crate_name := name\<rparr>))"
proof (rule steadyI)
  fix r :: "'a rstate" assume "r_ofs r \<le> length (r_backing r)" "length (avail r) \<le> n"
  moreover have "avail (r\<lparr>r_crate_name := name\<rparr>) = avail r" by (simp add: avail_def)
  ultimately show "d (r\<lparr>r_crate_name := name\<rparr>) = d' (r\<lparr>r_crate_name := name\<rparr>) \<and>
      d (r\<lparr>r_crate_name := name\<rparr>) \<noteq> Inl Out_Of_Fuel \<and>
      (\<forall>x r'. d (r\<lparr>r_crate_name := name\<rparr>) = Inr (x, r') \<longrightarrow>
        r_ofs r' \<le> length (r_backing r') \<and> length (avail r') \<le> length (avail r))"
    using assms [unfolded steady_def, THEN spec, of "r\<lparr>r_crate_name := name\<rparr>"] by force
qed

lemma steady_crate: "n < f \<Longrightarrow> n < f' \<Longrightarrow> steady n (des_crate f) (des_crate f')"
  unfolding des_crate_def crate_named_def
  by (intro steady_bind steady_istring steady_if steady_fail steady_crate_name steady_crate_body) simp_all

lemma reader_new_steady:
  "(reader_new contents :: error + 't rstate) \<noteq> Inl Out_Of_Fuel \<and>
   (\<forall>r :: 't rstate. reader_new contents = Inr r \<longrightarrow> r_ofs r \<le> length (r_backing r) \<and> length (avail r) \<le> length contents)"
proof -
  let ?d = "rbind read_count (\<lambda>n. read_times n read_string) :: ('t, string list) rd"
  have init: "r_ofs (r_init contents) \<le> length (r_backing (r_init contents))" "avail (r_init contents) = contents"
    by (simp_all add: r_init_def avail_def)
  have "steady (length contents) ?d ?d" by (intro steady_intros)
  from this [unfolded steady_def, THEN spec, of "r_init contents"]
  have "?d (r_init contents) \<noteq> Inl Out_Of_Fuel \<and> (\<forall>x r'. ?d (r_init contents) = Inr (x, r') \<longrightarrow>
      r_ofs r' \<le> length (r_backing r') \<and> length (avail r') \<le> length contents)"
    by (simp add: init)
  then show ?thesis
    by (cases "?d (r_init contents)") (auto simp: reader_new_def avail_def)
qed

lemma reading_ends:
  assumes "length bs < f" "length bs < f'"
  shows "hir_deserialise (des_crate f) bs = hir_deserialise (des_crate f') bs \<and>
    hir_deserialise (des_crate f) bs \<noteq> Inl Out_Of_Fuel"
  using reader_new_steady [of bs] steady_crate [OF assms]
  by (auto simp: hir_deserialise_def res_bind_def steady_def split: sum.splits)

end
