(* ===== verification/Literal_Ops.thy ===== *)
theory Literal_Ops
  imports Hir_Types Int128_Signed
begin

text \<open>
  Reading and writing target words in an encoded literal: \<open>EncodedLiteral\<close> and
  \<open>EncodedLiteralSlice\<close> of \<open>src/hir/encoded_literal.hpp\<close> and \<open>src/hir/hir_ops.cpp\<close>, with the
  description of the target they consult (\<open>TargetArch\<close> of \<open>src/trans/target.hpp\<close>).

  Sizes and offsets are lengths of vectors in memory, hence natural numbers.
\<close>

unbundle bit_operations_syntax

section \<open>The target\<close>

record target_alignments =
  al_u16 :: u8
  al_u32 :: u8
  al_u64 :: u8
  al_u128 :: u8
  al_f32 :: u8
  al_f64 :: u8
  al_ptr :: u8

record target_arch =
  ta_name :: string
  ta_pointer_bits :: u32
  ta_big_endian :: bool
  ta_alignments :: target_alignments

definition pointer_bytes :: "target_arch \<Rightarrow> nat" where
  "pointer_bytes a = unat (ta_pointer_bits a) div 8"

section \<open>Slices\<close>

record ('t, 'v, 'g) literal_slice =
  ls_base :: "('t, 'v, 'g) encoded_literal"
  ls_ofs :: nat
  ls_size :: nat

definition slice_all :: "('t, 'v, 'g) encoded_literal \<Rightarrow> ('t, 'v, 'g) literal_slice" where
  "slice_all l = \<lparr>ls_base = l, ls_ofs = 0, ls_size = length (el_bytes l)\<rparr>"

definition slice_len :: "('t, 'v, 'g) literal_slice \<Rightarrow> nat \<Rightarrow> nat \<Rightarrow> error + ('t, 'v, 'g) literal_slice" where
  "slice_len s ofs len =
    (if \<not> ofs \<le> ls_size s then Inl (Assert_Fail ''ofs <= m_size'')
     else if \<not> len \<le> ls_size s then Inl (Assert_Fail ''len <= m_size'')
     else if \<not> ofs + len \<le> ls_size s then Inl (Assert_Fail ''ofs+len <= m_size'')
     else Inr \<lparr>ls_base = ls_base s, ls_ofs = ls_ofs s + ofs, ls_size = len\<rparr>)"

definition slice_from :: "('t, 'v, 'g) literal_slice \<Rightarrow> nat \<Rightarrow> error + ('t, 'v, 'g) literal_slice" where
  "slice_from s ofs =
    (if \<not> ofs \<le> ls_size s then Inl (Assert_Fail ''ofs <= m_size'')
     else slice_len s ofs (ls_size s - ofs))"

text \<open>The position of byte \<open>i\<close> of a word of \<open>sz\<close> bytes, in bits.\<close>

definition word_bit :: "target_arch \<Rightarrow> nat \<Rightarrow> nat \<Rightarrow> nat" where
  "word_bit a sz i = (if ta_big_endian a then (sz - 1 - i) * 8 else i * 8)"

definition slice_read_uint :: "target_arch \<Rightarrow> ('t, 'v, 'g) literal_slice \<Rightarrow> nat \<Rightarrow> error + u128" where
  "slice_read_uint a s size0 =
    (let sz = (if size0 = 0 then ls_size s else size0)
     in if \<not> sz \<le> ls_size s then Inl (Bug ''Over-large read'')
        else Inr (foldl (\<lambda>v i. let bit = word_bit a sz i
                            in if bit < 128
                               then u128_or v (u128_shl (u128_of_byte (el_bytes (ls_base s) ! (ls_ofs s + i))) bit)
                               else v)
               (U128 0 0) [0..<sz]))"

definition slice_read_sint :: "target_arch \<Rightarrow> ('t, 'v, 'g) literal_slice \<Rightarrow> nat \<Rightarrow> error + s128" where
  "slice_read_sint a s size0 =
    (let sz = (if size0 = 0 then ls_size s else size0)
     in res_bind (slice_read_uint a s sz) (\<lambda>v.
          Inr (S128 (if sz < 16 \<and> \<not> u128_eq (u128_shr v (unat (of_nat (8 * sz) - 1 :: u32))) (U128 0 0)
                     then u128_or v (u128_shl (U128 (-1) (-1)) (8 * sz)) else v))))"

definition slice_get_reloc :: "('t, 'v, 'g) literal_slice \<Rightarrow> ('t, 'v, 'g) reloc option" where
  "slice_get_reloc s = find (\<lambda>r. unat (rl_ofs r) = ls_ofs s) (el_relocations (ls_base s))"

section \<open>Literals\<close>

definition lit_write_uint :: "target_arch \<Rightarrow> ('t, 'v, 'g) encoded_literal \<Rightarrow> nat \<Rightarrow> nat \<Rightarrow> u64
    \<Rightarrow> error + ('t, 'v, 'g) encoded_literal" where
  "lit_write_uint a l ofs sz v =
    (if \<not> ofs + sz \<le> length (el_bytes l) then Inl (Assert_Fail ''ofs + sz <= bytes.size()'')
     else Inr (EncodedLiteral
       (foldl (\<lambda>bs i. let bit = word_bit a sz i
                 in if bit < 64 then bs[ofs + i := ucast (drop_bit bit v)] else bs)
          (el_bytes l) [0..<sz])
       (el_relocations l)))"

definition lit_write_usize :: "target_arch \<Rightarrow> ('t, 'v, 'g) encoded_literal \<Rightarrow> nat \<Rightarrow> u64
    \<Rightarrow> error + ('t, 'v, 'g) encoded_literal" where
  "lit_write_usize a l ofs v = lit_write_uint a l ofs (pointer_bytes a) v"

definition lit_make_usize :: "target_arch \<Rightarrow> u64 \<Rightarrow> error + ('t, 'v, 'g) encoded_literal" where
  "lit_make_usize a v = lit_write_usize a (EncodedLiteral (replicate (pointer_bytes a) 0) []) 0 v"

definition lit_read_usize :: "target_arch \<Rightarrow> ('t, 'v, 'g) encoded_literal \<Rightarrow> nat \<Rightarrow> error + u64" where
  "lit_read_usize a l ofs =
    res_bind (slice_from (slice_all l) ofs) (\<lambda>s.
      res_bind (slice_read_uint a s (pointer_bytes a)) (\<lambda>v. Inr (truncate_u64 v)))"

section \<open>What is read\<close>

text \<open>The bytes of a word in the order of their weight.\<close>

definition in_order :: "target_arch \<Rightarrow> bytes \<Rightarrow> bytes" where
  "in_order a bs = (if ta_big_endian a then rev bs else bs)"

lemma length_in_order [simp]: "length (in_order a bs) = length bs"
  by (simp add: in_order_def)

lemma in_order_in_order [simp]: "in_order a (in_order a bs) = bs"
  by (simp add: in_order_def)

lemma nth_in_order: "i < length bs \<Longrightarrow>
    in_order a bs ! i = bs ! (if ta_big_endian a then length bs - 1 - i else i)"
  by (simp add: in_order_def rev_nth)

lemma u128_or_commute: "u128_or a b = u128_or b a"
  by (simp add: u128_or_def or.commute)

lemma u128_or_assoc: "u128_or (u128_or a b) c = u128_or a (u128_or b c)"
  by (simp add: u128_or_def or.assoc U128_def)

lemma u128_or_left_commute: "u128_or a (u128_or b c) = u128_or b (u128_or a c)"
  by (metis u128_or_assoc u128_or_commute)

text \<open>The bytes of a big-endian word may be collected from either end.\<close>

lemma foldl_or_rev:
  "foldl (\<lambda>v i. u128_or v (f i)) z (rev is) = foldl (\<lambda>v i. u128_or v (f i)) z is"
proof (induction "is" arbitrary: z)
  case (Cons i "is")
  have "u128_or (foldl (\<lambda>v i. u128_or v (f i)) z is) x = foldl (\<lambda>v i. u128_or v (f i)) (u128_or z x) is" for x
    by (induction "is" arbitrary: z) (simp_all add: u128_or_left_commute u128_or_commute)
  then show ?case by (simp add: Cons.IH)
qed simp

lemma slice_read_uint_value:
  assumes ok: "ls_ofs s + ls_size s \<le> length (el_bytes (ls_base s))"
    and sz: "0 < sz" "sz \<le> ls_size s" "sz \<le> 16"
  shows "\<exists>v. slice_read_uint a s sz = Inr v
    \<and> u128_nat v = le_nat (in_order a (take sz (drop (ls_ofs s) (el_bytes (ls_base s)))))"
proof -
  let ?b = "take sz (drop (ls_ofs s) (el_bytes (ls_base s)))"
  let ?t = "\<lambda>i. u128_shl (u128_of_byte (el_bytes (ls_base s) ! (ls_ofs s + i))) (word_bit a sz i)"
  let ?u = "\<lambda>i. u128_shl (u128_of_byte (in_order a ?b ! i)) (i * 8)"
  have len: "length ?b = sz" using ok sz by simp
  have in_word: "i < sz \<Longrightarrow> word_bit a sz i < 128" for i
    using sz by (auto simp: word_bit_def)
  have "slice_read_uint a s sz = Inr (foldl (\<lambda>v i. u128_or v (?t i)) (U128 0 0) [0..<sz])"
    using sz in_word
    by (auto simp: slice_read_uint_def Let_def intro!: foldl_cong)
  moreover have "foldl (\<lambda>v i. u128_or v (?t i)) (U128 0 0) [0..<sz]
      = foldl (\<lambda>v i. u128_or v (?u i)) (U128 0 0) [0..<sz]"
  proof (cases "ta_big_endian a")
    case True
    have "map ?t [0..<sz] = map ?u (rev [0..<sz])"
      using True len ok sz by (auto simp: word_bit_def nth_in_order rev_nth intro!: nth_equalityI)
    then have "foldl (\<lambda>v x. u128_or v x) (U128 0 0) (map ?t [0..<sz])
        = foldl (\<lambda>v x. u128_or v x) (U128 0 0) (map ?u (rev [0..<sz]))" by (simp only:)
    then show ?thesis by (simp only: foldl_map foldl_or_rev)
  next
    case False
    then show ?thesis using len ok sz
      by (intro foldl_cong) (simp_all add: word_bit_def nth_in_order)
  qed
  moreover have "u128_nat (foldl (\<lambda>v i. u128_or v (?u i)) (U128 0 0) [0..<sz]) = le_nat (in_order a ?b)"
  proof -
    have "map (\<lambda>i. in_order a ?b ! i) [0..<sz] = in_order a ?b"
      using len by (metis length_in_order map_nth)
    then show ?thesis using from_bytes_fold [of sz "\<lambda>i. in_order a ?b ! i"] sz by simp
  qed
  ultimately show ?thesis by simp
qed

section \<open>What is written\<close>

lemma foldl_update_nth:
  "distinct is \<Longrightarrow> (\<And>i. i \<in> set is \<Longrightarrow> ofs + i < length bs) \<Longrightarrow>
    length (foldl (\<lambda>bs i. if P i then bs[ofs + i := f i] else bs) bs is) = length bs \<and>
    (\<forall>j < length bs. foldl (\<lambda>bs i. if P i then bs[ofs + i := f i] else bs) bs is ! j
      = (if ofs \<le> j \<and> j - ofs \<in> set is \<and> P (j - ofs) then f (j - ofs) else bs ! j))"
  by (induction "is" arbitrary: bs) (auto simp: nth_list_update)

lemma lit_write_uint_bytes:
  assumes "lit_write_uint a l ofs sz v = Inr l'"
  shows "length (el_bytes l') = length (el_bytes l)"
    and "i < sz \<Longrightarrow> el_bytes l' ! (ofs + i) = (if word_bit a sz i < 64
      then ucast (drop_bit (word_bit a sz i) v) else el_bytes l ! (ofs + i))"
    and "el_relocations l' = el_relocations l"
    and "j < length (el_bytes l) \<Longrightarrow> j < ofs \<or> ofs + sz \<le> j \<Longrightarrow> el_bytes l' ! j = el_bytes l ! j"
proof -
  from assms have le: "ofs + sz \<le> length (el_bytes l)"
    and l': "l' = EncodedLiteral (foldl (\<lambda>bs i. if word_bit a sz i < 64
        then bs[ofs + i := ucast (drop_bit (word_bit a sz i) v)] else bs) (el_bytes l) [0..<sz]) (el_relocations l)"
    by (auto simp: lit_write_uint_def Let_def split: if_splits)
  note upd = foldl_update_nth [of "[0..<sz]" ofs "el_bytes l" "\<lambda>i. word_bit a sz i < 64"
      "\<lambda>i. ucast (drop_bit (word_bit a sz i) v)"]
  show "length (el_bytes l') = length (el_bytes l)" using upd le by (simp add: l')
  show "i < sz \<Longrightarrow> el_bytes l' ! (ofs + i) = (if word_bit a sz i < 64
      then ucast (drop_bit (word_bit a sz i) v) else el_bytes l ! (ofs + i))"
    using upd le by (simp add: l')
  show "el_relocations l' = el_relocations l" by (simp add: l')
  show "j < length (el_bytes l) \<Longrightarrow> j < ofs \<or> ofs + sz \<le> j \<Longrightarrow> el_bytes l' ! j = el_bytes l ! j"
    using upd le by (auto simp: l')
qed

lemma le_nat_word:
  assumes "length bs = n" "n \<le> 8" "\<And>i. i < n \<Longrightarrow> bs ! i = ucast (drop_bit (8 * i) (v :: u64))"
  shows "le_nat bs = unat v mod 256 ^ n"
proof -
  have "bs = map (\<lambda>i. ucast (drop_bit (8 * i) v)) [0..<n]"
    using assms by (intro nth_equalityI) simp_all
  moreover have "unat (ucast (drop_bit (8 * i) v) :: u8) = unat v div 256 ^ i mod 256" for i
    by (simp add: unat_ucast_byte unat_drop_bit_div power_mult)
  ultimately show ?thesis by (simp add: le_nat_digits)
qed

text \<open>A word of at most eight bytes that is written and read again.\<close>

lemma read_written:
  assumes w: "lit_write_uint a l ofs sz v = Inr l'" and sz: "0 < sz" "sz \<le> 8"
  shows "\<exists>r. slice_read_uint a \<lparr>ls_base = l', ls_ofs = ofs, ls_size = length (el_bytes l') - ofs\<rparr> sz = Inr r
    \<and> u128_nat r = unat v mod 256 ^ sz"
proof -
  note wb = lit_write_uint_bytes [OF w]
  from w have le: "ofs + sz \<le> length (el_bytes l)" by (auto simp: lit_write_uint_def split: if_splits)
  let ?b = "take sz (drop ofs (el_bytes l'))"
  have len: "length ?b = sz" using le wb(1) by simp
  have bit: "word_bit a sz i < 64" if "i < sz" for i using that sz by (auto simp: word_bit_def)
  have "le_nat (in_order a ?b) = unat v mod 256 ^ sz"
  proof (rule le_nat_word)
    fix i assume i: "i < sz"
    let ?k = "if ta_big_endian a then sz - 1 - i else i"
    have k: "?k < sz" and b: "word_bit a sz ?k = 8 * i" using i by (auto simp: word_bit_def)
    have "in_order a ?b ! i = el_bytes l' ! (ofs + ?k)"
      using nth_in_order [of i ?b a] i len k wb(1) le by simp
    then show "in_order a ?b ! i = ucast (drop_bit (8 * i) v)"
      using wb(2) [OF k] bit [OF k] by (simp only: b simp_thms if_True)
  qed (use len sz in simp_all)
  then show ?thesis
    using slice_read_uint_value [of "\<lparr>ls_base = l', ls_ofs = ofs, ls_size = length (el_bytes l') - ofs\<rparr>" sz a]
      le wb(1) sz by auto
qed

end
