(* ===== verification/Results.thy ===== *)
theory Results
  imports Prelude
begin

text \<open>
  Computations that can fail, over the containers of the program: a vector, an optional
  value and the entries of a map are processed from the front and stop at the first error.
\<close>

definition res_map :: "('a \<Rightarrow> 'b) \<Rightarrow> error + 'a \<Rightarrow> error + 'b" where
  "res_map f r = res_bind r (\<lambda>x. Inr (f x))"

definition res_lift2 :: "('a \<Rightarrow> 'b \<Rightarrow> 'c) \<Rightarrow> error + 'a \<Rightarrow> error + 'b \<Rightarrow> error + 'c" where
  "res_lift2 f r s = res_bind r (\<lambda>x. res_map (f x) s)"

definition res_lift3 ::
  "('a \<Rightarrow> 'b \<Rightarrow> 'c \<Rightarrow> 'd) \<Rightarrow> error + 'a \<Rightarrow> error + 'b \<Rightarrow> error + 'c \<Rightarrow> error + 'd" where
  "res_lift3 f r s t = res_bind r (\<lambda>x. res_lift2 (f x) s t)"

definition res_lift4 ::
  "('a \<Rightarrow> 'b \<Rightarrow> 'c \<Rightarrow> 'd \<Rightarrow> 'e) \<Rightarrow> error + 'a \<Rightarrow> error + 'b \<Rightarrow> error + 'c \<Rightarrow> error + 'd \<Rightarrow> error + 'e" where
  "res_lift4 f r s t u = res_bind r (\<lambda>x. res_lift3 (f x) s t u)"

primrec res_list :: "(error + 'a) list \<Rightarrow> error + 'a list" where
  "res_list [] = Inr []"
| "res_list (r # rs) = res_lift2 (#) r (res_list rs)"

primrec res_opt :: "(error + 'a) option \<Rightarrow> error + 'a option" where
  "res_opt None = Inr None"
| "res_opt (Some r) = res_map Some r"

definition res_entry :: "'k \<times> (error + 'a) \<Rightarrow> error + 'k \<times> 'a" where
  "res_entry e = res_map (Pair (fst e)) (snd e)"

text \<open>The relation that always holds, for the parts of two structures that need not match.\<close>

definition any_rel :: "'a \<Rightarrow> 'b \<Rightarrow> bool" where "any_rel x y = True"

lemma res_map_simps [simp]:
  "res_map f (Inl e) = Inl e"
  "res_map f (Inr x) = Inr (f x)"
  by (simp_all add: res_map_def)

lemma res_map_Inr_iff [simp]: "res_map f r = Inr y \<longleftrightarrow> (\<exists>x. r = Inr x \<and> f x = y)"
  by (auto simp: res_map_def)

lemma res_map_comp: "res_map f (res_map g r) = res_map (\<lambda>x. f (g x)) r"
  by (cases r) simp_all

lemma res_map_ident [simp]: "res_map (\<lambda>x. x) r = r"
  by (cases r) simp_all

lemma res_lift2_simps [simp]:
  "res_lift2 f (Inl e) s = Inl e"
  "res_lift2 f (Inr x) s = res_map (f x) s"
  by (simp_all add: res_lift2_def)

lemma res_lift2_Inr_iff [simp]:
  "res_lift2 f r s = Inr y \<longleftrightarrow> (\<exists>a b. r = Inr a \<and> s = Inr b \<and> f a b = y)"
  by (auto simp: res_lift2_def)

lemma res_lift3_simps [simp]:
  "res_lift3 f (Inl e) s t = Inl e"
  "res_lift3 f (Inr x) s t = res_lift2 (f x) s t"
  by (simp_all add: res_lift3_def)

lemma res_lift3_Inr_iff [simp]:
  "res_lift3 f r s t = Inr y \<longleftrightarrow> (\<exists>a b c. r = Inr a \<and> s = Inr b \<and> t = Inr c \<and> f a b c = y)"
  by (auto simp: res_lift3_def)

lemma res_lift4_simps [simp]:
  "res_lift4 f (Inl e) s t u = Inl e"
  "res_lift4 f (Inr x) s t u = res_lift3 (f x) s t u"
  by (simp_all add: res_lift4_def)

lemma res_lift4_Inr_iff [simp]:
  "res_lift4 f r s t u = Inr y \<longleftrightarrow>
    (\<exists>a b c d. r = Inr a \<and> s = Inr b \<and> t = Inr c \<and> u = Inr d \<and> f a b c d = y)"
  by (auto simp: res_lift4_def)

lemma res_entry_Inr_iff [simp]:
  "res_entry e = Inr y \<longleftrightarrow> (\<exists>x. snd e = Inr x \<and> y = (fst e, x))"
  by (auto simp: res_entry_def)

lemma res_list_Inr_iff: "res_list rs = Inr xs \<longleftrightarrow> rs = map Inr xs"
  by (induction rs arbitrary: xs) (auto simp: Cons_eq_map_conv)

lemma res_list_map_Inr [simp]: "res_list (map (\<lambda>x. Inr (f x)) xs) = Inr (map f xs)"
  by (induction xs) simp_all

lemma res_list_map_id: "(\<And>x. x \<in> set xs \<Longrightarrow> g x = Inr (f x)) \<Longrightarrow> res_list (map g xs) = Inr (map f xs)"
  by (induction xs) simp_all

lemma res_list_total:
  "(\<exists>ys. res_list rs = Inr ys) \<longleftrightarrow> (\<forall>r \<in> set rs. \<exists>x. r = Inr x)"
  by (induction rs) auto

lemma res_opt_map_id: "(\<And>x. x \<in> set_option o' \<Longrightarrow> g x = Inr (f x)) \<Longrightarrow> res_opt (map_option g o') = Inr (map_option f o')"
  by (cases o') simp_all

lemma res_congI:
  "r = r' \<Longrightarrow> res_map f r = res_map f r'"
  "r = r' \<Longrightarrow> s = s' \<Longrightarrow> res_lift2 g r s = res_lift2 g r' s'"
  "r = r' \<Longrightarrow> s = s' \<Longrightarrow> t = t' \<Longrightarrow> res_lift3 h r s t = res_lift3 h r' s' t'"
  "r = r' \<Longrightarrow> s = s' \<Longrightarrow> t = t' \<Longrightarrow> u = u' \<Longrightarrow> res_lift4 k r s t u = res_lift4 k r' s' t' u'"
  "rs = rs' \<Longrightarrow> res_list rs = res_list rs'"
  by simp_all

lemma res_list_kleisli:
  assumes "res_list (map f xs) = Inr ys" and "\<And>x y. x \<in> set xs \<Longrightarrow> f x = Inr y \<Longrightarrow> g y = h x"
  shows "res_list (map g ys) = res_list (map h xs)"
  using assms
proof (induction xs arbitrary: ys)
  case (Cons a xs)
  then obtain b bs where "f a = Inr b" "res_list (map f xs) = Inr bs" "ys = b # bs" by auto
  moreover have "g b = h a" using Cons.prems(2) [of a b] \<open>f a = Inr b\<close> by simp
  moreover have "res_list (map g bs) = res_list (map h xs)"
    using \<open>res_list (map f xs) = Inr bs\<close> Cons.prems(2) by (intro Cons.IH) auto
  ultimately show ?case by simp
qed simp

end
