(* ===== verification/Monomorph.thy ===== *)
theory Monomorph
  imports Literal_Ops Results Fmt
begin

text \<open>
  Class \<open>Monomorphiser\<close> of \<open>src/hir_typeck/monomorph.hpp\<close> and \<open>src/hir_typeck/common.cpp\<close>:
  the substitution of generic parameters in types, paths, trait paths and constants, with the
  copies (\<open>clone\<close>) of \<open>src/hir/path.cpp\<close>, \<open>generic_params.cpp\<close>, \<open>hir.cpp\<close> and \<open>hir_ops.cpp\<close> it uses.

  A monomorphiser is the record of its virtual functions: what stands for a type, value or
  lifetime parameter, the callback that \<open>CloneTyWith_Monomorph\<close> consults before the base
  class looks at a type, and the constant evaluator that is called when a crate was set by
  \<open>set_consteval_state\<close> (that evaluator, \<open>ConvertHIR_ConstantEvaluate_ConstGeneric\<close>, is not
  modelled: any function takes its place).  The stack of binders \<open>m_hrb_stack\<close> is only tested
  for emptiness, so its height stands for it.  An operation takes the monomorphiser, \<open>allow_infer\<close>
  and that height; a structure below types holds the operations of its types and constants in
  their places, and copies of its binders.
\<close>

unbundle bit_operations_syntax

type_synonym ty_params = "(type_ref, const_generic) path_params"
type_synonym ty_generic_path = "(type_ref, const_generic) generic_path"
type_synonym ty_trait_path = "(type_ref, const_generic, generic_params) trait_path"
type_synonym ty_literal = "(type_ref, const_generic, generic_params) encoded_literal"

record monomorphiser =
  mn_get_type :: "generic_ref \<Rightarrow> error + type_ref"
  mn_get_value :: "generic_ref \<Rightarrow> error + const_generic"
  mn_get_lifetime :: "generic_ref \<Rightarrow> error + lifetime_ref"
  mn_callback :: "type_ref \<Rightarrow> type_ref option"
  mn_consteval :: "(const_generic \<Rightarrow> error + const_generic) option"
  mn_arch :: target_arch

type_synonym 'a mono_op = "monomorphiser \<Rightarrow> bool \<Rightarrow> nat \<Rightarrow> error + 'a"

definition gr_is_self :: "generic_ref \<Rightarrow> bool" where "gr_is_self g = (gr_binding g = 0xFFFF)"
definition lr_is_param :: "lifetime_ref \<Rightarrow> bool" where "lr_is_param l = (lr_binding l < 0xFF00)"

definition nop_monomorphiser :: "target_arch \<Rightarrow> monomorphiser" where
  "nop_monomorphiser a = \<lparr>mn_get_type = (\<lambda>g. Inr (Ty_Generic g)), mn_get_value = (\<lambda>g. Inr (CG_Generic g)),
     mn_get_lifetime = (\<lambda>g. Inr \<lparr>lr_binding = gr_binding g\<rparr>), mn_callback = (\<lambda>_. None), mn_consteval = None,
     mn_arch = a\<rparr>"

section \<open>Lifetimes, values and sizes\<close>

definition mono_lifetime :: "monomorphiser \<Rightarrow> nat \<Rightarrow> lifetime_ref \<Rightarrow> error + lifetime_ref" where
  "mono_lifetime m d l =
    (if lr_is_param l then
       (let g = \<lparr>gr_name = '''', gr_binding = lr_binding l\<rparr>
        in if 0 < d \<and> gr_group g = 3 then Inr l else mn_get_lifetime m g)
     else Inr l)"

text \<open>
  \<open>monomorph_arraysize\<close>: \<open>mono_size_value\<close> is the value before evaluation; the rest evaluates
  it if there is a crate to evaluate in, and reads what has become known.
\<close>

definition mono_size_value ::
  "const_generic array_size \<Rightarrow> const_generic mono_op \<Rightarrow> monomorphiser \<Rightarrow> nat \<Rightarrow> error + const_generic" where
  "mono_size_value n f m d =
    (case n of
       AS_Unevaluated (CG_Generic g) \<Rightarrow> mn_get_value m g
     | AS_Unevaluated (CG_Unevaluated _ _ _) \<Rightarrow> f m True d
     | _ \<Rightarrow> f (nop_monomorphiser (mn_arch m)) True 0)"

definition mono_size_evaluate :: "monomorphiser \<Rightarrow> const_generic \<Rightarrow> error + const_generic array_size" where
  "mono_size_evaluate m v =
    res_bind
      (case v of
         CG_Unevaluated _ _ _ \<Rightarrow> (case mn_consteval m of Some ev \<Rightarrow> ev v | None \<Rightarrow> Inr v)
       | _ \<Rightarrow> Inr v)
      (\<lambda>v. case v of
         CG_Evaluated l \<Rightarrow> res_map AS_Known (lit_read_usize (mn_arch m) l 0)
       | _ \<Rightarrow> Inr (AS_Unevaluated v))"

definition mono_arraysize ::
  "const_generic array_size \<Rightarrow> const_generic mono_op array_size \<Rightarrow> monomorphiser \<Rightarrow> nat
    \<Rightarrow> error + const_generic array_size" where
  "mono_arraysize n s m d =
    (case s of
       AS_Unevaluated f \<Rightarrow> res_bind (mono_size_value n f m d) (mono_size_evaluate m)
     | AS_Known k \<Rightarrow> Inr (AS_Known k))"

section \<open>Paths\<close>

definition mono_path_params :: "(type_ref mono_op, const_generic mono_op) path_params \<Rightarrow> ty_params mono_op" where
  "mono_path_params p m ai d =
    res_lift3 PathParams (res_list (map (mono_lifetime m d) (pp_lifetimes p)))
      (res_list (map (\<lambda>t. t m ai d) (pp_types p)))
      (res_list (map (\<lambda>v. v m ai d) (pp_values p)))"

definition mono_generic_path :: "(type_ref mono_op, const_generic mono_op) generic_path \<Rightarrow> ty_generic_path mono_op" where
  "mono_generic_path p m ai d = res_map (GenericPath (gp_path p)) (mono_path_params (gp_params p) m ai d)"

definition mono_aty_equal ::
  "(type_ref mono_op, const_generic mono_op) aty_equal \<Rightarrow> (type_ref, const_generic) aty_equal mono_op" where
  "mono_aty_equal e m ai d =
    res_lift2 AtyEqual (mono_generic_path (ae_source_trait e) m ai d) (ae_type e m ai d)"

text \<open>A copy of a set of generic parameters, given the description of the target.\<close>

type_synonym gp_copy = "target_arch \<Rightarrow> error + generic_params"

definition hrb_depth :: "'g option \<Rightarrow> nat \<Rightarrow> nat" where
  "hrb_depth h d = (case h of None \<Rightarrow> d | Some _ \<Rightarrow> Suc d)"

definition copy_hrtbs :: "gp_copy option \<Rightarrow> monomorphiser \<Rightarrow> error + generic_params option" where
  "copy_hrtbs h m = res_opt (map_option (\<lambda>g. g (mn_arch m)) h)"

primrec mono_trait_path :: "(type_ref mono_op, const_generic mono_op, gp_copy) trait_path \<Rightarrow> bool \<Rightarrow> ty_trait_path mono_op"
  and mono_aty_bound :: "(type_ref mono_op, const_generic mono_op, gp_copy) aty_bound
    \<Rightarrow> (type_ref, const_generic, generic_params) aty_bound mono_op" where
  "mono_trait_path (TraitPath h p tbs bbs tr) = (\<lambda>ignore_hrls m ai d0.
    (let d = (if ignore_hrls then d0 else hrb_depth h d0)
     in res_lift4 (\<lambda>h p tbs bbs. TraitPath h p tbs bbs tr) (copy_hrtbs h m)
          (mono_generic_path p m ai d)
          (res_list (map (\<lambda>e. res_entry (map_prod id (\<lambda>f. mono_aty_equal f m ai d) e)) tbs))
          (res_list (map res_entry (map (map_prod id (\<lambda>f. f m ai d)) (map (map_prod id mono_aty_bound) bbs))))))"
| "mono_aty_bound (AtyBound s ts) = (\<lambda>m ai d.
    res_lift2 AtyBound (mono_generic_path s m ai d)
      (res_list (map (\<lambda>f. f False m ai d) (map mono_trait_path ts))))"

definition mono_path :: "(type_ref mono_op, const_generic mono_op, gp_copy) path \<Rightarrow> ty_path mono_op" where
  "mono_path p m ai d = (case p of
     Path_Generic g \<Rightarrow> res_map Path_Generic (mono_generic_path g m ai d)
   | Path_UfcsInherent t i ps ips \<Rightarrow>
       res_lift3 (\<lambda>t ps ips. Path_UfcsInherent t i ps ips) (t m ai d) (mono_path_params ps m ai d)
         (mono_path_params ips m ai d)
   | Path_UfcsKnown t tr i ps h \<Rightarrow>
       res_lift4 (\<lambda>t tr ps h. Path_UfcsKnown t tr i ps h) (t m ai (hrb_depth h d))
         (mono_generic_path tr m ai (hrb_depth h d)) (mono_path_params ps m ai (hrb_depth h d)) (copy_hrtbs h m)
   | Path_UfcsUnknown t i ps \<Rightarrow>
       res_lift2 (\<lambda>t ps. Path_UfcsUnknown t i ps) (t m ai d) (mono_path_params ps m ai d))"

section \<open>Copies\<close>

text \<open>
  A type is shared by its copies, a constant is copied by \<open>ConstGeneric::clone\<close>, which passes an
  unevaluated expression through \<open>MonomorphiserNop\<close>.
\<close>

definition clone_value :: "const_generic mono_op \<Rightarrow> target_arch \<Rightarrow> error + const_generic" where
  "clone_value f a = f (nop_monomorphiser a) True 0"

definition clone_path_params :: "(type_ref, const_generic mono_op) path_params \<Rightarrow> target_arch \<Rightarrow> error + ty_params" where
  "clone_path_params p a =
    res_map (PathParams (pp_lifetimes p) (pp_types p)) (res_list (map (\<lambda>v. clone_value v a) (pp_values p)))"

definition clone_generic_path ::
  "(type_ref, const_generic mono_op) generic_path \<Rightarrow> target_arch \<Rightarrow> error + ty_generic_path" where
  "clone_generic_path p a = res_map (GenericPath (gp_path p)) (clone_path_params (gp_params p) a)"

definition clone_aty_equal ::
  "(type_ref, const_generic mono_op) aty_equal \<Rightarrow> target_arch \<Rightarrow> error + (type_ref, const_generic) aty_equal" where
  "clone_aty_equal e a = res_map (\<lambda>s. AtyEqual s (ae_type e)) (clone_generic_path (ae_source_trait e) a)"

primrec clone_trait_path :: "(type_ref, const_generic mono_op, gp_copy) trait_path \<Rightarrow> target_arch \<Rightarrow> error + ty_trait_path"
  and clone_aty_bound :: "(type_ref, const_generic mono_op, gp_copy) aty_bound \<Rightarrow> target_arch
    \<Rightarrow> error + (type_ref, const_generic, generic_params) aty_bound" where
  "clone_trait_path (TraitPath h p tbs bbs tr) = (\<lambda>a.
    res_lift4 (\<lambda>h p tbs bbs. TraitPath h p tbs bbs tr) (res_opt (map_option (\<lambda>g. g a) h)) (clone_generic_path p a)
      (res_list (map (\<lambda>e. res_entry (map_prod id (\<lambda>f. clone_aty_equal f a) e)) tbs))
      (res_list (map res_entry (map (map_prod id (\<lambda>f. f a)) (map (map_prod id clone_aty_bound) bbs)))))"
| "clone_aty_bound (AtyBound s ts) = (\<lambda>a.
    res_lift2 (\<lambda>ts s. AtyBound s ts) (res_list (map (\<lambda>f. f a) (map clone_trait_path ts))) (clone_generic_path s a))"

definition clone_path :: "(type_ref, const_generic mono_op, gp_copy) path \<Rightarrow> target_arch \<Rightarrow> error + ty_path" where
  "clone_path p a = (case p of
     Path_Generic g \<Rightarrow> res_map Path_Generic (clone_generic_path g a)
   | Path_UfcsInherent t i ps ips \<Rightarrow>
       res_lift2 (\<lambda>ps ips. Path_UfcsInherent t i ps ips) (clone_path_params ps a) (clone_path_params ips a)
   | Path_UfcsKnown t tr i ps h \<Rightarrow>
       res_lift3 (\<lambda>tr ps h. Path_UfcsKnown t tr i ps h) (clone_generic_path tr a) (clone_path_params ps a)
         (res_opt (map_option (\<lambda>g. g a) h))
   | Path_UfcsUnknown t i ps \<Rightarrow> res_map (\<lambda>ps. Path_UfcsUnknown t i ps) (clone_path_params ps a))"

definition clone_reloc :: "(type_ref, const_generic mono_op, gp_copy) reloc \<Rightarrow> target_arch
    \<Rightarrow> error + (type_ref, const_generic, generic_params) reloc" where
  "clone_reloc r a = (case rl_p r of
     Some p \<Rightarrow> res_map (\<lambda>p. Reloc (rl_ofs r) (rl_len r) (Some p) '''') (clone_path p a)
   | None \<Rightarrow> Inr (Reloc (rl_ofs r) (rl_len r) None (rl_bytes r)))"

definition clone_literal :: "(type_ref, const_generic mono_op, gp_copy) encoded_literal \<Rightarrow> target_arch \<Rightarrow> error + ty_literal" where
  "clone_literal l a = res_map (EncodedLiteral (el_bytes l)) (res_list (map (\<lambda>r. clone_reloc r a) (el_relocations l)))"

definition clone_bound :: "(type_ref, const_generic mono_op, gp_copy) generic_bound \<Rightarrow> target_arch
    \<Rightarrow> error + (type_ref, const_generic, generic_params) generic_bound" where
  "clone_bound b a = (case b of
     GB_Lifetime t v \<Rightarrow> Inr (GB_Lifetime t v)
   | GB_TypeLifetime t v \<Rightarrow> Inr (GB_TypeLifetime t v)
   | GB_TraitBound h t tr \<Rightarrow>
       res_lift2 (\<lambda>h tr. GB_TraitBound h t tr) (res_opt (map_option (\<lambda>g. g a) h)) (clone_trait_path tr a)
   | GB_TypeEquality t u \<Rightarrow> Inr (GB_TypeEquality t u))"

text \<open>\<open>GenericParams::clone\<close> leaves out the default of a value parameter.\<close>

definition clone_generics_of :: "type_ref type_param_def list \<Rightarrow> lifetime_def list
    \<Rightarrow> (type_ref, const_generic, generic_params) value_param_def list
    \<Rightarrow> (type_ref, const_generic mono_op, gp_copy) generic_bound list \<Rightarrow> target_arch \<Rightarrow> error + generic_params" where
  "clone_generics_of ts ls vs bs a =
    res_map (GenericParams ts ls (map (\<lambda>v. ValueParamDef (vpd_name v) (vpd_type v) (ExprPtr None [] [] None)) vs))
      (res_list (map (\<lambda>b. clone_bound b a) bs))"

section \<open>Types\<close>

text \<open>The callback of \<open>CloneTyWith_Monomorph\<close> comes before the base class.\<close>

definition mono_over :: "type_ref \<Rightarrow> type_ref mono_op \<Rightarrow> type_ref mono_op" where
  "mono_over t f m ai d = (case mn_callback m t of Some r \<Rightarrow> Inr r | None \<Rightarrow> f m ai d)"

definition rebind_path :: "type_path_binding \<Rightarrow> type_path_binding" where
  "rebind_path b = (case b of TPB_Opaque \<Rightarrow> TPB_Unbound | _ \<Rightarrow> b)"

definition mono_trait_object :: "(type_ref mono_op, const_generic mono_op, gp_copy) trait_path
    \<Rightarrow> (type_ref mono_op, const_generic mono_op) generic_path list \<Rightarrow> lifetime_ref \<Rightarrow> type_ref mono_op" where
  "mono_trait_object tr ms l m ai d =
    res_lift3 Ty_TraitObject (mono_trait_path tr False m ai (hrb_depth (tp_hrtbs tr) d))
      (res_list (map (\<lambda>p. mono_generic_path p m ai (hrb_depth (tp_hrtbs tr) d)) ms))
      (mono_lifetime m d l)"

text \<open>Of an alias only the parameters are replaced; the description it shares is kept.\<close>

definition with_alias_params ::
  "(type_ref, const_generic, generic_params) erased_inner \<Rightarrow> ty_params
    \<Rightarrow> (type_ref, const_generic, generic_params) erased_inner" where
  "with_alias_params i ps = (case i of EI_Alias _ n g p t \<Rightarrow> EI_Alias ps n g p t | _ \<Rightarrow> i)"

definition mono_erased_inner :: "(type_ref, const_generic, generic_params) erased_inner
    \<Rightarrow> (type_ref mono_op, const_generic mono_op, gp_copy) erased_inner
    \<Rightarrow> (type_ref, const_generic, generic_params) erased_inner mono_op" where
  "mono_erased_inner i0 i m ai d = (case i of
     EI_Fcn p n \<Rightarrow> res_map (\<lambda>p. EI_Fcn p n) (mono_path p m ai d)
   | EI_Known t \<Rightarrow> res_map EI_Known (t m ai d)
   | EI_Alias ps _ _ _ _ \<Rightarrow> res_map (with_alias_params i0) (mono_path_params ps m ai d))"

definition mono_erased_type :: "(type_ref, const_generic, generic_params) erased_inner \<Rightarrow> bool
    \<Rightarrow> (type_ref mono_op, const_generic mono_op, gp_copy) trait_path list \<Rightarrow> lifetime_ref list
    \<Rightarrow> (type_ref mono_op, const_generic mono_op, gp_copy) erased_inner \<Rightarrow> type_ref mono_op" where
  "mono_erased_type i0 sized trs ls i m ai d =
    res_lift3 (Ty_ErasedType sized) (res_list (map (\<lambda>tr. mono_trait_path tr False m ai d) trs))
      (res_list (map (mono_lifetime m d) ls)) (mono_erased_inner i0 i m ai d)"

definition mono_array ::
  "const_generic array_size \<Rightarrow> type_ref mono_op \<Rightarrow> const_generic mono_op array_size \<Rightarrow> type_ref mono_op" where
  "mono_array n t s m ai d = res_lift2 Ty_Array (t m ai d) (mono_arraysize n s m d)"

definition mono_function :: "gp_copy \<Rightarrow> bool \<Rightarrow> bool \<Rightarrow> string \<Rightarrow> type_ref mono_op \<Rightarrow> type_ref mono_op list \<Rightarrow> type_ref mono_op" where
  "mono_function h us va abi r as m ai d =
    res_lift3 (\<lambda>h r as. Ty_Function h us va abi r as) (h (mn_arch m)) (r m ai (Suc d))
      (res_list (map (\<lambda>t. t m ai (Suc d)) as))"

text \<open>The expression of an unevaluated constant is shared, and inference variables are allowed in its parameters.\<close>

definition mono_unevaluated :: "(type_ref, const_generic, generic_params) expr_ptr
    \<Rightarrow> (type_ref mono_op, const_generic mono_op) path_params
    \<Rightarrow> (type_ref mono_op, const_generic mono_op) path_params \<Rightarrow> const_generic mono_op" where
  "mono_unevaluated e p q m ai d =
    res_lift2 (\<lambda>p q. CG_Unevaluated p q e) (mono_path_params p m True d) (mono_path_params q m True d)"

primrec mono_type :: "type_ref \<Rightarrow> type_ref mono_op"
  and mono_constgeneric :: "const_generic \<Rightarrow> const_generic mono_op"
  and clone_generics :: "generic_params \<Rightarrow> gp_copy" where
  "mono_type (Ty_Infer i c) = mono_over (Ty_Infer i c) (\<lambda>m ai d.
     if ai then Inr (Ty_Infer i c) else Inl (Bug ''Unexpected ivar seen''))"
| "mono_type Ty_Diverge = mono_over Ty_Diverge (\<lambda>m ai d. Inr Ty_Diverge)"
| "mono_type (Ty_Primitive c) = mono_over (Ty_Primitive c) (\<lambda>m ai d. Inr (Ty_Primitive c))"
| "mono_type (Ty_Path p b h) = mono_over (Ty_Path p b h) (\<lambda>m ai d.
     res_map (\<lambda>p. Ty_Path p (rebind_path b) None)
       (mono_path (map_path mono_type mono_constgeneric clone_generics p) m ai d))"
| "mono_type (Ty_Generic g) = mono_over (Ty_Generic g) (\<lambda>m ai d. mn_get_type m g)"
| "mono_type (Ty_TraitObject tr ms l) = mono_over (Ty_TraitObject tr ms l)
     (mono_trait_object (map_trait_path mono_type mono_constgeneric clone_generics tr)
       (map (map_generic_path mono_type mono_constgeneric) ms) l)"
| "mono_type (Ty_ErasedType sized trs ls i) = mono_over (Ty_ErasedType sized trs ls i)
     (mono_erased_type i sized (map (map_trait_path mono_type mono_constgeneric clone_generics) trs) ls
       (map_erased_inner mono_type mono_constgeneric clone_generics i))"
| "mono_type (Ty_Array t n) = mono_over (Ty_Array t n)
     (mono_array n (mono_type t) (map_array_size mono_constgeneric n))"
| "mono_type (Ty_Slice t) = mono_over (Ty_Slice t) (\<lambda>m ai d. res_map Ty_Slice (mono_type t m ai d))"
| "mono_type (Ty_Tuple ts) = mono_over (Ty_Tuple ts) (\<lambda>m ai d.
     res_map Ty_Tuple (res_list (map (\<lambda>f. f m ai d) (map mono_type ts))))"
| "mono_type (Ty_Borrow l b t) = mono_over (Ty_Borrow l b t) (\<lambda>m ai d.
     res_lift2 (\<lambda>t l. Ty_Borrow l b t) (mono_type t m ai d) (mono_lifetime m d l))"
| "mono_type (Ty_Pointer b t) = mono_over (Ty_Pointer b t) (\<lambda>m ai d. res_map (Ty_Pointer b) (mono_type t m ai d))"
| "mono_type (Ty_NamedFunction p f) = mono_over (Ty_NamedFunction p f) (\<lambda>m ai d.
     res_map (\<lambda>p. Ty_NamedFunction p f)
       (mono_path (map_path mono_type mono_constgeneric clone_generics p) m ai d))"
| "mono_type (Ty_Function h us va abi r as) = mono_over (Ty_Function h us va abi r as)
     (mono_function (clone_generics h) us va abi (mono_type r) (map mono_type as))"
| "mono_type (Ty_Closure n) = mono_over (Ty_Closure n) (\<lambda>m ai d. Inr (Ty_Closure n))"
| "mono_type (Ty_Generator n) = mono_over (Ty_Generator n) (\<lambda>m ai d. Inr (Ty_Generator n))"
| "mono_constgeneric (CG_Infer i) = (\<lambda>m ai d. Inr (CG_Infer i))"
| "mono_constgeneric (CG_Unevaluated p q e) = mono_unevaluated e
     (map_path_params mono_type mono_constgeneric p) (map_path_params mono_type mono_constgeneric q)"
| "mono_constgeneric (CG_Generic g) = (\<lambda>m ai d. mn_get_value m g)"
| "mono_constgeneric (CG_Evaluated l) = (\<lambda>m ai d.
     res_map CG_Evaluated (clone_literal (map_encoded_literal id mono_constgeneric clone_generics l) (mn_arch m)))"
| "clone_generics (GenericParams ts ls vs bs) =
     clone_generics_of ts ls vs (map (map_generic_bound id mono_constgeneric clone_generics) bs)"

lemma hrb_depth_map [simp]: "hrb_depth (map_option f h) = hrb_depth h"
  by (cases h) (simp_all add: hrb_depth_def fun_eq_iff)

lemma hrb_depth_map_trait [simp]: "hrb_depth (tp_hrtbs (map_trait_path f g h p)) = hrb_depth (tp_hrtbs p)"
  by (cases p; cases "tp_hrtbs p") (auto simp: hrb_depth_def)

end
