(* ===== verification/Ty_Visit.thy ===== *)
theory Ty_Visit
  imports Monomorph
begin

text \<open>
  The type visitor \<open>TyVisitor\<close> of \<open>src/hir_typeck/common.cpp\<close> and what is built on it:
  \<open>visit_ty_with\<close> with a callback, and the test whether a type needs monomorphisation.

  A visitor answers whether it wants to stop; the code stops at the first answer "yes", so
  a visit is the disjunction of its parts.  A visitor is the record of its overrides: what it
  asks of a type, of the lifetimes and of the values of a parameter list.  The stack that stops
  a type from being visited inside itself never matters for the finite types of the model.

  The last section lists the places of a type at which a monomorphiser is consulted.
\<close>

unbundle bit_operations_syntax

section \<open>Visitors\<close>

record ty_visitor =
  tv_type :: "type_ref \<Rightarrow> bool"
  tv_lifetime :: "lifetime_ref \<Rightarrow> bool"
  tv_value :: "const_generic \<Rightarrow> bool"

type_synonym visit_op = "ty_visitor \<Rightarrow> bool"

definition visit_path_params :: "(visit_op, visit_op) path_params \<Rightarrow> visit_op" where
  "visit_path_params p v =
    (list_ex (tv_lifetime v) (pp_lifetimes p) \<or> list_ex (\<lambda>f. f v) (pp_values p) \<or> list_ex (\<lambda>f. f v) (pp_types p))"

text \<open>The parameters of the traits that bounds come from are visited, and the answer is dropped.\<close>

primrec visit_trait_path :: "(visit_op, visit_op, 'g) trait_path \<Rightarrow> visit_op"
  and visit_aty_bound :: "(visit_op, visit_op, 'g) aty_bound \<Rightarrow> visit_op" where
  "visit_trait_path (TraitPath h p tbs bbs tr) = (\<lambda>v.
     visit_path_params (gp_params p) v \<or> list_ex (\<lambda>e. ae_type (snd e) v) tbs
     \<or> list_ex (\<lambda>e. snd e v) (map (map_prod id visit_aty_bound) bbs))"
| "visit_aty_bound (AtyBound s ts) = (\<lambda>v. list_ex (\<lambda>f. f v) (map visit_trait_path ts))"

definition visit_path :: "(visit_op, visit_op, 'g) path \<Rightarrow> visit_op" where
  "visit_path p v = (case p of
     Path_Generic g \<Rightarrow> visit_path_params (gp_params g) v
   | Path_UfcsInherent t i ps ips \<Rightarrow> t v \<or> visit_path_params ps v
   | Path_UfcsKnown t tr i ps h \<Rightarrow> t v \<or> visit_path_params (gp_params tr) v \<or> visit_path_params ps v
   | Path_UfcsUnknown t i ps \<Rightarrow> t v \<or> visit_path_params ps v)"

definition visit_erased_inner :: "(visit_op, visit_op, 'g) erased_inner \<Rightarrow> visit_op" where
  "visit_erased_inner i v = (case i of
     EI_Fcn p n \<Rightarrow> visit_path p v
   | EI_Known t \<Rightarrow> t v
   | EI_Alias ps n g p t \<Rightarrow> False)"

definition visit_over :: "type_ref \<Rightarrow> visit_op \<Rightarrow> visit_op" where
  "visit_over t f v = (tv_type v t \<or> f v)"

primrec visit_type :: "type_ref \<Rightarrow> visit_op"
  and visit_value :: "const_generic \<Rightarrow> visit_op"
  and visit_generics :: "generic_params \<Rightarrow> visit_op" where
  "visit_type (Ty_Infer i c) = visit_over (Ty_Infer i c) (\<lambda>v. False)"
| "visit_type Ty_Diverge = visit_over Ty_Diverge (\<lambda>v. False)"
| "visit_type (Ty_Primitive c) = visit_over (Ty_Primitive c) (\<lambda>v. False)"
| "visit_type (Ty_Path p b h) = visit_over (Ty_Path p b h)
     (visit_path (map_path visit_type visit_value visit_generics p))"
| "visit_type (Ty_Generic g) = visit_over (Ty_Generic g) (\<lambda>v. False)"
| "visit_type (Ty_TraitObject tr ms l) = visit_over (Ty_TraitObject tr ms l) (\<lambda>v.
     visit_trait_path (map_trait_path visit_type visit_value visit_generics tr) v
     \<or> list_ex (\<lambda>p. visit_path_params (gp_params p) v) (map (map_generic_path visit_type visit_value) ms))"
| "visit_type (Ty_ErasedType sized trs ls i) = visit_over (Ty_ErasedType sized trs ls i) (\<lambda>v.
     list_ex (\<lambda>tr. visit_trait_path tr v) (map (map_trait_path visit_type visit_value visit_generics) trs)
     \<or> visit_erased_inner (map_erased_inner visit_type visit_value visit_generics i) v)"
| "visit_type (Ty_Array t n) = visit_over (Ty_Array t n) (visit_type t)"
| "visit_type (Ty_Slice t) = visit_over (Ty_Slice t) (visit_type t)"
| "visit_type (Ty_Tuple ts) = visit_over (Ty_Tuple ts) (\<lambda>v. list_ex (\<lambda>f. f v) (map visit_type ts))"
| "visit_type (Ty_Borrow l b t) = visit_over (Ty_Borrow l b t) (visit_type t)"
| "visit_type (Ty_Pointer b t) = visit_over (Ty_Pointer b t) (visit_type t)"
| "visit_type (Ty_NamedFunction p f) = visit_over (Ty_NamedFunction p f)
     (visit_path (map_path visit_type visit_value visit_generics p))"
| "visit_type (Ty_Function h us va abi r as) = visit_over (Ty_Function h us va abi r as) (\<lambda>v.
     list_ex (\<lambda>f. f v) (map visit_type as) \<or> visit_type r v)"
| "visit_type (Ty_Closure n) = visit_over (Ty_Closure n) (\<lambda>v. False)"
| "visit_type (Ty_Generator n) = visit_over (Ty_Generator n) (\<lambda>v. False)"
| "visit_value (CG_Infer i) = (\<lambda>v. tv_value v (CG_Infer i))"
| "visit_value (CG_Unevaluated p q e) = (\<lambda>v. tv_value v (CG_Unevaluated p q e))"
| "visit_value (CG_Generic g) = (\<lambda>v. tv_value v (CG_Generic g))"
| "visit_value (CG_Evaluated l) = (\<lambda>v. tv_value v (CG_Evaluated l))"
| "visit_generics (GenericParams ts ls vs bs) = (\<lambda>v. False)"

definition cb_visitor :: "(type_ref \<Rightarrow> bool) \<Rightarrow> ty_visitor" where
  "cb_visitor f = \<lparr>tv_type = f, tv_lifetime = (\<lambda>_. False), tv_value = (\<lambda>_. False)\<rparr>"

definition visit_ty_with :: "type_ref \<Rightarrow> (type_ref \<Rightarrow> bool) \<Rightarrow> bool" where
  "visit_ty_with t f = visit_type t (cb_visitor f)"

definition visit_trait_path_tys_with :: "ty_trait_path \<Rightarrow> (type_ref \<Rightarrow> bool) \<Rightarrow> bool" where
  "visit_trait_path_tys_with p f =
    visit_trait_path (map_trait_path visit_type visit_value visit_generics p) (cb_visitor f)"

definition visit_path_tys_with :: "ty_path \<Rightarrow> (type_ref \<Rightarrow> bool) \<Rightarrow> bool" where
  "visit_path_tys_with p f = visit_path (map_path visit_type visit_value visit_generics p) (cb_visitor f)"

section \<open>Is monomorphisation needed?\<close>

definition lr_group :: "lifetime_ref \<Rightarrow> u32" where "lr_group l = drop_bit 8 (lr_binding l)"

definition is_generic_lft :: "lifetime_ref \<Rightarrow> bool" where
  "is_generic_lft l = (lr_is_param l \<and> lr_group l \<noteq> 3)"

definition needed_type_check :: "bool \<Rightarrow> type_ref \<Rightarrow> bool" where
  "needed_type_check ignore_lifetimes t = (case t of
     Ty_Generic g \<Rightarrow> True
   | Ty_Array _ (AS_Unevaluated _) \<Rightarrow> True
   | Ty_Borrow l _ _ \<Rightarrow> \<not> ignore_lifetimes \<and> is_generic_lft l
   | Ty_TraitObject _ _ l \<Rightarrow> \<not> ignore_lifetimes \<and> is_generic_lft l
   | Ty_ErasedType _ _ ls _ \<Rightarrow> \<not> ignore_lifetimes \<and> list_ex is_generic_lft ls
   | _ \<Rightarrow> False)"

definition cg_is_generic :: "const_generic \<Rightarrow> bool" where
  "cg_is_generic v = (case v of CG_Generic _ \<Rightarrow> True | _ \<Rightarrow> False)"

definition needed_visitor :: "bool \<Rightarrow> ty_visitor" where
  "needed_visitor ignore_lifetimes = \<lparr>tv_type = needed_type_check ignore_lifetimes,
     tv_lifetime = (\<lambda>l. \<not> ignore_lifetimes \<and> is_generic_lft l), tv_value = cg_is_generic\<rparr>"

definition monomorphise_type_needed :: "type_ref \<Rightarrow> bool \<Rightarrow> bool" where
  "monomorphise_type_needed t ig = visit_type t (needed_visitor ig)"

definition monomorphise_pathparams_needed :: "ty_params \<Rightarrow> bool \<Rightarrow> bool" where
  "monomorphise_pathparams_needed p ig =
    visit_path_params (map_path_params visit_type visit_value p) (needed_visitor ig)"

definition monomorphise_genericpath_needed :: "ty_generic_path \<Rightarrow> bool \<Rightarrow> bool" where
  "monomorphise_genericpath_needed p ig = monomorphise_pathparams_needed (gp_params p) ig"

definition monomorphise_traitpath_needed :: "ty_trait_path \<Rightarrow> bool \<Rightarrow> bool" where
  "monomorphise_traitpath_needed p ig =
    visit_trait_path (map_trait_path visit_type visit_value visit_generics p) (needed_visitor ig)"

definition monomorphise_path_needed :: "ty_path \<Rightarrow> bool \<Rightarrow> bool" where
  "monomorphise_path_needed p ig =
    visit_path (map_path visit_type visit_value visit_generics p) (needed_visitor ig)"

definition maybe_monomorph_type :: "monomorphiser \<Rightarrow> type_ref \<Rightarrow> bool \<Rightarrow> nat \<Rightarrow> error + type_ref" where
  "maybe_monomorph_type m t ai d =
    (if monomorphise_type_needed t False then mono_type t m ai d else Inr t)"

section \<open>Where a monomorphiser is consulted\<close>

text \<open>
  An occurrence is a question the substitution asks: for a type, a value, a value that is an
  array size, a lifetime, whether an array size that is not known can stay, whether an inference variable is
  allowed.  Its flag tells whether \<open>TyVisitor\<close> looks at the place.  The arguments are the flag of the
  enclosing place, whether inference variables are checked there, and the height of the stack of
  binders.
\<close>

datatype occurrence =
    Occ_Type generic_ref
  | Occ_Value generic_ref
  | Occ_Size_Value generic_ref
  | Occ_Lifetime lifetime_ref
  | Occ_Size
  | Occ_Infer

type_synonym occ_op = "bool \<Rightarrow> bool \<Rightarrow> nat \<Rightarrow> (bool \<times> occurrence) list"

definition occ_lifetime :: "bool \<Rightarrow> nat \<Rightarrow> lifetime_ref \<Rightarrow> (bool \<times> occurrence) list" where
  "occ_lifetime vis d l =
    (if lr_is_param l \<and> \<not> (0 < d \<and> lr_group l = 3) then [(vis \<and> lr_group l \<noteq> 3, Occ_Lifetime l)] else [])"

definition occ_path_params :: "(occ_op, occ_op) path_params \<Rightarrow> occ_op" where
  "occ_path_params p vis chk d =
    concat (map (occ_lifetime vis d) (pp_lifetimes p)) @ concat (map (\<lambda>f. f vis chk d) (pp_types p))
      @ concat (map (\<lambda>f. f vis chk d) (pp_values p))"

definition occ_generic_path :: "(occ_op, occ_op) generic_path \<Rightarrow> occ_op" where
  "occ_generic_path p = occ_path_params (gp_params p)"

primrec occ_trait_path :: "(occ_op, occ_op, 'g) trait_path \<Rightarrow> occ_op"
  and occ_aty_bound :: "(occ_op, occ_op, 'g) aty_bound \<Rightarrow> occ_op" where
  "occ_trait_path (TraitPath h p tbs bbs tr) = (\<lambda>vis chk d.
     occ_generic_path p vis chk (hrb_depth h d)
     @ concat (map (\<lambda>e. occ_generic_path (ae_source_trait (snd e)) False chk (hrb_depth h d)
         @ ae_type (snd e) vis chk (hrb_depth h d)) tbs)
     @ concat (map (\<lambda>e. snd e vis chk (hrb_depth h d)) (map (map_prod id occ_aty_bound) bbs)))"
| "occ_aty_bound (AtyBound s ts) = (\<lambda>vis chk d.
     occ_generic_path s False chk d @ concat (map (\<lambda>f. f vis chk d) (map occ_trait_path ts)))"

definition occ_path :: "(occ_op, occ_op, 'g) path \<Rightarrow> occ_op" where
  "occ_path p vis chk d = (case p of
     Path_Generic g \<Rightarrow> occ_generic_path g vis chk d
   | Path_UfcsInherent t i ps ips \<Rightarrow> t vis chk d @ occ_path_params ps vis chk d @ occ_path_params ips False chk d
   | Path_UfcsKnown t tr i ps h \<Rightarrow> t vis chk (hrb_depth h d) @ occ_generic_path tr vis chk (hrb_depth h d)
       @ occ_path_params ps vis chk (hrb_depth h d)
   | Path_UfcsUnknown t i ps \<Rightarrow> t vis chk d @ occ_path_params ps vis chk d)"

definition occ_erased_inner :: "(occ_op, occ_op, 'g) erased_inner \<Rightarrow> occ_op" where
  "occ_erased_inner i vis chk d = (case i of
     EI_Fcn p n \<Rightarrow> occ_path p vis chk d
   | EI_Known t \<Rightarrow> t vis chk d
   | EI_Alias ps n g p t \<Rightarrow> occ_path_params ps False chk d)"

definition occ_arraysize :: "const_generic array_size \<Rightarrow> occ_op array_size \<Rightarrow> bool \<Rightarrow> nat \<Rightarrow> (bool \<times> occurrence) list" where
  "occ_arraysize n s vis d = (case s of
     AS_Known k \<Rightarrow> []
   | AS_Unevaluated f \<Rightarrow> (vis, Occ_Size) #
       (case n of
          AS_Unevaluated (CG_Generic g) \<Rightarrow> [(vis, Occ_Size_Value g)]
        | AS_Unevaluated (CG_Unevaluated _ _ _) \<Rightarrow> f vis False d
        | _ \<Rightarrow> []))"

primrec occ_type :: "type_ref \<Rightarrow> occ_op"
  and occ_value :: "const_generic \<Rightarrow> occ_op"
  and occ_generics :: "generic_params \<Rightarrow> unit" where
  "occ_type (Ty_Infer i c) = (\<lambda>vis chk d. if chk then [(False, Occ_Infer)] else [])"
| "occ_type Ty_Diverge = (\<lambda>vis chk d. [])"
| "occ_type (Ty_Primitive c) = (\<lambda>vis chk d. [])"
| "occ_type (Ty_Path p b h) = occ_path (map_path occ_type occ_value occ_generics p)"
| "occ_type (Ty_Generic g) = (\<lambda>vis chk d. [(vis, Occ_Type g)])"
| "occ_type (Ty_TraitObject tr ms l) = (\<lambda>vis chk d.
     occ_trait_path (map_trait_path occ_type occ_value occ_generics tr) vis chk (hrb_depth (tp_hrtbs tr) d)
     @ concat (map (\<lambda>p. occ_generic_path p vis chk (hrb_depth (tp_hrtbs tr) d))
         (map (map_generic_path occ_type occ_value) ms))
     @ occ_lifetime vis d l)"
| "occ_type (Ty_ErasedType sized trs ls i) = (\<lambda>vis chk d.
     concat (map (\<lambda>tr. occ_trait_path tr vis chk d) (map (map_trait_path occ_type occ_value occ_generics) trs))
     @ concat (map (occ_lifetime vis d) ls)
     @ occ_erased_inner (map_erased_inner occ_type occ_value occ_generics i) vis chk d)"
| "occ_type (Ty_Array t n) = (\<lambda>vis chk d.
     occ_type t vis chk d @ occ_arraysize n (map_array_size occ_value n) vis d)"
| "occ_type (Ty_Slice t) = occ_type t"
| "occ_type (Ty_Tuple ts) = (\<lambda>vis chk d. concat (map (\<lambda>f. f vis chk d) (map occ_type ts)))"
| "occ_type (Ty_Borrow l b t) = (\<lambda>vis chk d. occ_type t vis chk d @ occ_lifetime vis d l)"
| "occ_type (Ty_Pointer b t) = occ_type t"
| "occ_type (Ty_NamedFunction p f) = occ_path (map_path occ_type occ_value occ_generics p)"
| "occ_type (Ty_Function h us va abi r as) = (\<lambda>vis chk d.
     occ_type r vis chk (Suc d) @ concat (map (\<lambda>f. f vis chk (Suc d)) (map occ_type as)))"
| "occ_type (Ty_Closure n) = (\<lambda>vis chk d. [])"
| "occ_type (Ty_Generator n) = (\<lambda>vis chk d. [])"
| "occ_value (CG_Infer i) = (\<lambda>vis chk d. [])"
| "occ_value (CG_Unevaluated p q e) = (\<lambda>vis chk d.
     occ_path_params (map_path_params occ_type occ_value p) False False d
     @ occ_path_params (map_path_params occ_type occ_value q) False False d)"
| "occ_value (CG_Generic g) = (\<lambda>vis chk d. [(vis, Occ_Value g)])"
| "occ_value (CG_Evaluated l) = (\<lambda>vis chk d. [])"
| "occ_generics (GenericParams ts ls vs bs) = ()"

end
