(* ===== verification/Mono_Needed.thy ===== *)
theory Mono_Needed
  imports Ty_Visit
begin

text \<open>
  The test \<open>monomorphise_type_needed\<close> of \<open>src/hir_typeck/common.cpp\<close> against the list of places
  at which a substitution is consulted: it answers whether one of the places it looks at is there.
\<close>

definition is_lifetime_occ :: "occurrence \<Rightarrow> bool" where
  "is_lifetime_occ o' = (case o' of Occ_Lifetime _ \<Rightarrow> True | _ \<Rightarrow> False)"

definition hit :: "bool \<Rightarrow> (bool \<times> occurrence) list \<Rightarrow> bool" where
  "hit ig xs = list_ex (\<lambda>x. fst x \<and> \<not> (ig \<and> is_lifetime_occ (snd x))) xs"

lemma hit_simps [simp]:
  "hit ig [] = False"
  "hit ig (x # xs) \<longleftrightarrow> fst x \<and> \<not> (ig \<and> is_lifetime_occ (snd x)) \<or> hit ig xs"
  "hit ig (xs @ ys) \<longleftrightarrow> hit ig xs \<or> hit ig ys"
  by (simp_all add: hit_def)

lemma hit_concat [simp]: "hit ig (concat xss) = list_ex (hit ig) xss"
  by (induction xss) simp_all

definition seen :: "bool \<Rightarrow> occ_op \<Rightarrow> visit_op \<Rightarrow> bool" where
  "seen ig f g \<longleftrightarrow> (\<forall>vis chk d. hit ig (f vis chk d) \<longleftrightarrow> vis \<and> g (needed_visitor ig))"

lemma seenD: "seen ig f g \<Longrightarrow> hit ig (f vis chk d) \<longleftrightarrow> vis \<and> g (needed_visitor ig)"
  by (simp add: seen_def)

lemma hit_list:
  "list_all2 (seen ig) fs gs \<Longrightarrow> list_ex (hit ig) (map (\<lambda>f. f vis chk d) fs) \<longleftrightarrow> vis \<and> list_ex (\<lambda>g. g (needed_visitor ig)) gs"
  by (induction rule: list_all2_induct) (auto simp: seenD)

lemma hit_lifetime: "hit ig (occ_lifetime vis d l) \<longleftrightarrow> vis \<and> \<not> ig \<and> is_generic_lft l"
  by (auto simp: occ_lifetime_def is_generic_lft_def is_lifetime_occ_def)

lemma hit_lifetimes: "list_ex (hit ig) (map (occ_lifetime vis d) ls) \<longleftrightarrow> vis \<and> \<not> ig \<and> list_ex is_generic_lft ls"
  by (induction ls) (auto simp: hit_lifetime)


lemma needed_lifetimes: "list_ex (tv_lifetime (needed_visitor ig)) ls \<longleftrightarrow> \<not> ig \<and> list_ex is_generic_lft ls"
  by (induction ls) (auto simp: needed_visitor_def)

lemma seenI: "(\<And>vis chk d. hit ig (f vis chk d) \<longleftrightarrow> vis \<and> g (needed_visitor ig)) \<Longrightarrow> seen ig f g"
  by (simp add: seen_def)

lemma seen_path_params:
  "rel_path_params (seen ig) (seen ig) p q \<Longrightarrow> seen ig (occ_path_params p) (visit_path_params q)"
  by (cases p; cases q; rule seenI)
    (auto simp: occ_path_params_def visit_path_params_def hit_list hit_lifetimes needed_lifetimes)

lemma seen_generic_path:
  "rel_generic_path (seen ig) (seen ig) p q \<Longrightarrow> seen ig (occ_generic_path p) (visit_path_params (gp_params q))"
  by (cases p; cases q) (simp add: occ_generic_path_def seen_path_params)

lemma hit_unseen: "seen ig f g \<Longrightarrow> \<not> hit ig (f False chk d)"
  by (simp add: seenD)


lemma hit_type_bounds:
  "list_all2 (rel_prod (=) (rel_aty_equal (seen ig) (seen ig))) es fs \<Longrightarrow>
    list_ex (hit ig) (map (\<lambda>e. occ_generic_path (ae_source_trait (snd e)) False chk d @ ae_type (snd e) vis chk d) es)
    \<longleftrightarrow> vis \<and> list_ex (\<lambda>e. ae_type (snd e) (needed_visitor ig)) fs"
proof (induction rule: list_all2_induct)
  case (Cons e es f fs)
  then show ?case
    by (cases "snd e"; cases "snd f"; cases e; cases f) (auto simp: seenD hit_unseen [OF seen_generic_path])
qed simp

lemma hit_entries:
  "list_all2 (rel_prod (=) (\<lambda>b c. seen ig (f b) (g c))) es fs \<Longrightarrow>
    list_ex (hit ig) (map (\<lambda>e. snd e vis chk d) (map (map_prod id f) es))
    \<longleftrightarrow> vis \<and> list_ex (\<lambda>e. snd e (needed_visitor ig)) (map (map_prod id g) fs)"
  by (induction rule: list_all2_induct) (auto simp: seenD)

lemma hit_mapped:
  "list_all2 (\<lambda>b c. seen ig (f b) (g c)) es fs \<Longrightarrow>
    list_ex (hit ig) (map (\<lambda>h. h vis chk d) (map f es)) \<longleftrightarrow> vis \<and> list_ex (\<lambda>h. h (needed_visitor ig)) (map g fs)"
  by (induction rule: list_all2_induct) (auto simp: seenD)

lemma seen_trait_path_bound:
  fixes p :: "(occ_op, occ_op, 'x) trait_path" and q :: "(visit_op, visit_op, 'y) trait_path"
    and b :: "(occ_op, occ_op, 'x) aty_bound" and c :: "(visit_op, visit_op, 'y) aty_bound"
  shows
  "(rel_trait_path (seen ig) (seen ig) any_rel p q \<longrightarrow> seen ig (occ_trait_path p) (visit_trait_path q)) \<and>
   (rel_aty_bound (seen ig) (seen ig) any_rel b c \<longrightarrow> seen ig (occ_aty_bound b) (visit_aty_bound c))"
proof (rule trait_path_aty_bound.rel_induct, goal_cases)
  case (1 h p tbs bbs tr h' p' tbs' bbs' tr')
  show ?case
    using 1(2-4) by (intro seenI)
      (simp add: seenD [OF seen_generic_path] hit_type_bounds hit_entries del: map_map list.map_comp; blast)
next
  case (2 s ts s' ts')
  then show ?case
    by (intro seenI) (simp add: hit_unseen [OF seen_generic_path] hit_mapped del: map_map list.map_comp)
qed

lemmas seen_trait_path = seen_trait_path_bound [THEN conjunct1, rule_format]

lemma seen_path:
  "rel_path (seen ig) (seen ig) any_rel p q \<Longrightarrow> seen ig (occ_path p) (visit_path q)"
  by (cases p; cases q)
    (auto intro!: seenI simp: occ_path_def visit_path_def seenD [OF seen_generic_path] seenD [OF seen_path_params]
       seenD hit_unseen [OF seen_path_params])

lemma seen_erased_inner:
  "rel_erased_inner (seen ig) (seen ig) any_rel p q \<Longrightarrow> seen ig (occ_erased_inner p) (visit_erased_inner q)"
  by (cases p; cases q)
    (auto intro!: seenI simp: occ_erased_inner_def visit_erased_inner_def seenD [OF seen_path] seenD
       hit_unseen [OF seen_path_params])

definition seen_ty where "seen_ty ig t = seen ig (occ_type t) (visit_type t)"
definition seen_cg where "seen_cg ig v = seen ig (occ_value v) (visit_value v)"

lemma seen_kids:
  "(\<And>t. t \<in> set1_path_params pp \<Longrightarrow> seen_ty ig t) \<Longrightarrow> (\<And>v. v \<in> set2_path_params pp \<Longrightarrow> seen_cg ig v) \<Longrightarrow>
    seen ig (occ_path_params (map_path_params occ_type occ_value pp)) (visit_path_params (map_path_params visit_type visit_value pp))"
  "(\<And>t. t \<in> set1_generic_path g \<Longrightarrow> seen_ty ig t) \<Longrightarrow> (\<And>v. v \<in> set2_generic_path g \<Longrightarrow> seen_cg ig v) \<Longrightarrow>
    seen ig (occ_generic_path (map_generic_path occ_type occ_value g))
      (visit_path_params (gp_params (map_generic_path visit_type visit_value g)))"
  "(\<And>t. t \<in> set1_path p \<Longrightarrow> seen_ty ig t) \<Longrightarrow> (\<And>v. v \<in> set2_path p \<Longrightarrow> seen_cg ig v) \<Longrightarrow>
    seen ig (occ_path (map_path occ_type occ_value occ_generics p)) (visit_path (map_path visit_type visit_value visit_generics p))"
  "(\<And>t. t \<in> set1_trait_path q \<Longrightarrow> seen_ty ig t) \<Longrightarrow> (\<And>v. v \<in> set2_trait_path q \<Longrightarrow> seen_cg ig v) \<Longrightarrow>
    seen ig (occ_trait_path (map_trait_path occ_type occ_value occ_generics q))
      (visit_trait_path (map_trait_path visit_type visit_value visit_generics q))"
  "(\<And>t. t \<in> set1_erased_inner i \<Longrightarrow> seen_ty ig t) \<Longrightarrow> (\<And>v. v \<in> set2_erased_inner i \<Longrightarrow> seen_cg ig v) \<Longrightarrow>
    seen ig (occ_erased_inner (map_erased_inner occ_type occ_value occ_generics i))
      (visit_erased_inner (map_erased_inner visit_type visit_value visit_generics i))"
proof -
  show "(\<And>t. t \<in> set1_path_params pp \<Longrightarrow> seen_ty ig t) \<Longrightarrow> (\<And>v. v \<in> set2_path_params pp \<Longrightarrow> seen_cg ig v) \<Longrightarrow>
    seen ig (occ_path_params (map_path_params occ_type occ_value pp)) (visit_path_params (map_path_params visit_type visit_value pp))"
    by (intro seen_path_params) (simp add: path_params.rel_map path_params.rel_refl_strong seen_ty_def seen_cg_def)
  show "(\<And>t. t \<in> set1_generic_path g \<Longrightarrow> seen_ty ig t) \<Longrightarrow> (\<And>v. v \<in> set2_generic_path g \<Longrightarrow> seen_cg ig v) \<Longrightarrow>
    seen ig (occ_generic_path (map_generic_path occ_type occ_value g))
      (visit_path_params (gp_params (map_generic_path visit_type visit_value g)))"
    by (intro seen_generic_path) (simp add: generic_path.rel_map generic_path.rel_refl_strong seen_ty_def seen_cg_def)
  show "(\<And>t. t \<in> set1_path p \<Longrightarrow> seen_ty ig t) \<Longrightarrow> (\<And>v. v \<in> set2_path p \<Longrightarrow> seen_cg ig v) \<Longrightarrow>
    seen ig (occ_path (map_path occ_type occ_value occ_generics p)) (visit_path (map_path visit_type visit_value visit_generics p))"
    by (intro seen_path) (simp add: path.rel_map path.rel_refl_strong seen_ty_def seen_cg_def any_rel_def)
  show "(\<And>t. t \<in> set1_trait_path q \<Longrightarrow> seen_ty ig t) \<Longrightarrow> (\<And>v. v \<in> set2_trait_path q \<Longrightarrow> seen_cg ig v) \<Longrightarrow>
    seen ig (occ_trait_path (map_trait_path occ_type occ_value occ_generics q))
      (visit_trait_path (map_trait_path visit_type visit_value visit_generics q))"
    by (intro seen_trait_path) (simp add: trait_path.rel_map trait_path.rel_refl_strong seen_ty_def seen_cg_def any_rel_def)
  show "(\<And>t. t \<in> set1_erased_inner i \<Longrightarrow> seen_ty ig t) \<Longrightarrow> (\<And>v. v \<in> set2_erased_inner i \<Longrightarrow> seen_cg ig v) \<Longrightarrow>
    seen ig (occ_erased_inner (map_erased_inner occ_type occ_value occ_generics i))
      (visit_erased_inner (map_erased_inner visit_type visit_value visit_generics i))"
    by (intro seen_erased_inner) (simp add: erased_inner.rel_map erased_inner.rel_refl_strong seen_ty_def seen_cg_def any_rel_def)
qed

lemma visit_over_needed: "visit_over t f (needed_visitor ig) \<longleftrightarrow> needed_type_check ig t \<or> f (needed_visitor ig)"
  by (simp add: visit_over_def needed_visitor_def)

lemma seen_tyI:
  "(\<And>vis chk d. hit ig (occ_type t vis chk d) \<longleftrightarrow> vis \<and> visit_type t (needed_visitor ig)) \<Longrightarrow> seen_ty ig t"
  by (simp add: seen_ty_def seen_def)

lemma seen_tyD: "seen_ty ig t \<Longrightarrow> hit ig (occ_type t vis chk d) \<longleftrightarrow> vis \<and> visit_type t (needed_visitor ig)"
  by (simp add: seen_ty_def seen_def)

lemma visit_value_needed: "visit_value v (needed_visitor ig) \<longleftrightarrow> cg_is_generic v"
  by (cases v) (simp_all add: needed_visitor_def)

lemma seen_cgI:
  "(\<And>vis chk d. hit ig (occ_value t vis chk d) \<longleftrightarrow> vis \<and> cg_is_generic t) \<Longrightarrow> seen_cg ig t"
  by (simp add: seen_cg_def seen_def visit_value_needed)

lemma seen_cgD: "seen_cg ig v \<Longrightarrow> hit ig (occ_value v vis chk d) \<longleftrightarrow> vis \<and> cg_is_generic v"
  by (simp add: seen_cg_def seen_def visit_value_needed)

lemma hit_map_map:
  "(\<And>x. x \<in> set xs \<Longrightarrow> seen ig (F (f x)) (G (g x))) \<Longrightarrow>
    list_ex (hit ig) (map (\<lambda>y. F y vis chk d) (map f xs)) \<longleftrightarrow> vis \<and> list_ex (\<lambda>y. G y (needed_visitor ig)) (map g xs)"
proof (induction xs)
  case (Cons a xs)
  have "seen ig (F (f a)) (G (g a))" by (rule Cons.prems) simp
  from seenD [OF this] Cons show ?case by auto
qed simp

lemma hit_markers:
  assumes "\<And>p t. p \<in> set ps \<Longrightarrow> t \<in> set1_generic_path p \<Longrightarrow> seen_ty ig t"
    and "\<And>p v. p \<in> set ps \<Longrightarrow> v \<in> set2_generic_path p \<Longrightarrow> seen_cg ig v"
  shows "list_ex (hit ig) (map (\<lambda>p. occ_generic_path p vis chk d) (map (map_generic_path occ_type occ_value) ps))
    \<longleftrightarrow> vis \<and> list_ex (\<lambda>p. visit_path_params (gp_params p) (needed_visitor ig)) (map (map_generic_path visit_type visit_value) ps)"
  using assms by (intro hit_map_map [where G = "\<lambda>p. visit_path_params (gp_params p)"] seen_kids(2)) blast+

lemma hit_traits:
  assumes "\<And>p t. p \<in> set ps \<Longrightarrow> t \<in> set1_trait_path p \<Longrightarrow> seen_ty ig t"
    and "\<And>p v. p \<in> set ps \<Longrightarrow> v \<in> set2_trait_path p \<Longrightarrow> seen_cg ig v"
  shows "list_ex (hit ig) (map (\<lambda>p. occ_trait_path p vis chk d) (map (map_trait_path occ_type occ_value occ_generics) ps))
    \<longleftrightarrow> vis \<and> list_ex (\<lambda>p. visit_trait_path p (needed_visitor ig)) (map (map_trait_path visit_type visit_value visit_generics) ps)"
  using assms by (intro hit_map_map seen_kids(4)) blast+

lemma hit_types:
  assumes "\<And>t. t \<in> set ts \<Longrightarrow> seen_ty ig t"
  shows "list_ex (hit ig) (map (\<lambda>f. f vis chk d) (map occ_type ts))
    \<longleftrightarrow> vis \<and> list_ex (\<lambda>f. f (needed_visitor ig)) (map visit_type ts)"
  using assms by (intro hit_map_map) (simp add: seen_ty_def)

lemma hit_arraysize:
  assumes "\<And>v. v \<in> set_array_size n \<Longrightarrow> seen_cg ig v"
  shows "hit ig (occ_arraysize n (map_array_size occ_value n) vis d) \<longleftrightarrow> vis \<and> (\<exists>v. n = AS_Unevaluated v)"
proof (cases n)
  case (AS_Unevaluated v)
  with assms have "hit ig (occ_value v vis False d) \<Longrightarrow> vis" using seen_cgD by simp
  with AS_Unevaluated show ?thesis
    by (auto simp: occ_arraysize_def is_lifetime_occ_def split: const_generic.splits)
qed (simp add: occ_arraysize_def)

lemma seen_types: "seen_ty ig t \<and> seen_cg ig v \<and> (\<lambda>_. True) g"
proof (rule type_ref_const_generic_generic_params.induct, goal_cases)
  case (4 p b h)
  then show ?case by (intro seen_tyI) (simp add: visit_over_needed needed_type_check_def seenD [OF seen_kids(3)])
next
  case (6 tr ms l)
  then show ?case
    by (intro seen_tyI) (auto simp: visit_over_needed needed_type_check_def seenD [OF seen_kids(4)] hit_lifetime
      hit_markers simp del: map_map)
next
  case (7 sized trs ls i)
  then show ?case
    by (intro seen_tyI) (auto simp: visit_over_needed needed_type_check_def seenD [OF seen_kids(5)] hit_lifetimes
      hit_traits simp del: map_map)
next
  case (8 t n)
  then show ?case
    by (intro seen_tyI) (auto simp: visit_over_needed needed_type_check_def seen_tyD hit_arraysize split: array_size.splits)
next
  case (10 ts)
  then show ?case
    by (intro seen_tyI) (simp add: visit_over_needed needed_type_check_def hit_types del: map_map)
next
  case (13 p f)
  then show ?case by (intro seen_tyI) (simp add: visit_over_needed needed_type_check_def seenD [OF seen_kids(3)])
next
  case (14 h us va abi r as)
  then show ?case
    by (intro seen_tyI) (auto simp: visit_over_needed needed_type_check_def hit_types seen_tyD simp del: map_map)
next
  case (18 p q e)
  then show ?case
    by (intro seen_cgI) (simp add: cg_is_generic_def hit_unseen [OF seen_kids(1)])
qed (auto intro!: seen_tyI seen_cgI simp: visit_over_needed needed_type_check_def cg_is_generic_def seen_tyD hit_lifetime
   is_lifetime_occ_def split: if_splits)

lemma needed_exact:
  "monomorphise_type_needed t ig \<longleftrightarrow>
    list_ex (\<lambda>x. fst x \<and> \<not> (ig \<and> is_lifetime_occ (snd x))) (occ_type t True chk d)"
proof -
  have "seen_ty ig t" using seen_types by blast
  from seen_tyD [OF this, of True chk d] show ?thesis by (simp add: monomorphise_type_needed_def hit_def)
qed
end
