(* ===== verification/Mono_Plain.thy ===== *)
theory Mono_Plain
  imports Ty_Visit
begin

text \<open>
  Types that \<open>Monomorphiser\<close> and the \<open>clone\<close> functions rebuild as they are: no path bound as opaque
  or with binders of its own, no evaluated constant left as the size of an array, no default on a copied value
  parameter, no text beside the path of a relocation.  On these \<open>MonomorphiserNop\<close> is the identity.
\<close>

section \<open>Types that a copy leaves alone\<close>

definition empty_expr :: "('t, 'v, 'g) expr_ptr" where "empty_expr = ExprPtr None [] [] None"

definition plain_reloc :: "('t, 'v, 'g) reloc \<Rightarrow> bool" where
  "plain_reloc r = (rl_p r = None \<or> rl_bytes r = '''')"

definition plain_binding :: "type_path_binding \<Rightarrow> bool" where
  "plain_binding b = (case b of TPB_Opaque \<Rightarrow> False | _ \<Rightarrow> True)"

definition plain_size :: "const_generic array_size \<Rightarrow> bool" where
  "plain_size n = (case n of AS_Unevaluated (CG_Evaluated _) \<Rightarrow> False | _ \<Rightarrow> True)"

definition plain_erased_inner :: "(bool, bool, bool) erased_inner \<Rightarrow> bool" where
  "plain_erased_inner i = (case i of
     EI_Fcn p n \<Rightarrow> pred_path id id id p
   | EI_Known t \<Rightarrow> t
   | EI_Alias ps n g p t \<Rightarrow> pred_path_params id id ps)"

primrec plain_type :: "type_ref \<Rightarrow> bool"
  and plain_value :: "const_generic \<Rightarrow> bool"
  and plain_generics :: "generic_params \<Rightarrow> bool" where
  "plain_type (Ty_Infer i c) = True"
| "plain_type Ty_Diverge = True"
| "plain_type (Ty_Primitive c) = True"
| "plain_type (Ty_Path p b h) = (h = None \<and> plain_binding b \<and> pred_path id id id (map_path plain_type plain_value plain_generics p))"
| "plain_type (Ty_Generic g) = True"
| "plain_type (Ty_TraitObject tr ms l) =
    (pred_trait_path id id id (map_trait_path plain_type plain_value plain_generics tr)
     \<and> list_all (pred_generic_path id id) (map (map_generic_path plain_type plain_value) ms))"
| "plain_type (Ty_ErasedType sized trs ls i) =
    (list_all (pred_trait_path id id id) (map (map_trait_path plain_type plain_value plain_generics) trs)
     \<and> plain_erased_inner (map_erased_inner plain_type plain_value plain_generics i))"
| "plain_type (Ty_Array t n) = (plain_size n \<and> plain_type t \<and> pred_array_size id (map_array_size plain_value n))"
| "plain_type (Ty_Slice t) = plain_type t"
| "plain_type (Ty_Tuple ts) = list_all id (map plain_type ts)"
| "plain_type (Ty_Borrow l b t) = plain_type t"
| "plain_type (Ty_Pointer b t) = plain_type t"
| "plain_type (Ty_NamedFunction p f) = pred_path id id id (map_path plain_type plain_value plain_generics p)"
| "plain_type (Ty_Function h us va abi r as) = (plain_generics h \<and> plain_type r \<and> list_all id (map plain_type as))"
| "plain_type (Ty_Closure n) = True"
| "plain_type (Ty_Generator n) = True"
| "plain_value (CG_Infer i) = True"
| "plain_value (CG_Unevaluated p q e) =
    (pred_path_params id id (map_path_params plain_type plain_value p)
     \<and> pred_path_params id id (map_path_params plain_type plain_value q))"
| "plain_value (CG_Generic g) = True"
| "plain_value (CG_Evaluated l) =
    (list_all plain_reloc (el_relocations l)
     \<and> pred_encoded_literal id id id (map_encoded_literal (\<lambda>_. True) plain_value plain_generics l))"
| "plain_generics (GenericParams ts ls vs bs) =
    (list_all (\<lambda>v. vpd_default v = empty_expr) vs
     \<and> list_all (pred_generic_bound id id id) (map (map_generic_bound (\<lambda>_. True) plain_value plain_generics) bs))"

section \<open>The monomorphiser that does nothing\<close>

definition ident :: "target_arch \<Rightarrow> 'a mono_op \<Rightarrow> 'a \<Rightarrow> bool" where
  "ident a f x \<longleftrightarrow> (\<forall>d. f (nop_monomorphiser a) True d = Inr x)"

definition copies :: "target_arch \<Rightarrow> gp_copy \<Rightarrow> generic_params \<Rightarrow> bool" where
  "copies a g h \<longleftrightarrow> g a = Inr h"

lemma identD: "ident a f x \<Longrightarrow> f (nop_monomorphiser a) True d = Inr x"
  by (simp add: ident_def)

lemma identI: "(\<And>d. f (nop_monomorphiser a) True d = Inr x) \<Longrightarrow> ident a f x"
  by (simp add: ident_def)

lemma nop_simps [simp]:
  "mn_callback (nop_monomorphiser a) = (\<lambda>_. None)"
  "mn_arch (nop_monomorphiser a) = a"
  "mn_consteval (nop_monomorphiser a) = None"
  "mn_get_type (nop_monomorphiser a) g = Inr (Ty_Generic g)"
  "mn_get_value (nop_monomorphiser a) g = Inr (CG_Generic g)"
  "mn_get_lifetime (nop_monomorphiser a) g = Inr \<lparr>lr_binding = gr_binding g\<rparr>"
  by (simp_all add: nop_monomorphiser_def)

lemma ident_lifetime [simp]: "mono_lifetime (nop_monomorphiser a) d l = Inr l"
  by (simp add: mono_lifetime_def Let_def)

lemma ident_lifetimes [simp]: "res_list (map (mono_lifetime (nop_monomorphiser a) d) ls) = Inr ls"
  by (induction ls) simp_all

lemma ident_list: "list_all2 (ident a) fs xs \<Longrightarrow> res_list (map (\<lambda>f. f (nop_monomorphiser a) True d) fs) = Inr xs"
  by (induction rule: list_all2_induct) (auto simp: identD)

lemma ident_path_params:
  "rel_path_params (ident a) (ident a) p q \<Longrightarrow> ident a (mono_path_params p) q"
  by (cases p; cases q; rule identI) (simp add: mono_path_params_def ident_list)

lemma ident_generic_path:
  "rel_generic_path (ident a) (ident a) p q \<Longrightarrow> ident a (mono_generic_path p) q"
  by (cases p; cases q; rule identI) (auto simp: mono_generic_path_def identD [OF ident_path_params])

lemma copy_hrtbs_copies: "rel_option (copies a) h h' \<Longrightarrow> res_opt (map_option (\<lambda>g. g a) h) = Inr h'"
  by (cases h; cases h') (auto simp: copies_def)

lemma ident_hrtbs: "rel_option (copies a) h h' \<Longrightarrow> copy_hrtbs h (nop_monomorphiser a) = Inr h'"
  by (simp add: copy_hrtbs_def copy_hrtbs_copies)

lemma ident_type_bounds:
  "list_all2 (rel_prod (=) (rel_aty_equal (ident a) (ident a))) es fs \<Longrightarrow>
    res_list (map (\<lambda>e. res_entry (map_prod id (\<lambda>f. mono_aty_equal f (nop_monomorphiser a) True d) e)) es) = Inr fs"
proof (induction rule: list_all2_induct)
  case (Cons e es f fs)
  obtain k s t where e: "e = (k, AtyEqual s t)" by (metis aty_equal.exhaust surj_pair)
  obtain k' s' t' where f: "f = (k', AtyEqual s' t')" by (metis aty_equal.exhaust surj_pair)
  show ?case using Cons by (simp add: e f mono_aty_equal_def identD [OF ident_generic_path] identD)
qed simp

lemma ident_entries:
  "list_all2 (rel_prod (=) (\<lambda>b. ident a (f b))) es fs \<Longrightarrow>
    res_list (map res_entry (map (map_prod id (\<lambda>g. g (nop_monomorphiser a) True d)) (map (map_prod id f) es))) = Inr fs"
  by (induction rule: list_all2_induct) (auto simp: identD)

lemma ident_mapped:
  "list_all2 (\<lambda>b. ident a (f b)) es fs \<Longrightarrow>
    res_list (map (\<lambda>g. g (nop_monomorphiser a) True d) (map f es)) = Inr fs"
  by (induction rule: list_all2_induct) (auto simp: identD)

lemma ident_trait_path_bound:
  "(rel_trait_path (ident a) (ident a) (copies a) p q \<longrightarrow> (\<forall>i. ident a (mono_trait_path p i) q)) \<and>
   (rel_aty_bound (ident a) (ident a) (copies a) b c \<longrightarrow> ident a (mono_aty_bound b) c)"
proof (rule trait_path_aty_bound.rel_induct, goal_cases)
  case (1 h p tbs bbs tr h' p' tbs' bbs' tr')
  then show ?case
    by (auto intro!: identI simp: Let_def ident_hrtbs identD [OF ident_generic_path] ident_type_bounds ident_entries
        simp del: map_map list.map_comp)
next
  case (2 s ts s' ts')
  then have "list_all2 (\<lambda>b. ident a (mono_trait_path b False)) ts ts'" by (auto elim: list_all2_mono)
  from ident_mapped [OF this] 2 show ?case
    by (auto intro!: identI simp: identD [OF ident_generic_path] comp_def)
qed

lemmas ident_trait_path = ident_trait_path_bound [THEN conjunct1, rule_format]

lemma ident_path:
  "rel_path (ident a) (ident a) (copies a) p q \<Longrightarrow> ident a (mono_path p) q"
  by (cases p; cases q; rule identI)
    (auto simp: mono_path_def identD [OF ident_generic_path] identD [OF ident_path_params] identD ident_hrtbs)


subsection \<open>Copies\<close>

lemma clone_values: "list_all2 (ident a) fs vs \<Longrightarrow> res_list (map (\<lambda>f. clone_value f a) fs) = Inr vs"
  unfolding clone_value_def by (rule ident_list)

lemma clone_path_params_id: "rel_path_params (=) (ident a) p q \<Longrightarrow> clone_path_params p a = Inr q"
  by (cases p; cases q) (simp add: clone_path_params_def clone_values list.rel_eq)

lemma clone_generic_path_id: "rel_generic_path (=) (ident a) p q \<Longrightarrow> clone_generic_path p a = Inr q"
  by (cases p; cases q) (simp add: clone_generic_path_def clone_path_params_id)

lemma clone_type_bounds_id:
  "list_all2 (rel_prod (=) (rel_aty_equal (=) (ident a))) es fs \<Longrightarrow>
    res_list (map (\<lambda>e. res_entry (map_prod id (\<lambda>f. clone_aty_equal f a) e)) es) = Inr fs"
proof (induction rule: list_all2_induct)
  case (Cons e es f fs)
  obtain k s t where e: "e = (k, AtyEqual s t)" by (metis aty_equal.exhaust surj_pair)
  obtain k' s' t' where f: "f = (k', AtyEqual s' t')" by (metis aty_equal.exhaust surj_pair)
  show ?case using Cons by (simp add: e f clone_aty_equal_def clone_generic_path_id)
qed simp

lemma clone_entries_id:
  "list_all2 (rel_prod (=) (\<lambda>b c. f b a = Inr c)) es fs \<Longrightarrow>
    res_list (map res_entry (map (map_prod id (\<lambda>g. g a)) (map (map_prod id f) es))) = Inr fs"
  by (induction rule: list_all2_induct) auto

lemma clone_mapped_id:
  "list_all2 (\<lambda>b c. f b a = Inr c) es fs \<Longrightarrow> res_list (map (\<lambda>g. g a) (map f es)) = Inr fs"
  by (induction rule: list_all2_induct) auto

lemma clone_trait_path_bound_id:
  "(rel_trait_path (=) (ident a) (copies a) p q \<longrightarrow> clone_trait_path p a = Inr q) \<and>
   (rel_aty_bound (=) (ident a) (copies a) b c \<longrightarrow> clone_aty_bound b a = Inr c)"
proof (rule trait_path_aty_bound.rel_induct, goal_cases)
  case (1 h p tbs bbs tr h' p' tbs' bbs' tr')
  then show ?case
    by (simp add: copy_hrtbs_copies clone_generic_path_id clone_type_bounds_id clone_entries_id del: map_map list.map_comp)
next
  case (2 s ts s' ts')
  then show ?case by (simp add: clone_generic_path_id clone_mapped_id del: map_map list.map_comp)
qed

lemmas clone_trait_path_id = clone_trait_path_bound_id [THEN conjunct1, rule_format]

lemma clone_path_id: "rel_path (=) (ident a) (copies a) p q \<Longrightarrow> clone_path p a = Inr q"
  by (cases p; cases q)
    (auto simp: clone_path_def clone_generic_path_id clone_path_params_id copy_hrtbs_copies)

lemma clone_reloc_id:
  "rel_reloc (=) (ident a) (copies a) r s \<Longrightarrow> plain_reloc s \<Longrightarrow> clone_reloc r a = Inr s"
  by (cases r; cases s; cases "rl_p r"; cases "rl_p s") (auto simp: clone_reloc_def plain_reloc_def clone_path_id)

lemma clone_literal_id:
  "rel_encoded_literal (=) (ident a) (copies a) l k \<Longrightarrow> list_all plain_reloc (el_relocations k) \<Longrightarrow> clone_literal l a = Inr k"
proof (cases l; cases k)
  fix bs rs bs' rs'
  assume r: "rel_encoded_literal (=) (ident a) (copies a) l k" and p: "list_all plain_reloc (el_relocations k)"
    and l: "l = EncodedLiteral bs rs" and k: "k = EncodedLiteral bs' rs'"
  have "list_all2 (rel_reloc (=) (ident a) (copies a)) rs rs'" "list_all plain_reloc rs'" using r p by (auto simp: l k)
  then have "res_list (map (\<lambda>r. clone_reloc r a) rs) = Inr rs'"
    by (induction rule: list_all2_induct) (auto simp: clone_reloc_id)
  with r show ?thesis by (simp add: l k clone_literal_def)
qed

lemma clone_bound_id:
  "rel_generic_bound (=) (ident a) (copies a) b c \<Longrightarrow> clone_bound b a = Inr c"
  by (cases b; cases c) (auto simp: clone_bound_def copy_hrtbs_copies clone_trait_path_id)

lemma clone_bounds_id:
  "list_all2 (rel_generic_bound (=) (ident a) (copies a)) bs cs \<Longrightarrow> res_list (map (\<lambda>b. clone_bound b a) bs) = Inr cs"
  by (induction rule: list_all2_induct) (auto simp: clone_bound_id)

subsection \<open>All types\<close>

definition ident_ty where "ident_ty a t = ident a (mono_type t) t"
definition ident_cg where "ident_cg a v = ident a (mono_constgeneric v) v"
definition ident_gp where "ident_gp a g = copies a (clone_generics g) g"

lemmas pred_sets = path_params.pred_map path_params.pred_set generic_path.pred_map generic_path.pred_set path.pred_map path.pred_set
  trait_path.pred_map trait_path.pred_set reloc.pred_map reloc.pred_set encoded_literal.pred_map encoded_literal.pred_set
  generic_bound.pred_map generic_bound.pred_set array_size.pred_map array_size.pred_set list.pred_map
  path_params.set_map generic_path.set_map path.set_map trait_path.set_map encoded_literal.set_map generic_bound.set_map

lemma ident_kids:
  "(\<And>t. t \<in> set1_path_params pp \<Longrightarrow> plain_type t \<Longrightarrow> ident_ty a t) \<Longrightarrow> (\<And>v. v \<in> set2_path_params pp \<Longrightarrow> plain_value v \<Longrightarrow> ident_cg a v)
    \<Longrightarrow> pred_path_params id id (map_path_params plain_type plain_value pp)
    \<Longrightarrow> rel_path_params (ident a) (ident a) (map_path_params mono_type mono_constgeneric pp) pp"
  "(\<And>t. t \<in> set1_generic_path g \<Longrightarrow> plain_type t \<Longrightarrow> ident_ty a t) \<Longrightarrow> (\<And>v. v \<in> set2_generic_path g \<Longrightarrow> plain_value v \<Longrightarrow> ident_cg a v)
    \<Longrightarrow> pred_generic_path id id (map_generic_path plain_type plain_value g)
    \<Longrightarrow> rel_generic_path (ident a) (ident a) (map_generic_path mono_type mono_constgeneric g) g"
  "(\<And>t. t \<in> set1_path p \<Longrightarrow> plain_type t \<Longrightarrow> ident_ty a t) \<Longrightarrow> (\<And>v. v \<in> set2_path p \<Longrightarrow> plain_value v \<Longrightarrow> ident_cg a v)
    \<Longrightarrow> (\<And>h. h \<in> set3_path p \<Longrightarrow> plain_generics h \<Longrightarrow> ident_gp a h)
    \<Longrightarrow> pred_path id id id (map_path plain_type plain_value plain_generics p)
    \<Longrightarrow> rel_path (ident a) (ident a) (copies a) (map_path mono_type mono_constgeneric clone_generics p) p"
  "(\<And>t. t \<in> set1_trait_path q \<Longrightarrow> plain_type t \<Longrightarrow> ident_ty a t) \<Longrightarrow> (\<And>v. v \<in> set2_trait_path q \<Longrightarrow> plain_value v \<Longrightarrow> ident_cg a v)
    \<Longrightarrow> (\<And>h. h \<in> set3_trait_path q \<Longrightarrow> plain_generics h \<Longrightarrow> ident_gp a h)
    \<Longrightarrow> pred_trait_path id id id (map_trait_path plain_type plain_value plain_generics q)
    \<Longrightarrow> rel_trait_path (ident a) (ident a) (copies a) (map_trait_path mono_type mono_constgeneric clone_generics q) q"
  "(\<And>v. v \<in> set2_encoded_literal l \<Longrightarrow> plain_value v \<Longrightarrow> ident_cg a v)
    \<Longrightarrow> (\<And>h. h \<in> set3_encoded_literal l \<Longrightarrow> plain_generics h \<Longrightarrow> ident_gp a h)
    \<Longrightarrow> pred_encoded_literal id id id (map_encoded_literal (\<lambda>_. True) plain_value plain_generics l)
    \<Longrightarrow> rel_encoded_literal (=) (ident a) (copies a) (map_encoded_literal id mono_constgeneric clone_generics l) l"
  "(\<And>v. v \<in> set2_generic_bound b \<Longrightarrow> plain_value v \<Longrightarrow> ident_cg a v)
    \<Longrightarrow> (\<And>h. h \<in> set3_generic_bound b \<Longrightarrow> plain_generics h \<Longrightarrow> ident_gp a h)
    \<Longrightarrow> pred_generic_bound id id id (map_generic_bound (\<lambda>_. True) plain_value plain_generics b)
    \<Longrightarrow> rel_generic_bound (=) (ident a) (copies a) (map_generic_bound id mono_constgeneric clone_generics b) b"
  by (simp_all add: pred_sets ident_ty_def ident_cg_def ident_gp_def
      path_params.rel_map path_params.rel_refl_strong generic_path.rel_map generic_path.rel_refl_strong
      path.rel_map path.rel_refl_strong trait_path.rel_map trait_path.rel_refl_strong
      encoded_literal.rel_map encoded_literal.rel_refl_strong generic_bound.rel_map generic_bound.rel_refl_strong)

lemma ident_tyI: "mono_type t = mono_over t f \<Longrightarrow> (\<And>d. f (nop_monomorphiser a) True d = Inr t) \<Longrightarrow> ident_ty a t"
  by (simp add: ident_ty_def ident_def mono_over_def)

lemma ident_tyD: "ident_ty a t \<Longrightarrow> mono_type t (nop_monomorphiser a) True d = Inr t"
  by (simp add: ident_ty_def ident_def)

lemma rebind_plain: "plain_binding b \<Longrightarrow> rebind_path b = b"
  by (cases b) (simp_all add: plain_binding_def rebind_path_def)

lemma ident_erased_inner:
  assumes "\<And>t. t \<in> set1_erased_inner i \<Longrightarrow> plain_type t \<Longrightarrow> ident_ty a t"
    and "\<And>v. v \<in> set2_erased_inner i \<Longrightarrow> plain_value v \<Longrightarrow> ident_cg a v"
    and "\<And>h. h \<in> set3_erased_inner i \<Longrightarrow> plain_generics h \<Longrightarrow> ident_gp a h"
    and "plain_erased_inner (map_erased_inner plain_type plain_value plain_generics i)"
  shows "mono_erased_inner i (map_erased_inner mono_type mono_constgeneric clone_generics i) (nop_monomorphiser a) True d = Inr i"
  using assms
  by (cases i)
    (simp_all add: mono_erased_inner_def plain_erased_inner_def identD [OF ident_path [OF ident_kids(3)]] ident_tyD
      identD [OF ident_path_params [OF ident_kids(1)]] with_alias_params_def)

lemma ident_types: "(plain_type t \<longrightarrow> ident_ty a t) \<and> (plain_value v \<longrightarrow> ident_cg a v) \<and> (plain_generics g \<longrightarrow> ident_gp a g)"
proof (rule type_ref_const_generic_generic_params.induct, goal_cases)
  case (4 p b h)
  then show ?case
    by (intro impI ident_tyI [OF mono_type.simps(4)]) (simp add: identD [OF ident_path [OF ident_kids(3)]] rebind_plain)
next
  case (6 tr ms l)
  show ?case
  proof (intro impI ident_tyI [OF mono_type.simps(6)])
    fix d
    assume pl: "plain_type (Ty_TraitObject tr ms l)"
    then have tr: "ident a (mono_trait_path (map_trait_path mono_type mono_constgeneric clone_generics tr) False) tr"
      using 6 by (intro ident_trait_path ident_kids(4)) auto
    have "list_all2 (ident a) (map mono_generic_path (map (map_generic_path mono_type mono_constgeneric) ms)) ms"
      using 6 pl by (auto simp: list.rel_map list_all_iff intro!: list.rel_refl_strong ident_generic_path ident_kids(2))
    from ident_list [OF this, of "hrb_depth (tp_hrtbs tr) d"] identD [OF tr]
    show "mono_trait_object (map_trait_path mono_type mono_constgeneric clone_generics tr)
        (map (map_generic_path mono_type mono_constgeneric) ms) l (nop_monomorphiser a) True d = Inr (Ty_TraitObject tr ms l)"
      by (simp add: mono_trait_object_def comp_def)
  qed
next
  case (7 sized trs ls i)
  show ?case
  proof (intro impI ident_tyI [OF mono_type.simps(7)])
    fix d
    assume pl: "plain_type (Ty_ErasedType sized trs ls i)"
    have "list_all2 (ident a) (map (\<lambda>p. mono_trait_path p False) (map (map_trait_path mono_type mono_constgeneric clone_generics) trs)) trs"
      using 7 pl by (auto simp: list.rel_map list_all_iff intro!: list.rel_refl_strong ident_trait_path ident_kids(4))
    from ident_list [OF this, of d]
    show "mono_erased_type i sized (map (map_trait_path mono_type mono_constgeneric clone_generics) trs) ls
        (map_erased_inner mono_type mono_constgeneric clone_generics i) (nop_monomorphiser a) True d = Inr (Ty_ErasedType sized trs ls i)"
      using 7 pl by (simp add: mono_erased_type_def ident_erased_inner comp_def)
  qed
next
  case (8 t n)
  then show ?case
    by (intro impI ident_tyI [OF mono_type.simps(8)])
      (cases n; auto simp: mono_array_def ident_tyD mono_arraysize_def mono_size_value_def mono_size_evaluate_def plain_size_def
        ident_cg_def identD split: const_generic.splits)
next
  case (10 ts)
  show ?case
  proof (intro impI ident_tyI [OF mono_type.simps(10)])
    fix d
    assume "plain_type (Ty_Tuple ts)"
    then have "list_all2 (ident a) (map mono_type ts) ts"
      using 10 by (auto simp: list.rel_map list_all_iff ident_ty_def intro!: list.rel_refl_strong)
    from ident_list [OF this, of d]
    show "res_map Ty_Tuple (res_list (map (\<lambda>f. f (nop_monomorphiser a) True d) (map mono_type ts))) = Inr (Ty_Tuple ts)" by simp
  qed
next
  case (13 p f)
  then show ?case
    by (intro impI ident_tyI [OF mono_type.simps(13)]) (simp add: identD [OF ident_path [OF ident_kids(3)]])
next
  case (14 h us va abi r as)
  show ?case
  proof (intro impI ident_tyI [OF mono_type.simps(14)])
    fix d
    assume pl: "plain_type (Ty_Function h us va abi r as)"
    then have "list_all2 (ident a) (map mono_type as) as"
      using 14 by (auto simp: list.rel_map list_all_iff ident_ty_def intro!: list.rel_refl_strong)
    from ident_list [OF this, of "Suc d"]
    show "mono_function (clone_generics h) us va abi (mono_type r) (map mono_type as) (nop_monomorphiser a) True d
        = Inr (Ty_Function h us va abi r as)"
      using 14 pl by (simp add: mono_function_def ident_gp_def copies_def ident_tyD)
  qed
next
  case (18 p q e)
  show ?case
  proof
    assume pl: "plain_value (CG_Unevaluated p q e)"
    have "ident a (mono_path_params (map_path_params mono_type mono_constgeneric p)) p"
      and "ident a (mono_path_params (map_path_params mono_type mono_constgeneric q)) q"
      using 18 pl by (auto intro!: ident_path_params ident_kids(1))
    then show "ident_cg a (CG_Unevaluated p q e)"
      by (simp add: ident_cg_def ident_def mono_unevaluated_def)
  qed
next
  case (20 l)
  show ?case
  proof
    assume pl: "plain_value (CG_Evaluated l)"
    with 20 have "clone_literal (map_encoded_literal id mono_constgeneric clone_generics l) a = Inr l"
      by (intro clone_literal_id ident_kids(5)) auto
    then show "ident_cg a (CG_Evaluated l)" by (simp add: ident_cg_def ident_def)
  qed
next
  case (21 ts ls vs bs)
  show ?case
  proof
    assume pl: "plain_generics (GenericParams ts ls vs bs)"
    then have "list_all2 (rel_generic_bound (=) (ident a) (copies a)) (map (map_generic_bound id mono_constgeneric clone_generics) bs) bs"
      using 21 by (auto simp: list.rel_map list_all_iff intro!: list.rel_refl_strong ident_kids(6))
    moreover have "map (\<lambda>v. ValueParamDef (vpd_name v) (vpd_type v) (ExprPtr None [] [] None)) vs = vs"
      using pl by (induction vs) (auto simp: empty_expr_def value_param_def.expand)
    ultimately show "ident_gp a (GenericParams ts ls vs bs)"
      using clone_bounds_id by (simp add: ident_gp_def copies_def clone_generics_of_def del: map_map)
  qed
qed (auto intro: ident_tyI simp: ident_tyD ident_cg_def intro!: identI)

end
