(* ===== verification/Mono_Answers.thy ===== *)
theory Mono_Answers
  imports Mono_Plain
begin

text \<open>
  A substitution as a list of questions to the monomorphiser: for a plain type the result of
  \<open>Monomorphiser::monomorph_type\<close> is a function of the answers, it fails with the first question that has
  no answer, and when the answers hold nothing to substitute, nor does the result.
\<close>

section \<open>The questions a substitution asks, in order\<close>

datatype answer =
    An_Type type_ref
  | An_Value const_generic
  | An_Size "const_generic array_size"
  | An_Lifetime lifetime_ref
  | An_Unit

definition param_of :: "lifetime_ref \<Rightarrow> generic_ref" where
  "param_of l = \<lparr>gr_name = '''', gr_binding = lr_binding l\<rparr>"

definition ask :: "monomorphiser \<Rightarrow> occurrence \<Rightarrow> error + answer" where
  "ask m o' = (case o' of
     Occ_Type g \<Rightarrow> res_map An_Type (mn_get_type m g)
   | Occ_Value g \<Rightarrow> res_map An_Value (mn_get_value m g)
   | Occ_Size_Value g \<Rightarrow> res_map An_Size (res_bind (mn_get_value m g) (mono_size_evaluate m))
   | Occ_Lifetime l \<Rightarrow> res_map An_Lifetime (mn_get_lifetime m (param_of l))
   | Occ_Size \<Rightarrow> Inr An_Unit
   | Occ_Infer \<Rightarrow> Inl (Bug ''Unexpected ivar seen''))"

definition is_param_occ :: "occurrence \<Rightarrow> bool" where
  "is_param_occ o' = (case o' of Occ_Size \<Rightarrow> False | Occ_Infer \<Rightarrow> False | _ \<Rightarrow> True)"

definition no_param :: "(bool \<times> occurrence) list \<Rightarrow> bool" where
  "no_param xs = list_all (\<lambda>x. \<not> is_param_occ (snd x)) xs"

lemma no_param_simps [simp]:
  "no_param []"
  "no_param (x # xs) \<longleftrightarrow> \<not> is_param_occ (snd x) \<and> no_param xs"
  "no_param (xs @ ys) \<longleftrightarrow> no_param xs \<and> no_param ys"
  by (simp_all add: no_param_def)

lemma no_param_concat [simp]: "no_param (concat xss) \<longleftrightarrow> list_all no_param xss"
  by (induction xss) simp_all

text \<open>Nothing is left to substitute under \<open>d\<close> binders.\<close>

definition closed_ty :: "nat \<Rightarrow> type_ref \<Rightarrow> bool" where
  "closed_ty d t \<longleftrightarrow> (\<forall>vis chk. no_param (occ_type t vis chk d))"

definition closed_cg :: "nat \<Rightarrow> const_generic \<Rightarrow> bool" where
  "closed_cg d v \<longleftrightarrow> (\<forall>vis chk. no_param (occ_value v vis chk d))"

definition closed_size :: "nat \<Rightarrow> const_generic array_size \<Rightarrow> bool" where
  "closed_size d n \<longleftrightarrow> (\<forall>vis. no_param (occ_arraysize n (map_array_size occ_value n) vis d))"

definition good_answer :: "answer \<Rightarrow> bool" where
  "good_answer x = (case x of
     An_Type t \<Rightarrow> \<forall>d. closed_ty d t
   | An_Value v \<Rightarrow> \<forall>d. closed_cg d v
   | An_Size n \<Rightarrow> \<forall>d. closed_size d n
   | An_Lifetime l \<Rightarrow> \<not> lr_is_param l
   | An_Unit \<Rightarrow> True)"

definition good_at :: "monomorphiser \<Rightarrow> occurrence \<Rightarrow> bool" where
  "good_at m o' \<longleftrightarrow> (\<forall>x. ask m o' = Inr x \<longrightarrow> good_answer x)"

text \<open>A monomorphiser without callback and crate.\<close>

definition basic :: "target_arch \<Rightarrow> monomorphiser \<Rightarrow> bool" where
  "basic a m \<longleftrightarrow> mn_callback m = (\<lambda>_. None) \<and> mn_consteval m = None \<and> mn_arch m = a"

definition asks :: "target_arch \<Rightarrow> ('a \<Rightarrow> bool) \<Rightarrow> (monomorphiser \<Rightarrow> error + 'a) \<Rightarrow> occurrence list \<Rightarrow> bool" where
  "asks a G F os \<longleftrightarrow>
    (\<exists>K. \<forall>m. basic a m \<longrightarrow> F m = res_map K (res_list (map (ask m) os))) \<and>
    (\<forall>m r. basic a m \<longrightarrow> F m = Inr r \<longrightarrow> list_all (good_at m) os \<longrightarrow> G r)"

lemma asksI:
  "(\<And>m. basic a m \<Longrightarrow> F m = res_map K (res_list (map (ask m) os))) \<Longrightarrow>
    (\<And>m r. basic a m \<Longrightarrow> F m = Inr r \<Longrightarrow> list_all (good_at m) os \<Longrightarrow> G r) \<Longrightarrow> asks a G F os"
  by (auto simp: asks_def)

lemma asks_good: "asks a G F os \<Longrightarrow> basic a m \<Longrightarrow> F m = Inr r \<Longrightarrow> list_all (good_at m) os \<Longrightarrow> G r"
  by (auto simp: asks_def)

lemma asks_cong: "asks a G F os \<Longrightarrow> (\<And>m. basic a m \<Longrightarrow> F' m = F m) \<Longrightarrow> asks a G F' os"
  by (auto simp: asks_def)

lemma asks_also:
  "asks a G F os \<Longrightarrow> (\<And>m r. basic a m \<Longrightarrow> F m = Inr r \<Longrightarrow> H r) \<Longrightarrow> asks a (\<lambda>r. G r \<and> H r) F os"
  by (auto simp: asks_def)

lemma asks_Inr: "G x \<Longrightarrow> asks a G (\<lambda>m. Inr x) []"
  by (auto simp: asks_def)

lemma asks_map: "asks a G F os \<Longrightarrow> (\<And>x. G x \<Longrightarrow> H (f x)) \<Longrightarrow> asks a H (\<lambda>m. res_map f (F m)) os"
proof -
  assume F: "asks a G F os" and H: "\<And>x. G x \<Longrightarrow> H (f x)"
  from F obtain K where "\<And>m. basic a m \<Longrightarrow> F m = res_map K (res_list (map (ask m) os))" by (auto simp: asks_def)
  then have "basic a m \<Longrightarrow> res_map f (F m) = res_map (f \<circ> K) (res_list (map (ask m) os))" for m
    by (simp add: res_map_def res_bind_assoc)
  then show ?thesis by (rule asksI) (auto intro!: H dest: asks_good [OF F])
qed

lemma res_list_append: "res_list (xs @ ys) = res_lift2 (@) (res_list xs) (res_list ys)"
proof (induction xs)
  case (Cons x xs)
  then show ?case by (cases x; cases "res_list xs"; cases "res_list ys") simp_all
qed (cases "res_list ys"; simp)

lemma res_list_length: "res_list rs = Inr xs \<Longrightarrow> length xs = length rs"
  by (auto simp: res_list_Inr_iff)

lemma asks_lift2:
  assumes F: "asks a G F os" and H: "asks a H E ps" and J: "\<And>x y. G x \<Longrightarrow> H y \<Longrightarrow> J (f x y)"
  shows "asks a J (\<lambda>m. res_lift2 f (F m) (E m)) (os @ ps)"
proof -
  from F obtain K where K: "\<And>m. basic a m \<Longrightarrow> F m = res_map K (res_list (map (ask m) os))" by (auto simp: asks_def)
  from H obtain L where L: "\<And>m. basic a m \<Longrightarrow> E m = res_map L (res_list (map (ask m) ps))" by (auto simp: asks_def)
  have "res_lift2 f (F m) (E m) = res_map (\<lambda>as. f (K (take (length os) as)) (L (drop (length os) as)))
      (res_list (map (ask m) (os @ ps)))" if m: "basic a m" for m
    using K [OF m] L [OF m]
    by (cases "res_list (map (ask m) os)"; cases "res_list (map (ask m) ps)")
      (auto simp: res_list_append dest!: res_list_length)
  then show ?thesis by (rule asksI) (auto intro!: J dest: asks_good [OF F] asks_good [OF H])
qed

lemma asks_lift3:
  assumes "asks a G F os" "asks a H E ps" "asks a I D qs" and J: "\<And>x y z. G x \<Longrightarrow> H y \<Longrightarrow> I z \<Longrightarrow> J (f x y z)"
  shows "asks a J (\<lambda>m. res_lift3 f (F m) (E m) (D m)) (os @ ps @ qs)"
proof -
  have "asks a (\<lambda>p. H (fst p) \<and> I (snd p)) (\<lambda>m. res_lift2 Pair (E m) (D m)) (ps @ qs)"
    using assms(2,3) by (rule asks_lift2) simp
  from asks_lift2 [OF assms(1) this, of J "\<lambda>x p. f x (fst p) (snd p)"] J
  have "asks a J (\<lambda>m. res_lift2 (\<lambda>x p. f x (fst p) (snd p)) (F m) (res_lift2 Pair (E m) (D m))) (os @ ps @ qs)" by auto
  moreover have "res_lift2 (\<lambda>x p. f x (fst p) (snd p)) r (res_lift2 Pair s t) = res_lift3 f r s t" for r s t
    by (cases r; cases s; cases t) simp_all
  ultimately show ?thesis by simp
qed

lemma asks_lift4:
  assumes "asks a G F os" "asks a H E ps" "asks a I D qs" "asks a L C rs"
    and J: "\<And>x y z u. G x \<Longrightarrow> H y \<Longrightarrow> I z \<Longrightarrow> L u \<Longrightarrow> J (f x y z u)"
  shows "asks a J (\<lambda>m. res_lift4 f (F m) (E m) (D m) (C m)) (os @ ps @ qs @ rs)"
proof -
  have "asks a (\<lambda>p. H (fst p) \<and> I (fst (snd p)) \<and> L (snd (snd p)))
      (\<lambda>m. res_lift3 (\<lambda>x y z. (x, y, z)) (E m) (D m) (C m)) (ps @ qs @ rs)"
    using assms(2-4) by (rule asks_lift3) simp
  from asks_lift2 [OF assms(1) this, of J "\<lambda>x p. f x (fst p) (fst (snd p)) (snd (snd p))"] J
  have "asks a J (\<lambda>m. res_lift2 (\<lambda>x p. f x (fst p) (fst (snd p)) (snd (snd p))) (F m)
      (res_lift3 (\<lambda>x y z. (x, y, z)) (E m) (D m) (C m))) (os @ ps @ qs @ rs)" by auto
  moreover have "res_lift2 (\<lambda>x p. f x (fst p) (fst (snd p)) (snd (snd p))) r (res_lift3 (\<lambda>x y z. (x, y, z)) s t u)
      = res_lift4 f r s t u" for r s t u
    by (cases r; cases s; cases t; cases u) simp_all
  ultimately show ?thesis by simp
qed

lemma asks_list:
  "list_all2 (asks a G) Fs oss \<Longrightarrow> asks a (list_all G) (\<lambda>m. res_list (map (\<lambda>F. F m) Fs)) (concat oss)"
proof (induction rule: list_all2_induct)
  case (Cons F Fs os oss)
  have "asks a (list_all G) (\<lambda>m. res_lift2 (#) (F m) (res_list (map (\<lambda>F. F m) Fs))) (os @ concat oss)"
    using Cons by (intro asks_lift2 [where G = G and H = "list_all G"]) auto
  then show ?case by simp
qed (simp add: asks_Inr)

lemma asks_one:
  "(\<And>m. basic a m \<Longrightarrow> F m = res_map f (ask m o')) \<Longrightarrow> (\<And>m x. basic a m \<Longrightarrow> ask m o' = Inr x \<Longrightarrow> good_answer x \<Longrightarrow> G (f x)) \<Longrightarrow>
    asks a G F [o']"
proof -
  assume F: "\<And>m. basic a m \<Longrightarrow> F m = res_map f (ask m o')"
    and G: "\<And>m x. basic a m \<Longrightarrow> ask m o' = Inr x \<Longrightarrow> good_answer x \<Longrightarrow> G (f x)"
  have "basic a m \<Longrightarrow> F m = res_map (\<lambda>as. f (hd as)) (res_list (map (ask m) [o']))" for m
    using F [of m] by (cases "ask m o'") simp_all
  then show ?thesis using F G by (auto simp: asks_def good_at_def)
qed


section \<open>Paths\<close>

definition asks_op :: "target_arch \<Rightarrow> (nat \<Rightarrow> 'a \<Rightarrow> bool) \<Rightarrow> 'a mono_op \<Rightarrow> occ_op \<Rightarrow> bool" where
  "asks_op a G f o' \<longleftrightarrow> (\<forall>vis ai d. asks a (G d) (\<lambda>m. f m ai d) (map snd (o' vis (\<not> ai) d)))"

lemma asks_opD: "asks_op a G f o' \<Longrightarrow> asks a (G d) (\<lambda>m. f m ai d) (map snd (o' vis (\<not> ai) d))"
  by (simp add: asks_op_def)

lemma asks_opI: "(\<And>vis ai d. asks a (G d) (\<lambda>m. f m ai d) (map snd (o' vis (\<not> ai) d))) \<Longrightarrow> asks_op a G f o'"
  by (simp add: asks_op_def)

definition copied :: "target_arch \<Rightarrow> gp_copy \<Rightarrow> 'u \<Rightarrow> bool" where
  "copied a g u \<longleftrightarrow> (\<exists>h. g a = Inr h)"

definition closed_lft :: "nat \<Rightarrow> lifetime_ref \<Rightarrow> bool" where
  "closed_lft d l \<longleftrightarrow> (\<forall>vis. no_param (occ_lifetime vis d l))"

definition closed_params :: "nat \<Rightarrow> ty_params \<Rightarrow> bool" where
  "closed_params d p \<longleftrightarrow> (\<forall>vis chk. no_param (occ_path_params (map_path_params occ_type occ_value p) vis chk d))"

definition closed_gpath :: "nat \<Rightarrow> ty_generic_path \<Rightarrow> bool" where
  "closed_gpath d p \<longleftrightarrow> (\<forall>vis chk. no_param (occ_generic_path (map_generic_path occ_type occ_value p) vis chk d))"

definition closed_tpath :: "nat \<Rightarrow> ty_trait_path \<Rightarrow> bool" where
  "closed_tpath d p \<longleftrightarrow> (\<forall>vis chk. no_param (occ_trait_path (map_trait_path occ_type occ_value occ_generics p) vis chk d))"

definition closed_bound :: "nat \<Rightarrow> (type_ref, const_generic, generic_params) aty_bound \<Rightarrow> bool" where
  "closed_bound d p \<longleftrightarrow> (\<forall>vis chk. no_param (occ_aty_bound (map_aty_bound occ_type occ_value occ_generics p) vis chk d))"

definition closed_path :: "nat \<Rightarrow> ty_path \<Rightarrow> bool" where
  "closed_path d p \<longleftrightarrow> (\<forall>vis chk. no_param (occ_path (map_path occ_type occ_value occ_generics p) vis chk d))"

definition closed_inner :: "nat \<Rightarrow> (type_ref, const_generic, generic_params) erased_inner \<Rightarrow> bool" where
  "closed_inner d p \<longleftrightarrow> (\<forall>vis chk. no_param (occ_erased_inner (map_erased_inner occ_type occ_value occ_generics p) vis chk d))"

lemma asks_lifetime: "asks a (closed_lft d) (\<lambda>m. mono_lifetime m d l) (map snd (occ_lifetime vis d l))"
proof (cases "lr_is_param l \<and> \<not> (0 < d \<and> lr_group l = 3)")
  case True
  then have os: "map snd (occ_lifetime vis d l) = [Occ_Lifetime l]" by (simp add: occ_lifetime_def)
  have ml: "mono_lifetime m d l = res_map (\<lambda>x. case x of An_Lifetime l \<Rightarrow> l | _ \<Rightarrow> l) (ask m (Occ_Lifetime l))" for m
    using True by (cases "mn_get_lifetime m (param_of l)")
      (auto simp: mono_lifetime_def ask_def param_of_def lr_group_def gr_group_def Let_def)
  show ?thesis unfolding os ml
    by (rule asks_one [OF refl]) (auto simp: ask_def good_answer_def closed_lft_def occ_lifetime_def)
next
  case False
  then have "map snd (occ_lifetime vis d l) = []" "mono_lifetime m d l = Inr l" for m
    by (auto simp: occ_lifetime_def mono_lifetime_def lr_group_def gr_group_def Let_def)
  with False show ?thesis by (auto intro!: asks_Inr simp: closed_lft_def occ_lifetime_def)
qed

lemma map_snd_concat: "map snd (concat (map f xs)) = concat (map (\<lambda>x. map snd (f x)) xs)"
  by (simp add: map_concat comp_def)

lemma asks_lifetimes:
  "asks a (list_all (closed_lft d)) (\<lambda>m. res_list (map (mono_lifetime m d) ls)) (concat (map (\<lambda>l. map snd (occ_lifetime vis d l)) ls))"
proof -
  have "list_all2 (asks a (closed_lft d)) (map (\<lambda>l m. mono_lifetime m d l) ls) (map (\<lambda>l. map snd (occ_lifetime vis d l)) ls)"
    by (simp add: list.rel_map asks_lifetime list.rel_refl_strong)
  from asks_list [OF this] show ?thesis by (simp add: comp_def)
qed

lemma asks_ops:
  "list_all2 (asks_op a G) fs os \<Longrightarrow>
    asks a (list_all (G d)) (\<lambda>m. res_list (map (\<lambda>f. f m ai d) fs)) (concat (map (\<lambda>f. map snd (f vis (\<not> ai) d)) os))"
proof -
  assume "list_all2 (asks_op a G) fs os"
  then have "list_all2 (asks a (G d)) (map (\<lambda>f m. f m ai d) fs) (map (\<lambda>f. map snd (f vis (\<not> ai) d)) os)"
    by (auto simp: list.rel_map elim!: list.rel_mono_strong intro: asks_opD)
  from asks_list [OF this] show ?thesis by (simp add: comp_def)
qed

lemma asks_path_params:
  "rel_path_params (asks_op a closed_ty) (asks_op a closed_cg) p q \<Longrightarrow> asks_op a closed_params (mono_path_params p) (occ_path_params q)"
proof (rule asks_opI)
  fix vis ai d
  assume r: "rel_path_params (asks_op a closed_ty) (asks_op a closed_cg) p q"
  obtain ls fs gs where p: "p = PathParams ls fs gs" by (cases p)
  obtain ls' fs' gs' where q: "q = PathParams ls' fs' gs'" by (cases q)
  have "asks a (closed_params d) (\<lambda>m. res_lift3 PathParams (res_list (map (mono_lifetime m d) ls))
      (res_list (map (\<lambda>t. t m ai d) fs)) (res_list (map (\<lambda>v. v m ai d) gs)))
     (concat (map (\<lambda>l. map snd (occ_lifetime vis d l)) ls) @ concat (map (\<lambda>f. map snd (f vis (\<not> ai) d)) fs')
      @ concat (map (\<lambda>f. map snd (f vis (\<not> ai) d)) gs'))"
    using r by (intro asks_lift3 [OF asks_lifetimes asks_ops asks_ops])
      (auto simp: p q closed_params_def occ_path_params_def list_all_iff closed_lft_def closed_ty_def closed_cg_def)
  then show "asks a (closed_params d) (\<lambda>m. mono_path_params p m ai d) (map snd (occ_path_params q vis (\<not> ai) d))"
    using r by (simp add: p q mono_path_params_def occ_path_params_def map_snd_concat)
qed

lemma asks_generic_path:
  "rel_generic_path (asks_op a closed_ty) (asks_op a closed_cg) p q \<Longrightarrow> asks_op a closed_gpath (mono_generic_path p) (occ_generic_path q)"
  by (cases p; cases q; rule asks_opI)
    (auto simp: mono_generic_path_def occ_generic_path_def closed_gpath_def closed_params_def
       intro!: asks_map [OF asks_opD [OF asks_path_params]])

lemma asks_hrtbs:
  "rel_option (copied a) h h' \<Longrightarrow> asks a (\<lambda>k. hrb_depth k = hrb_depth h) (\<lambda>m. copy_hrtbs h m) []"
  by (cases h; cases h')
    (auto simp: copied_def copy_hrtbs_def basic_def hrb_depth_def intro!: asks_cong [OF asks_Inr])


lemma asks_entry: "asks a G F os \<Longrightarrow> asks a (\<lambda>e. G (snd e)) (\<lambda>m. res_entry (k, F m)) os"
  by (simp add: res_entry_def asks_map)

lemma asks_type_bounds:
  assumes "list_all2 (rel_prod (=) (rel_aty_equal (asks_op a closed_ty) (asks_op a closed_cg))) es os"
  shows "asks a (list_all (\<lambda>e. closed_gpath d (ae_source_trait (snd e)) \<and> closed_ty d (ae_type (snd e))))
     (\<lambda>m. res_list (map (\<lambda>e. res_entry (map_prod id (\<lambda>f. mono_aty_equal f m ai d) e)) es))
     (map snd (concat (map (\<lambda>e. occ_generic_path (ae_source_trait (snd e)) False (\<not> ai) d @ ae_type (snd e) vis (\<not> ai) d) os)))"
  using assms
proof (induction rule: list_all2_induct)
  case (Cons e es q os)
  obtain k s t where e: "e = (k, AtyEqual s t)" by (metis aty_equal.exhaust surj_pair)
  obtain k' s' t' where q: "q = (k', AtyEqual s' t')" by (metis aty_equal.exhaust surj_pair)
  have "asks a (\<lambda>e. closed_gpath d (ae_source_trait (snd e)) \<and> closed_ty d (ae_type (snd e)))
      (\<lambda>m. res_entry (k, res_lift2 AtyEqual (mono_generic_path s m ai d) (t m ai d)))
      (map snd (occ_generic_path s' False (\<not> ai) d) @ map snd (t' vis (\<not> ai) d))"
    using Cons.hyps(1) by (intro asks_entry [where G = "\<lambda>x. closed_gpath d (ae_source_trait x) \<and> closed_ty d (ae_type x)"]
        asks_lift2 [OF asks_opD [OF asks_generic_path] asks_opD]) (auto simp: e q)
  from asks_lift2 [OF this Cons.IH, where f = "(#)" and J = "list_all (\<lambda>e. closed_gpath d (ae_source_trait (snd e)) \<and> closed_ty d (ae_type (snd e)))"]
  show ?case by (simp add: e q mono_aty_equal_def)
qed (simp add: asks_Inr)

lemma asks_entries:
  "list_all2 (rel_prod (=) (\<lambda>b c. asks_op a G (f b) (g c))) es os \<Longrightarrow>
    asks a (list_all (\<lambda>e. G d (snd e))) (\<lambda>m. res_list (map res_entry (map (map_prod id (\<lambda>f. f m ai d)) (map (map_prod id f) es))))
     (map snd (concat (map (\<lambda>e. snd e vis (\<not> ai) d) (map (map_prod id g) os))))"
proof (induction rule: list_all2_induct)
  case (Cons e es q os)
  obtain k b where e: "e = (k, b)" by (cases e)
  obtain k' c where q: "q = (k', c)" by (cases q)
  have "asks a (\<lambda>e. G d (snd e)) (\<lambda>m. res_entry (k, f b m ai d)) (map snd (g c vis (\<not> ai) d))"
    using Cons.hyps(1) by (intro asks_entry asks_opD) (simp add: e q)
  from asks_lift2 [OF this Cons.IH, where f = "(#)" and J = "list_all (\<lambda>e. G d (snd e))"]
  show ?case by (simp add: e q)
qed (simp add: asks_Inr)

lemma asks_mapped:
  assumes "list_all2 (\<lambda>b c. asks_op a G (f b) (g c)) es os"
  shows "asks a (list_all (G d)) (\<lambda>m. res_list (map (\<lambda>h. h m ai d) (map f es)))
     (map snd (concat (map (\<lambda>h. h vis (\<not> ai) d) (map g os))))"
proof -
  have "list_all2 (asks_op a G) (map f es) (map g os)" using assms by (simp add: list.rel_map)
  from asks_ops [OF this, of d ai vis] show ?thesis by (simp add: map_concat comp_def)
qed

lemma closed_TraitPath:
  "hrb_depth h d = hrb_depth h' d \<Longrightarrow> closed_gpath (hrb_depth h d) p \<Longrightarrow>
    list_all (\<lambda>e. closed_gpath (hrb_depth h d) (ae_source_trait (snd e)) \<and> closed_ty (hrb_depth h d) (ae_type (snd e))) tbs \<Longrightarrow>
    list_all (\<lambda>e. closed_bound (hrb_depth h d) (snd e)) bbs \<Longrightarrow> closed_tpath d (TraitPath h' p tbs bbs tr)"
  by (auto simp: closed_tpath_def closed_gpath_def closed_ty_def closed_bound_def list_all_iff aty_equal.map_sel
      hrb_depth_def split: option.splits)

lemma asks_trait_path_bound:
  fixes p :: "(type_ref mono_op, const_generic mono_op, gp_copy) trait_path" and q :: "(occ_op, occ_op, 'y) trait_path"
    and b :: "(type_ref mono_op, const_generic mono_op, gp_copy) aty_bound" and c :: "(occ_op, occ_op, 'y) aty_bound"
  shows "(rel_trait_path (asks_op a closed_ty) (asks_op a closed_cg) (copied a) p q \<longrightarrow>
      asks_op a closed_tpath (mono_trait_path p False) (occ_trait_path q)) \<and>
   (rel_aty_bound (asks_op a closed_ty) (asks_op a closed_cg) (copied a) b c \<longrightarrow>
      asks_op a closed_bound (mono_aty_bound b) (occ_aty_bound c))"
proof (rule trait_path_aty_bound.rel_induct, goal_cases)
  case (1 h p tbs bbs tr h' p' tbs' bbs' tr')
  show ?case
  proof (rule asks_opI)
    fix vis ai d
    have hd: "hrb_depth h' d = hrb_depth h d" using 1(1) by (cases h; cases h') (auto simp: hrb_depth_def)
    have "asks a (closed_tpath d)
        (\<lambda>m. res_lift4 (\<lambda>h p tbs bbs. TraitPath h p tbs bbs tr) (copy_hrtbs h m)
          (mono_generic_path p m ai (hrb_depth h d))
          (res_list (map (\<lambda>e. res_entry (map_prod id (\<lambda>f. mono_aty_equal f m ai (hrb_depth h d)) e)) tbs))
          (res_list (map res_entry (map (map_prod id (\<lambda>f. f m ai (hrb_depth h d))) (map (map_prod id mono_aty_bound) bbs)))))
        ([] @ map snd (occ_generic_path p' vis (\<not> ai) (hrb_depth h d))
          @ map snd (concat (map (\<lambda>e. occ_generic_path (ae_source_trait (snd e)) False (\<not> ai) (hrb_depth h d)
               @ ae_type (snd e) vis (\<not> ai) (hrb_depth h d)) tbs'))
          @ map snd (concat (map (\<lambda>e. snd e vis (\<not> ai) (hrb_depth h d)) (map (map_prod id occ_aty_bound) bbs'))))"
      by (rule asks_lift4 [OF asks_hrtbs [OF 1(1)] asks_opD [OF asks_generic_path [OF 1(2)]] asks_type_bounds [OF 1(3)]
            asks_entries [OF 1(4)]]) (simp add: closed_TraitPath)
    then show "asks a (closed_tpath d) (\<lambda>m. mono_trait_path (TraitPath h p tbs bbs tr) False m ai d)
        (map snd (occ_trait_path (TraitPath h' p' tbs' bbs' tr') vis (\<not> ai) d))"
      by (simp add: Let_def hd del: map_map list.map_comp map_concat)
  qed
next
  case (2 s ts s' ts')
  show ?case
  proof (rule asks_opI)
    fix vis ai d
    have "asks a (closed_bound d)
        (\<lambda>m. res_lift2 AtyBound (mono_generic_path s m ai d) (res_list (map (\<lambda>h. h m ai d) (map (\<lambda>p. mono_trait_path p False) ts))))
        (map snd (occ_generic_path s' False (\<not> ai) d) @ map snd (concat (map (\<lambda>h. h vis (\<not> ai) d) (map occ_trait_path ts'))))"
      by (rule asks_lift2 [OF asks_opD [OF asks_generic_path [OF 2(1)]] asks_mapped [where G = closed_tpath
            and f = "\<lambda>p. mono_trait_path p False" and g = occ_trait_path, OF 2(2)]])
        (auto simp: closed_bound_def closed_gpath_def closed_tpath_def list_all_iff)
    then show "asks a (closed_bound d) (\<lambda>m. mono_aty_bound (AtyBound s ts) m ai d)
        (map snd (occ_aty_bound (AtyBound s' ts') vis (\<not> ai) d))"
      by (simp add: comp_def map_concat)
  qed
qed

lemmas asks_trait_path = asks_trait_path_bound [THEN conjunct1, rule_format]


lemma mono_trait_path_hrtbs:
  "mono_trait_path p i m ai d = Inr r \<Longrightarrow> hrb_depth (tp_hrtbs r) = hrb_depth (tp_hrtbs p)"
  by (cases p; cases "tp_hrtbs p") (auto simp: Let_def copy_hrtbs_def hrb_depth_def)

lemma asks_path:
  fixes p :: "(type_ref mono_op, const_generic mono_op, gp_copy) path" and q :: "(occ_op, occ_op, 'y) path"
  assumes rel: "rel_path (asks_op a closed_ty) (asks_op a closed_cg) (copied a) p q"
  shows "asks_op a closed_path (mono_path p) (occ_path q)"
proof (rule asks_opI)
  fix vis ai d
  show "asks a (closed_path d) (\<lambda>m. mono_path p m ai d) (map snd (occ_path q vis (\<not> ai) d))"
  proof (cases p)
    case (Path_Generic g)
    with rel obtain g' where q: "q = Path_Generic g'" by (cases q) auto
    from rel have "asks_op a closed_gpath (mono_generic_path g) (occ_generic_path g')"
      by (intro asks_generic_path) (simp add: Path_Generic q)
    then have "asks a (closed_path d) (\<lambda>m. res_map Path_Generic (mono_generic_path g m ai d))
       (map snd (occ_generic_path g' vis (\<not> ai) d))"
      by (rule asks_map [OF asks_opD]) (simp add: occ_path_def closed_path_def closed_gpath_def)
    then show ?thesis by (simp add: Path_Generic q mono_path_def occ_path_def)
  next
    case (Path_UfcsInherent t i ps ips)
    with rel obtain t' ps' ips' where q: "q = Path_UfcsInherent t' i ps' ips'" by (cases q) auto
    from rel have t: "asks_op a closed_ty t t'" and ps: "asks_op a closed_params (mono_path_params ps) (occ_path_params ps')"
      and ips: "asks_op a closed_params (mono_path_params ips) (occ_path_params ips')"
      by (auto intro!: asks_path_params simp: Path_UfcsInherent q)
    have "asks a (closed_path d) (\<lambda>m. res_lift3 (\<lambda>t ps ips. Path_UfcsInherent t i ps ips) (t m ai d)
         (mono_path_params ps m ai d) (mono_path_params ips m ai d))
       (map snd (t' vis (\<not> ai) d) @ map snd (occ_path_params ps' vis (\<not> ai) d) @ map snd (occ_path_params ips' False (\<not> ai) d))"
      by (rule asks_lift3 [OF asks_opD [OF t] asks_opD [OF ps] asks_opD [OF ips]])
        (simp add: closed_path_def occ_path_def closed_ty_def closed_params_def)
    then show ?thesis by (simp add: Path_UfcsInherent q mono_path_def occ_path_def)
  next
    case (Path_UfcsKnown t tr i ps h)
    with rel obtain t' tr' ps' h' where q: "q = Path_UfcsKnown t' tr' i ps' h'" by (cases q) auto
    from rel have t: "asks_op a closed_ty t t'" and tr: "asks_op a closed_gpath (mono_generic_path tr) (occ_generic_path tr')"
      and ps: "asks_op a closed_params (mono_path_params ps) (occ_path_params ps')"
      and h: "rel_option (copied a) h h'"
      by (auto intro!: asks_path_params asks_generic_path simp: Path_UfcsKnown q)
    have hd: "hrb_depth h' d = hrb_depth h d" using h by (cases h; cases h') (auto simp: hrb_depth_def)
    have "asks a (closed_path d) (\<lambda>m. res_lift4 (\<lambda>t tr ps h. Path_UfcsKnown t tr i ps h) (t m ai (hrb_depth h d))
         (mono_generic_path tr m ai (hrb_depth h d)) (mono_path_params ps m ai (hrb_depth h d)) (copy_hrtbs h m))
       (map snd (t' vis (\<not> ai) (hrb_depth h d)) @ map snd (occ_generic_path tr' vis (\<not> ai) (hrb_depth h d))
        @ map snd (occ_path_params ps' vis (\<not> ai) (hrb_depth h d)) @ [])"
      by (rule asks_lift4 [OF asks_opD [OF t] asks_opD [OF tr] asks_opD [OF ps] asks_hrtbs [OF h]])
        (auto simp: closed_path_def occ_path_def closed_ty_def closed_gpath_def closed_params_def)
    then show ?thesis by (simp add: Path_UfcsKnown q mono_path_def occ_path_def hd)
  next
    case (Path_UfcsUnknown t i ps)
    with rel obtain t' ps' where q: "q = Path_UfcsUnknown t' i ps'" by (cases q) auto
    from rel have t: "asks_op a closed_ty t t'" and ps: "asks_op a closed_params (mono_path_params ps) (occ_path_params ps')"
      by (auto intro!: asks_path_params simp: Path_UfcsUnknown q)
    have "asks a (closed_path d) (\<lambda>m. res_lift2 (\<lambda>t ps. Path_UfcsUnknown t i ps) (t m ai d) (mono_path_params ps m ai d))
       (map snd (t' vis (\<not> ai) d) @ map snd (occ_path_params ps' vis (\<not> ai) d))"
      by (rule asks_lift2 [OF asks_opD [OF t] asks_opD [OF ps]])
        (simp add: closed_path_def occ_path_def closed_ty_def closed_params_def)
    then show ?thesis by (simp add: Path_UfcsUnknown q mono_path_def occ_path_def)
  qed
qed

section \<open>Types\<close>

definition asks_ty where "asks_ty a t = (plain_type t \<longrightarrow> asks_op a closed_ty (mono_type t) (occ_type t))"
definition asks_cg where "asks_cg a v = (plain_value v \<longrightarrow> asks_op a closed_cg (mono_constgeneric v) (occ_value v))"

lemma copied_generics: "plain_generics g \<Longrightarrow> copied a (clone_generics g) u"
  using ident_types [of undefined a undefined g] by (auto simp: ident_gp_def copies_def copied_def)

lemma asks_kids:
  "(\<And>t. t \<in> set1_path_params pp \<Longrightarrow> asks_ty a t) \<Longrightarrow> (\<And>v. v \<in> set2_path_params pp \<Longrightarrow> asks_cg a v)
    \<Longrightarrow> pred_path_params id id (map_path_params plain_type plain_value pp)
    \<Longrightarrow> rel_path_params (asks_op a closed_ty) (asks_op a closed_cg) (map_path_params mono_type mono_constgeneric pp)
        (map_path_params occ_type occ_value pp)"
  "(\<And>t. t \<in> set1_generic_path g \<Longrightarrow> asks_ty a t) \<Longrightarrow> (\<And>v. v \<in> set2_generic_path g \<Longrightarrow> asks_cg a v)
    \<Longrightarrow> pred_generic_path id id (map_generic_path plain_type plain_value g)
    \<Longrightarrow> rel_generic_path (asks_op a closed_ty) (asks_op a closed_cg) (map_generic_path mono_type mono_constgeneric g)
        (map_generic_path occ_type occ_value g)"
  "(\<And>t. t \<in> set1_path p \<Longrightarrow> asks_ty a t) \<Longrightarrow> (\<And>v. v \<in> set2_path p \<Longrightarrow> asks_cg a v)
    \<Longrightarrow> pred_path id id id (map_path plain_type plain_value plain_generics p)
    \<Longrightarrow> rel_path (asks_op a closed_ty) (asks_op a closed_cg) (copied a) (map_path mono_type mono_constgeneric clone_generics p)
        (map_path occ_type occ_value occ_generics p)"
  "(\<And>t. t \<in> set1_trait_path q \<Longrightarrow> asks_ty a t) \<Longrightarrow> (\<And>v. v \<in> set2_trait_path q \<Longrightarrow> asks_cg a v)
    \<Longrightarrow> pred_trait_path id id id (map_trait_path plain_type plain_value plain_generics q)
    \<Longrightarrow> rel_trait_path (asks_op a closed_ty) (asks_op a closed_cg) (copied a)
        (map_trait_path mono_type mono_constgeneric clone_generics q) (map_trait_path occ_type occ_value occ_generics q)"
  by (simp_all add: pred_sets asks_ty_def asks_cg_def copied_generics
      path_params.rel_map path_params.rel_refl_strong generic_path.rel_map generic_path.rel_refl_strong
      path.rel_map path.rel_refl_strong trait_path.rel_map trait_path.rel_refl_strong)

lemma asks_tyI:
  "mono_type t = mono_over t f \<Longrightarrow> (plain_type t \<Longrightarrow> asks_op a closed_ty f (occ_type t)) \<Longrightarrow> asks_ty a t"
  unfolding asks_ty_def
  by (intro impI asks_opI) (rule asks_cong [OF asks_opD], auto simp: mono_over_def basic_def)


lemma asks_tyD: "asks_ty a t \<Longrightarrow> plain_type t \<Longrightarrow> asks a (closed_ty d) (\<lambda>m. mono_type t m ai d) (map snd (occ_type t vis (\<not> ai) d))"
  by (simp add: asks_ty_def asks_op_def)

lemma asks_cgD: "asks_cg a v \<Longrightarrow> plain_value v \<Longrightarrow> asks a (closed_cg d) (\<lambda>m. mono_constgeneric v m ai d) (map snd (occ_value v vis (\<not> ai) d))"
  by (simp add: asks_cg_def asks_op_def)

lemma asks_erased_inner:
  assumes t: "\<And>t. t \<in> set1_erased_inner i \<Longrightarrow> asks_ty a t" and v: "\<And>v. v \<in> set2_erased_inner i \<Longrightarrow> asks_cg a v"
    and pl: "plain_erased_inner (map_erased_inner plain_type plain_value plain_generics i)"
  shows "asks_op a closed_inner (mono_erased_inner i (map_erased_inner mono_type mono_constgeneric clone_generics i))
    (occ_erased_inner (map_erased_inner occ_type occ_value occ_generics i))"
proof (rule asks_opI)
  fix vis ai d
  let ?F = "\<lambda>m. mono_erased_inner i (map_erased_inner mono_type mono_constgeneric clone_generics i) m ai d"
  let ?os = "map snd (occ_erased_inner (map_erased_inner occ_type occ_value occ_generics i) vis (\<not> ai) d)"
  show "asks a (closed_inner d) ?F ?os"
  proof (cases i)
    case (EI_Fcn p n)
    have "asks_op a closed_path (mono_path (map_path mono_type mono_constgeneric clone_generics p))
        (occ_path (map_path occ_type occ_value occ_generics p))"
      using t v pl by (intro asks_path asks_kids(3)) (auto simp: EI_Fcn plain_erased_inner_def)
    then have "asks a (closed_inner d) (\<lambda>m. res_map (\<lambda>p. EI_Fcn p n) (mono_path (map_path mono_type mono_constgeneric clone_generics p) m ai d))
        (map snd (occ_path (map_path occ_type occ_value occ_generics p) vis (\<not> ai) d))"
      by (rule asks_map [OF asks_opD]) (simp add: closed_inner_def closed_path_def occ_erased_inner_def)
    then show ?thesis by (simp add: EI_Fcn mono_erased_inner_def occ_erased_inner_def)
  next
    case (EI_Known u)
    have "asks a (closed_inner d) (\<lambda>m. res_map EI_Known (mono_type u m ai d)) (map snd (occ_type u vis (\<not> ai) d))"
      using t pl by (intro asks_map [OF asks_tyD])
        (auto simp: EI_Known plain_erased_inner_def closed_inner_def closed_ty_def occ_erased_inner_def)
    then show ?thesis by (simp add: EI_Known mono_erased_inner_def occ_erased_inner_def)
  next
    case (EI_Alias ps n g p u)
    have "asks_op a closed_params (mono_path_params (map_path_params mono_type mono_constgeneric ps))
        (occ_path_params (map_path_params occ_type occ_value ps))"
      using t v pl by (intro asks_path_params asks_kids(1)) (auto simp: EI_Alias plain_erased_inner_def)
    then have "asks a (closed_inner d) (\<lambda>m. res_map (with_alias_params i) (mono_path_params (map_path_params mono_type mono_constgeneric ps) m ai d))
        (map snd (occ_path_params (map_path_params occ_type occ_value ps) False (\<not> ai) d))"
      by (rule asks_map [OF asks_opD])
        (simp add: EI_Alias with_alias_params_def closed_inner_def closed_params_def occ_erased_inner_def)
    then show ?thesis by (simp add: EI_Alias mono_erased_inner_def occ_erased_inner_def)
  qed
qed


lemma asks_skip: "asks a G F os \<Longrightarrow> asks a G F (Occ_Size # os)"
proof -
  assume F: "asks a G F os"
  have "asks a (\<lambda>_. True) (\<lambda>m. Inr ()) [Occ_Size]" by (rule asks_one [where f = "\<lambda>_. ()"]) (simp_all add: ask_def)
  from asks_lift2 [OF this F, of G "\<lambda>_ x. x"] have "asks a G (\<lambda>m. res_map (\<lambda>x. x) (F m)) (Occ_Size # os)" by simp
  then show ?thesis by simp
qed

lemma closed_size_value: "closed_cg d v \<Longrightarrow> closed_size d (AS_Unevaluated v)"
  by (cases v) (auto simp: closed_size_def closed_cg_def occ_arraysize_def is_param_occ_def)

lemma unevaluated_stays:
  "basic a m \<Longrightarrow> res_bind (mono_constgeneric (CG_Unevaluated p q e) m ai d) (mono_size_evaluate m)
    = res_map AS_Unevaluated (mono_constgeneric (CG_Unevaluated p q e) m ai d)"
  by (cases "mono_constgeneric (CG_Unevaluated p q e) m ai d")
    (auto simp: mono_unevaluated_def mono_size_evaluate_def basic_def)

lemma asks_arraysize:
  assumes kid: "\<And>v. v \<in> set_array_size n \<Longrightarrow> asks_cg a v"
    and pl: "plain_size n" "pred_array_size id (map_array_size plain_value n)"
  shows "asks a (closed_size d) (\<lambda>m. mono_arraysize n (map_array_size mono_constgeneric n) m d)
    (map snd (occ_arraysize n (map_array_size occ_value n) vis d))"
proof (cases n)
  case (AS_Known k)
  then show ?thesis by (auto simp: mono_arraysize_def occ_arraysize_def closed_size_def intro!: asks_Inr)
next
  case (AS_Unevaluated v)
  show ?thesis
  proof (cases v)
    case (CG_Infer i)
    then show ?thesis
      by (auto simp: AS_Unevaluated mono_arraysize_def mono_size_value_def mono_size_evaluate_def occ_arraysize_def
          closed_size_def is_param_occ_def intro!: asks_skip asks_Inr)
  next
    case (CG_Unevaluated p q e)
    have "asks a (closed_cg d) (\<lambda>m. mono_constgeneric v m True d) (map snd (occ_value v vis (\<not> True) d))"
      using kid pl by (intro asks_cgD) (auto simp: AS_Unevaluated)
    then have "asks a (closed_size d) (\<lambda>m. res_map AS_Unevaluated (mono_constgeneric v m True d)) (map snd (occ_value v vis False d))"
      by (auto intro: asks_map closed_size_value)
    then have "asks a (closed_size d) (\<lambda>m. res_bind (mono_constgeneric v m True d) (mono_size_evaluate m)) (map snd (occ_value v vis False d))"
      by (rule asks_cong) (simp only: CG_Unevaluated unevaluated_stays)
    then show ?thesis
      by (simp add: AS_Unevaluated mono_arraysize_def mono_size_value_def occ_arraysize_def CG_Unevaluated asks_skip
          del: mono_constgeneric.simps occ_value.simps)
  next
    case (CG_Generic g)
    have "asks a (closed_size d) (\<lambda>m. res_bind (mn_get_value m g) (mono_size_evaluate m)) [Occ_Size_Value g]"
    proof (rule asks_one)
      show "res_bind (mn_get_value m g) (mono_size_evaluate m)
          = res_map (\<lambda>x. case x of An_Size n \<Rightarrow> n | _ \<Rightarrow> AS_Known 0) (ask m (Occ_Size_Value g))" for m
        by (simp add: ask_def res_map_comp)
    qed (auto simp: ask_def good_answer_def)
    then show ?thesis
      by (simp add: AS_Unevaluated CG_Generic mono_arraysize_def mono_size_value_def occ_arraysize_def asks_skip)
  next
    case (CG_Evaluated l)
    with pl show ?thesis by (simp add: AS_Unevaluated plain_size_def)
  qed
qed


lemma asks_type_list:
  assumes "\<And>t. t \<in> set ts \<Longrightarrow> asks_ty a t" and "list_all id (map plain_type ts)"
  shows "asks a (list_all (closed_ty d)) (\<lambda>m. res_list (map (\<lambda>f. f m ai d) (map mono_type ts)))
    (concat (map (\<lambda>f. map snd (f vis (\<not> ai) d)) (map occ_type ts)))"
  using assms by (intro asks_ops) (auto simp: list.rel_map list_all_iff asks_ty_def intro!: list.rel_refl_strong)

lemma asks_types: "asks_ty a t \<and> asks_cg a v \<and> (\<lambda>_. True) g"
proof (rule type_ref_const_generic_generic_params.induct, goal_cases)
  case (1 i c)
  have "asks_op a closed_ty (\<lambda>m ai d. if ai then Inr (Ty_Infer i c) else Inl (Bug ''Unexpected ivar seen'')) (occ_type (Ty_Infer i c))"
  proof (rule asks_opI)
    fix vis ai d
    show "asks a (closed_ty d) (\<lambda>m. if ai then Inr (Ty_Infer i c) else Inl (Bug ''Unexpected ivar seen''))
        (map snd (occ_type (Ty_Infer i c) vis (\<not> ai) d))"
      by (cases ai) (auto intro!: asks_Inr asks_one [where f = "\<lambda>_. Ty_Infer i c"] simp: closed_ty_def ask_def is_param_occ_def)
  qed
  then show ?case by (intro asks_tyI [OF mono_type.simps(1)])
next
  case (4 p b h)
  show ?case
  proof (intro asks_tyI [OF mono_type.simps(4)] asks_opI)
    fix vis ai d
    assume pl: "plain_type (Ty_Path p b h)"
    have "asks_op a closed_path (mono_path (map_path mono_type mono_constgeneric clone_generics p))
        (occ_path (map_path occ_type occ_value occ_generics p))"
      using 4 pl by (intro asks_path asks_kids(3)) auto
    then show "asks a (closed_ty d) (\<lambda>m. res_map (\<lambda>p. Ty_Path p (rebind_path b) None)
        (mono_path (map_path mono_type mono_constgeneric clone_generics p) m ai d)) (map snd (occ_type (Ty_Path p b h) vis (\<not> ai) d))"
      by (simp only: occ_type.simps) (rule asks_map [OF asks_opD], assumption, simp add: closed_ty_def closed_path_def)
  qed
next
  case (5 g)
  show ?case
    by (intro asks_tyI [OF mono_type.simps(5)] asks_opI)
      (auto intro!: asks_one [where f = "\<lambda>x. case x of An_Type t \<Rightarrow> t | _ \<Rightarrow> Ty_Diverge"] simp: ask_def good_answer_def
        res_map_comp)
next
  case (6 tr ms l)
  show ?case
  proof (intro asks_tyI [OF mono_type.simps(6)] asks_opI)
    fix vis ai d
    let ?d = "hrb_depth (tp_hrtbs tr) d"
    assume pl: "plain_type (Ty_TraitObject tr ms l)"
    have tr: "asks_op a closed_tpath (mono_trait_path (map_trait_path mono_type mono_constgeneric clone_generics tr) False)
        (occ_trait_path (map_trait_path occ_type occ_value occ_generics tr))"
      using 6 pl by (intro asks_trait_path asks_kids(4)) auto
    have "list_all2 (asks_op a closed_gpath) (map mono_generic_path (map (map_generic_path mono_type mono_constgeneric) ms))
        (map occ_generic_path (map (map_generic_path occ_type occ_value) ms))"
      using 6 pl by (auto simp: list.rel_map list_all_iff intro!: list.rel_refl_strong asks_generic_path asks_kids(2))
    from asks_ops [OF this, of ?d ai vis]
    have ms: "asks a (list_all (closed_gpath ?d)) (\<lambda>m. res_list (map (\<lambda>p. mono_generic_path p m ai ?d)
        (map (map_generic_path mono_type mono_constgeneric) ms)))
        (map snd (concat (map (\<lambda>p. occ_generic_path p vis (\<not> ai) ?d) (map (map_generic_path occ_type occ_value) ms))))"
      by (simp add: comp_def map_concat)
    have "asks a (closed_ty d) (\<lambda>m. res_lift3 Ty_TraitObject
        (mono_trait_path (map_trait_path mono_type mono_constgeneric clone_generics tr) False m ai ?d)
        (res_list (map (\<lambda>p. mono_generic_path p m ai ?d) (map (map_generic_path mono_type mono_constgeneric) ms)))
        (mono_lifetime m d l))
       (map snd (occ_trait_path (map_trait_path occ_type occ_value occ_generics tr) vis (\<not> ai) ?d) @
        map snd (concat (map (\<lambda>p. occ_generic_path p vis (\<not> ai) ?d) (map (map_generic_path occ_type occ_value) ms))) @
        map snd (occ_lifetime vis d l))"
      by (rule asks_lift3 [OF asks_also [OF asks_opD [OF tr], where H = "\<lambda>x. hrb_depth (tp_hrtbs x) = hrb_depth (tp_hrtbs tr)"]
            ms asks_lifetime])
        (auto simp: closed_ty_def closed_tpath_def closed_lft_def closed_gpath_def list_all_iff dest!: mono_trait_path_hrtbs)
    then show "asks a (closed_ty d) (\<lambda>m. mono_trait_object (map_trait_path mono_type mono_constgeneric clone_generics tr)
        (map (map_generic_path mono_type mono_constgeneric) ms) l m ai d) (map snd (occ_type (Ty_TraitObject tr ms l) vis (\<not> ai) d))"
      by (simp add: mono_trait_object_def del: map_map map_concat)
  qed
next
  case (7 sized trs ls i)
  show ?case
  proof (intro asks_tyI [OF mono_type.simps(7)] asks_opI)
    fix vis ai d
    assume pl: "plain_type (Ty_ErasedType sized trs ls i)"
    have "list_all2 (asks_op a closed_tpath) (map (\<lambda>p. mono_trait_path p False) (map (map_trait_path mono_type mono_constgeneric clone_generics) trs))
        (map occ_trait_path (map (map_trait_path occ_type occ_value occ_generics) trs))"
      using 7 pl by (auto simp: list.rel_map list_all_iff intro!: list.rel_refl_strong asks_trait_path asks_kids(4))
    from asks_ops [OF this, of d ai vis]
    have trs: "asks a (list_all (closed_tpath d)) (\<lambda>m. res_list (map (\<lambda>p. mono_trait_path p False m ai d)
        (map (map_trait_path mono_type mono_constgeneric clone_generics) trs)))
        (map snd (concat (map (\<lambda>p. occ_trait_path p vis (\<not> ai) d) (map (map_trait_path occ_type occ_value occ_generics) trs))))"
      by (simp add: comp_def map_concat)
    have i: "asks_op a closed_inner (mono_erased_inner i (map_erased_inner mono_type mono_constgeneric clone_generics i))
        (occ_erased_inner (map_erased_inner occ_type occ_value occ_generics i))"
      using 7 pl by (intro asks_erased_inner) auto
    have "asks a (closed_ty d) (\<lambda>m. res_lift3 (Ty_ErasedType sized)
        (res_list (map (\<lambda>p. mono_trait_path p False m ai d) (map (map_trait_path mono_type mono_constgeneric clone_generics) trs)))
        (res_list (map (mono_lifetime m d) ls))
        (mono_erased_inner i (map_erased_inner mono_type mono_constgeneric clone_generics i) m ai d))
       (map snd (concat (map (\<lambda>p. occ_trait_path p vis (\<not> ai) d) (map (map_trait_path occ_type occ_value occ_generics) trs))) @
        concat (map (\<lambda>l. map snd (occ_lifetime vis d l)) ls) @
        map snd (occ_erased_inner (map_erased_inner occ_type occ_value occ_generics i) vis (\<not> ai) d))"
      by (rule asks_lift3 [OF trs asks_lifetimes asks_opD [OF i]])
        (auto simp: closed_ty_def closed_tpath_def closed_lft_def closed_inner_def list_all_iff)
    then show "asks a (closed_ty d) (\<lambda>m. mono_erased_type i sized (map (map_trait_path mono_type mono_constgeneric clone_generics) trs) ls
        (map_erased_inner mono_type mono_constgeneric clone_generics i) m ai d) (map snd (occ_type (Ty_ErasedType sized trs ls i) vis (\<not> ai) d))"
      by (simp add: mono_erased_type_def map_snd_concat [of _ ls] del: map_map map_concat)
  qed
next
  case (8 t n)
  show ?case
  proof (intro asks_tyI [OF mono_type.simps(8)] asks_opI)
    fix vis ai d
    assume pl: "plain_type (Ty_Array t n)"
    have "asks a (closed_ty d) (\<lambda>m. res_lift2 Ty_Array (mono_type t m ai d) (mono_arraysize n (map_array_size mono_constgeneric n) m d))
        (map snd (occ_type t vis (\<not> ai) d) @ map snd (occ_arraysize n (map_array_size occ_value n) vis d))"
      using 8 pl by (intro asks_lift2 [OF asks_tyD asks_arraysize]) (auto simp: closed_ty_def closed_size_def)
    then show "asks a (closed_ty d) (\<lambda>m. mono_array n (mono_type t) (map_array_size mono_constgeneric n) m ai d)
        (map snd (occ_type (Ty_Array t n) vis (\<not> ai) d))"
      by (simp add: mono_array_def)
  qed
next
  case (9 t)
  show ?case
  proof (intro asks_tyI [OF mono_type.simps(9)] asks_opI)
    fix vis ai d
    assume pl: "plain_type (Ty_Slice t)"
    with 9 show "asks a (closed_ty d) (\<lambda>m. res_map Ty_Slice (mono_type t m ai d)) (map snd (occ_type (Ty_Slice t) vis (\<not> ai) d))"
      by (auto intro!: asks_map [OF asks_tyD] simp: closed_ty_def)
  qed
next
  case (10 ts)
  show ?case
  proof (intro asks_tyI [OF mono_type.simps(10)] asks_opI)
    fix vis ai d
    assume pl: "plain_type (Ty_Tuple ts)"
    have "asks a (closed_ty d) (\<lambda>m. res_map Ty_Tuple (res_list (map (\<lambda>f. f m ai d) (map mono_type ts))))
        (concat (map (\<lambda>f. map snd (f vis (\<not> ai) d)) (map occ_type ts)))"
      using 10 pl by (intro asks_map [OF asks_type_list]) (auto simp: closed_ty_def list_all_iff)
    then show "asks a (closed_ty d) (\<lambda>m. res_map Ty_Tuple (res_list (map (\<lambda>f. f m ai d) (map mono_type ts))))
        (map snd (occ_type (Ty_Tuple ts) vis (\<not> ai) d))" by (simp add: map_snd_concat comp_def)
  qed
next
  case (11 l b t)
  show ?case
  proof (intro asks_tyI [OF mono_type.simps(11)] asks_opI)
    fix vis ai d
    assume pl: "plain_type (Ty_Borrow l b t)"
    have "asks a (closed_ty d) (\<lambda>m. res_lift2 (\<lambda>t l. Ty_Borrow l b t) (mono_type t m ai d) (mono_lifetime m d l))
        (map snd (occ_type t vis (\<not> ai) d) @ map snd (occ_lifetime vis d l))"
      using 11 pl by (intro asks_lift2 [OF asks_tyD asks_lifetime]) (auto simp: closed_ty_def closed_lft_def)
    then show "asks a (closed_ty d) (\<lambda>m. res_lift2 (\<lambda>t l. Ty_Borrow l b t) (mono_type t m ai d) (mono_lifetime m d l))
        (map snd (occ_type (Ty_Borrow l b t) vis (\<not> ai) d))" by simp
  qed
next
  case (12 b t)
  show ?case
  proof (intro asks_tyI [OF mono_type.simps(12)] asks_opI)
    fix vis ai d
    assume pl: "plain_type (Ty_Pointer b t)"
    with 12 show "asks a (closed_ty d) (\<lambda>m. res_map (Ty_Pointer b) (mono_type t m ai d)) (map snd (occ_type (Ty_Pointer b t) vis (\<not> ai) d))"
      by (auto intro!: asks_map [OF asks_tyD] simp: closed_ty_def)
  qed
next
  case (13 p f)
  show ?case
  proof (intro asks_tyI [OF mono_type.simps(13)] asks_opI)
    fix vis ai d
    assume pl: "plain_type (Ty_NamedFunction p f)"
    have "asks_op a closed_path (mono_path (map_path mono_type mono_constgeneric clone_generics p))
        (occ_path (map_path occ_type occ_value occ_generics p))"
      using 13 pl by (intro asks_path asks_kids(3)) auto
    then show "asks a (closed_ty d) (\<lambda>m. res_map (\<lambda>p. Ty_NamedFunction p f)
        (mono_path (map_path mono_type mono_constgeneric clone_generics p) m ai d)) (map snd (occ_type (Ty_NamedFunction p f) vis (\<not> ai) d))"
      by (simp only: occ_type.simps) (rule asks_map [OF asks_opD], assumption, simp add: closed_ty_def closed_path_def)
  qed
next
  case (14 h us va abi r as)
  show ?case
  proof (intro asks_tyI [OF mono_type.simps(14)] asks_opI)
    fix vis ai d
    assume pl: "plain_type (Ty_Function h us va abi r as)"
    obtain k where k: "clone_generics h a = Inr k" using pl copied_generics [of h a] by (auto simp: copied_def)
    have "asks a (closed_ty d) (\<lambda>m. res_lift3 (\<lambda>h r as. Ty_Function h us va abi r as) (Inr k) (mono_type r m ai (Suc d))
        (res_list (map (\<lambda>t. t m ai (Suc d)) (map mono_type as))))
       ([] @ map snd (occ_type r vis (\<not> ai) (Suc d)) @ concat (map (\<lambda>f. map snd (f vis (\<not> ai) (Suc d))) (map occ_type as)))"
      using 14 pl by (intro asks_lift3 [OF asks_Inr [where G = "\<lambda>_. True"] asks_tyD asks_type_list])
        (auto simp: closed_ty_def list_all_iff)
    then have "asks a (closed_ty d) (\<lambda>m. mono_function (clone_generics h) us va abi (mono_type r) (map mono_type as) m ai d)
       ([] @ map snd (occ_type r vis (\<not> ai) (Suc d)) @ concat (map (\<lambda>f. map snd (f vis (\<not> ai) (Suc d))) (map occ_type as)))"
      by (rule asks_cong) (simp add: mono_function_def basic_def k)
    then show "asks a (closed_ty d) (\<lambda>m. mono_function (clone_generics h) us va abi (mono_type r) (map mono_type as) m ai d)
        (map snd (occ_type (Ty_Function h us va abi r as) vis (\<not> ai) d))"
      by (simp add: map_snd_concat comp_def)
  qed
next
  case (18 p q e)
  show ?case
    unfolding asks_cg_def
  proof (intro impI asks_opI)
    fix vis ai d
    assume pl: "plain_value (CG_Unevaluated p q e)"
    have p: "asks_op a closed_params (mono_path_params (map_path_params mono_type mono_constgeneric p))
        (occ_path_params (map_path_params occ_type occ_value p))"
      and q: "asks_op a closed_params (mono_path_params (map_path_params mono_type mono_constgeneric q))
        (occ_path_params (map_path_params occ_type occ_value q))"
      using 18 pl by (auto intro!: asks_path_params asks_kids(1))
    have "asks a (closed_cg d) (\<lambda>m. res_lift2 (\<lambda>p q. CG_Unevaluated p q e)
        (mono_path_params (map_path_params mono_type mono_constgeneric p) m True d)
        (mono_path_params (map_path_params mono_type mono_constgeneric q) m True d))
       (map snd (occ_path_params (map_path_params occ_type occ_value p) False (\<not> True) d)
        @ map snd (occ_path_params (map_path_params occ_type occ_value q) False (\<not> True) d))"
      by (rule asks_lift2 [OF asks_opD [OF p] asks_opD [OF q]]) (simp add: closed_cg_def closed_params_def)
    then show "asks a (closed_cg d) (\<lambda>m. mono_constgeneric (CG_Unevaluated p q e) m ai d)
        (map snd (occ_value (CG_Unevaluated p q e) vis (\<not> ai) d))"
      by (simp add: mono_unevaluated_def)
  qed
next
  case (19 g)
  show ?case
    by (auto simp: asks_cg_def ask_def good_answer_def res_map_comp
        intro!: asks_opI asks_one [where f = "\<lambda>x. case x of An_Value v \<Rightarrow> v | _ \<Rightarrow> CG_Generic g"])
next
  case (20 l)
  show ?case
    unfolding asks_cg_def
  proof (intro impI asks_opI)
    fix vis ai d
    assume pl: "plain_value (CG_Evaluated l)"
    then have "ident_cg a (CG_Evaluated l)" using ident_types [of undefined a "CG_Evaluated l" undefined] by blast
    then have l: "clone_literal (map_encoded_literal id mono_constgeneric clone_generics l) a = Inr l"
      by (auto simp: ident_cg_def ident_def)
    have "asks a (closed_cg d) (\<lambda>m. Inr (CG_Evaluated l)) []" by (rule asks_Inr) (simp add: closed_cg_def)
    then show "asks a (closed_cg d) (\<lambda>m. mono_constgeneric (CG_Evaluated l) m ai d) (map snd (occ_value (CG_Evaluated l) vis (\<not> ai) d))"
      by (auto intro: asks_cong simp: l basic_def)
  qed
next
  case (17 i)
  show ?case by (auto simp: asks_cg_def closed_cg_def intro!: asks_opI asks_Inr)
qed (rule asks_tyI, rule mono_type.simps, auto intro!: asks_opI asks_Inr simp: closed_ty_def)+

section \<open>The substitution as a whole\<close>

lemma mono_type_asks: "plain_type t \<Longrightarrow> asks a (closed_ty d) (\<lambda>m. mono_type t m ai d) (map snd (occ_type t vis (\<not> ai) d))"
  using asks_types by (blast intro: asks_tyD)

text \<open>A substitution fails exactly at the first question without an answer, with its error.\<close>

lemma mono_outcome:
  assumes "plain_type t" "mn_callback m = (\<lambda>_. None)" "mn_consteval m = None"
  shows "\<exists>K. mono_type t m ai d = res_map K (res_list (map (ask m) (map snd (occ_type t True (\<not> ai) d))))"
  using mono_type_asks [OF assms(1), of "mn_arch m" d ai True] assms by (auto simp: asks_def basic_def)

text \<open>Two monomorphisers that answer the questions alike give the same type.\<close>

lemma mono_same_answers:
  assumes "plain_type t" "mn_callback m = (\<lambda>_. None)" "mn_consteval m = None"
    and "mn_callback m' = (\<lambda>_. None)" "mn_consteval m' = None" "mn_arch m = mn_arch m'"
    and "list_all (\<lambda>x. ask m (snd x) = ask m' (snd x)) (occ_type t True (\<not> ai) d)"
  shows "mono_type t m ai d = mono_type t m' ai d"
proof -
  from mono_type_asks [OF assms(1), of "mn_arch m'" d ai True]
  obtain K where K: "\<And>m. basic (mn_arch m') m \<Longrightarrow>
      mono_type t m ai d = res_map K (res_list (map (ask m) (map snd (occ_type t True (\<not> ai) d))))"
    by (auto simp: asks_def)
  have "map (ask m) (map snd (occ_type t True (\<not> ai) d)) = map (ask m') (map snd (occ_type t True (\<not> ai) d))"
    using assms(7) by (simp add: list_all_iff)
  then show ?thesis using K [of m] K [of m'] assms(2-6) by (simp add: basic_def del: map_map map_eq_conv)
qed

lemma mono_closes:
  assumes "plain_type t" "mn_callback m = (\<lambda>_. None)" "mn_consteval m = None"
    and "mono_type t m ai d = Inr r" "list_all (\<lambda>x. good_at m (snd x)) (occ_type t True (\<not> ai) d)"
  shows "closed_ty d r"
proof -
  have "basic (mn_arch m) m" using assms(2,3) by (simp add: basic_def)
  moreover have "list_all (good_at m) (map snd (occ_type t True (\<not> ai) d))" using assms(5) by (simp add: list_all_iff)
  ultimately show ?thesis using asks_good [OF mono_type_asks [OF assms(1)]] assms(4) by blast
qed

lemma mono_nop: "plain_type t \<Longrightarrow> mono_type t (nop_monomorphiser a) True d = Inr t"
  using ident_types by (blast intro: ident_tyD)

end
