(* ===== verification/Mono_Params.thy ===== *)
theory Mono_Params
  imports Mono_Needed Mono_Answers
begin

text \<open>
  The monomorphisers of \<open>src/hir_typeck/monomorph.hpp\<close> that substitute lists of parameters
  (\<open>MonomorphiserPP\<close> with \<open>MonomorphStatePtr\<close> and \<open>MonomorphState\<close>, \<open>MonomorphHrlsOnly\<close>), the
  helper \<open>clone_ty_with\<close>, and \<open>GenericParams::make_nop_params\<close>, which builds such lists.

  The lemmas say when a substitution of lists succeeds, that it leaves nothing to substitute when the
  lists hold nothing to substitute, and that a type that is said not to need it is not changed.
\<close>

unbundle bit_operations_syntax

section \<open>Lists of parameters\<close>

record mono_params =
  mp_self :: "type_ref option"
  mp_impl :: "ty_params option"
  mp_method :: "ty_params option"
  mp_hrb :: "ty_params option"

definition nth_param :: "'a list \<Rightarrow> generic_ref \<Rightarrow> error + 'a" where
  "nth_param xs g =
    (if unat (gr_idx g) < length xs then Inr (xs ! unat (gr_idx g)) else Inl (Bug ''param out of range''))"

definition pp_get_type :: "mono_params \<Rightarrow> generic_ref \<Rightarrow> error + type_ref" where
  "pp_get_type p g =
    (if gr_is_self g then
       (case mp_self p of Some s \<Rightarrow> Inr s | None \<Rightarrow> Inl (Bug ''Unexpected Self''))
     else if gr_group g = 0 then
       (case mp_impl p of Some q \<Rightarrow> nth_param (pp_types q) g | None \<Rightarrow> Inl (Bug ''Impl parameters were not expected''))
     else if gr_group g = 1 then
       (case mp_method p of Some q \<Rightarrow> nth_param (pp_types q) g | None \<Rightarrow> Inl (Bug ''Method parameters were not expected''))
     else Inl (Bug ''Unexpected type param''))"

text \<open>A value is copied out of its list, which passes unevaluated constants through \<open>MonomorphiserNop\<close>.\<close>

definition clone_constgeneric :: "target_arch \<Rightarrow> const_generic \<Rightarrow> error + const_generic" where
  "clone_constgeneric a v = clone_value (mono_constgeneric v) a"

definition pp_get_value :: "target_arch \<Rightarrow> mono_params \<Rightarrow> generic_ref \<Rightarrow> error + const_generic" where
  "pp_get_value a p g =
    (if gr_group g = 0 then
       (case mp_impl p of Some q \<Rightarrow> res_bind (nth_param (pp_values q) g) (clone_constgeneric a)
        | None \<Rightarrow> Inl (Bug ''Impl parameters were not expected''))
     else if gr_group g = 1 then
       (case mp_method p of Some q \<Rightarrow> res_bind (nth_param (pp_values q) g) (clone_constgeneric a)
        | None \<Rightarrow> Inl (Bug ''Method parameters were not expected''))
     else Inl (Bug ''Unexpected value param''))"

text \<open>Lists that are absent or empty: equality of parameter lists looks at types and values only.\<close>

definition no_params :: "ty_params option \<Rightarrow> bool" where
  "no_params p = (case p of None \<Rightarrow> True | Some q \<Rightarrow> pp_types q = [] \<and> pp_values q = [] \<and> pp_lifetimes q = [])"

definition pp_get_lifetime :: "mono_params \<Rightarrow> generic_ref \<Rightarrow> error + lifetime_ref" where
  "pp_get_lifetime p g =
    (if no_params (mp_impl p) \<and> no_params (mp_method p) \<and> no_params (mp_hrb p) then Inr \<lparr>lr_binding = gr_binding g\<rparr>
     else if gr_group g = 0 then
       (case mp_impl p of Some q \<Rightarrow> nth_param (pp_lifetimes q) g
        | None \<Rightarrow> Inl (Bug ''Impl lifetime parameters were not expected''))
     else if gr_group g = 1 then
       (case mp_method p of Some q \<Rightarrow> nth_param (pp_lifetimes q) g
        | None \<Rightarrow> Inl (Bug ''Method lifetime parameters were not expected''))
     else if gr_group g = 2 then Inr \<lparr>lr_binding = gr_binding g\<rparr>
     else if gr_group g = 3 then
       (case mp_hrb p of Some q \<Rightarrow> nth_param (pp_lifetimes q) g
        | None \<Rightarrow> Inl (Bug ''Higher-ranked lifetime parameters were not expected''))
     else Inl (Bug ''Unexpected lifetime param''))"

definition monomorphiser_pp :: "target_arch \<Rightarrow> mono_params \<Rightarrow> monomorphiser" where
  "monomorphiser_pp a p = \<lparr>mn_get_type = pp_get_type p, mn_get_value = pp_get_value a p,
     mn_get_lifetime = pp_get_lifetime p, mn_callback = (\<lambda>_. None), mn_consteval = None, mn_arch = a\<rparr>"

definition monomorph_state_ptr :: "type_ref option \<Rightarrow> ty_params option \<Rightarrow> ty_params option \<Rightarrow> ty_params option \<Rightarrow> mono_params" where
  "monomorph_state_ptr self i m h = \<lparr>mp_self = self, mp_impl = i, mp_method = m, mp_hrb = h\<rparr>"

text \<open>\<open>MonomorphState\<close> always has a self type and never higher-ranked parameters.\<close>

definition monomorph_state :: "type_ref \<Rightarrow> ty_params option \<Rightarrow> ty_params option \<Rightarrow> mono_params" where
  "monomorph_state self i m = \<lparr>mp_self = Some self, mp_impl = i, mp_method = m, mp_hrb = None\<rparr>"

definition monomorph_hrls_only :: "target_arch \<Rightarrow> ty_params \<Rightarrow> monomorphiser" where
  "monomorph_hrls_only a h = \<lparr>
     mn_get_type = (\<lambda>g. if gr_group g = 3 then nth_param (pp_types h) g else Inr (Ty_Generic g)),
     mn_get_value = (\<lambda>g. if gr_group g = 3 then res_bind (nth_param (pp_values h) g) (clone_constgeneric a) else Inr (CG_Generic g)),
     mn_get_lifetime = (\<lambda>g. if gr_group g = 3 then nth_param (pp_lifetimes h) g else Inr \<lparr>lr_binding = gr_binding g\<rparr>),
     mn_callback = (\<lambda>_. None), mn_consteval = None, mn_arch = a\<rparr>"

definition clone_ty_with_monomorph :: "target_arch \<Rightarrow> (type_ref \<Rightarrow> type_ref option) \<Rightarrow> monomorphiser" where
  "clone_ty_with_monomorph a cb = (nop_monomorphiser a)\<lparr>mn_callback := cb\<rparr>"

definition clone_ty_with :: "target_arch \<Rightarrow> type_ref \<Rightarrow> (type_ref \<Rightarrow> type_ref option) \<Rightarrow> error + type_ref" where
  "clone_ty_with a t cb = mono_type t (clone_ty_with_monomorph a cb) True 0"

definition clone_path_params_with :: "target_arch \<Rightarrow> ty_params \<Rightarrow> (type_ref \<Rightarrow> type_ref option) \<Rightarrow> error + ty_params" where
  "clone_path_params_with a p cb =
    res_lift2 (PathParams (pp_lifetimes p)) (res_list (map (\<lambda>t. clone_ty_with a t cb) (pp_types p)))
      (res_list (map (clone_constgeneric a) (pp_values p)))"

definition make_nop_params :: "generic_params \<Rightarrow> u32 \<Rightarrow> bool \<Rightarrow> error + ty_params" where
  "make_nop_params g level lifetimes_only =
    (if lifetimes_only \<and> gps_types g \<noteq> [] then Inl (Assert_Fail ''!lifetimes_only || this->m_types .empty()'')
     else if lifetimes_only \<and> gps_values g \<noteq> [] then Inl (Assert_Fail ''!lifetimes_only || this->m_values.empty()'')
     else Inr (PathParams
       (map (\<lambda>i. \<lparr>lr_binding = 256 * level + of_nat i\<rparr>) [0..<length (gps_lifetimes g)])
       (map (\<lambda>i. Ty_Generic \<lparr>gr_name = tpd_name (gps_types g ! i), gr_binding = 256 * level + of_nat i\<rparr>) [0..<length (gps_types g)])
       (map (\<lambda>i. CG_Generic \<lparr>gr_name = vpd_name (gps_values g ! i), gr_binding = 256 * level + of_nat i\<rparr>) [0..<length (gps_values g)])))"

section \<open>When a substitution of lists succeeds\<close>

lemma nth_param_Inr_iff [simp]: "nth_param xs g = Inr x \<longleftrightarrow> unat (gr_idx g) < length xs \<and> xs ! unat (gr_idx g) = x"
  by (simp add: nth_param_def)

lemma pp_simps [simp]:
  "mn_callback (monomorphiser_pp a p) = (\<lambda>_. None)"
  "mn_consteval (monomorphiser_pp a p) = None"
  "mn_arch (monomorphiser_pp a p) = a"
  "mn_get_type (monomorphiser_pp a p) = pp_get_type p"
  "mn_get_value (monomorphiser_pp a p) = pp_get_value a p"
  "mn_get_lifetime (monomorphiser_pp a p) = pp_get_lifetime p"
  by (simp_all add: monomorphiser_pp_def)

definition group_params :: "mono_params \<Rightarrow> generic_ref \<Rightarrow> ty_params option" where
  "group_params p g =
    (if gr_group g = 0 then mp_impl p else if gr_group g = 1 then mp_method p else if gr_group g = 3 then mp_hrb p else None)"

definition has_nth :: "generic_ref \<Rightarrow> ('q \<Rightarrow> 'a list) \<Rightarrow> 'q option \<Rightarrow> bool" where
  "has_nth g f q = (case q of None \<Rightarrow> False | Some q \<Rightarrow> unat (gr_idx g) < length (f q))"

text \<open>A parameter that the lists hold.  As the size of an array a literal needs the bytes of a word.\<close>

definition supplied :: "target_arch \<Rightarrow> mono_params \<Rightarrow> occurrence \<Rightarrow> bool" where
  "supplied a p o' = (case o' of
     Occ_Type g \<Rightarrow> if gr_is_self g then mp_self p \<noteq> None else gr_group g \<noteq> 3 \<and> has_nth g pp_types (group_params p g)
   | Occ_Value g \<Rightarrow> gr_group g \<noteq> 3 \<and> has_nth g pp_values (group_params p g)
   | Occ_Size_Value g \<Rightarrow> gr_group g \<noteq> 3 \<and> has_nth g pp_values (group_params p g) \<and>
       (case pp_values (the (group_params p g)) ! unat (gr_idx g) of
          CG_Evaluated l \<Rightarrow> pointer_bytes a \<le> length (el_bytes l) | _ \<Rightarrow> True)
   | Occ_Lifetime l \<Rightarrow> no_params (mp_impl p) \<and> no_params (mp_method p) \<and> no_params (mp_hrb p)
       \<or> lr_group l = 2 \<or> has_nth (param_of l) pp_lifetimes (group_params p (param_of l))
   | Occ_Size \<Rightarrow> True
   | Occ_Infer \<Rightarrow> False)"

definition plain_params :: "ty_params option \<Rightarrow> bool" where
  "plain_params p = (case p of None \<Rightarrow> True | Some q \<Rightarrow> list_all plain_value (pp_values q))"

lemma plain_value_clone: "plain_value v \<Longrightarrow> clone_constgeneric a v = Inr v"
proof -
  assume "plain_value v"
  then have "ident_cg a v" using ident_types by blast
  then show "clone_constgeneric a v = Inr v" by (simp add: clone_constgeneric_def clone_value_def ident_cg_def ident_def)
qed

lemma size_evaluates:
  "mn_consteval m = None \<Longrightarrow> (\<exists>n. mono_size_evaluate m v = Inr n) \<longleftrightarrow>
    (case v of CG_Evaluated l \<Rightarrow> pointer_bytes (mn_arch m) \<le> length (el_bytes l) | _ \<Rightarrow> True)"
  by (cases v)
    (auto simp: mono_size_evaluate_def lit_read_usize_def slice_from_def slice_len_def slice_all_def slice_read_uint_def Let_def)

lemma pp_value_known:
  "plain_params (mp_impl p) \<Longrightarrow> plain_params (mp_method p) \<Longrightarrow>
    pp_get_value a p g = (if gr_group g = 3 then Inl (Bug ''Unexpected value param'')
      else case group_params p g of
         Some q \<Rightarrow> nth_param (pp_values q) g
       | None \<Rightarrow> Inl (Bug (if gr_group g = 0 then ''Impl parameters were not expected''
           else if gr_group g = 1 then ''Method parameters were not expected'' else ''Unexpected value param'')))"
  by (auto simp: pp_get_value_def group_params_def plain_params_def nth_param_def list_all_length plain_value_clone
      split: option.splits)

lemma supplied_iff:
  assumes "plain_params (mp_impl p)" "plain_params (mp_method p)"
  shows "(\<exists>x. ask (monomorphiser_pp a p) o' = Inr x) \<longleftrightarrow> supplied a p o'"
proof (cases o')
  case (Occ_Size_Value g)
  have "(\<exists>x. res_bind (pp_get_value a p g) (mono_size_evaluate (monomorphiser_pp a p)) = Inr x) \<longleftrightarrow>
      gr_group g \<noteq> 3 \<and> has_nth g pp_values (group_params p g) \<and>
      (\<exists>n. mono_size_evaluate (monomorphiser_pp a p) (pp_values (the (group_params p g)) ! unat (gr_idx g)) = Inr n)"
    by (auto simp: pp_value_known assms has_nth_def split: option.splits)
  then show ?thesis
    by (simp add: Occ_Size_Value ask_def supplied_def size_evaluates cong: const_generic.case_cong)
next
  case (Occ_Value g)
  then show ?thesis by (auto simp: ask_def supplied_def pp_value_known assms has_nth_def split: option.splits)
qed (auto simp: ask_def supplied_def pp_get_type_def pp_get_lifetime_def group_params_def has_nth_def lr_group_def gr_group_def
    param_of_def split: option.splits)

lemma substitution_succeeds:
  assumes "plain_type t" "plain_params (mp_impl p)" "plain_params (mp_method p)"
  shows "(\<exists>r. mono_type t (monomorphiser_pp a p) ai d = Inr r) \<longleftrightarrow>
    list_all (\<lambda>x. supplied a p (snd x)) (occ_type t True (\<not> ai) d)"
proof -
  obtain K where "mono_type t (monomorphiser_pp a p) ai d
      = res_map K (res_list (map (ask (monomorphiser_pp a p)) (map snd (occ_type t True (\<not> ai) d))))"
    using mono_outcome [OF assms(1), of "monomorphiser_pp a p" ai d] by auto
  then show ?thesis
    using res_list_total [of "map (ask (monomorphiser_pp a p)) (map snd (occ_type t True (\<not> ai) d))"]
    by (simp add: list_all_iff supplied_iff [OF assms(2,3), symmetric] del: map_map)
qed


section \<open>Nothing is left to substitute\<close>

definition closed_param_list :: "ty_params option \<Rightarrow> bool" where
  "closed_param_list p \<longleftrightarrow> (case p of None \<Rightarrow> True | Some q \<Rightarrow>
     list_all (\<lambda>t. \<forall>d. closed_ty d t) (pp_types q) \<and> list_all (\<lambda>v. \<forall>d. closed_cg d v) (pp_values q)
     \<and> list_all (\<lambda>l. \<not> lr_is_param l) (pp_lifetimes q))"

text \<open>A lifetime parameter that is passed through: no lists at all, or a placeholder.\<close>

definition passes_through :: "mono_params \<Rightarrow> occurrence \<Rightarrow> bool" where
  "passes_through p o' = (case o' of
     Occ_Lifetime l \<Rightarrow> no_params (mp_impl p) \<and> no_params (mp_method p) \<and> no_params (mp_hrb p) \<or> lr_group l = 2
   | _ \<Rightarrow> False)"

lemma closed_evaluated_size: "closed_cg d v \<Longrightarrow> mono_size_evaluate m v = Inr n \<Longrightarrow> mn_consteval m = None \<Longrightarrow> closed_size d n"
  by (cases v) (auto simp: mono_size_evaluate_def intro: closed_size_value, simp add: closed_size_def occ_arraysize_def)

lemma closed_answers:
  assumes "\<And>s. mp_self p = Some s \<Longrightarrow> \<forall>d. closed_ty d s"
    and "closed_param_list (mp_impl p)" "closed_param_list (mp_method p)" "closed_param_list (mp_hrb p)"
    and plain: "plain_params (mp_impl p)" "plain_params (mp_method p)" and "\<not> passes_through p o'"
  shows "good_at (monomorphiser_pp a p) o'"
proof -
  have lists: "closed_param_list (group_params p g)" for g
    using assms by (auto simp: group_params_def closed_param_list_def)
  have val: "pp_get_value a p g = Inr v \<Longrightarrow> closed_cg d v" for g v d
    using lists [of g]
    by (auto simp: pp_value_known plain closed_param_list_def list_all_length split: option.splits if_splits)
  show ?thesis
  proof (cases o')
    case (Occ_Type g)
    have "pp_get_type p g = Inr t \<Longrightarrow> closed_ty d t" for t d
      using assms(1) lists [of g]
      by (auto simp: pp_get_type_def group_params_def closed_param_list_def list_all_length split: option.splits if_splits)
    then show ?thesis by (auto simp: Occ_Type good_at_def ask_def good_answer_def)
  next
    case (Occ_Lifetime l)
    have "pp_get_lifetime p (param_of l) = Inr k \<Longrightarrow> \<not> lr_is_param k" for k
      using assms(7) lists [of "param_of l"]
      by (auto simp: Occ_Lifetime passes_through_def pp_get_lifetime_def group_params_def closed_param_list_def list_all_length
          lr_group_def gr_group_def param_of_def split: option.splits if_splits)
    then show ?thesis by (auto simp: Occ_Lifetime good_at_def ask_def good_answer_def)
  next
    case (Occ_Value g)
    then show ?thesis using val by (auto simp: good_at_def ask_def good_answer_def)
  next
    case (Occ_Size_Value g)
    then show ?thesis using closed_evaluated_size [OF val]
      by (auto simp: good_at_def ask_def good_answer_def)
  qed (auto simp: good_at_def ask_def good_answer_def)
qed

lemma substitution_closes:
  assumes "plain_type t" "plain_params (mp_impl p)" "plain_params (mp_method p)"
    and "\<And>s. mp_self p = Some s \<Longrightarrow> \<forall>d. closed_ty d s"
    and "closed_param_list (mp_impl p)" "closed_param_list (mp_method p)" "closed_param_list (mp_hrb p)"
    and "list_all (\<lambda>x. \<not> passes_through p (snd x)) (occ_type t True (\<not> ai) d)"
    and "mono_type t (monomorphiser_pp a p) ai d = Inr r"
  shows "closed_ty d r"
  using assms by (intro mono_closes [OF assms(1) _ _ assms(9)]) (auto simp: list_all_iff intro: closed_answers)

section \<open>When no substitution is needed\<close>

text \<open>Parameters in places that the test does not look at: they are the answers that can still differ.\<close>

definition hidden_params :: "type_ref \<Rightarrow> bool" where
  "hidden_params t = list_ex (\<lambda>x. \<not> fst x \<and> is_param_occ (snd x)) (occ_type t True False 0)"

lemma not_needed_unchanged:
  assumes "plain_type t" "\<not> monomorphise_type_needed t False" "\<not> hidden_params t"
    and "mn_callback m = (\<lambda>_. None)" "mn_consteval m = None"
  shows "mono_type t m True 0 = Inr t"
proof -
  have "list_all (\<lambda>x. ask m (snd x) = ask (nop_monomorphiser (mn_arch m)) (snd x)) (occ_type t True (\<not> True) 0)"
    unfolding list_all_iff
  proof
    fix x
    assume x: "x \<in> set (occ_type t True (\<not> True) 0)"
    have "\<not> is_param_occ (snd x)"
      using x assms(2,3) needed_exact [of t False False 0] by (auto simp: hidden_params_def list_ex_iff)
    then show "ask m (snd x) = ask (nop_monomorphiser (mn_arch m)) (snd x)"
      by (cases "snd x") (simp_all add: is_param_occ_def ask_def)
  qed
  then have "mono_type t m True 0 = mono_type t (nop_monomorphiser (mn_arch m)) True 0"
    by (intro mono_same_answers) (simp_all add: assms)
  then show ?thesis by (simp add: mono_nop assms)
qed

end
