(* ===== verification/Ty_Order.thy ===== *)
theory Ty_Order
  imports Monomorph Serialise
begin

text \<open>
  The order and the equality of types, paths, constants and sizes: \<open>TypeRef::ord\<close> and
  \<open>TypeRef::operator==\<close> of \<open>src/hir/type.cpp\<close>, \<open>Path::ord\<close> and \<open>TraitPath::ord\<close> of \<open>src/hir/path.cpp\<close>,
  \<open>ConstGeneric::ord\<close> of \<open>src/hir/hir.cpp\<close>, \<open>EncodedLiteralSlice::ord\<close> of \<open>src/hir/hir_ops.cpp\<close>.
  They order the keys of maps and decide which impls are equal.

  A comparison can fail: two unevaluated constants with MIR run into a \<open>TODO\<close>.  Two of these
  are the same expression when their \<open>shared_ptr\<close> is the same one, and a constant that is a bare
  parameter is compared by the number of the parameter; both questions are about the expression
  tree, and \<open>expr_view\<close> answers them.  The pointers of aliases are numbers.

  A structure whose parts are compared holds, in the places of its types and constants, their
  comparisons with a right-hand side.  The shortcut for pointers that are equal is left out: it
  gives what the comparison of a type with itself gives (\<open>ty_ord_refl\<close>).
\<close>

type_synonym ty_expr = "(type_ref, const_generic, generic_params) expr_ptr"
type_synonym ty_erased_inner = "(type_ref, const_generic, generic_params) erased_inner"

record expr_view =
  ev_same :: "ty_expr \<Rightarrow> ty_expr \<Rightarrow> bool"
  ev_const_param :: "ty_expr \<Rightarrow> u32 option"

type_synonym ord_res = "error + Ordering"
type_synonym 'a ord_op = "expr_view \<Rightarrow> 'a \<Rightarrow> ord_res"

section \<open>Comparisons that can fail\<close>

definition then_ord :: "ord_res \<Rightarrow> ord_res \<Rightarrow> ord_res" where
  "then_ord a b = res_bind a (\<lambda>c. if c \<noteq> OrdEqual then Inr c else b)"

fun res_ord_list :: "('a \<Rightarrow> 'b \<Rightarrow> ord_res) \<Rightarrow> 'a list \<Rightarrow> 'b list \<Rightarrow> ord_res" where
  "res_ord_list f [] [] = Inr OrdEqual"
| "res_ord_list f [] (y # ys) = Inr OrdLess"
| "res_ord_list f (x # xs) [] = Inr OrdGreater"
| "res_ord_list f (x # xs) (y # ys) = then_ord (f x y) (res_ord_list f xs ys)"

fun res_ord_map :: "('v \<Rightarrow> 'w \<Rightarrow> ord_res) \<Rightarrow> (string \<times> 'v) list \<Rightarrow> (string \<times> 'w) list \<Rightarrow> ord_res" where
  "res_ord_map f [] ys = Inr OrdEqual"
| "res_ord_map f (x # xs) [] = Inr OrdGreater"
| "res_ord_map f (x # xs) (y # ys) =
    then_ord (then_ord (Inr (ord_string (fst x) (fst y))) (f (snd x) (snd y))) (res_ord_map f xs ys)"

definition ord_ops :: "expr_view \<Rightarrow> ('a ord_op) list \<Rightarrow> 'a list \<Rightarrow> ord_res" where
  "ord_ops ev = res_ord_list (\<lambda>f. f ev)"

section \<open>Paths\<close>

definition ord_generic_ref :: "generic_ref \<Rightarrow> generic_ref \<Rightarrow> Ordering" where
  "ord_generic_ref g h =
    (let rv = ord_int (gr_binding g) (gr_binding h)
     in if rv \<noteq> OrdEqual then rv
        else if gr_group g = 2 then ord_string (gr_name g) (gr_name h) else rv)"

definition ord_path_params :: "(type_ref ord_op, const_generic ord_op) path_params \<Rightarrow> ty_params ord_op" where
  "ord_path_params p ev q =
    then_ord (ord_ops ev (pp_types p) (pp_types q)) (ord_ops ev (pp_values p) (pp_values q))"

definition ord_generic_path :: "(type_ref ord_op, const_generic ord_op) generic_path \<Rightarrow> ty_generic_path ord_op" where
  "ord_generic_path p ev q =
    then_ord (Inr (ord_simple_path (gp_path p) (gp_path q))) (ord_path_params (gp_params p) ev (gp_params q))"

definition ord_aty_equal ::
  "(type_ref ord_op, const_generic ord_op) aty_equal \<Rightarrow> (type_ref, const_generic) aty_equal ord_op" where
  "ord_aty_equal e ev x =
    then_ord (ord_generic_path (ae_source_trait e) ev (ae_source_trait x)) (ae_type e ev (ae_type x))"

text \<open>
  Binders that lifetime elision has yet to process are marked by a lifetime of this name.  The other
  comparison of binders is switched off (\<open>g_compare_hrls\<close>).
\<close>

definition is_elision :: "generic_params option \<Rightarrow> bool" where
  "is_elision h = (case h of
     Some g \<Rightarrow> gps_lifetimes g \<noteq> [] \<and> ld_name (last (gps_lifetimes g)) = ''#apply_elision''
   | None \<Rightarrow> False)"

primrec ord_trait_path :: "(type_ref ord_op, const_generic ord_op, generic_params) trait_path \<Rightarrow> ty_trait_path ord_op"
  and ord_aty_bound :: "(type_ref ord_op, const_generic ord_op, generic_params) aty_bound
    \<Rightarrow> (type_ref, const_generic, generic_params) aty_bound ord_op" where
  "ord_trait_path (TraitPath h p tbs bbs tr) = (\<lambda>ev x.
    if is_elision h \<or> is_elision (tp_hrtbs x) then Inr OrdEqual
    else then_ord (ord_generic_path p ev (tp_path x))
      (then_ord (res_ord_map (\<lambda>f. f ev) (map (map_prod id ord_aty_bound) bbs) (tp_trait_bounds x))
        (res_ord_map (\<lambda>e. ord_aty_equal e ev) tbs (tp_type_bounds x))))"
| "ord_aty_bound (AtyBound s ts) = (\<lambda>ev x.
    then_ord (ord_generic_path s ev (ab_source_trait x)) (ord_ops ev (map ord_trait_path ts) (ab_traits x)))"

fun path_tag :: "('t, 'v, 'g) path \<Rightarrow> nat" where
  "path_tag (Path_Generic _) = 1"
| "path_tag (Path_UfcsInherent _ _ _ _) = 2"
| "path_tag (Path_UfcsKnown _ _ _ _ _) = 3"
| "path_tag (Path_UfcsUnknown _ _ _) = 4"

definition ord_path :: "(type_ref ord_op, const_generic ord_op, generic_params) path \<Rightarrow> ty_path ord_op" where
  "ord_path p ev q = then_ord (Inr (ord_int (path_tag p) (path_tag q))) (case (p, q) of
     (Path_Generic g, Path_Generic h) \<Rightarrow> ord_generic_path g ev h
   | (Path_UfcsInherent t i ps _, Path_UfcsInherent u j qs _) \<Rightarrow>
       then_ord (t ev u) (then_ord (Inr (ord_string i j)) (ord_path_params ps ev qs))
   | (Path_UfcsKnown t tr i ps _, Path_UfcsKnown u ur j qs _) \<Rightarrow>
       then_ord (t ev u) (then_ord (ord_generic_path tr ev ur)
         (then_ord (Inr (ord_string i j)) (ord_path_params ps ev qs)))
   | (Path_UfcsUnknown t i ps, Path_UfcsUnknown u j qs) \<Rightarrow>
       then_ord (t ev u) (then_ord (Inr (ord_string i j)) (ord_path_params ps ev qs))
   | _ \<Rightarrow> Inr OrdEqual)"

section \<open>Constants\<close>

text \<open>
  \<open>EncodedLiteralSlice::ord\<close>: the bytes, then the relocations from the start of the slice on, as far
  as both sides have one.
\<close>

fun ord_slice_relocs :: "expr_view \<Rightarrow> nat \<Rightarrow> nat \<Rightarrow> (type_ref ord_op, const_generic ord_op, generic_params) reloc list
    \<Rightarrow> (type_ref, const_generic, generic_params) reloc list \<Rightarrow> ord_res" where
  "ord_slice_relocs ev o1 o2 (r1 # it1) (r2 # it2) =
    then_ord (Inr (ord_int (rl_ofs r1 - of_nat o1) (rl_ofs r2 - of_nat o2)))
     (then_ord (Inr (ord_int (rl_len r1) (rl_len r2)))
     (then_ord (Inr (ord_bool (rl_p r1 \<noteq> None) (rl_p r2 \<noteq> None)))
     (then_ord
        (case (rl_p r1, rl_p r2) of
           (Some p, Some q) \<Rightarrow> ord_path p ev q
         | _ \<Rightarrow> Inr (ord_string (rl_bytes r1) (rl_bytes r2)))
        (ord_slice_relocs ev o1 o2 it1 it2))))"
| "ord_slice_relocs ev o1 o2 it1 it2 = Inr OrdEqual"

definition slice_byte :: "('t, 'v, 'g) literal_slice \<Rightarrow> nat \<Rightarrow> u8" where
  "slice_byte s i = el_bytes (ls_base s) ! (ls_ofs s + i)"

definition slice_relocs :: "('t, 'v, 'g) literal_slice \<Rightarrow> ('t, 'v, 'g) reloc list" where
  "slice_relocs s = dropWhile (\<lambda>r. \<not> ls_ofs s \<le> unat (rl_ofs r)) (el_relocations (ls_base s))"

definition ord_slice :: "(type_ref ord_op, const_generic ord_op, generic_params) literal_slice
    \<Rightarrow> expr_view \<Rightarrow> (type_ref, const_generic, generic_params) literal_slice \<Rightarrow> ord_res" where
  "ord_slice s ev x =
    (let min_size = min (ls_size s) (ls_size x)
     in then_ord (Inr (ord_vector ord_int (map (slice_byte s) [0..<min_size]) (map (slice_byte x) [0..<min_size])))
       (then_ord (Inr (ord_int (ls_size s) (ls_size x)))
         (ord_slice_relocs ev (ls_ofs s) (ls_ofs x) (slice_relocs s) (slice_relocs x))))"

text \<open>
  \<open>ConstGeneric_Unevaluated::ord\<close>.  The test whether only one side has MIR compares a value with itself, so
  it never succeeds.
\<close>

definition ord_unevaluated :: "ty_params \<Rightarrow> ty_params \<Rightarrow> ty_expr
    \<Rightarrow> (type_ref ord_op, const_generic ord_op) path_params \<Rightarrow> (type_ref ord_op, const_generic ord_op) path_params
    \<Rightarrow> expr_view \<Rightarrow> ty_params \<Rightarrow> ty_params \<Rightarrow> ty_expr \<Rightarrow> ord_res" where
  "ord_unevaluated pi pp e fpi fpp ev xi xp x =
    (if \<not> ev_same ev e x then
       (if ep_node e = None \<or> ep_node x = None then Inl (Assert_Fail ''ptr'')
        else case (ev_const_param ev e, ev_const_param ev x) of
          (Some b, Some c) \<Rightarrow> Inr (ord_int b c)
        | _ \<Rightarrow>
            if ep_mir e \<noteq> None then Inl (Todo ''Compare non-expanded array sizes - (w/ MIR)'')
            else Inr (ord_string
              (fmt_unevaluated (map_path_params fmt_tx fmt_cg pi) (map_path_params fmt_tx fmt_cg pp)
                (map_expr_ptr fmt_tx fmt_cg fmt_gp e))
              (fmt_unevaluated (map_path_params fmt_tx fmt_cg xi) (map_path_params fmt_tx fmt_cg xp)
                (map_expr_ptr fmt_tx fmt_cg fmt_gp x))))
     else then_ord (ord_path_params fpi ev xi) (ord_path_params fpp ev xp))"

fun value_tag :: "const_generic \<Rightarrow> nat" where
  "value_tag (CG_Infer _) = 1"
| "value_tag (CG_Unevaluated _ _ _) = 2"
| "value_tag (CG_Generic _) = 3"
| "value_tag (CG_Evaluated _) = 4"

section \<open>Types\<close>

fun size_tag :: "'v array_size \<Rightarrow> nat" where
  "size_tag (AS_Unevaluated _) = 1"
| "size_tag (AS_Known _) = 2"

definition ord_array_size :: "(const_generic ord_op) array_size \<Rightarrow> const_generic array_size ord_op" where
  "ord_array_size n ev k =
    (if size_tag n \<noteq> size_tag k then Inr (ord_int (size_tag n) (size_tag k))
     else case (n, k) of
       (AS_Unevaluated f, AS_Unevaluated v) \<Rightarrow> f ev v
     | (AS_Known a, AS_Known b) \<Rightarrow> Inr (ord_int a b)
     | _ \<Rightarrow> Inr OrdEqual)"

fun erased_tag :: "('t, 'v, 'g) erased_inner \<Rightarrow> nat" where
  "erased_tag (EI_Fcn _ _) = 1"
| "erased_tag (EI_Known _) = 2"
| "erased_tag (EI_Alias _ _ _ _ _) = 3"

definition ord_erased_inner ::
  "(type_ref ord_op, const_generic ord_op, generic_params) erased_inner \<Rightarrow> ty_erased_inner ord_op" where
  "ord_erased_inner l ev r = then_ord (Inr (ord_int (erased_tag l) (erased_tag r))) (case (l, r) of
     (EI_Known t, EI_Known u) \<Rightarrow> t ev u
   | (EI_Alias ps n _ _ _, EI_Alias qs m _ _ _) \<Rightarrow>
       if n \<noteq> m then Inr (if n < m then OrdLess else OrdGreater) else ord_path_params ps ev qs
   | (EI_Fcn p n, EI_Fcn q m) \<Rightarrow> then_ord (ord_path p ev q) (Inr (ord_int n m))
   | _ \<Rightarrow> Inr OrdEqual)"

fun type_tag :: "type_ref \<Rightarrow> nat" where
  "type_tag (Ty_Infer _ _) = 1"
| "type_tag Ty_Diverge = 2"
| "type_tag (Ty_Primitive _) = 3"
| "type_tag (Ty_Path _ _ _) = 4"
| "type_tag (Ty_Generic _) = 5"
| "type_tag (Ty_TraitObject _ _ _) = 6"
| "type_tag (Ty_ErasedType _ _ _ _) = 7"
| "type_tag (Ty_Array _ _) = 8"
| "type_tag (Ty_Slice _) = 9"
| "type_tag (Ty_Tuple _) = 10"
| "type_tag (Ty_Borrow _ _ _) = 11"
| "type_tag (Ty_Pointer _ _) = 12"
| "type_tag (Ty_NamedFunction _ _) = 13"
| "type_tag (Ty_Function _ _ _ _ _ _) = 14"
| "type_tag (Ty_Closure _) = 15"
| "type_tag (Ty_Generator _) = 16"

definition ord_core_type :: "core_type \<Rightarrow> core_type \<Rightarrow> Ordering" where
  "ord_core_type a b = ord_int (index_of core_types a) (index_of core_types b)"

definition ord_borrow_type :: "borrow_type \<Rightarrow> borrow_type \<Rightarrow> Ordering" where
  "ord_borrow_type a b = ord_int (index_of borrow_types a) (index_of borrow_types b)"

text \<open>The comparison of the tags comes first; then the right-hand side has the same form.\<close>

definition tags_ord :: "type_ref \<Rightarrow> type_ref \<Rightarrow> ord_res \<Rightarrow> ord_res" where
  "tags_ord t u rest = then_ord (Inr (ord_int (type_tag t) (type_tag u))) rest"

primrec ty_ord :: "type_ref \<Rightarrow> type_ref ord_op"
  and value_ord :: "const_generic \<Rightarrow> const_generic ord_op" where
  "ty_ord (Ty_Infer i c) = (\<lambda>ev x. tags_ord (Ty_Infer i c) x (case x of
     Ty_Infer j _ \<Rightarrow> Inr (ord_int i j) | _ \<Rightarrow> Inr OrdEqual))"
| "ty_ord Ty_Diverge = (\<lambda>ev x. tags_ord Ty_Diverge x (Inr OrdEqual))"
| "ty_ord (Ty_Primitive c) = (\<lambda>ev x. tags_ord (Ty_Primitive c) x (case x of
     Ty_Primitive d \<Rightarrow> Inr (ord_core_type c d) | _ \<Rightarrow> Inr OrdEqual))"
| "ty_ord (Ty_Path p b h) = (\<lambda>ev x. tags_ord (Ty_Path p b h) x (case x of
     Ty_Path q _ _ \<Rightarrow> ord_path (map_path ty_ord value_ord id p) ev q | _ \<Rightarrow> Inr OrdEqual))"
| "ty_ord (Ty_Generic g) = (\<lambda>ev x. tags_ord (Ty_Generic g) x (case x of
     Ty_Generic k \<Rightarrow> Inr (ord_int (gr_binding g) (gr_binding k)) | _ \<Rightarrow> Inr OrdEqual))"
| "ty_ord (Ty_TraitObject tr ms l) = (\<lambda>ev x. tags_ord (Ty_TraitObject tr ms l) x (case x of
     Ty_TraitObject ur ns _ \<Rightarrow>
       then_ord (ord_trait_path (map_trait_path ty_ord value_ord id tr) ev ur)
         (res_ord_list (\<lambda>p. ord_generic_path p ev) (map (map_generic_path ty_ord value_ord) ms) ns)
   | _ \<Rightarrow> Inr OrdEqual))"
| "ty_ord (Ty_ErasedType sized trs ls i) = (\<lambda>ev x. tags_ord (Ty_ErasedType sized trs ls i) x (case x of
     Ty_ErasedType _ _ _ j \<Rightarrow> ord_erased_inner (map_erased_inner ty_ord value_ord id i) ev j
   | _ \<Rightarrow> Inr OrdEqual))"
| "ty_ord (Ty_Array t n) = (\<lambda>ev x. tags_ord (Ty_Array t n) x (case x of
     Ty_Array u k \<Rightarrow> then_ord (ty_ord t ev u) (ord_array_size (map_array_size value_ord n) ev k)
   | _ \<Rightarrow> Inr OrdEqual))"
| "ty_ord (Ty_Slice t) = (\<lambda>ev x. tags_ord (Ty_Slice t) x (case x of
     Ty_Slice u \<Rightarrow> ty_ord t ev u | _ \<Rightarrow> Inr OrdEqual))"
| "ty_ord (Ty_Tuple ts) = (\<lambda>ev x. tags_ord (Ty_Tuple ts) x (case x of
     Ty_Tuple us \<Rightarrow> ord_ops ev (map ty_ord ts) us | _ \<Rightarrow> Inr OrdEqual))"
| "ty_ord (Ty_Borrow l b t) = (\<lambda>ev x. tags_ord (Ty_Borrow l b t) x (case x of
     Ty_Borrow _ c u \<Rightarrow> then_ord (Inr (ord_borrow_type b c)) (ty_ord t ev u) | _ \<Rightarrow> Inr OrdEqual))"
| "ty_ord (Ty_Pointer b t) = (\<lambda>ev x. tags_ord (Ty_Pointer b t) x (case x of
     Ty_Pointer c u \<Rightarrow> then_ord (Inr (ord_borrow_type b c)) (ty_ord t ev u) | _ \<Rightarrow> Inr OrdEqual))"
| "ty_ord (Ty_NamedFunction p f) = (\<lambda>ev x. tags_ord (Ty_NamedFunction p f) x (case x of
     Ty_NamedFunction q _ \<Rightarrow> ord_path (map_path ty_ord value_ord id p) ev q | _ \<Rightarrow> Inr OrdEqual))"
| "ty_ord (Ty_Function h us va abi r as) = (\<lambda>ev x. tags_ord (Ty_Function h us va abi r as) x (case x of
     Ty_Function _ vs _ abj s bs \<Rightarrow>
       then_ord (Inr (ord_bool us vs)) (then_ord (Inr (ord_string abi abj))
         (then_ord (ord_ops ev (map ty_ord as) bs) (ty_ord r ev s)))
   | _ \<Rightarrow> Inr OrdEqual))"
| "ty_ord (Ty_Closure n) = (\<lambda>ev x. tags_ord (Ty_Closure n) x (case x of
     Ty_Closure m \<Rightarrow> Inr (ord_int n m) | _ \<Rightarrow> Inr OrdEqual))"
| "ty_ord (Ty_Generator n) = (\<lambda>ev x. tags_ord (Ty_Generator n) x (case x of
     Ty_Generator m \<Rightarrow> Inr (ord_int n m) | _ \<Rightarrow> Inr OrdEqual))"
| "value_ord (CG_Infer i) = (\<lambda>ev x. then_ord (Inr (ord_int (value_tag (CG_Infer i)) (value_tag x))) (case x of
     CG_Infer j \<Rightarrow> Inr (ord_int i j) | _ \<Rightarrow> Inr OrdEqual))"
| "value_ord (CG_Unevaluated p q e) = (\<lambda>ev x.
     then_ord (Inr (ord_int (value_tag (CG_Unevaluated p q e)) (value_tag x))) (case x of
       CG_Unevaluated r s f \<Rightarrow> ord_unevaluated p q e (map_path_params ty_ord value_ord p)
         (map_path_params ty_ord value_ord q) ev r s f
     | _ \<Rightarrow> Inr OrdEqual))"
| "value_ord (CG_Generic g) = (\<lambda>ev x. then_ord (Inr (ord_int (value_tag (CG_Generic g)) (value_tag x))) (case x of
     CG_Generic k \<Rightarrow> Inr (ord_generic_ref g k) | _ \<Rightarrow> Inr OrdEqual))"
| "value_ord (CG_Evaluated l) = (\<lambda>ev x.
     then_ord (Inr (ord_int (value_tag (CG_Evaluated l)) (value_tag x))) (case x of
       CG_Evaluated k \<Rightarrow> ord_slice (slice_all (map_encoded_literal ty_ord value_ord id l)) ev (slice_all k)
     | _ \<Rightarrow> Inr OrdEqual))"

definition path_ord :: "ty_path \<Rightarrow> ty_path ord_op" where
  "path_ord p = ord_path (map_path ty_ord value_ord id p)"

definition path_params_ord :: "ty_params \<Rightarrow> ty_params ord_op" where
  "path_params_ord p = ord_path_params (map_path_params ty_ord value_ord p)"

definition generic_path_ord :: "ty_generic_path \<Rightarrow> ty_generic_path ord_op" where
  "generic_path_ord p = ord_generic_path (map_generic_path ty_ord value_ord p)"

definition trait_path_ord :: "ty_trait_path \<Rightarrow> ty_trait_path ord_op" where
  "trait_path_ord p = ord_trait_path (map_trait_path ty_ord value_ord id p)"

definition array_size_ord :: "const_generic array_size \<Rightarrow> const_generic array_size ord_op" where
  "array_size_ord n = ord_array_size (map_array_size value_ord n)"

definition erased_inner_ord :: "ty_erased_inner \<Rightarrow> ty_erased_inner ord_op" where
  "erased_inner_ord i = ord_erased_inner (map_erased_inner ty_ord value_ord id i)"

section \<open>Equality\<close>

definition is_equal :: "ord_res \<Rightarrow> error + bool" where
  "is_equal r = res_map (\<lambda>c. c = OrdEqual) r"

text \<open>The steps of an \<open>operator==\<close>: the first difference decides.\<close>

definition and_also :: "error + bool \<Rightarrow> error + bool \<Rightarrow> error + bool" where
  "and_also a b = res_bind a (\<lambda>x. if x then b else Inr False)"

fun res_all2 :: "('a \<Rightarrow> 'b \<Rightarrow> error + bool) \<Rightarrow> 'a list \<Rightarrow> 'b list \<Rightarrow> error + bool" where
  "res_all2 f (x # xs) (y # ys) = and_also (f x y) (res_all2 f xs ys)"
| "res_all2 f xs ys = Inr (xs = [] \<and> ys = [])"

definition vec_eq :: "('a \<Rightarrow> 'b \<Rightarrow> error + bool) \<Rightarrow> 'a list \<Rightarrow> 'b list \<Rightarrow> error + bool" where
  "vec_eq f xs ys = (if length xs \<noteq> length ys then Inr False else res_all2 f xs ys)"

primrec ty_eq :: "type_ref \<Rightarrow> expr_view \<Rightarrow> type_ref \<Rightarrow> error + bool" where
  "ty_eq (Ty_Infer i c) = (\<lambda>ev x. case x of Ty_Infer j _ \<Rightarrow> Inr (i = j) | _ \<Rightarrow> Inr False)"
| "ty_eq Ty_Diverge = (\<lambda>ev x. case x of Ty_Diverge \<Rightarrow> Inr True | _ \<Rightarrow> Inr False)"
| "ty_eq (Ty_Primitive c) = (\<lambda>ev x. case x of Ty_Primitive d \<Rightarrow> Inr (c = d) | _ \<Rightarrow> Inr False)"
| "ty_eq (Ty_Path p b h) = (\<lambda>ev x. case x of Ty_Path q _ _ \<Rightarrow> is_equal (path_ord p ev q) | _ \<Rightarrow> Inr False)"
| "ty_eq (Ty_Generic g) = (\<lambda>ev x. case x of Ty_Generic k \<Rightarrow> Inr (gr_binding g = gr_binding k) | _ \<Rightarrow> Inr False)"
| "ty_eq (Ty_TraitObject tr ms l) = (\<lambda>ev x. case x of
     Ty_TraitObject ur ns _ \<Rightarrow>
       and_also (is_equal (trait_path_ord tr ev ur)) (vec_eq (\<lambda>p q. is_equal (generic_path_ord p ev q)) ms ns)
   | _ \<Rightarrow> Inr False)"
| "ty_eq (Ty_ErasedType sized trs ls i) = (\<lambda>ev x. case x of
     Ty_ErasedType _ _ _ j \<Rightarrow> is_equal (erased_inner_ord i ev j) | _ \<Rightarrow> Inr False)"
| "ty_eq (Ty_Array t n) = (\<lambda>ev x. case x of
     Ty_Array u k \<Rightarrow> and_also (ty_eq t ev u) (is_equal (array_size_ord k ev n)) | _ \<Rightarrow> Inr False)"
| "ty_eq (Ty_Slice t) = (\<lambda>ev x. case x of Ty_Slice u \<Rightarrow> ty_eq t ev u | _ \<Rightarrow> Inr False)"
| "ty_eq (Ty_Tuple ts) = (\<lambda>ev x. case x of
     Ty_Tuple us \<Rightarrow> vec_eq (\<lambda>f. f ev) (map ty_eq ts) us | _ \<Rightarrow> Inr False)"
| "ty_eq (Ty_Borrow l b t) = (\<lambda>ev x. case x of
     Ty_Borrow _ c u \<Rightarrow> if b \<noteq> c then Inr False else ty_eq t ev u | _ \<Rightarrow> Inr False)"
| "ty_eq (Ty_Pointer b t) = (\<lambda>ev x. case x of
     Ty_Pointer c u \<Rightarrow> if b \<noteq> c then Inr False else ty_eq t ev u | _ \<Rightarrow> Inr False)"
| "ty_eq (Ty_NamedFunction p f) = (\<lambda>ev x. case x of
     Ty_NamedFunction q _ \<Rightarrow> is_equal (path_ord p ev q) | _ \<Rightarrow> Inr False)"
| "ty_eq (Ty_Function h us va abi r as) = (\<lambda>ev x. case x of
     Ty_Function _ vs _ abj s bs \<Rightarrow>
       if us \<noteq> vs then Inr False else if abi \<noteq> abj then Inr False
       else and_also (vec_eq (\<lambda>f. f ev) (map ty_eq as) bs) (ty_eq r ev s)
   | _ \<Rightarrow> Inr False)"
| "ty_eq (Ty_Closure n) = (\<lambda>ev x. case x of Ty_Closure m \<Rightarrow> Inr (n = m) | _ \<Rightarrow> Inr False)"
| "ty_eq (Ty_Generator n) = (\<lambda>ev x. case x of Ty_Generator m \<Rightarrow> Inr (n = m) | _ \<Rightarrow> Inr False)"

text \<open>
  \<open>EncodedLiteralSlice::operator==\<close> and \<open>EncodedLiteral::ord\<close>.  The latter looks at all relocations, and
  puts one with a path before one without.
\<close>

fun slice_relocs_eq :: "expr_view \<Rightarrow> nat \<Rightarrow> nat \<Rightarrow> (type_ref, const_generic, generic_params) reloc list
    \<Rightarrow> (type_ref, const_generic, generic_params) reloc list \<Rightarrow> error + bool" where
  "slice_relocs_eq ev o1 o2 (r1 # it1) (r2 # it2) =
    (if rl_ofs r1 - of_nat o1 \<noteq> rl_ofs r2 - of_nat o2 then Inr False
     else if rl_len r1 \<noteq> rl_len r2 then Inr False
     else if (rl_p r1 \<noteq> None) \<noteq> (rl_p r2 \<noteq> None) then Inr False
     else and_also
       (case (rl_p r1, rl_p r2) of
          (Some p, Some q) \<Rightarrow> is_equal (path_ord p ev q)
        | _ \<Rightarrow> Inr (rl_bytes r1 = rl_bytes r2))
       (slice_relocs_eq ev o1 o2 it1 it2))"
| "slice_relocs_eq ev o1 o2 it1 it2 = Inr True"

definition slice_eq :: "expr_view \<Rightarrow> (type_ref, const_generic, generic_params) literal_slice
    \<Rightarrow> (type_ref, const_generic, generic_params) literal_slice \<Rightarrow> error + bool" where
  "slice_eq ev s x =
    (if ls_size s \<noteq> ls_size x then Inr False
     else if list_ex (\<lambda>i. slice_byte s i \<noteq> slice_byte x i) [0..<ls_size s] then Inr False
     else slice_relocs_eq ev (ls_ofs s) (ls_ofs x) (slice_relocs s) (slice_relocs x))"

definition reloc_ord ::
  "(type_ref, const_generic, generic_params) reloc \<Rightarrow> (type_ref, const_generic, generic_params) reloc ord_op" where
  "reloc_ord r ev x =
    then_ord (Inr (ord_int (rl_ofs r) (rl_ofs x)))
     (then_ord (Inr (ord_int (rl_len r) (rl_len x)))
       (case (rl_p r, rl_p x) of
          (Some p, None) \<Rightarrow> Inr OrdLess
        | (Some p, Some q) \<Rightarrow> path_ord p ev q
        | (None, Some q) \<Rightarrow> Inr OrdGreater
        | (None, None) \<Rightarrow> Inr (ord_string (rl_bytes r) (rl_bytes x))))"

definition literal_ord :: "ty_literal \<Rightarrow> ty_literal ord_op" where
  "literal_ord l ev x =
    then_ord (Inr (ord_vector ord_int (el_bytes l) (el_bytes x)))
      (res_ord_list (\<lambda>r. reloc_ord r ev) (el_relocations l) (el_relocations x))"

text \<open>
  \<open>ConstGeneric::operator==\<close>.  An unevaluated constant is held by a \<open>unique_ptr\<close>, and it is these that are
  compared: two values are never equal in this way.
\<close>

definition value_eq :: "const_generic \<Rightarrow> expr_view \<Rightarrow> const_generic \<Rightarrow> error + bool" where
  "value_eq v ev x = (case (v, x) of
     (CG_Infer i, CG_Infer j) \<Rightarrow> Inr (i = j)
   | (CG_Generic g, CG_Generic k) \<Rightarrow> Inr (ord_generic_ref g k = OrdEqual)
   | (CG_Evaluated l, CG_Evaluated k) \<Rightarrow> slice_eq ev (slice_all l) (slice_all k)
   | _ \<Rightarrow> Inr False)"

end
