(* ===== verification/Ty_Order_Refl.thy ===== *)
theory Ty_Order_Refl
  imports Ty_Order
begin

text \<open>
  A type is equal to itself under \<open>TypeRef::ord\<close>, whatever it is made of, if the pointer of a constant
  expression is equal to itself.  So the shortcut for equal pointers in \<open>TypeRef::ord\<close> and
  \<open>TypeRef::operator==\<close> does not change the answer.
\<close>

definition equals :: "expr_view \<Rightarrow> 'a ord_op \<Rightarrow> 'a \<Rightarrow> bool" where
  "equals ev f x \<longleftrightarrow> f ev x = Inr OrdEqual"

lemma then_ord_equal_iff: "then_ord r s = Inr OrdEqual \<longleftrightarrow> r = Inr OrdEqual \<and> s = Inr OrdEqual"
  by (cases r) (auto simp: then_ord_def)

lemma ord_int_refl [simp]: "ord_int x x = OrdEqual" by (simp add: ord_int_def)

lemma ord_string_refl [simp]: "ord_string x x = OrdEqual" by (simp add: ord_string_def)

lemma lex3_refl: "(\<And>x. f x x = OrdEqual) \<Longrightarrow> lex3 f xs xs = OrdEqual"
  by (induction xs) simp_all

lemma ord_simple_path_refl [simp]: "ord_simple_path p p = OrdEqual"
  by (simp add: ord_simple_path_def ord_thin_vector_lex3 lex3_refl)

lemma equals_mapped: "list_all2 (\<lambda>a. equals ev (g a)) as xs \<Longrightarrow> ord_ops ev (map g as) xs = Inr OrdEqual"
  by (induction rule: list_all2_induct) (simp_all add: ord_ops_def equals_def then_ord_equal_iff)

lemma equals_ops: "list_all2 (equals ev) fs xs \<Longrightarrow> ord_ops ev fs xs = Inr OrdEqual"
  using equals_mapped [of ev "\<lambda>f. f" fs xs] by simp

lemma equalsD: "equals ev f x \<Longrightarrow> f ev x = Inr OrdEqual"
  by (simp add: equals_def)

lemma equalsI: "f ev x = Inr OrdEqual \<Longrightarrow> equals ev f x"
  by (simp add: equals_def)

lemma equals_path_params: "rel_path_params (equals ev) (equals ev) p q \<Longrightarrow> equals ev (ord_path_params p) q"
  by (cases p; cases q; rule equalsI) (simp add: ord_path_params_def then_ord_equal_iff equals_ops)

lemma equals_generic_path: "rel_generic_path (equals ev) (equals ev) p q \<Longrightarrow> equals ev (ord_generic_path p) q"
  by (cases p; cases q; rule equalsI) (auto simp: ord_generic_path_def then_ord_equal_iff equalsD [OF equals_path_params])

lemma equals_generic_paths:
  "list_all2 (rel_generic_path (equals ev) (equals ev)) ps qs \<Longrightarrow> res_ord_list (\<lambda>p. ord_generic_path p ev) ps qs = Inr OrdEqual"
  by (induction rule: list_all2_induct) (auto simp: then_ord_equal_iff equalsD [OF equals_generic_path])

lemma equals_type_bounds:
  "list_all2 (rel_prod (=) (rel_aty_equal (equals ev) (equals ev))) es fs \<Longrightarrow>
    res_ord_map (\<lambda>e. ord_aty_equal e ev) es fs = Inr OrdEqual"
proof (induction rule: list_all2_induct)
  case (Cons e es f fs)
  obtain k s t where e: "e = (k, AtyEqual s t)" by (metis aty_equal.exhaust surj_pair)
  obtain k' s' t' where f: "f = (k', AtyEqual s' t')" by (metis aty_equal.exhaust surj_pair)
  show ?case using Cons by (simp add: e f ord_aty_equal_def then_ord_equal_iff equalsD [OF equals_generic_path] equalsD)
qed simp

lemma equals_entries:
  "list_all2 (rel_prod (=) (\<lambda>a. equals ev (g a))) es fs \<Longrightarrow> res_ord_map (\<lambda>f. f ev) (map (map_prod id g) es) fs = Inr OrdEqual"
  by (induction rule: list_all2_induct) (auto simp: then_ord_equal_iff equalsD)

lemma equals_trait_path_bound:
  "(rel_trait_path (equals ev) (equals ev) (any_rel :: generic_params \<Rightarrow> generic_params \<Rightarrow> bool) p q \<longrightarrow> equals ev (ord_trait_path p) q) \<and>
   (rel_aty_bound (equals ev) (equals ev) (any_rel :: generic_params \<Rightarrow> generic_params \<Rightarrow> bool) b c \<longrightarrow> equals ev (ord_aty_bound b) c)"
proof (rule trait_path_aty_bound.rel_induct, goal_cases)
  case (1 h p tbs bbs tr h' p' tbs' bbs' tr')
  then show ?case
    by (auto intro!: equalsI simp: then_ord_equal_iff equalsD [OF equals_generic_path] equals_type_bounds equals_entries
        simp del: map_map list.map_comp)
next
  case (2 s ts s' ts')
  then show ?case
    by (auto intro!: equalsI simp: then_ord_equal_iff equalsD [OF equals_generic_path] equals_mapped simp del: map_map list.map_comp)
qed

lemmas equals_trait_path = equals_trait_path_bound [THEN conjunct1, rule_format]

lemma equals_path: "rel_path (equals ev) (equals ev) any_rel p q \<Longrightarrow> equals ev (ord_path p) q"
  by (cases p; cases q; rule equalsI)
    (auto simp: ord_path_def then_ord_equal_iff equalsD [OF equals_generic_path] equalsD [OF equals_path_params] equalsD)

lemma equals_erased_inner:
  "rel_erased_inner (equals ev) (equals ev) any_rel i j \<Longrightarrow> equals ev (ord_erased_inner i) j"
  by (cases i; cases j; rule equalsI)
    (auto simp: ord_erased_inner_def then_ord_equal_iff equalsD [OF equals_path] equalsD [OF equals_path_params] equalsD)

lemma equals_slice_relocs:
  "list_all2 (rel_reloc (equals ev) (equals ev) any_rel) rs qs \<Longrightarrow> ord_slice_relocs ev n n rs qs = Inr OrdEqual"
proof (induction rule: list_all2_induct)
  case (Cons r rs q qs)
  then show ?case
    by (cases r; cases q) (auto simp: then_ord_equal_iff ord_bool_def equalsD [OF equals_path] option_rel_Some1 option_rel_Some2
        split: option.splits)
qed simp

lemma equals_slice:
  assumes "rel_encoded_literal (equals ev) (equals ev) any_rel l k"
  shows "ord_slice (slice_all l) ev (slice_all k) = Inr OrdEqual"
proof -
  obtain bs rs qs where e: "l = EncodedLiteral bs rs" "k = EncodedLiteral bs qs"
      "list_all2 (rel_reloc (equals ev) (equals ev) any_rel) rs qs"
    using assms by (cases l; cases k) auto
  have b: "slice_byte (slice_all l) = slice_byte (slice_all k)" by (simp add: fun_eq_iff slice_byte_def slice_all_def e)
  have "slice_relocs (slice_all l) = rs" "slice_relocs (slice_all k) = qs"
    by (simp_all add: slice_relocs_def slice_all_def e)
  with e(3) show ?thesis
    by (simp add: ord_slice_def Let_def b then_ord_equal_iff ord_vector_lex3 lex3_refl)
      (simp add: slice_all_def e(1,2) equals_slice_relocs)
qed

text \<open>The parts of a type against the type itself.\<close>

definition equals_ty where "equals_ty ev t = equals ev (ty_ord t) t"
definition equals_cg where "equals_cg ev v = equals ev (value_ord v) v"

lemma equals_kids:
  "(\<And>t. t \<in> set1_path_params pp \<Longrightarrow> equals_ty ev t) \<Longrightarrow> (\<And>v. v \<in> set2_path_params pp \<Longrightarrow> equals_cg ev v)
    \<Longrightarrow> rel_path_params (equals ev) (equals ev) (map_path_params ty_ord value_ord pp) pp"
  "(\<And>t. t \<in> set1_generic_path g \<Longrightarrow> equals_ty ev t) \<Longrightarrow> (\<And>v. v \<in> set2_generic_path g \<Longrightarrow> equals_cg ev v)
    \<Longrightarrow> rel_generic_path (equals ev) (equals ev) (map_generic_path ty_ord value_ord g) g"
  "(\<And>t. t \<in> set1_path p \<Longrightarrow> equals_ty ev t) \<Longrightarrow> (\<And>v. v \<in> set2_path p \<Longrightarrow> equals_cg ev v)
    \<Longrightarrow> rel_path (equals ev) (equals ev) any_rel (map_path ty_ord value_ord id p) p"
  "(\<And>t. t \<in> set1_trait_path q \<Longrightarrow> equals_ty ev t) \<Longrightarrow> (\<And>v. v \<in> set2_trait_path q \<Longrightarrow> equals_cg ev v)
    \<Longrightarrow> rel_trait_path (equals ev) (equals ev) any_rel (map_trait_path ty_ord value_ord id q) q"
  "(\<And>t. t \<in> set1_encoded_literal l \<Longrightarrow> equals_ty ev t) \<Longrightarrow> (\<And>v. v \<in> set2_encoded_literal l \<Longrightarrow> equals_cg ev v)
    \<Longrightarrow> rel_encoded_literal (equals ev) (equals ev) any_rel (map_encoded_literal ty_ord value_ord id l) l"
  "(\<And>t. t \<in> set1_erased_inner i \<Longrightarrow> equals_ty ev t) \<Longrightarrow> (\<And>v. v \<in> set2_erased_inner i \<Longrightarrow> equals_cg ev v)
    \<Longrightarrow> rel_erased_inner (equals ev) (equals ev) any_rel (map_erased_inner ty_ord value_ord id i) i"
  by (simp_all add: equals_ty_def equals_cg_def any_rel_def
      path_params.rel_map path_params.rel_refl_strong generic_path.rel_map generic_path.rel_refl_strong
      path.rel_map path.rel_refl_strong trait_path.rel_map trait_path.rel_refl_strong
      encoded_literal.rel_map encoded_literal.rel_refl_strong erased_inner.rel_map erased_inner.rel_refl_strong)

lemma equals_tyI: "ty_ord t ev t = Inr OrdEqual \<Longrightarrow> equals_ty ev t"
  by (simp add: equals_ty_def equals_def)

lemma equals_tyD: "equals_ty ev t \<Longrightarrow> ty_ord t ev t = Inr OrdEqual"
  by (simp add: equals_ty_def equals_def)

lemma equals_types:
  assumes "\<And>e. ev_same ev e e"
  shows "equals_ty ev t \<and> equals_cg ev v \<and> (\<lambda>g :: generic_params. True) g"
proof (rule type_ref_const_generic_generic_params.induct, goal_cases)
  case (6 tr ms l)
  have "list_all2 (rel_generic_path (equals ev) (equals ev)) (map (map_generic_path ty_ord value_ord) ms) ms"
    using 6 by (auto simp: list.rel_map intro!: list.rel_refl_strong equals_kids)
  with 6 show ?case
    by (intro equals_tyI) (simp add: tags_ord_def then_ord_equal_iff equals_generic_paths
      equalsD [OF equals_trait_path [OF equals_kids(4)]] del: map_map)
next
  case (8 t n)
  then show ?case
    by (intro equals_tyI) (cases n; auto simp: tags_ord_def then_ord_equal_iff equals_tyD ord_array_size_def equals_cg_def equalsD)
next
  case (10 ts)
  then have "list_all2 (equals ev) (map ty_ord ts) ts"
    by (auto simp: list.rel_map equals_ty_def intro!: list.rel_refl_strong)
  then show ?case by (intro equals_tyI) (simp add: tags_ord_def then_ord_equal_iff equals_ops)
next
  case (14 h us va abi r as)
  then have "list_all2 (equals ev) (map ty_ord as) as"
    by (auto simp: list.rel_map equals_ty_def intro!: list.rel_refl_strong)
  with 14 show ?case
    by (intro equals_tyI) (simp add: tags_ord_def then_ord_equal_iff equals_ops ord_bool_def equals_tyD)
next
  case (18 p q e)
  then show ?case
    using assms by (simp add: equals_cg_def equals_def then_ord_equal_iff ord_unevaluated_def
        equalsD [OF equals_path_params [OF equals_kids(1)]])
next
  case (20 l)
  then show ?case
    by (simp add: equals_cg_def equals_def then_ord_equal_iff equals_slice [OF equals_kids(5)])
qed (simp_all add: equals_ty_def equals_cg_def equals_def tags_ord_def then_ord_equal_iff ord_core_type_def ord_borrow_type_def
    equalsD [OF equals_path [OF equals_kids(3)]] equalsD [OF equals_erased_inner [OF equals_kids(6)]] ord_generic_ref_def Let_def)

lemma ty_ord_refl: "(\<And>e. ev_same ev e e) \<Longrightarrow> ty_ord t ev t = Inr OrdEqual"
  using equals_types by (blast intro: equals_tyD)

end
