(* ===== verification/Ty_Match.thy ===== *)
theory Ty_Match
  imports Ty_Order
begin

text \<open>
  Matching a pattern with parameters against a type: class \<open>MatchGenerics\<close> of \<open>src/hir/type_ref.hpp\<close> with its
  functions \<open>cmp_type\<close>, \<open>cmp_path\<close>, \<open>match_values\<close> (\<open>src/hir/type.cpp\<close>) and
  \<open>PathParams::match_test_generics_fuzz\<close> (\<open>src/hir/path.cpp\<close>).

  The callbacks of a matcher change its state, which is threaded through; a match can fail by an
  assertion.  \<open>cmp_type\<close> calls itself on the components of what inference variables stand for, so it takes
  fuel.  The guard against a type that is reached from itself (\<open>s_recurse_stack\<close>) compares addresses and is left
  out: a tree is never part of itself.
\<close>

datatype (plugins only: code size) compare = Cmp_Equal | Cmp_Fuzzy | Cmp_Unequal

definition cmp_and :: "compare \<Rightarrow> compare \<Rightarrow> compare" where
  "cmp_and x y =
    (if x = Cmp_Unequal then x else if y = Cmp_Unequal then Cmp_Unequal
     else if y = Cmp_Fuzzy then Cmp_Fuzzy else x)"

record resolver =
  rs_type :: "type_ref \<Rightarrow> type_ref"
  rs_value :: "const_generic \<Rightarrow> const_generic"

definition resolve_nop :: resolver where
  "resolve_nop = \<lparr>rs_type = (\<lambda>t. t), rs_value = (\<lambda>v. v)\<rparr>"

type_synonym ('s, 'a) step = "'s \<Rightarrow> error + 'a \<times> 's"
type_synonym 's cmp_step = "('s, compare) step"

definition step_ret :: "'a \<Rightarrow> ('s, 'a) step" where "step_ret x s = Inr (x, s)"

definition step_fail :: "error \<Rightarrow> ('s, 'a) step" where "step_fail e s = Inl e"

definition step_bind :: "('s, 'a) step \<Rightarrow> ('a \<Rightarrow> ('s, 'b) step) \<Rightarrow> ('s, 'b) step" where
  "step_bind a k s = res_bind (a s) (\<lambda>(x, s'). k x s')"

definition step_lift :: "error + 'a \<Rightarrow> ('a \<Rightarrow> ('s, 'b) step) \<Rightarrow> ('s, 'b) step" where
  "step_lift r k s = res_bind r (\<lambda>x. k x s)"

record 's matcher =
  mt_type :: "generic_ref \<Rightarrow> type_ref \<Rightarrow> resolver \<Rightarrow> 's cmp_step"
  mt_value :: "generic_ref \<Rightarrow> const_generic \<Rightarrow> 's cmp_step"
  mt_lifetime :: "generic_ref \<Rightarrow> lifetime_ref \<Rightarrow> 's cmp_step"

record 's match_cx =
  mc_view :: expr_view
  mc_arch :: target_arch
  mc_resolve :: resolver
  mc_matcher :: "'s matcher"

type_synonym 's cmp_types = "type_ref \<Rightarrow> type_ref \<Rightarrow> 's cmp_step"

section \<open>Parameters of paths\<close>

text \<open>The loop over the types; \<open>k\<close> is what follows it.\<close>

fun match_types_loop :: "'s cmp_types \<Rightarrow> compare \<Rightarrow> type_ref list \<Rightarrow> type_ref list \<Rightarrow> (compare \<Rightarrow> 's cmp_step) \<Rightarrow> 's cmp_step" where
  "match_types_loop c rv (t # ts) (x # xs) k = step_bind (c t x) (\<lambda>r.
     let rv = cmp_and rv r
     in if rv = Cmp_Unequal then step_ret Cmp_Unequal else match_types_loop c rv ts xs k)"
| "match_types_loop c rv ts xs k = k rv"

fun is_value_infer :: "const_generic \<Rightarrow> bool" where
  "is_value_infer (CG_Infer _) = True" | "is_value_infer _ = False"

fun is_unevaluated :: "const_generic \<Rightarrow> bool" where
  "is_unevaluated (CG_Unevaluated _ _ _) = True" | "is_unevaluated _ = False"

fun match_values_loop :: "'s match_cx \<Rightarrow> compare \<Rightarrow> const_generic list \<Rightarrow> const_generic list
    \<Rightarrow> (compare \<Rightarrow> 's cmp_step) \<Rightarrow> 's cmp_step" where
  "match_values_loop cx rv (v # vs) (x # xs) k =
    (let val_t = rs_value (mc_resolve cx) v; val_x = rs_value (mc_resolve cx) x
     in case val_t of
       CG_Generic ge \<Rightarrow> step_bind (mt_value (mc_matcher cx) ge val_x) (\<lambda>r.
         let rv = cmp_and rv r
         in if rv = Cmp_Unequal then step_ret Cmp_Unequal else match_values_loop cx rv vs xs k)
     | _ \<Rightarrow>
         if is_value_infer val_t \<or> is_value_infer val_x then step_ret Cmp_Fuzzy
         else step_lift (value_eq val_t (mc_view cx) val_x) (\<lambda>eq.
           if \<not> eq then
             (if is_unevaluated val_t \<or> is_unevaluated val_x then step_ret Cmp_Fuzzy else step_ret Cmp_Unequal)
           else match_values_loop cx rv vs xs k))"
| "match_values_loop cx rv vs xs k = k rv"

definition lifetime_param :: "lifetime_ref \<Rightarrow> generic_ref" where
  "lifetime_param l = \<lparr>gr_name = '''', gr_binding = lr_binding l\<rparr>"

text \<open>The answers of the callback for lifetimes are ignored.\<close>

fun match_lifetimes_loop :: "'s match_cx \<Rightarrow> lifetime_ref list \<Rightarrow> lifetime_ref list \<Rightarrow> 's cmp_step \<Rightarrow> 's cmp_step" where
  "match_lifetimes_loop cx (l # ls) (x # xs) k =
    (if lr_is_param l
     then step_bind (mt_lifetime (mc_matcher cx) (lifetime_param l) x) (\<lambda>_. match_lifetimes_loop cx ls xs k)
     else match_lifetimes_loop cx ls xs k)"
| "match_lifetimes_loop cx ls xs k = k"

definition match_params :: "'s match_cx \<Rightarrow> 's cmp_types \<Rightarrow> ty_params \<Rightarrow> ty_params \<Rightarrow> 's cmp_step" where
  "match_params cx c t x =
    (if length (pp_types t) \<noteq> length (pp_types x) then step_ret Cmp_Unequal
     else match_types_loop c Cmp_Equal (pp_types t) (pp_types x) (\<lambda>rv.
       if length (pp_values t) \<noteq> length (pp_values x) then step_ret Cmp_Unequal
       else match_values_loop cx rv (pp_values t) (pp_values x) (\<lambda>rv.
         match_lifetimes_loop cx (pp_lifetimes t) (pp_lifetimes x) (step_ret rv))))"

section \<open>Paths and constants\<close>

definition simple_path_eq :: "simple_path \<Rightarrow> simple_path \<Rightarrow> bool" where
  "simple_path_eq p q = (ord_simple_path p q = OrdEqual)"

text \<open>A type, then parameters: how the three forms of associated items are compared.\<close>

definition cmp_path :: "'s match_cx \<Rightarrow> 's cmp_types \<Rightarrow> ty_path \<Rightarrow> ty_path \<Rightarrow> 's cmp_step" where
  "cmp_path cx c l r = (case (l, r) of
     (Path_Generic p, Path_Generic q) \<Rightarrow>
       if \<not> simple_path_eq (gp_path p) (gp_path q) then step_ret Cmp_Unequal
       else match_params cx c (gp_params p) (gp_params q)
   | (Path_UfcsKnown t tr i ps _, Path_UfcsKnown u ur j qs _) \<Rightarrow>
       step_bind (c t u) (\<lambda>rv.
         let rv = (if \<not> simple_path_eq (gp_path tr) (gp_path ur) then Cmp_Unequal else rv)
         in step_bind (match_params cx c (gp_params tr) (gp_params ur)) (\<lambda>r.
           let rv = cmp_and rv r; rv = (if i \<noteq> j then Cmp_Unequal else rv)
           in step_bind (match_params cx c ps qs) (\<lambda>r. step_ret (cmp_and rv r))))
   | (Path_UfcsUnknown t i ps, Path_UfcsUnknown u j qs) \<Rightarrow>
       step_bind (c t u) (\<lambda>rv.
         let rv = (if i \<noteq> j then Cmp_Unequal else rv)
         in step_bind (match_params cx c ps qs) (\<lambda>r. step_ret (cmp_and rv r)))
   | (Path_UfcsInherent t i ps _, Path_UfcsInherent u j qs _) \<Rightarrow>
       step_bind (c t u) (\<lambda>rv.
         let rv = (if i \<noteq> j then Cmp_Unequal else rv)
         in step_bind (match_params cx c ps qs) (\<lambda>r. step_ret (cmp_and rv r)))
   | _ \<Rightarrow> step_ret Cmp_Unequal)"

text \<open>
  Unevaluated constants are compared by the addresses of their \<open>unique_ptr\<close>s, and there is nothing after that
  comparison: two constants end in the exception.
\<close>

definition match_values :: "'s match_cx \<Rightarrow> const_generic \<Rightarrow> const_generic \<Rightarrow> 's cmp_step" where
  "match_values cx t x = (case t of
     CG_Generic e \<Rightarrow> mt_value (mc_matcher cx) e x
   | _ \<Rightarrow> (case x of
       CG_Infer j \<Rightarrow>
         step_ret (if j \<noteq> 0xFFFFFFFF \<and> t = CG_Infer j then Cmp_Equal else Cmp_Fuzzy)
     | _ \<Rightarrow> (case t of
         CG_Infer i \<Rightarrow>
           if i = 0xFFFFFFFF then step_fail (Bug ''Encountered ivar for `this`'') else step_ret Cmp_Fuzzy
       | CG_Unevaluated _ _ _ \<Rightarrow>
           if is_unevaluated x then step_fail (Runtime_Error ''Unreachable'') else step_ret Cmp_Unequal
       | CG_Evaluated l \<Rightarrow> (case x of
           CG_Evaluated k \<Rightarrow> step_lift (is_equal (literal_ord l (mc_view cx) k)) (\<lambda>eq.
             step_ret (if eq then Cmp_Equal else Cmp_Unequal))
         | _ \<Rightarrow> step_ret Cmp_Unequal)
       | CG_Generic _ \<Rightarrow> step_ret Cmp_Unequal)))"

section \<open>Types\<close>

definition core_is_integer :: "core_type \<Rightarrow> bool" where
  "core_is_integer c = (c \<in> {CT_I8, CT_U8, CT_I16, CT_U16, CT_I32, CT_U32, CT_I64, CT_U64, CT_I128, CT_U128, CT_Isize, CT_Usize})"

definition core_is_float :: "core_type \<Rightarrow> bool" where
  "core_is_float c = (c \<in> {CT_F32, CT_F64})"

text \<open>What an inference variable of a class answers about a type; \<open>None\<close> is to go on.\<close>

definition infer_answer :: "infer_class \<Rightarrow> type_ref \<Rightarrow> compare option" where
  "infer_answer cl t = (case cl of
     IC_None \<Rightarrow> Some Cmp_Fuzzy
   | IC_Integer \<Rightarrow> (case t of
       Ty_Primitive c \<Rightarrow> Some (if core_is_integer c then Cmp_Fuzzy else Cmp_Unequal) | _ \<Rightarrow> None)
   | IC_Float \<Rightarrow> (case t of
       Ty_Primitive c \<Rightarrow> Some (if core_is_float c then Cmp_Fuzzy else Cmp_Unequal) | _ \<Rightarrow> None))"

definition is_opaque_path :: "type_ref \<Rightarrow> bool" where
  "is_opaque_path t = (case t of Ty_Path _ b _ \<Rightarrow> b = TPB_Opaque | _ \<Rightarrow> False)"

definition is_unbound_path :: "type_ref \<Rightarrow> bool" where
  "is_unbound_path t = (case t of Ty_Path _ b _ \<Rightarrow> b = TPB_Unbound | _ \<Rightarrow> False)"

definition is_placeholder :: "type_ref \<Rightarrow> bool" where
  "is_placeholder t = (case t of Ty_Generic g \<Rightarrow> gr_group g = 2 | _ \<Rightarrow> False)"

definition tag_mismatch :: "type_ref \<Rightarrow> type_ref \<Rightarrow> compare" where
  "tag_mismatch v x =
    (if is_opaque_path v \<or> is_unbound_path x \<or> is_unbound_path v \<or> is_placeholder x then Cmp_Fuzzy else Cmp_Unequal)"

fun match_type_list :: "'s cmp_types \<Rightarrow> compare \<Rightarrow> type_ref list \<Rightarrow> type_ref list \<Rightarrow> (compare \<Rightarrow> 's cmp_step) \<Rightarrow> 's cmp_step" where
  "match_type_list c rv (t # ts) (x # xs) k = step_bind (c t x) (\<lambda>r.
     let rv = cmp_and rv r
     in if rv = Cmp_Unequal then step_ret Cmp_Unequal else match_type_list c rv ts xs k)"
| "match_type_list c rv ts xs k = k rv"

fun match_markers :: "'s match_cx \<Rightarrow> 's cmp_types \<Rightarrow> compare \<Rightarrow> ty_generic_path list \<Rightarrow> ty_generic_path list
    \<Rightarrow> (compare \<Rightarrow> 's cmp_step) \<Rightarrow> 's cmp_step" where
  "match_markers cx c cmp (p # ps) (q # qs) k =
    (if \<not> simple_path_eq (gp_path p) (gp_path q) then step_ret Cmp_Unequal
     else step_bind (match_params cx c (gp_params p) (gp_params q)) (\<lambda>r. match_markers cx c (cmp_and cmp r) ps qs k))"
| "match_markers cx c cmp ps qs k = k cmp"

fun match_type_bounds :: "'s cmp_types \<Rightarrow> compare \<Rightarrow> (string \<times> (type_ref, const_generic) aty_equal) list
    \<Rightarrow> (string \<times> (type_ref, const_generic) aty_equal) list \<Rightarrow> (compare \<Rightarrow> 's cmp_step) \<Rightarrow> 's cmp_step" where
  "match_type_bounds c cmp (l # it_l) (r # it_r) k =
    (if fst l \<noteq> fst r then step_ret Cmp_Unequal
     else step_bind (c (ae_type (snd l)) (ae_type (snd r))) (\<lambda>res. match_type_bounds c (cmp_and cmp res) it_l it_r k))"
| "match_type_bounds c cmp it_l it_r k = (if it_l \<noteq> [] \<or> it_r \<noteq> [] then step_ret Cmp_Unequal else k cmp)"

definition match_trait_object :: "'s match_cx \<Rightarrow> 's cmp_types \<Rightarrow> ty_trait_path \<Rightarrow> ty_generic_path list \<Rightarrow> lifetime_ref
    \<Rightarrow> ty_trait_path \<Rightarrow> ty_generic_path list \<Rightarrow> lifetime_ref \<Rightarrow> 's cmp_step" where
  "match_trait_object cx c te tms tk xe xms xl =
    (if \<not> simple_path_eq (gp_path (tp_path te)) (gp_path (tp_path xe)) then step_ret Cmp_Unequal
     else if length tms \<noteq> length xms then step_ret Cmp_Unequal
     else step_bind (match_params cx c (gp_params (tp_path te)) (gp_params (tp_path xe))) (\<lambda>cmp.
       match_markers cx c cmp tms xms (\<lambda>cmp.
         match_type_bounds c cmp (tp_type_bounds te) (tp_type_bounds xe) (\<lambda>cmp.
           if lr_is_param tk
           then step_bind (mt_lifetime (mc_matcher cx) (lifetime_param tk) xl) (\<lambda>_. step_ret cmp)
           else step_ret cmp))))"

text \<open>The result for the sizes is computed and dropped, except when two known sizes differ.\<close>

definition match_array :: "'s match_cx \<Rightarrow> 's cmp_types \<Rightarrow> type_ref \<Rightarrow> const_generic array_size
    \<Rightarrow> type_ref \<Rightarrow> const_generic array_size \<Rightarrow> 's cmp_step" where
  "match_array cx c t n u k = (case n of
     AS_Unevaluated tse \<Rightarrow> step_bind
       (case k of
          AS_Known m \<Rightarrow> step_lift (lit_make_usize (mc_arch cx) m) (\<lambda>l. match_values cx tse (CG_Evaluated l))
        | AS_Unevaluated v \<Rightarrow> match_values cx tse v)
       (\<lambda>_. c t u)
   | AS_Known a \<Rightarrow> (case k of
       AS_Unevaluated v \<Rightarrow>
         if is_value_infer v then c t u
         else (case v of
           CG_Evaluated _ \<Rightarrow> step_fail (Bug ''TODO: Handle array size'')
         | _ \<Rightarrow> step_ret Cmp_Unequal)
     | AS_Known b \<Rightarrow> if a \<noteq> b then step_ret Cmp_Unequal else c t u))"

definition cmp_same_form :: "'s match_cx \<Rightarrow> 's cmp_types \<Rightarrow> type_ref \<Rightarrow> type_ref \<Rightarrow> 's cmp_step" where
  "cmp_same_form cx c v x = (case v of
     Ty_Infer _ tc \<Rightarrow> (case x of
       Ty_Infer _ xc \<Rightarrow> step_ret (if tc = IC_None \<or> xc = IC_None \<or> tc = xc then Cmp_Fuzzy else Cmp_Unequal)
     | _ \<Rightarrow> step_ret Cmp_Unequal)
   | Ty_Generic _ \<Rightarrow> step_fail (Runtime_Error '''')
   | Ty_Primitive a \<Rightarrow> step_ret (if x = Ty_Primitive a then Cmp_Equal else Cmp_Unequal)
   | Ty_Diverge \<Rightarrow> step_ret Cmp_Equal
   | Ty_Path p b _ \<Rightarrow> (case x of
       Ty_Path q d _ \<Rightarrow> step_bind (cmp_path cx c p q) (\<lambda>rv. step_ret
         (if rv = Cmp_Unequal \<and> (b = TPB_Unbound \<or> d = TPB_Unbound \<or> b = TPB_Opaque) then Cmp_Fuzzy else rv))
     | _ \<Rightarrow> step_ret Cmp_Unequal)
   | Ty_TraitObject te tms tk \<Rightarrow> (case x of
       Ty_TraitObject xe xms xl \<Rightarrow> match_trait_object cx c te tms tk xe xms xl | _ \<Rightarrow> step_ret Cmp_Unequal)
   | Ty_ErasedType _ _ _ i \<Rightarrow> (case x of
       Ty_ErasedType _ _ _ j \<Rightarrow> step_lift (is_equal (erased_inner_ord i (mc_view cx) j)) (\<lambda>eq.
         step_ret (if eq then Cmp_Equal else Cmp_Unequal))
     | _ \<Rightarrow> step_ret Cmp_Unequal)
   | Ty_Array t n \<Rightarrow> (case x of Ty_Array u k \<Rightarrow> match_array cx c t n u k | _ \<Rightarrow> step_ret Cmp_Unequal)
   | Ty_Slice t \<Rightarrow> (case x of Ty_Slice u \<Rightarrow> c t u | _ \<Rightarrow> step_ret Cmp_Unequal)
   | Ty_Tuple ts \<Rightarrow> (case x of
       Ty_Tuple us \<Rightarrow> if length ts \<noteq> length us then step_ret Cmp_Unequal else match_type_list c Cmp_Equal ts us step_ret
     | _ \<Rightarrow> step_ret Cmp_Unequal)
   | Ty_Pointer b t \<Rightarrow> (case x of
       Ty_Pointer d u \<Rightarrow> if b \<noteq> d then step_ret Cmp_Unequal else c t u | _ \<Rightarrow> step_ret Cmp_Unequal)
   | Ty_Borrow l b t \<Rightarrow> (case x of
       Ty_Borrow k d u \<Rightarrow>
         if b \<noteq> d then step_ret Cmp_Unequal
         else if lr_is_param l then step_bind (mt_lifetime (mc_matcher cx) (lifetime_param l) k) (\<lambda>_. c t u)
         else c t u
     | _ \<Rightarrow> step_ret Cmp_Unequal)
   | Ty_NamedFunction p _ \<Rightarrow> (case x of
       Ty_NamedFunction q _ \<Rightarrow> cmp_path cx c p q | _ \<Rightarrow> step_ret Cmp_Unequal)
   | Ty_Function _ us _ abi r as \<Rightarrow> (case x of
       Ty_Function _ vs _ abj s bs \<Rightarrow>
         if us \<noteq> vs then step_ret Cmp_Unequal
         else if abi \<noteq> abj then step_ret Cmp_Unequal
         else if length as \<noteq> length bs then step_ret Cmp_Unequal
         else match_type_list c Cmp_Equal as bs (\<lambda>rv. step_bind (c r s) (\<lambda>r. step_ret (cmp_and rv r)))
     | _ \<Rightarrow> step_ret Cmp_Unequal)
   | Ty_Closure n \<Rightarrow> step_ret (if x = Ty_Closure n then Cmp_Equal else Cmp_Unequal)
   | Ty_Generator n \<Rightarrow> step_ret (if x = Ty_Generator n then Cmp_Equal else Cmp_Unequal))"

text \<open>The two tests for inference variables, on the resolved types.\<close>

definition infer_right :: "type_ref \<Rightarrow> type_ref \<Rightarrow> compare option" where
  "infer_right v x = (case x of
     Ty_Infer j cl \<Rightarrow>
       if j \<noteq> 0xFFFFFFFF \<and> (case v of Ty_Infer i _ \<Rightarrow> i = j | _ \<Rightarrow> False) then Some Cmp_Equal
       else infer_answer cl v
   | _ \<Rightarrow> None)"

definition cmp_resolved :: "'s match_cx \<Rightarrow> 's cmp_types \<Rightarrow> type_ref \<Rightarrow> type_ref \<Rightarrow> 's cmp_step" where
  "cmp_resolved cx c v x = (case infer_right v x of
     Some r \<Rightarrow> step_ret r
   | None \<Rightarrow>
       if (case v of Ty_Infer i _ \<Rightarrow> i = 0xFFFFFFFF | _ \<Rightarrow> False) then step_fail (Bug ''Encountered ivar for `this`'')
       else (case (case v of Ty_Infer _ cl \<Rightarrow> infer_answer cl x | _ \<Rightarrow> None) of
         Some r \<Rightarrow> step_ret r
       | None \<Rightarrow>
           if type_tag v \<noteq> type_tag x then step_ret (tag_mismatch v x) else cmp_same_form cx c v x))"

primrec cmp_type :: "nat \<Rightarrow> 's match_cx \<Rightarrow> 's cmp_types" where
  "cmp_type 0 cx ty_l ty_r = step_fail Out_Of_Fuel"
| "cmp_type (Suc n) cx ty_l ty_r = (case ty_l of
     Ty_Generic e \<Rightarrow> mt_type (mc_matcher cx) e ty_r (mc_resolve cx)
   | _ \<Rightarrow> cmp_resolved cx (cmp_type n cx)
       (if is_infer ty_l then rs_type (mc_resolve cx) ty_l else ty_l)
       (if is_infer ty_r \<or> (case ty_r of Ty_Generic _ \<Rightarrow> True | _ \<Rightarrow> False) then rs_type (mc_resolve cx) ty_r else ty_r))"

definition match_test_generics_fuzz :: "nat \<Rightarrow> 's match_cx \<Rightarrow> 's cmp_types" where
  "match_test_generics_fuzz n cx t x = cmp_type n cx t x"

definition match_test_generics :: "nat \<Rightarrow> 's match_cx \<Rightarrow> type_ref \<Rightarrow> type_ref \<Rightarrow> ('s, bool) step" where
  "match_test_generics n cx t x = step_bind (match_test_generics_fuzz n cx t x) (\<lambda>r. step_ret (r = Cmp_Equal))"

end
