(* ===== verification/Ty_Placeholders.thy ===== *)
theory Ty_Placeholders
  imports Ty_Match
begin

text \<open>
  Comparison of two types up to inference variables and placeholders: \<open>compare_with_placeholders\<close> of
  \<open>TypeRef\<close> (\<open>src/hir/type.cpp\<close>), \<open>PathParams\<close>, \<open>GenericPath\<close>, \<open>TraitPath\<close> and \<open>Path\<close> (\<open>src/hir/path.cpp\<close>).
  Types are resolved at every level, so the function takes fuel.
\<close>

type_synonym cmp_res = "error + compare"
type_synonym placeholder_cmp = "type_ref \<Rightarrow> type_ref \<Rightarrow> cmp_res"

text \<open>The macro \<open>CMP\<close>, and the loops that do the same by hand: unequal returns, fuzzy is remembered.\<close>

definition cmp_then :: "compare \<Rightarrow> cmp_res \<Rightarrow> (compare \<Rightarrow> cmp_res) \<Rightarrow> cmp_res" where
  "cmp_then rv r k = res_bind r (\<lambda>c.
     case c of Cmp_Unequal \<Rightarrow> Inr Cmp_Unequal | Cmp_Fuzzy \<Rightarrow> k Cmp_Fuzzy | Cmp_Equal \<Rightarrow> k rv)"

fun cmp_each :: "('a \<Rightarrow> 'b \<Rightarrow> cmp_res) \<Rightarrow> compare \<Rightarrow> 'a list \<Rightarrow> 'b list \<Rightarrow> (compare \<Rightarrow> cmp_res) \<Rightarrow> cmp_res" where
  "cmp_each f rv (x # xs) (y # ys) k = cmp_then rv (f x y) (\<lambda>rv. cmp_each f rv xs ys k)"
| "cmp_each f rv xs ys k = k rv"

text \<open>Only the types of a parameter list are compared.\<close>

definition params_with_placeholders :: "placeholder_cmp \<Rightarrow> ty_params \<Rightarrow> ty_params \<Rightarrow> cmp_res" where
  "params_with_placeholders c p q =
    (if length (pp_types p) \<noteq> length (pp_types q) then Inr Cmp_Unequal
     else cmp_each c Cmp_Equal (pp_types p) (pp_types q) Inr)"

definition generic_path_with_placeholders :: "placeholder_cmp \<Rightarrow> ty_generic_path \<Rightarrow> ty_generic_path \<Rightarrow> cmp_res" where
  "generic_path_with_placeholders c p q =
    (if \<not> simple_path_eq (gp_path p) (gp_path q) then Inr Cmp_Unequal
     else params_with_placeholders c (gp_params p) (gp_params q))"

fun cmp_type_bounds :: "placeholder_cmp \<Rightarrow> compare \<Rightarrow> (string \<times> (type_ref, const_generic) aty_equal) list
    \<Rightarrow> (string \<times> (type_ref, const_generic) aty_equal) list \<Rightarrow> cmp_res" where
  "cmp_type_bounds c rv (l # it_l) (r # it_r) =
    (if fst l \<noteq> fst r then Inr Cmp_Unequal
     else cmp_then rv (c (ae_type (snd l)) (ae_type (snd r))) (\<lambda>rv. cmp_type_bounds c rv it_l it_r))"
| "cmp_type_bounds c rv it_l it_r = Inr (if it_l \<noteq> [] \<or> it_r \<noteq> [] then Cmp_Unequal else rv)"

definition trait_path_with_placeholders :: "placeholder_cmp \<Rightarrow> ty_trait_path \<Rightarrow> ty_trait_path \<Rightarrow> cmp_res" where
  "trait_path_with_placeholders c p q =
    res_bind (generic_path_with_placeholders c (tp_path p) (tp_path q)) (\<lambda>rv.
      if rv = Cmp_Unequal then Inr rv else cmp_type_bounds c rv (tp_type_bounds p) (tp_type_bounds q))"

definition path_with_placeholders :: "placeholder_cmp \<Rightarrow> ty_path \<Rightarrow> ty_path \<Rightarrow> cmp_res" where
  "path_with_placeholders c p q = (case (p, q) of
     (Path_Generic g, Path_Generic h) \<Rightarrow> generic_path_with_placeholders c g h
   | (Path_UfcsUnknown t i ps, Path_UfcsUnknown u j qs) \<Rightarrow>
       if i \<noteq> j then Inr Cmp_Unequal else Inl (Todo ''Path::compare_with_placeholders - UfcsUnknown'')
   | (Path_UfcsInherent t i ps _, Path_UfcsInherent u j qs _) \<Rightarrow>
       if i \<noteq> j then Inr Cmp_Unequal
       else cmp_then Cmp_Equal (c t u) (\<lambda>rv. cmp_then rv (params_with_placeholders c ps qs) Inr)
   | (Path_UfcsKnown t tr i ps _, Path_UfcsKnown u ur j qs _) \<Rightarrow>
       if i \<noteq> j then Inr Cmp_Unequal
       else cmp_then Cmp_Equal (c t u) (\<lambda>rv.
         cmp_then rv (generic_path_with_placeholders c tr ur) (\<lambda>rv.
           cmp_then rv (params_with_placeholders c ps qs) Inr))
   | _ \<Rightarrow> Inr Cmp_Unequal)"

text \<open>What an inference variable of a class answers about a type that it meets on the left or on the right.\<close>

definition infer_left_answer :: "infer_class \<Rightarrow> type_ref \<Rightarrow> compare" where
  "infer_left_answer cl t = (case cl of
     IC_None \<Rightarrow> Cmp_Fuzzy
   | _ \<Rightarrow> (case t of
       Ty_Primitive c \<Rightarrow>
         if (if cl = IC_Integer then core_is_integer c else core_is_float c) then Cmp_Fuzzy else Cmp_Unequal
     | Ty_Infer _ k \<Rightarrow> if k = IC_None \<or> k = cl then Cmp_Fuzzy else Cmp_Unequal
     | Ty_Path _ b _ \<Rightarrow> if b = TPB_Unbound then Cmp_Fuzzy else Cmp_Unequal
     | _ \<Rightarrow> Cmp_Unequal))"

definition infer_right_answer :: "infer_class \<Rightarrow> type_ref \<Rightarrow> compare" where
  "infer_right_answer cl t = (case cl of
     IC_None \<Rightarrow> Cmp_Fuzzy
   | _ \<Rightarrow> (case t of
       Ty_Primitive c \<Rightarrow>
         if (if cl = IC_Integer then core_is_integer c else core_is_float c) then Cmp_Fuzzy else Cmp_Unequal
     | Ty_Path _ b _ \<Rightarrow> if b = TPB_Unbound then Cmp_Fuzzy else Cmp_Unequal
     | _ \<Rightarrow> Cmp_Unequal))"

definition erased_with_placeholders :: "placeholder_cmp \<Rightarrow> ty_erased_inner \<Rightarrow> ty_erased_inner \<Rightarrow> cmp_res" where
  "erased_with_placeholders c i j = (case (i, j) of
     (EI_Known t, EI_Known u) \<Rightarrow> c t u
   | (EI_Alias ps n _ _ _, EI_Alias qs m _ _ _) \<Rightarrow>
       if n \<noteq> m then Inr Cmp_Unequal else params_with_placeholders c ps qs
   | (EI_Fcn p n, EI_Fcn q m) \<Rightarrow> if n \<noteq> m then Inr Cmp_Unequal else path_with_placeholders c p q
   | _ \<Rightarrow> Inr Cmp_Unequal)"

fun size_is_infer :: "const_generic array_size \<Rightarrow> bool" where
  "size_is_infer (AS_Unevaluated (CG_Infer _)) = True" | "size_is_infer _ = False"

definition array_with_placeholders :: "expr_view \<Rightarrow> placeholder_cmp \<Rightarrow> type_ref \<Rightarrow> const_generic array_size
    \<Rightarrow> type_ref \<Rightarrow> const_generic array_size \<Rightarrow> cmp_res" where
  "array_with_placeholders ev c t n u k =
    (let inner = (\<lambda>rv. res_map (cmp_and rv) (c t u))
     in if size_is_infer n \<or> size_is_infer k then inner Cmp_Fuzzy
        else res_bind (is_equal (array_size_ord n ev k)) (\<lambda>eq.
          if \<not> eq then Inr Cmp_Unequal else inner Cmp_Equal))"

definition same_form_with_placeholders :: "expr_view \<Rightarrow> placeholder_cmp \<Rightarrow> type_ref \<Rightarrow> type_ref \<Rightarrow> cmp_res" where
  "same_form_with_placeholders ev c l r = (case l of
     Ty_Infer _ _ \<Rightarrow> Inl (Assert_Fail ''infer'')
   | Ty_Diverge \<Rightarrow> Inr Cmp_Equal
   | Ty_Primitive a \<Rightarrow> Inr (if r = Ty_Primitive a then Cmp_Equal else Cmp_Unequal)
   | Ty_Path p b _ \<Rightarrow> (case r of
       Ty_Path q d _ \<Rightarrow> res_map (\<lambda>rv. if rv = Cmp_Unequal \<and> (b = TPB_Unbound \<or> d = TPB_Unbound) then Cmp_Fuzzy else rv)
         (path_with_placeholders c p q)
     | _ \<Rightarrow> Inr Cmp_Unequal)
   | Ty_Generic g \<Rightarrow> (case r of
       Ty_Generic h \<Rightarrow> Inr (if gr_binding g \<noteq> gr_binding h
         then (if gr_group g = 2 \<or> gr_group h = 2 then Cmp_Fuzzy else Cmp_Unequal) else Cmp_Equal)
     | _ \<Rightarrow> Inr Cmp_Unequal)
   | Ty_TraitObject lt lms _ \<Rightarrow> (case r of
       Ty_TraitObject rt rms _ \<Rightarrow>
         if length lms \<noteq> length rms then Inr Cmp_Unequal
         else res_bind (trait_path_with_placeholders c lt rt) (\<lambda>rv.
           if rv = Cmp_Unequal then Inr rv
           else cmp_each (generic_path_with_placeholders c) rv lms rms Inr)
     | _ \<Rightarrow> Inr Cmp_Unequal)
   | Ty_ErasedType _ _ _ i \<Rightarrow> (case r of
       Ty_ErasedType _ _ _ j \<Rightarrow> erased_with_placeholders c i j | _ \<Rightarrow> Inr Cmp_Unequal)
   | Ty_Array t n \<Rightarrow> (case r of Ty_Array u k \<Rightarrow> array_with_placeholders ev c t n u k | _ \<Rightarrow> Inr Cmp_Unequal)
   | Ty_Slice t \<Rightarrow> (case r of Ty_Slice u \<Rightarrow> c t u | _ \<Rightarrow> Inr Cmp_Unequal)
   | Ty_Tuple ts \<Rightarrow> (case r of
       Ty_Tuple us \<Rightarrow> if length ts \<noteq> length us then Inr Cmp_Unequal else cmp_each c Cmp_Equal ts us Inr
     | _ \<Rightarrow> Inr Cmp_Unequal)
   | Ty_Borrow _ b t \<Rightarrow> (case r of
       Ty_Borrow _ d u \<Rightarrow> if b \<noteq> d then Inr Cmp_Unequal else c t u | _ \<Rightarrow> Inr Cmp_Unequal)
   | Ty_Pointer b t \<Rightarrow> (case r of
       Ty_Pointer d u \<Rightarrow> if b \<noteq> d then Inr Cmp_Unequal else c t u | _ \<Rightarrow> Inr Cmp_Unequal)
   | Ty_NamedFunction p _ \<Rightarrow> (case r of
       Ty_NamedFunction q _ \<Rightarrow> path_with_placeholders c p q | _ \<Rightarrow> Inr Cmp_Unequal)
   | Ty_Function _ us _ abi s as \<Rightarrow> (case r of
       Ty_Function _ vs _ abj t bs \<Rightarrow>
         if abi \<noteq> abj \<or> us \<noteq> vs then Inr Cmp_Unequal
         else if length as \<noteq> length bs then Inr Cmp_Unequal
         else cmp_each c Cmp_Equal as bs (\<lambda>rv. res_map (cmp_and rv) (c s t))
     | _ \<Rightarrow> Inr Cmp_Unequal)
   | Ty_Closure n \<Rightarrow> Inr (if r = Ty_Closure n then Cmp_Equal else Cmp_Unequal)
   | Ty_Generator n \<Rightarrow> Inr (if r = Ty_Generator n then Cmp_Equal else Cmp_Unequal))"

text \<open>Unbound paths and placeholders against a type of another form.\<close>

definition loose_mismatch :: "type_ref \<Rightarrow> type_ref \<Rightarrow> bool" where
  "loose_mismatch l r =
    (type_tag l \<noteq> type_tag r \<and> (is_unbound_path l \<or> is_unbound_path r \<or> is_placeholder l \<or> is_placeholder r))"

definition resolved_with_placeholders :: "expr_view \<Rightarrow> placeholder_cmp \<Rightarrow> type_ref \<Rightarrow> type_ref \<Rightarrow> cmp_res" where
  "resolved_with_placeholders ev c l r =
    res_bind (if is_infer l then ty_eq l ev r else Inr False) (\<lambda>same.
      if same then Inr Cmp_Equal
      else if loose_mismatch l r then Inr Cmp_Fuzzy
      else case l of Ty_Infer _ cl \<Rightarrow> Inr (infer_left_answer cl r)
      | _ \<Rightarrow> (case r of Ty_Infer _ cl \<Rightarrow> Inr (infer_right_answer cl l)
        | _ \<Rightarrow> if type_tag l \<noteq> type_tag r then Inr Cmp_Unequal else same_form_with_placeholders ev c l r))"

primrec compare_with_placeholders :: "nat \<Rightarrow> expr_view \<Rightarrow> resolver \<Rightarrow> placeholder_cmp" where
  "compare_with_placeholders 0 ev rs l r = Inl Out_Of_Fuel"
| "compare_with_placeholders (Suc n) ev rs l r =
    resolved_with_placeholders ev (compare_with_placeholders n ev rs) (rs_type rs l) (rs_type rs r)"

end
