(* ===== verification/Impl_Match.thy ===== *)
theory Impl_Match
  imports Ty_Placeholders Hir_Items
begin

text \<open>
  Which impls of a trait or type apply to a type: \<open>ImplMatcher\<close>, \<open>matches_type\<close> and the searches over the impls of
  all crates (\<open>src/hir/hir_ops.cpp\<close>), the groups that impls are sorted into (\<open>ImplGroup\<close> of \<open>src/hir/hir.hpp\<close>,
  \<open>TypeRef::get_sort_path\<close> of \<open>src/hir/type.hpp\<close>) and the sorting and merging of groups
  (\<open>src/hir_conv/resolve_ufcs.cpp\<close>).

  A callback changes the state of its caller, which is threaded through.  The loaded external crates are an argument,
  in the order of the table of the crate.  \<open>n\<close> is the fuel of the matching.
\<close>

section \<open>The matcher of impl types\<close>

definition is_unbounded_infer :: "type_ref \<Rightarrow> bool" where
  "is_unbounded_infer t = (case t of Ty_Infer _ cl \<Rightarrow> cl = IC_None | _ \<Rightarrow> False)"

type_synonym impl_slots = "type_ref option list"

text \<open>A value parameter matches anything.\<close>

definition impl_matcher :: "nat \<Rightarrow> expr_view \<Rightarrow> impl_slots matcher" where
  "impl_matcher n ev = \<lparr>
     mt_type = (\<lambda>g ty rs s.
       if \<not> unat (gr_binding g) < length s then Inl (Assert_Fail ''g.binding < impl_types.size()'')
       else case s ! unat (gr_binding g) of
         Some t \<Rightarrow> res_map (\<lambda>c. (c, s)) (compare_with_placeholders n ev rs t ty)
       | None \<Rightarrow> Inr (Cmp_Equal, s[unat (gr_binding g) := Some ty])),
     mt_value = (\<lambda>g v. step_ret Cmp_Equal),
     mt_lifetime = (\<lambda>g l. step_ret Cmp_Equal)\<rparr>"

record match_env =
  me_fuel :: nat
  me_view :: expr_view
  me_arch :: target_arch

definition impl_cx :: "match_env \<Rightarrow> resolver \<Rightarrow> impl_slots match_cx" where
  "impl_cx e rs = \<lparr>mc_view = me_view e, mc_arch = me_arch e, mc_resolve = rs,
     mc_matcher = impl_matcher (me_fuel e) (me_view e)\<rparr>"

definition matches_type_root :: "match_env \<Rightarrow> generic_params \<Rightarrow> type_ref \<Rightarrow> type_ref \<Rightarrow> resolver \<Rightarrow> error + bool" where
  "matches_type_root e params impl_ty ty rs =
    (if is_unbounded_infer ty \<or> is_unbound_path ty then Inr False
     else res_map (\<lambda>(c, s). c \<noteq> Cmp_Unequal)
       (cmp_type (me_fuel e) (impl_cx e rs) impl_ty ty (replicate (length (gps_types params)) None)))"

definition trait_impl_matches :: "match_env \<Rightarrow> resolver \<Rightarrow> type_ref \<Rightarrow> trait_impl \<Rightarrow> error + bool" where
  "trait_impl_matches e rs ty i =
    (if is_unbounded_infer ty then Inr True else matches_type_root e (tim_params i) (tim_type i) ty rs)"

definition type_impl_matches :: "match_env \<Rightarrow> resolver \<Rightarrow> type_ref \<Rightarrow> type_impl \<Rightarrow> error + bool" where
  "type_impl_matches e rs ty i = matches_type_root e (ti_params i) (ti_type i) ty rs"

definition marker_impl_matches :: "match_env \<Rightarrow> resolver \<Rightarrow> type_ref \<Rightarrow> marker_impl \<Rightarrow> error + bool" where
  "marker_impl_matches e rs ty i = matches_type_root e (mi_params i) (mi_type i) ty rs"

section \<open>Groups of impls\<close>

definition get_sort_path :: "type_ref \<Rightarrow> simple_path option" where
  "get_sort_path t = (case t of
     Ty_Path (Path_Generic g) _ _ \<Rightarrow> Some (gp_path g)
   | Ty_TraitObject tr _ _ \<Rightarrow> Some (gp_path (tp_path tr))
   | _ \<Rightarrow> None)"

text \<open>A \<open>std::map\<close> by path: \<open>find\<close>, and \<open>operator[]\<close> with a change to the value that is there or is made.\<close>

fun path_find :: "(simple_path \<times> 'a) list \<Rightarrow> simple_path \<Rightarrow> 'a option" where
  "path_find [] p = None"
| "path_find ((q, x) # es) p = (if simple_path_eq q p then Some x else path_find es p)"

fun map_at :: "simple_path \<Rightarrow> 'a \<Rightarrow> ('a \<Rightarrow> 'a) \<Rightarrow> (simple_path \<times> 'a) list \<Rightarrow> (simple_path \<times> 'a) list" where
  "map_at p d f [] = [(p, f d)]"
| "map_at p d f ((q, x) # es) =
    (case ord_simple_path q p of
       OrdLess \<Rightarrow> (q, x) # map_at p d f es
     | OrdEqual \<Rightarrow> (q, f x) # es
     | OrdGreater \<Rightarrow> (p, f d) # (q, x) # es)"

definition path_push :: "simple_path \<Rightarrow> 'a list \<Rightarrow> (simple_path \<times> 'a list) list \<Rightarrow> (simple_path \<times> 'a list) list" where
  "path_push p xs = map_at p [] (\<lambda>ys. ys @ xs)"

definition get_list_for_type :: "'i impl_group \<Rightarrow> type_ref \<Rightarrow> 'i list option" where
  "get_list_for_type g ty = (case get_sort_path ty of
     Some p \<Rightarrow> path_find (ig_named g) p
   | None \<Rightarrow> Some (ig_non_named g))"

text \<open>\<open>get_list_for_type_mut(ty).push_back(i)\<close>\<close>

definition push_for_type :: "type_ref \<Rightarrow> 'i \<Rightarrow> 'i impl_group \<Rightarrow> 'i impl_group" where
  "push_for_type ty i g = (case get_sort_path ty of
     Some p \<Rightarrow> g\<lparr>ig_named := path_push p [i] (ig_named g)\<rparr>
   | None \<Rightarrow> g\<lparr>ig_non_named := ig_non_named g @ [i]\<rparr>)"

section \<open>Sorting and merging\<close>

definition stays_generic :: "type_ref \<Rightarrow> bool" where
  "stays_generic t = (get_sort_path t = None \<and> (case t of Ty_Path _ _ _ \<Rightarrow> True | Ty_Generic _ \<Rightarrow> True | _ \<Rightarrow> False))"

fun sort_impls_from :: "('i \<Rightarrow> type_ref) \<Rightarrow> 'i list \<Rightarrow> 'i impl_group \<Rightarrow> 'i impl_group" where
  "sort_impls_from ty_of [] g = g"
| "sort_impls_from ty_of (i # is) g = sort_impls_from ty_of is
    (case get_sort_path (ty_of i) of
       Some p \<Rightarrow> g\<lparr>ig_named := path_push p [i] (ig_named g)\<rparr>
     | None \<Rightarrow> if stays_generic (ty_of i) then g\<lparr>ig_generic := ig_generic g @ [i]\<rparr>
               else g\<lparr>ig_non_named := ig_non_named g @ [i]\<rparr>)"

definition sort_impl_group :: "('i \<Rightarrow> type_ref) \<Rightarrow> 'i impl_group \<Rightarrow> 'i impl_group" where
  "sort_impl_group ty_of g = sort_impls_from ty_of (ig_generic g) (g\<lparr>ig_generic := []\<rparr>)"

definition push_index_impl_group :: "'i impl_group \<Rightarrow> 'i impl_group \<Rightarrow> 'i impl_group" where
  "push_index_impl_group dst src =
    \<lparr>ig_named = foldl (\<lambda>m (p, is). path_push p is m) (ig_named dst) (ig_named src),
     ig_non_named = ig_non_named dst @ ig_non_named src,
     ig_generic = ig_generic dst @ ig_generic src\<rparr>"

definition empty_group :: "'i impl_group" where
  "empty_group = \<lparr>ig_named = [], ig_non_named = [], ig_generic = []\<rparr>"

definition index_push :: "simple_path \<Rightarrow> 'i impl_group \<Rightarrow> (simple_path \<times> 'i impl_group) list \<Rightarrow> (simple_path \<times> 'i impl_group) list" where
  "index_push p g = map_at p empty_group (\<lambda>d. push_index_impl_group d g)"

record impl_index =
  ix_type_impls :: "type_impl impl_group"
  ix_trait_impls :: "(simple_path \<times> trait_impl impl_group) list"
  ix_marker_impls :: "(simple_path \<times> marker_impl impl_group) list"

definition push_index_impls :: "impl_index \<Rightarrow> hir_crate \<Rightarrow> impl_index" where
  "push_index_impls dst src =
    \<lparr>ix_type_impls = push_index_impl_group (ix_type_impls dst) (cr_type_impls src),
     ix_trait_impls = foldl (\<lambda>m (p, g). index_push p g m) (ix_trait_impls dst) (cr_trait_impls src),
     ix_marker_impls = foldl (\<lambda>m (p, g). index_push p g m) (ix_marker_impls dst) (cr_marker_impls src)\<rparr>"

definition sort_crate_impls :: "hir_crate \<Rightarrow> hir_crate" where
  "sort_crate_impls c = c\<lparr>cr_type_impls := sort_impl_group ti_type (cr_type_impls c),
     cr_trait_impls := map (\<lambda>(p, g). (p, sort_impl_group tim_type g)) (cr_trait_impls c),
     cr_marker_impls := map (\<lambda>(p, g). (p, sort_impl_group mi_type g)) (cr_marker_impls c)\<rparr>"

definition empty_index :: impl_index where
  "empty_index = \<lparr>ix_type_impls = empty_group, ix_trait_impls = [], ix_marker_impls = []\<rparr>"

text \<open>
  \<open>ConvertHIR_ResolveUFCS_SortImpls\<close>: the impls of the crate are sorted, then those of all crates merged; external
  crates were sorted when they were compiled.  (The cache of inherent methods, which it also fills, is not modelled.)
\<close>

definition sort_impls :: "hir_crate \<Rightarrow> hir_crate list \<Rightarrow> hir_crate \<times> impl_index" where
  "sort_impls c exts =
    (let c = sort_crate_impls c in (c, foldl push_index_impls (push_index_impls empty_index c) exts))"

section \<open>Searches\<close>

fun find_impls_list :: "('i \<Rightarrow> error + bool) \<Rightarrow> ('i \<Rightarrow> ('s, bool) step) \<Rightarrow> 'i list \<Rightarrow> ('s, bool) step" where
  "find_impls_list matches cb [] = step_ret False"
| "find_impls_list matches cb (i # is) = step_lift (matches i) (\<lambda>m.
    if m then step_bind (cb i) (\<lambda>done. if done then step_ret True else find_impls_list matches cb is)
    else find_impls_list matches cb is)"

definition or_else :: "('s, bool) step \<Rightarrow> ('s, bool) step \<Rightarrow> ('s, bool) step" where
  "or_else a b = step_bind a (\<lambda>done. if done then step_ret True else b)"

fun find_in_lists :: "('i \<Rightarrow> error + bool) \<Rightarrow> ('i \<Rightarrow> ('s, bool) step) \<Rightarrow> 'i list list \<Rightarrow> ('s, bool) step" where
  "find_in_lists matches cb [] = step_ret False"
| "find_in_lists matches cb (l # ls) = or_else (find_impls_list matches cb l) (find_in_lists matches cb ls)"

definition is_infer_not_lit :: "type_ref \<Rightarrow> bool" where
  "is_infer_not_lit t = (case t of Ty_Infer _ cl \<Rightarrow> cl = IC_None | _ \<Rightarrow> False)"

text \<open>A group of trait impls: the list of the type, every list if the type is not known, the generic list.\<close>

definition find_in_group :: "bool \<Rightarrow> ('i \<Rightarrow> error + bool) \<Rightarrow> ('i \<Rightarrow> ('s, bool) step) \<Rightarrow> type_ref \<Rightarrow> 'i impl_group
    \<Rightarrow> ('s, bool) step" where
  "find_in_group search_all matches cb ty g =
    or_else (case get_list_for_type g ty of Some is \<Rightarrow> find_impls_list matches cb is | None \<Rightarrow> step_ret False)
     (or_else (if search_all \<and> is_infer_not_lit ty then find_in_lists matches cb (map snd (ig_named g)) else step_ret False)
       (find_impls_list matches cb (ig_generic g)))"

definition find_trait_impls_in :: "match_env \<Rightarrow> resolver \<Rightarrow> (trait_impl \<Rightarrow> ('s, bool) step)
    \<Rightarrow> (simple_path \<times> trait_impl impl_group) list \<Rightarrow> simple_path \<Rightarrow> type_ref \<Rightarrow> ('s, bool) step" where
  "find_trait_impls_in e rs cb m trait ty = (case path_find m trait of
     Some g \<Rightarrow> find_in_group True (trait_impl_matches e rs ty) cb ty g
   | None \<Rightarrow> step_ret False)"

fun find_in_crates :: "('c \<Rightarrow> ('s, bool) step) \<Rightarrow> 'c list \<Rightarrow> ('s, bool) step" where
  "find_in_crates f [] = step_ret False"
| "find_in_crates f (c # cs) = or_else (f c) (find_in_crates f cs)"

definition find_trait_impls :: "match_env \<Rightarrow> resolver \<Rightarrow> impl_index \<Rightarrow> hir_crate \<Rightarrow> hir_crate list
    \<Rightarrow> simple_path \<Rightarrow> type_ref \<Rightarrow> (trait_impl \<Rightarrow> ('s, bool) step) \<Rightarrow> ('s, bool) step" where
  "find_trait_impls e rs ix c exts trait ty cb =
    (if 0 < length (ix_trait_impls ix) then find_trait_impls_in e rs cb (ix_trait_impls ix) trait ty
     else find_in_crates (\<lambda>c. find_trait_impls_in e rs cb (cr_trait_impls c) trait ty) (c # exts))"

definition find_auto_trait_impls_in :: "match_env \<Rightarrow> resolver \<Rightarrow> (marker_impl \<Rightarrow> ('s, bool) step)
    \<Rightarrow> (simple_path \<times> marker_impl impl_group) list \<Rightarrow> simple_path \<Rightarrow> type_ref \<Rightarrow> ('s, bool) step" where
  "find_auto_trait_impls_in e rs cb m trait ty = (case path_find m trait of
     Some g \<Rightarrow> find_in_group False (marker_impl_matches e rs ty) cb ty g
   | None \<Rightarrow> step_ret False)"

definition find_auto_trait_impls :: "match_env \<Rightarrow> resolver \<Rightarrow> impl_index \<Rightarrow> hir_crate \<Rightarrow> hir_crate list
    \<Rightarrow> simple_path \<Rightarrow> type_ref \<Rightarrow> (marker_impl \<Rightarrow> ('s, bool) step) \<Rightarrow> ('s, bool) step" where
  "find_auto_trait_impls e rs ix c exts trait ty cb =
    (if 0 < length (ix_marker_impls ix) then find_auto_trait_impls_in e rs cb (ix_marker_impls ix) trait ty
     else find_in_crates (\<lambda>c. find_auto_trait_impls_in e rs cb (cr_marker_impls c) trait ty) (c # exts))"

definition find_type_impls :: "match_env \<Rightarrow> resolver \<Rightarrow> impl_index \<Rightarrow> hir_crate \<Rightarrow> hir_crate list
    \<Rightarrow> type_ref \<Rightarrow> (type_impl \<Rightarrow> ('s, bool) step) \<Rightarrow> ('s, bool) step" where
  "find_type_impls e rs ix c exts ty cb =
    (if 0 < length (ix_trait_impls ix) then find_in_group False (type_impl_matches e rs ty) cb ty (ix_type_impls ix)
     else find_in_crates (\<lambda>c. find_in_group False (type_impl_matches e rs ty) cb ty (cr_type_impls c)) (c # exts))"

end
