(* ===== verification/Ty_Keys.thy ===== *)
theory Ty_Keys
  imports Ty_Order
begin

text \<open>
  The order of types as the lexicographic order of keys.  A key is a list of numbers: the tag of a
  type and then the keys of its parts; a vector is its elements, each behind a one, and a zero at
  the end.  For orderly types - no unevaluated constants, no relocations in constants, no maps of
  associated types and no binders that wait for elision - \<open>TypeRef::ord\<close> is the order of the keys
  and \<open>operator==\<close> their equality.
\<close>

section \<open>Keys\<close>

definition key_vec :: "nat list list \<Rightarrow> nat list" where
  "key_vec ks = concat (map (\<lambda>k. 1 # k) ks) @ [0]"

definition key_string :: "string \<Rightarrow> nat list" where
  "key_string s = key_vec (map (\<lambda>c. [of_char c]) s)"

definition key_simple_path :: "simple_path \<Rightarrow> nat list" where
  "key_simple_path p = key_vec (map key_string (sp_members p))"

definition key_path_params :: "(nat list, nat list) path_params \<Rightarrow> nat list" where
  "key_path_params p = key_vec (pp_types p) @ key_vec (pp_values p)"

definition key_generic_path :: "(nat list, nat list) generic_path \<Rightarrow> nat list" where
  "key_generic_path p = key_simple_path (gp_path p) @ key_path_params (gp_params p)"

fun key_path :: "(nat list, nat list, 'g) path \<Rightarrow> nat list" where
  "key_path (Path_Generic g) = 1 # key_generic_path g"
| "key_path (Path_UfcsInherent t i ps ips) = 2 # t @ key_string i @ key_path_params ps"
| "key_path (Path_UfcsKnown t tr i ps h) = 3 # t @ key_generic_path tr @ key_string i @ key_path_params ps"
| "key_path (Path_UfcsUnknown t i ps) = 4 # t @ key_string i @ key_path_params ps"

definition key_word :: "'a::len word \<Rightarrow> nat list" where "key_word w = [unat w]"

definition key_generic_ref :: "generic_ref \<Rightarrow> nat list" where
  "key_generic_ref g = key_word (gr_binding g) @ (if gr_group g = 2 then key_string (gr_name g) else [])"

fun key_array_size :: "(nat list) array_size \<Rightarrow> nat list" where
  "key_array_size (AS_Unevaluated k) = 1 # k"
| "key_array_size (AS_Known n) = 2 # key_word n"

fun key_erased_inner :: "(nat list, nat list, 'g) erased_inner \<Rightarrow> nat list" where
  "key_erased_inner (EI_Fcn p n) = 1 # key_path p @ key_word n"
| "key_erased_inner (EI_Known t) = 2 # t"
| "key_erased_inner (EI_Alias ps n _ _ _) = 3 # n # key_path_params ps"

definition key_bool :: "bool \<Rightarrow> nat list" where "key_bool b = [if b then 1 else 0]"

primrec order_key :: "type_ref \<Rightarrow> nat list"
  and value_order_key :: "const_generic \<Rightarrow> nat list" where
  "order_key (Ty_Infer i c) = 1 # key_word i"
| "order_key Ty_Diverge = [2]"
| "order_key (Ty_Primitive c) = [3, index_of core_types c]"
| "order_key (Ty_Path p b h) = 4 # key_path (map_path order_key value_order_key id p)"
| "order_key (Ty_Generic g) = 5 # key_word (gr_binding g)"
| "order_key (Ty_TraitObject tr ms l) = 6 # key_generic_path (tp_path (map_trait_path order_key value_order_key id tr))
     @ key_vec (map key_generic_path (map (map_generic_path order_key value_order_key) ms))"
| "order_key (Ty_ErasedType sized trs ls i) = 7 # key_erased_inner (map_erased_inner order_key value_order_key id i)"
| "order_key (Ty_Array t n) = 8 # order_key t @ key_array_size (map_array_size value_order_key n)"
| "order_key (Ty_Slice t) = 9 # order_key t"
| "order_key (Ty_Tuple ts) = 10 # key_vec (map order_key ts)"
| "order_key (Ty_Borrow l b t) = 11 # index_of borrow_types b # order_key t"
| "order_key (Ty_Pointer b t) = 12 # index_of borrow_types b # order_key t"
| "order_key (Ty_NamedFunction p f) = 13 # key_path (map_path order_key value_order_key id p)"
| "order_key (Ty_Function h us va abi r as) =
    14 # key_bool us @ key_string abi @ key_vec (map order_key as) @ order_key r"
| "order_key (Ty_Closure n) = [15, n]"
| "order_key (Ty_Generator n) = [16, n]"
| "value_order_key (CG_Infer i) = 1 # key_word i"
| "value_order_key (CG_Unevaluated p q e) = [2]"
| "value_order_key (CG_Generic g) = 3 # key_generic_ref g"
| "value_order_key (CG_Evaluated l) = 4 # key_vec (map key_word (el_bytes l))"

section \<open>Orderly types\<close>

definition orderly_trait :: "(bool, bool, generic_params) trait_path \<Rightarrow> bool" where
  "orderly_trait tr = (\<not> is_elision (tp_hrtbs tr) \<and> tp_type_bounds tr = [] \<and> tp_trait_bounds tr = []
     \<and> pred_generic_path id id (tp_path tr))"

primrec orderly_type :: "type_ref \<Rightarrow> bool"
  and orderly_value :: "const_generic \<Rightarrow> bool" where
  "orderly_type (Ty_Infer i c) = True"
| "orderly_type Ty_Diverge = True"
| "orderly_type (Ty_Primitive c) = True"
| "orderly_type (Ty_Path p b h) = pred_path id id (\<lambda>_. True) (map_path orderly_type orderly_value id p)"
| "orderly_type (Ty_Generic g) = True"
| "orderly_type (Ty_TraitObject tr ms l) =
    (orderly_trait (map_trait_path orderly_type orderly_value id tr)
     \<and> list_all (pred_generic_path id id) (map (map_generic_path orderly_type orderly_value) ms))"
| "orderly_type (Ty_ErasedType sized trs ls i) =
    pred_erased_inner id id (\<lambda>_. True) (map_erased_inner orderly_type orderly_value id i)"
| "orderly_type (Ty_Array t n) = (orderly_type t \<and> pred_array_size id (map_array_size orderly_value n))"
| "orderly_type (Ty_Slice t) = orderly_type t"
| "orderly_type (Ty_Tuple ts) = list_all id (map orderly_type ts)"
| "orderly_type (Ty_Borrow l b t) = orderly_type t"
| "orderly_type (Ty_Pointer b t) = orderly_type t"
| "orderly_type (Ty_NamedFunction p f) = pred_path id id (\<lambda>_. True) (map_path orderly_type orderly_value id p)"
| "orderly_type (Ty_Function h us va abi r as) = (orderly_type r \<and> list_all id (map orderly_type as))"
| "orderly_type (Ty_Closure n) = True"
| "orderly_type (Ty_Generator n) = True"
| "orderly_value (CG_Infer i) = True"
| "orderly_value (CG_Unevaluated p q e) = False"
| "orderly_value (CG_Generic g) = True"
| "orderly_value (CG_Evaluated l) = (el_relocations l = [])"

section \<open>Comparisons that agree with keys\<close>

text \<open>Keys that differ do so at some place, never by one being the start of the other.\<close>

definition differ :: "nat list \<Rightarrow> nat list \<Rightarrow> bool" where
  "differ a c \<longleftrightarrow> (\<exists>p x y a' c'. x \<noteq> y \<and> a = p @ x # a' \<and> c = p @ y # c')"

definition apart :: "nat list \<Rightarrow> nat list \<Rightarrow> bool" where "apart a c \<longleftrightarrow> a = c \<or> differ a c"

definition agree :: "ord_res \<Rightarrow> nat list \<Rightarrow> nat list \<Rightarrow> bool" where
  "agree r a c \<longleftrightarrow> r = Inr (lex3 ord_int a c) \<and> apart a c"

lemma apart_same [simp]: "apart a a" by (simp add: apart_def)

lemma differI: "x \<noteq> y \<Longrightarrow> differ (p @ x # a) (p @ y # c)"
  unfolding differ_def by blast

lemma differ_append: "differ a c \<Longrightarrow> differ (a @ b) (c @ d)"
  unfolding differ_def by (metis append.assoc append_Cons)

lemma differ_prefix: "differ b d \<Longrightarrow> differ (a @ b) (a @ d)"
  unfolding differ_def by (metis append.assoc)

lemma apart_single [simp]: "apart [x] [y]"
  using differI [of x y "[]" "[]" "[]"] by (auto simp: apart_def)

lemma apart_append: "apart a c \<Longrightarrow> (a = c \<Longrightarrow> apart b d) \<Longrightarrow> apart (a @ b) (c @ d)"
  unfolding apart_def using differ_append differ_prefix by metis

lemma lex3_prefix: "lex3 ord_int (p @ a) (p @ c) = lex3 ord_int a c"
  by (induction p) simp_all

lemma lex3_same: "lex3 ord_int a a = OrdEqual"
  using lex3_prefix [of a "[]" "[]"] by simp

lemma ord_int_differs: "x \<noteq> y \<Longrightarrow> ord_int x y \<noteq> OrdEqual"
  by (simp add: ord_int_def)

lemma differ_lex3: "differ a c \<Longrightarrow> lex3 ord_int (a @ b) (c @ d) = lex3 ord_int a c \<and> lex3 ord_int a c \<noteq> OrdEqual"
proof -
  assume "differ a c"
  then obtain p x y a' c' where e: "x \<noteq> y" "a = p @ x # a'" "c = p @ y # c'" unfolding differ_def by blast
  have "lex3 ord_int (x # f) (y # g) = ord_int x y" for f g
    using ord_int_differs [OF e(1)] by (cases "ord_int x y") simp_all
  then show ?thesis using e by (simp add: lex3_prefix ord_int_differs)
qed

lemma agree_then:
  assumes "agree r a c" and "a = c \<Longrightarrow> agree s b d"
  shows "agree (then_ord r s) (a @ b) (c @ d)"
proof (cases "a = c")
  case True
  with assms show ?thesis
    by (simp add: agree_def then_ord_def lex3_same lex3_prefix apart_append)
next
  case False
  with assms(1) have d: "differ a c" and r: "r = Inr (lex3 ord_int a c)" by (auto simp: agree_def apart_def)
  show ?thesis
    using differ_lex3 [OF d, of b d] differ_append [OF d, of b d] by (simp add: agree_def then_ord_def r apart_def)
qed

lemma agree_num: "agree (Inr (ord_int m n)) [m] [n]"
  by (simp add: agree_def ord_int_def)

lemma agree_tag: "(m = n \<Longrightarrow> agree r b d) \<Longrightarrow> agree (then_ord (Inr (ord_int m n)) r) (m # b) (n # d)"
  using agree_then [OF agree_num, of m n r b d] by simp

lemma agree_refl: "agree (Inr OrdEqual) a a"
  by (simp add: agree_def lex3_same)

lemma agree_word: "agree (Inr (ord_int v w)) (key_word v) (key_word w)"
  by (simp add: agree_def key_word_def ord_int_def word_less_nat_alt word_unat_eq_iff)

lemma agree_list:
  assumes "\<And>x y. x \<in> set xs \<Longrightarrow> y \<in> set ys \<Longrightarrow> agree (f x y) (k x) (l y)"
  shows "agree (res_ord_list f xs ys) (key_vec (map k xs)) (key_vec (map l ys))"
  using assms
proof (induction f xs ys rule: res_ord_list.induct)
  case (4 f x xs y ys)
  have "agree (then_ord (f x y) (res_ord_list f xs ys))
      (k x @ key_vec (map k xs)) (l y @ key_vec (map l ys))"
    using 4 by (intro agree_then) auto
  then show ?case
    using agree_tag [of 1 1 "then_ord (f x y) (res_ord_list f xs ys)"]
    by (simp add: key_vec_def then_ord_def ord_int_def)
qed (auto simp: agree_def key_vec_def ord_int_def apart_def lex3_same differI [of _ _ "[]", simplified])

lemma res_ord_list_pure: "res_ord_list (\<lambda>x y. Inr (f x y)) xs ys = Inr (lex3 f xs ys)"
  by (induction f xs ys rule: lex3.induct) (auto simp: then_ord_def split: Ordering.split)

lemma agree_string: "agree (Inr (ord_string s t)) (key_string s) (key_string t)"
proof -
  have "agree (res_ord_list (\<lambda>a b. Inr (ord_int (of_char a :: nat) (of_char b))) s t) (key_string s) (key_string t)"
    unfolding key_string_def by (rule agree_list) (rule agree_num)
  then show ?thesis by (simp add: res_ord_list_pure ord_string_lex3)
qed

lemma agree_simple_path: "agree (Inr (ord_simple_path p q)) (key_simple_path p) (key_simple_path q)"
proof -
  have "agree (res_ord_list (\<lambda>s t. Inr (ord_string s t)) (sp_members p) (sp_members q)) (key_simple_path p) (key_simple_path q)"
    unfolding key_simple_path_def by (rule agree_list) (rule agree_string)
  then show ?thesis by (simp add: res_ord_list_pure ord_simple_path_def ord_thin_vector_lex3)
qed

lemma agree_cons: "agree r b d \<Longrightarrow> agree r (x # b) (x # d)"
  using agree_tag [of x x r b d] by (simp add: then_ord_def ord_int_def)

lemma agree_if_tags: "m \<noteq> n \<Longrightarrow> agree (then_ord (Inr (ord_int m n)) r) (m # b) (n # d)"
  by (rule agree_tag) simp

lemma agree_bool: "agree (Inr (ord_bool a b)) (key_bool a) (key_bool b)"
  by (auto simp: agree_def ord_bool_def key_bool_def ord_int_def)

lemma agree_core_type: "agree (Inr (ord_core_type a b)) [index_of core_types a] [index_of core_types b]"
  unfolding ord_core_type_def by (rule agree_num)

lemma agree_borrow_type:
  "agree r c d \<Longrightarrow> agree (then_ord (Inr (ord_borrow_type a b)) r) (index_of borrow_types a # c) (index_of borrow_types b # d)"
  unfolding ord_borrow_type_def by (rule agree_tag)

lemma key_word_inject: "key_word v = key_word w \<Longrightarrow> v = w"
  by (simp add: key_word_def word_unat_eq_iff)

lemma agree_generic_ref: "agree (Inr (ord_generic_ref g h)) (key_generic_ref g) (key_generic_ref h)"
proof -
  have "agree (then_ord (Inr (ord_int (gr_binding g) (gr_binding h)))
      (Inr (if gr_group g = 2 then ord_string (gr_name g) (gr_name h) else OrdEqual)))
    (key_generic_ref g) (key_generic_ref h)"
    unfolding key_generic_ref_def
    by (intro agree_then agree_word) (auto simp: agree_string agree_refl gr_group_def dest!: key_word_inject)
  then show ?thesis by (auto simp: ord_generic_ref_def then_ord_def Let_def split: if_splits)
qed

text \<open>The comparison of one part of a structure with one of the other.\<close>

definition agrees :: "expr_view \<Rightarrow> 'a ord_op \<Rightarrow> nat list \<Rightarrow> ('a \<Rightarrow> nat list) \<Rightarrow> ('a \<Rightarrow> bool) \<Rightarrow> bool" where
  "agrees ev f a k Q \<longleftrightarrow> (\<forall>u. Q u \<longrightarrow> agree (f ev u) a (k u))"

lemma agreesD: "agrees ev f a k Q \<Longrightarrow> Q u \<Longrightarrow> agree (f ev u) a (k u)"
  by (simp add: agrees_def)

abbreviation ty_agrees :: "expr_view \<Rightarrow> type_ref \<Rightarrow> bool" where
  "ty_agrees ev t \<equiv> agrees ev (ty_ord t) (order_key t) order_key orderly_type"

abbreviation value_agrees :: "expr_view \<Rightarrow> const_generic \<Rightarrow> bool" where
  "value_agrees ev v \<equiv> agrees ev (value_ord v) (value_order_key v) value_order_key orderly_value"

lemmas ty_agreesD = agreesD [where f = "ty_ord t" and a = "order_key t" and k = order_key and Q = orderly_type for t]
lemmas value_agreesD = agreesD [where f = "value_ord v" and a = "value_order_key v" and k = value_order_key and Q = orderly_value for v]

abbreviation params_key :: "ty_params \<Rightarrow> nat list" where
  "params_key p \<equiv> key_path_params (map_path_params order_key value_order_key p)"

abbreviation generic_path_key :: "ty_generic_path \<Rightarrow> nat list" where
  "generic_path_key p \<equiv> key_generic_path (map_generic_path order_key value_order_key p)"

abbreviation path_key :: "ty_path \<Rightarrow> nat list" where
  "path_key p \<equiv> key_path (map_path order_key value_order_key id p)"

abbreviation orderly_params :: "ty_params \<Rightarrow> bool" where
  "orderly_params \<equiv> pred_path_params orderly_type orderly_value"

abbreviation orderly_generic_path :: "ty_generic_path \<Rightarrow> bool" where
  "orderly_generic_path \<equiv> pred_generic_path orderly_type orderly_value"

abbreviation orderly_path :: "ty_path \<Rightarrow> bool" where
  "orderly_path \<equiv> pred_path orderly_type orderly_value (\<lambda>_. True)"

lemma agree_ops:
  "\<forall>x \<in> set xs. agrees ev (f x) (k x) l Q \<Longrightarrow> list_all Q ys \<Longrightarrow>
    agree (ord_ops ev (map f xs) ys) (key_vec (map k xs)) (key_vec (map l ys))"
proof -
  assume a: "\<forall>x \<in> set xs. agrees ev (f x) (k x) l Q" and b: "list_all Q ys"
  have "ord_ops ev (map f xs) ys = res_ord_list (\<lambda>x y. f x ev y) xs ys"
    unfolding ord_ops_def
    by (induction "\<lambda>x y. f x ev y" xs ys rule: res_ord_list.induct) simp_all
  moreover have "agree (f x ev y) (k x) (l y)" if "x \<in> set xs" "y \<in> set ys" for x y
    using a b that by (auto simp: agrees_def list_all_iff)
  ultimately show ?thesis by (auto intro!: agree_list)
qed

lemma agree_path_params:
  assumes "pred_path_params (ty_agrees ev) (value_agrees ev) p" "orderly_params q"
  shows "agree (ord_path_params (map_path_params ty_ord value_ord p) ev q) (params_key p) (params_key q)"
  using assms
  by (cases p; cases q)
    (auto simp: ord_path_params_def key_path_params_def list_all_iff intro!: agree_then agree_ops)

lemma agree_generic_path:
  assumes "pred_generic_path (ty_agrees ev) (value_agrees ev) p" "orderly_generic_path q"
  shows "agree (ord_generic_path (map_generic_path ty_ord value_ord p) ev q) (generic_path_key p) (generic_path_key q)"
  using assms
  by (cases p; cases q) (auto simp: ord_generic_path_def key_generic_path_def intro!: agree_then agree_simple_path agree_path_params)

lemma agree_path:
  assumes "pred_path (ty_agrees ev) (value_agrees ev) (\<lambda>_. True) p" "orderly_path q"
  shows "agree (ord_path (map_path ty_ord value_ord id p) ev q) (path_key p) (path_key q)"
proof -
  note agrees = agree_then agree_generic_path agree_path_params agree_string ty_agreesD
  have t: "agree (then_ord (Inr (ord_int (path_tag p) (path_tag q))) r) (path_key p) (path_key q)"
    if "path_tag p = path_tag q \<Longrightarrow> agree r (tl (path_key p)) (tl (path_key q))" for r
  proof -
    have "path_key s = path_tag s # tl (path_key s)" for s :: ty_path by (cases s) simp_all
    then show ?thesis using agree_tag [OF that] by metis
  qed
  have m: "path_tag (map_path ty_ord value_ord id p) = path_tag p" by (cases p) simp_all
  show ?thesis
    unfolding ord_path_def m
    using assms by (intro t) (cases p; cases q; auto intro!: agrees)
qed

lemma agree_erased_inner:
  assumes "pred_erased_inner (ty_agrees ev) (value_agrees ev) (\<lambda>_. True) i"
    and "pred_erased_inner orderly_type orderly_value (\<lambda>_. True) j"
  shows "agree (ord_erased_inner (map_erased_inner ty_ord value_ord id i) ev j)
    (key_erased_inner (map_erased_inner order_key value_order_key id i)) (key_erased_inner (map_erased_inner order_key value_order_key id j))"
proof -
  have n: "agree (Inr (if n < m then OrdLess else OrdGreater)) (n # b) (m # d)" if "n \<noteq> m" for n m :: nat and b d
    using agree_if_tags [OF that, of "Inr OrdEqual" b d] that by (auto simp: then_ord_def ord_int_def split: if_splits)
  have n_less: "n < m \<Longrightarrow> agree (Inr OrdLess) (n # b) (m # d)"
    and n_greater: "\<not> n < m \<Longrightarrow> n \<noteq> m \<Longrightarrow> agree (Inr OrdGreater) (n # b) (m # d)" for n m :: nat and b d
    using n [of n m b d] by auto
  have t: "agree (then_ord (Inr (ord_int (erased_tag i) (erased_tag j))) r)
      (key_erased_inner (map_erased_inner order_key value_order_key id i)) (key_erased_inner (map_erased_inner order_key value_order_key id j))"
    if "erased_tag i = erased_tag j \<Longrightarrow> agree r (tl (key_erased_inner (map_erased_inner order_key value_order_key id i)))
      (tl (key_erased_inner (map_erased_inner order_key value_order_key id j)))" for r
  proof -
    have "key_erased_inner (map_erased_inner order_key value_order_key id s)
        = erased_tag s # tl (key_erased_inner (map_erased_inner order_key value_order_key id s))" for s :: ty_erased_inner
      by (cases s) simp_all
    then show ?thesis using agree_tag [OF that] by metis
  qed
  have m: "erased_tag (map_erased_inner ty_ord value_ord id i) = erased_tag i" by (cases i) simp_all
  show ?thesis
    unfolding ord_erased_inner_def m
    using assms
    by (intro t) (cases i; cases j; auto intro!: agree_then agree_path agree_path_params agree_word ty_agreesD
      n_less n_greater agree_cons)
qed

lemma agree_array_size:
  assumes "pred_array_size (value_agrees ev) n" "pred_array_size orderly_value k"
  shows "agree (ord_array_size (map_array_size value_ord n) ev k)
    (key_array_size (map_array_size value_order_key n)) (key_array_size (map_array_size value_order_key k))"
proof -
  have "agree (Inr (ord_int m i)) (m # b) (i # d)" if "m \<noteq> i" for m i :: nat and b d
    using agree_if_tags [OF that, of "Inr OrdEqual" b d] that by (simp add: then_ord_def ord_int_def split: if_splits)
  then show ?thesis
    using assms by (cases n; cases k) (auto simp: ord_array_size_def intro!: agree_cons value_agreesD agree_word)
qed

section \<open>The order of types is that of their keys\<close>

lemma orderly_sets:
  "pred_path id id (\<lambda>_. True) (map_path orderly_type orderly_value id p) = orderly_path p"
  "pred_generic_path id id (map_generic_path orderly_type orderly_value g) = orderly_generic_path g"
  "pred_erased_inner id id (\<lambda>_. True) (map_erased_inner orderly_type orderly_value id i)
    = pred_erased_inner orderly_type orderly_value (\<lambda>_. True) i"
  "pred_array_size id (map_array_size orderly_value n) = pred_array_size orderly_value n"
  by (simp_all add: path.pred_map generic_path.pred_map erased_inner.pred_map array_size.pred_map comp_def)

lemma orderly_trait_iff:
  "orderly_trait (map_trait_path orderly_type orderly_value id (TraitPath h p tbs bbs tr)) \<longleftrightarrow>
    \<not> is_elision h \<and> tbs = [] \<and> bbs = [] \<and> orderly_generic_path p"
  by (simp add: orderly_trait_def generic_path.pred_map comp_def option.map_id)

lemma tag_forms:
  "Suc 0 = type_tag u \<longleftrightarrow> (\<exists>i c. u = Ty_Infer i c)"
  "2 = type_tag u \<longleftrightarrow> u = Ty_Diverge"
  "3 = type_tag u \<longleftrightarrow> (\<exists>c. u = Ty_Primitive c)"
  "4 = type_tag u \<longleftrightarrow> (\<exists>p b h. u = Ty_Path p b h)"
  "5 = type_tag u \<longleftrightarrow> (\<exists>g. u = Ty_Generic g)"
  "6 = type_tag u \<longleftrightarrow> (\<exists>tr ms l. u = Ty_TraitObject tr ms l)"
  "7 = type_tag u \<longleftrightarrow> (\<exists>sized trs ls i. u = Ty_ErasedType sized trs ls i)"
  "8 = type_tag u \<longleftrightarrow> (\<exists>t n. u = Ty_Array t n)"
  "9 = type_tag u \<longleftrightarrow> (\<exists>t. u = Ty_Slice t)"
  "10 = type_tag u \<longleftrightarrow> (\<exists>ts. u = Ty_Tuple ts)"
  "11 = type_tag u \<longleftrightarrow> (\<exists>l b t. u = Ty_Borrow l b t)"
  "12 = type_tag u \<longleftrightarrow> (\<exists>b t. u = Ty_Pointer b t)"
  "13 = type_tag u \<longleftrightarrow> (\<exists>p f. u = Ty_NamedFunction p f)"
  "14 = type_tag u \<longleftrightarrow> (\<exists>h us va abi r as. u = Ty_Function h us va abi r as)"
  "15 = type_tag u \<longleftrightarrow> (\<exists>n. u = Ty_Closure n)"
  "16 = type_tag u \<longleftrightarrow> (\<exists>n. u = Ty_Generator n)"
  by (cases u; simp)+

lemma value_tag_forms:
  "Suc 0 = value_tag v \<longleftrightarrow> (\<exists>i. v = CG_Infer i)"
  "2 = value_tag v \<longleftrightarrow> (\<exists>p q e. v = CG_Unevaluated p q e)"
  "3 = value_tag v \<longleftrightarrow> (\<exists>g. v = CG_Generic g)"
  "4 = value_tag v \<longleftrightarrow> (\<exists>l. v = CG_Evaluated l)"
  by (cases v; simp)+

lemma agree_tags_ord:
  "(type_tag t = type_tag u \<Longrightarrow> agree r (tl (order_key t)) (tl (order_key u))) \<Longrightarrow>
    agree (tags_ord t u r) (order_key t) (order_key u)"
proof -
  assume r: "type_tag t = type_tag u \<Longrightarrow> agree r (tl (order_key t)) (tl (order_key u))"
  have "order_key s = type_tag s # tl (order_key s)" for s by (cases s) simp_all
  then show ?thesis unfolding tags_ord_def using agree_tag [OF r] by metis
qed

lemma agree_value_tags:
  "(value_tag v = value_tag x \<Longrightarrow> agree r (tl (value_order_key v)) (tl (value_order_key x))) \<Longrightarrow>
    agree (then_ord (Inr (ord_int (value_tag v) (value_tag x))) r) (value_order_key v) (value_order_key x)"
proof -
  assume r: "value_tag v = value_tag x \<Longrightarrow> agree r (tl (value_order_key v)) (tl (value_order_key x))"
  have "value_order_key s = value_tag s # tl (value_order_key s)" for s by (cases s) simp_all
  then show ?thesis using agree_tag [OF r] by metis
qed

lemma then_ord_equal [simp]: "then_ord r (Inr OrdEqual) = r" "then_ord (Inr OrdEqual) r = r"
  by (cases r; auto simp: then_ord_def)+

lemma then_ord_assoc: "then_ord (then_ord a b) c = then_ord a (then_ord b c)"
  by (cases a) (auto simp: then_ord_def)

lemma lex3_take_min:
  "then_ord (Inr (lex3 f (take (min (length xs) (length ys)) xs) (take (min (length xs) (length ys)) ys)))
    (Inr (ord_int (length xs) (length ys))) = Inr (lex3 f xs ys)"
proof (induction f xs ys rule: lex3.induct)
  case (4 f x xs y ys)
  then show ?case by (cases "f x y") (auto simp: ord_int_def then_ord_def min_def split: if_splits)
qed (simp_all add: then_ord_def ord_int_def)

lemma map_nth_take: "n \<le> length xs \<Longrightarrow> map (\<lambda>i. xs ! i) [0..<n] = take n xs"
  by (rule nth_equalityI) simp_all

lemma slice_all_bytes: "n \<le> length (el_bytes l) \<Longrightarrow> map (slice_byte (slice_all l)) [0..<n] = take n (el_bytes l)"
  by (rule nth_equalityI) (simp_all add: slice_byte_def slice_all_def)

lemma agree_bytes:
  assumes "el_relocations l = []"
  shows "agree (ord_slice (slice_all l) ev (slice_all k)) (key_vec (map key_word (el_bytes l))) (key_vec (map key_word (el_bytes k)))"
proof -
  have r: "agree (res_ord_list (\<lambda>v w. Inr (ord_int v w)) (el_bytes l) (el_bytes k))
      (key_vec (map key_word (el_bytes l))) (key_vec (map key_word (el_bytes k)))"
    by (rule agree_list) (rule agree_word)
  have "ls_size (slice_all l) = length (el_bytes l)" "ls_size (slice_all k) = length (el_bytes k)"
    and "slice_relocs (slice_all l) = []"
    using assms by (simp_all add: slice_all_def slice_relocs_def)
  then have "ord_slice (slice_all l) ev (slice_all k) = Inr (lex3 ord_int (el_bytes l) (el_bytes k))"
    using lex3_take_min [of ord_int "el_bytes l" "el_bytes k"]
    by (simp add: ord_slice_def Let_def ord_vector_lex3 slice_all_bytes)
  with r show ?thesis by (simp add: res_ord_list_pure)
qed

lemma agree_literal:
  assumes "el_relocations l = []"
  shows "agree (ord_slice (slice_all (map_encoded_literal ty_ord value_ord id l)) ev (slice_all k))
    (key_vec (map key_word (el_bytes l))) (key_vec (map key_word (el_bytes k)))"
  using assms agree_bytes [of "map_encoded_literal ty_ord value_ord id l" ev k] by (cases l) simp

lemma agree_cases:
  "(\<And>u. orderly_type u \<Longrightarrow> agree (ty_ord t ev u) (order_key t) (order_key u)) \<Longrightarrow> ty_agrees ev t"
  "(\<And>u. orderly_value u \<Longrightarrow> agree (value_ord v ev u) (value_order_key v) (value_order_key u)) \<Longrightarrow> value_agrees ev v"
  by (simp_all add: agrees_def)

lemma kids_agree:
  "(\<And>t. t \<in> set1_path p \<Longrightarrow> orderly_type t \<longrightarrow> ty_agrees ev t) \<Longrightarrow> (\<And>v. v \<in> set2_path p \<Longrightarrow> orderly_value v \<longrightarrow> value_agrees ev v)
    \<Longrightarrow> orderly_path p \<Longrightarrow> pred_path (ty_agrees ev) (value_agrees ev) (\<lambda>_. True) p"
  "(\<And>t. t \<in> set1_generic_path g \<Longrightarrow> orderly_type t \<longrightarrow> ty_agrees ev t)
    \<Longrightarrow> (\<And>v. v \<in> set2_generic_path g \<Longrightarrow> orderly_value v \<longrightarrow> value_agrees ev v)
    \<Longrightarrow> orderly_generic_path g \<Longrightarrow> pred_generic_path (ty_agrees ev) (value_agrees ev) g"
  "(\<And>t. t \<in> set1_erased_inner i \<Longrightarrow> orderly_type t \<longrightarrow> ty_agrees ev t)
    \<Longrightarrow> (\<And>v. v \<in> set2_erased_inner i \<Longrightarrow> orderly_value v \<longrightarrow> value_agrees ev v)
    \<Longrightarrow> pred_erased_inner orderly_type orderly_value (\<lambda>_. True) i
    \<Longrightarrow> pred_erased_inner (ty_agrees ev) (value_agrees ev) (\<lambda>_. True) i"
  "(\<And>v. v \<in> set_array_size n \<Longrightarrow> orderly_value v \<longrightarrow> value_agrees ev v)
    \<Longrightarrow> pred_array_size orderly_value n \<Longrightarrow> pred_array_size (value_agrees ev) n"
  by (simp_all add: path.pred_set generic_path.pred_set erased_inner.pred_set array_size.pred_set)

lemma keys_agree: "(orderly_type t \<longrightarrow> ty_agrees ev t) \<and> (orderly_value v \<longrightarrow> value_agrees ev v) \<and> (\<lambda>g :: generic_params. True) g"
proof (rule type_ref_const_generic_generic_params.induct, goal_cases)
  case (1 i c) show ?case
    by (intro impI agree_cases, unfold ty_ord.simps, rule agree_tags_ord) (auto simp: tag_forms agree_word)
next
  case 2 show ?case
    by (intro impI agree_cases, unfold ty_ord.simps, rule agree_tags_ord) (auto simp: tag_forms agree_refl)
next
  case (3 c) show ?case
    by (intro impI agree_cases, unfold ty_ord.simps, rule agree_tags_ord) (auto simp: tag_forms agree_core_type)
next
  case (4 p b h) then show ?case
    by (intro impI agree_cases, unfold ty_ord.simps, intro agree_tags_ord)
      (auto simp: tag_forms orderly_sets intro!: agree_path kids_agree)
next
  case (5 g) show ?case
    by (intro impI agree_cases, unfold ty_ord.simps, rule agree_tags_ord) (auto simp: tag_forms agree_word)
next
  case (6 tr ms l) 
  obtain h p tbs bbs tp where tr: "tr = TraitPath h p tbs bbs tp" by (cases tr)
  show ?case
  proof (intro impI agree_cases, unfold ty_ord.simps, intro agree_tags_ord)
    fix u
    assume o: "orderly_type (Ty_TraitObject tr ms l)" "orderly_type u" "type_tag (Ty_TraitObject tr ms l) = type_tag u"
    then obtain ur ns k where u: "u = Ty_TraitObject ur ns k" by (cases u) auto
    obtain h' p' tbs' bbs' tp' where ur: "ur = TraitPath h' p' tbs' bbs' tp'" by (cases ur)
    have "list_all (pred_generic_path (ty_agrees ev) (value_agrees ev)) ms"
      using 6 o(1) by (auto simp: list_all_iff orderly_sets comp_def intro!: kids_agree)
    moreover have "list_all orderly_generic_path ns" using o(2) by (simp add: u list_all_iff orderly_sets comp_def)
    ultimately have "agree (res_ord_list (\<lambda>p. ord_generic_path (map_generic_path ty_ord value_ord p) ev) ms ns)
        (key_vec (map (\<lambda>p. generic_path_key p) ms)) (key_vec (map (\<lambda>p. generic_path_key p) ns))"
      by (intro agree_list agree_generic_path) (simp_all add: list_all_iff)
    moreover have "res_ord_list (\<lambda>p. ord_generic_path p ev) (map (map_generic_path ty_ord value_ord) xs) ns
        = res_ord_list (\<lambda>p. ord_generic_path (map_generic_path ty_ord value_ord p) ev) xs ns" for xs ns
      by (induction "\<lambda>p. ord_generic_path (map_generic_path ty_ord value_ord p) ev" xs ns rule: res_ord_list.induct) simp_all
    moreover have p: "\<not> is_elision h" "tbs = []" "bbs = []" "orderly_generic_path p"
      "\<not> is_elision h'" "tbs' = []" "bbs' = []" "orderly_generic_path p'"
      using o(1,2) unfolding u tr ur orderly_type.simps orderly_trait_iff by simp_all
    moreover have "agree (ord_trait_path (map_trait_path ty_ord value_ord id tr) ev ur) (generic_path_key p) (generic_path_key p')"
      using 6 p by (auto simp: tr ur option.map_id intro!: agree_generic_path kids_agree)
    ultimately show "agree
        (case u of Ty_TraitObject ur ns _ \<Rightarrow>
           then_ord (ord_trait_path (map_trait_path ty_ord value_ord id tr) ev ur)
             (res_ord_list (\<lambda>p. ord_generic_path p ev) (map (map_generic_path ty_ord value_ord) ms) ns)
         | _ \<Rightarrow> Inr OrdEqual)
        (tl (order_key (Ty_TraitObject tr ms l))) (tl (order_key u))"
      by (auto simp: u tr ur comp_def option.map_id intro!: agree_then)
  qed
next
  case (7 sized trs ls i) then show ?case
    by (intro impI agree_cases, unfold ty_ord.simps, intro agree_tags_ord)
      (auto simp: tag_forms orderly_sets intro!: agree_erased_inner kids_agree)
next
  case (8 t n)
  show ?case
  proof (intro impI agree_cases, unfold ty_ord.simps, intro agree_tags_ord)
    fix u
    assume o: "orderly_type (Ty_Array t n)" "orderly_type u" "type_tag (Ty_Array t n) = type_tag u"
    then obtain v k where u: "u = Ty_Array v k" by (cases u) auto
    have "agree (ty_ord t ev v) (order_key t) (order_key v)" using 8 o by (auto simp: u intro: ty_agreesD)
    moreover have "agree (ord_array_size (map_array_size value_ord n) ev k)
        (key_array_size (map_array_size value_order_key n)) (key_array_size (map_array_size value_order_key k))"
    proof (rule agree_array_size)
      show "pred_array_size (value_agrees ev) n"
        by (rule kids_agree(4) [OF 8(2)]) (use o(1) in \<open>simp_all add: orderly_sets\<close>)
      show "pred_array_size orderly_value k" using o(2) by (simp add: u orderly_sets)
    qed
    ultimately show "agree (case u of Ty_Array u k \<Rightarrow> then_ord (ty_ord t ev u) (ord_array_size (map_array_size value_ord n) ev k)
        | _ \<Rightarrow> Inr OrdEqual) (tl (order_key (Ty_Array t n))) (tl (order_key u))"
      by (simp add: u agree_then)
  qed
next
  case (9 t) then show ?case
    by (intro impI agree_cases, unfold ty_ord.simps, intro agree_tags_ord) (auto simp: tag_forms intro!: ty_agreesD)
next
  case (10 ts) then show ?case
    by (intro impI agree_cases, unfold ty_ord.simps, intro agree_tags_ord)
      (auto simp: tag_forms list_all_iff comp_def intro!: agree_ops [where Q = orderly_type])
next
  case (11 l b t) then show ?case
    by (intro impI agree_cases, unfold ty_ord.simps, intro agree_tags_ord)
      (auto simp: tag_forms intro!: agree_borrow_type ty_agreesD)
next
  case (12 b t) then show ?case
    by (intro impI agree_cases, unfold ty_ord.simps, intro agree_tags_ord)
      (auto simp: tag_forms intro!: agree_borrow_type ty_agreesD)
next
  case (13 p f) then show ?case
    by (intro impI agree_cases, unfold ty_ord.simps, intro agree_tags_ord)
      (auto simp: tag_forms orderly_sets intro!: agree_path kids_agree)
next
  case (14 h us va abi r as) then show ?case
    by (intro impI agree_cases, unfold ty_ord.simps, intro agree_tags_ord)
      (auto simp: tag_forms list_all_iff comp_def intro!: agree_then agree_bool agree_string agree_ops [where Q = orderly_type] ty_agreesD)
next
  case (15 n) show ?case
    by (intro impI agree_cases, unfold ty_ord.simps, rule agree_tags_ord) (auto simp: tag_forms agree_num)
next
  case (16 n) show ?case
    by (intro impI agree_cases, unfold ty_ord.simps, rule agree_tags_ord) (auto simp: tag_forms agree_num)
next
  case (17 i) show ?case
    by (intro impI agree_cases, unfold value_ord.simps, rule agree_value_tags) (auto simp: value_tag_forms agree_word)
next
  case (19 g) show ?case
    by (intro impI agree_cases, unfold value_ord.simps, rule agree_value_tags) (auto simp: value_tag_forms agree_generic_ref)
next
  case (20 l) show ?case
    by (intro impI agree_cases, unfold value_ord.simps, intro agree_value_tags)
      (auto simp: value_tag_forms agree_literal)
qed simp_all

lemma type_order:
  assumes "orderly_type t" "orderly_type u"
  shows "ty_ord t ev u = Inr (lex3 ord_int (order_key t) (order_key u))"
  using keys_agree [of t ev] assms by (auto simp: agrees_def agree_def)

lemma value_order:
  assumes "orderly_value v" "orderly_value x"
  shows "value_ord v ev x = Inr (lex3 ord_int (value_order_key v) (value_order_key x))"
  using keys_agree [of _ ev v] assms by (auto simp: agrees_def agree_def)

interpretation key_ord: three_way_eq "lex3 ord_int :: nat list \<Rightarrow> nat list \<Rightarrow> Ordering"
  by (rule int_ord.lex3_three_way_eq)

lemma agree_equal: "agree r a c \<Longrightarrow> is_equal r = Inr (a = c)"
  by (auto simp: agree_def is_equal_def key_ord.equal_iff)

lemma kids_agree_all:
  "orderly_path p \<Longrightarrow> pred_path (ty_agrees ev) (value_agrees ev) (\<lambda>_. True) p"
  "orderly_generic_path g \<Longrightarrow> pred_generic_path (ty_agrees ev) (value_agrees ev) g"
  "pred_erased_inner orderly_type orderly_value (\<lambda>_. True) i \<Longrightarrow> pred_erased_inner (ty_agrees ev) (value_agrees ev) (\<lambda>_. True) i"
  "pred_array_size orderly_value n \<Longrightarrow> pred_array_size (value_agrees ev) n"
  using keys_agree by (simp_all add: path.pred_set generic_path.pred_set erased_inner.pred_set array_size.pred_set)

lemma apart_inject: "apart a c \<Longrightarrow> a @ b = c @ d \<longleftrightarrow> a = c \<and> b = d"
  using differ_lex3 [of a c b d] lex3_same [of "c @ d"] by (auto simp: apart_def)

lemma key_vec_inject:
  assumes "\<And>x y. x \<in> set xs \<Longrightarrow> y \<in> set ys \<Longrightarrow> apart (f x) (f y)"
  shows "key_vec (map f xs) = key_vec (map f ys) \<longleftrightarrow> map f xs = map f ys"
  using assms
proof (induction xs arbitrary: ys)
  case Nil
  show ?case by (cases ys) (simp_all add: key_vec_def)
next
  case (Cons x xs)
  show ?case
  proof (cases ys)
    case ys: (Cons y zs)
    have "apart (f x) (f y)" using Cons.prems ys by simp
    then have "key_vec (map f (x # xs)) = key_vec (map f ys) \<longleftrightarrow> f x = f y \<and> key_vec (map f xs) = key_vec (map f zs)"
      by (simp add: ys key_vec_def apart_inject)
    then show ?thesis using Cons ys by simp
  qed (simp add: key_vec_def)
qed

lemma type_keys_apart: "orderly_type t \<Longrightarrow> orderly_type u \<Longrightarrow> apart (order_key t) (order_key u)"
  using keys_agree [of t undefined] by (auto simp: agrees_def agree_def)

lemma vec_eq_keys:
  assumes "\<And>x y. x \<in> set xs \<Longrightarrow> y \<in> set ys \<Longrightarrow> f x y = Inr (k x = k y)"
  shows "vec_eq f xs ys = Inr (map k xs = map k ys)"
proof -
  have "res_all2 f xs ys = Inr (map k xs = map k ys)"
    using assms by (induction f xs ys rule: res_all2.induct) (auto simp: and_also_def)
  moreover have "map k xs = map k ys \<Longrightarrow> length xs = length ys" using map_eq_imp_length_eq by blast
  ultimately show ?thesis by (auto simp: vec_eq_def)
qed

lemma and_also_pure: "and_also (Inr a) (Inr b) = Inr (a \<and> b)"
  by (simp add: and_also_def)

lemma agree_apart: "agree r a c \<Longrightarrow> apart a c"
  by (simp add: agree_def)

lemma core_index_inject: "index_of core_types c = index_of core_types d \<longleftrightarrow> c = d"
  by (cases c; cases d; simp add: core_types_def)

lemma borrow_index_inject: "index_of borrow_types c = index_of borrow_types d \<longleftrightarrow> c = d"
  by (cases c; cases d; simp add: borrow_types_def)

lemma key_string_inject: "key_string s = key_string t \<longleftrightarrow> s = t"
proof -
  have "is_equal (Inr (ord_string s t)) = Inr (key_string s = key_string t)" by (rule agree_equal [OF agree_string])
  then show ?thesis by (simp add: is_equal_def string_ord.equal_iff)
qed

lemma trait_object_keys:
  assumes "orderly_type (Ty_TraitObject tr ms l)" "orderly_type (Ty_TraitObject ur ns k)"
  shows "is_equal (trait_path_ord tr ev ur) = Inr (generic_path_key (tp_path tr) = generic_path_key (tp_path ur))"
    and "vec_eq (\<lambda>p q. is_equal (generic_path_ord p ev q)) ms ns
      = Inr (map (\<lambda>p. generic_path_key p) ms = map (\<lambda>p. generic_path_key p) ns)"
    and "apart (generic_path_key (tp_path tr)) (generic_path_key (tp_path ur))"
    and "\<And>p q. p \<in> set ms \<Longrightarrow> q \<in> set ns \<Longrightarrow> apart (generic_path_key p) (generic_path_key q)"
proof -
  obtain h p tbs bbs tp where tr: "tr = TraitPath h p tbs bbs tp" by (cases tr)
  obtain h' p' tbs' bbs' tp' where ur: "ur = TraitPath h' p' tbs' bbs' tp'" by (cases ur)
  have e: "\<not> is_elision h" "tbs = []" "bbs = []" "orderly_generic_path p"
      "\<not> is_elision h'" "tbs' = []" "bbs' = []" "orderly_generic_path p'"
    using assms unfolding tr ur orderly_type.simps orderly_trait_iff by simp_all
  then have "agree (trait_path_ord tr ev ur) (generic_path_key p) (generic_path_key p')"
    by (simp add: tr ur trait_path_ord_def option.map_id agree_generic_path kids_agree_all)
  then show "is_equal (trait_path_ord tr ev ur) = Inr (generic_path_key (tp_path tr) = generic_path_key (tp_path ur))"
    and "apart (generic_path_key (tp_path tr)) (generic_path_key (tp_path ur))"
    by (simp_all add: tr ur agree_equal agree_apart)
  have "list_all orderly_generic_path ms" "list_all orderly_generic_path ns"
    using assms by (simp_all add: list_all_iff orderly_sets comp_def)
  then have m: "agree (generic_path_ord p ev q) (generic_path_key p) (generic_path_key q)" if "p \<in> set ms" "q \<in> set ns" for p q
    using that by (simp add: generic_path_ord_def list_all_iff agree_generic_path kids_agree_all)
  then show "vec_eq (\<lambda>p q. is_equal (generic_path_ord p ev q)) ms ns
      = Inr (map (\<lambda>p. generic_path_key p) ms = map (\<lambda>p. generic_path_key p) ns)"
    by (intro vec_eq_keys agree_equal)
  show "\<And>p q. p \<in> set ms \<Longrightarrow> q \<in> set ns \<Longrightarrow> apart (generic_path_key p) (generic_path_key q)"
    using m by (rule agree_apart)
qed

lemma vec_eq_map: "vec_eq f (map g xs) ys = vec_eq (\<lambda>x. f (g x)) xs ys"
proof -
  have "res_all2 f (map g xs) ys = res_all2 (\<lambda>x. f (g x)) xs ys"
    by (induction "\<lambda>x. f (g x)" xs ys rule: res_all2.induct) simp_all
  then show ?thesis by (simp add: vec_eq_def)
qed

lemma tuple_keys:
  assumes "\<And>t u. t \<in> set ts \<Longrightarrow> u \<in> set us \<Longrightarrow> ty_eq t ev u = Inr (order_key t = order_key u)"
    and "list_all orderly_type ts" "list_all orderly_type us"
  shows "vec_eq (\<lambda>f. f ev) (map ty_eq ts) us = Inr (key_vec (map order_key ts) = key_vec (map order_key us))"
proof -
  have "key_vec (map order_key ts) = key_vec (map order_key us) \<longleftrightarrow> map order_key ts = map order_key us"
    using assms(2,3) by (intro key_vec_inject type_keys_apart) (auto simp: list_all_iff)
  moreover have "vec_eq (\<lambda>t. ty_eq t ev) ts us = Inr (map order_key ts = map order_key us)"
    using assms(1) by (rule vec_eq_keys)
  ultimately show ?thesis by (simp add: vec_eq_map)
qed

definition eq_keyed :: "expr_view \<Rightarrow> type_ref \<Rightarrow> bool" where
  "eq_keyed ev t \<longleftrightarrow> orderly_type t \<longrightarrow> (\<forall>u. orderly_type u \<longrightarrow> ty_eq t ev u = Inr (order_key t = order_key u))"

lemma eq_keyedD: "eq_keyed ev t \<Longrightarrow> orderly_type t \<Longrightarrow> orderly_type u \<Longrightarrow> ty_eq t ev u = Inr (order_key t = order_key u)"
  by (simp add: eq_keyed_def)

lemma eq_keyedI:
  "(\<And>u. orderly_type t \<Longrightarrow> orderly_type u \<Longrightarrow> type_tag t = type_tag u \<Longrightarrow> ty_eq t ev u = Inr (order_key t = order_key u))
    \<Longrightarrow> eq_keyed ev t"
proof -
  assume a: "\<And>u. orderly_type t \<Longrightarrow> orderly_type u \<Longrightarrow> type_tag t = type_tag u \<Longrightarrow> ty_eq t ev u = Inr (order_key t = order_key u)"
  have "ty_eq t ev u = Inr (order_key t = order_key u)" if "orderly_type t" "orderly_type u" for u
  proof (cases "type_tag t = type_tag u")
    case False
    then have "ty_eq t ev u = Inr False" by (cases t; cases u) simp_all
    moreover have "order_key s = type_tag s # tl (order_key s)" for s by (cases s) simp_all
    ultimately show ?thesis using False by (metis list.sel(1))
  qed (use a that in blast)
  then show ?thesis by (simp add: eq_keyed_def)
qed

lemma agree_path_ord: "orderly_path p \<Longrightarrow> orderly_path q \<Longrightarrow> agree (path_ord p ev q) (path_key p) (path_key q)"
  by (simp add: path_ord_def agree_path kids_agree_all)

lemma agree_array_ord: "pred_array_size orderly_value n \<Longrightarrow> pred_array_size orderly_value k \<Longrightarrow>
    agree (array_size_ord n ev k) (key_array_size (map_array_size value_order_key n)) (key_array_size (map_array_size value_order_key k))"
  by (simp add: array_size_ord_def agree_array_size kids_agree_all)

lemma agree_inner_ord: "pred_erased_inner orderly_type orderly_value (\<lambda>_. True) i \<Longrightarrow>
    pred_erased_inner orderly_type orderly_value (\<lambda>_. True) j \<Longrightarrow>
    agree (erased_inner_ord i ev j) (key_erased_inner (map_erased_inner order_key value_order_key id i))
      (key_erased_inner (map_erased_inner order_key value_order_key id j))"
  by (simp add: erased_inner_ord_def agree_erased_inner kids_agree_all)

lemma types_eq_keyed: "eq_keyed ev t \<and> (\<lambda>v :: const_generic. True) v \<and> (\<lambda>g :: generic_params. True) g"
proof (rule type_ref_const_generic_generic_params.induct, goal_cases)
  case (1 i c) show ?case by (rule eq_keyedI) (auto simp: tag_forms key_word_def word_unat_eq_iff)
next
  case 2 show ?case by (rule eq_keyedI) (auto simp: tag_forms)
next
  case (3 c) show ?case by (rule eq_keyedI) (auto simp: tag_forms core_index_inject)
next
  case (4 p b h) show ?case by (rule eq_keyedI) (auto simp: tag_forms orderly_sets agree_equal [OF agree_path_ord])
next
  case (5 g) show ?case by (rule eq_keyedI) (auto simp: tag_forms key_word_def word_unat_eq_iff)
next
  case (6 tr ms l)
  show ?case
  proof (rule eq_keyedI)
    fix u
    assume o: "orderly_type (Ty_TraitObject tr ms l)" "orderly_type u" "type_tag (Ty_TraitObject tr ms l) = type_tag u"
    then obtain ur ns k where u: "u = Ty_TraitObject ur ns k" by (cases u) auto
    note k = trait_object_keys [OF o(1) o(2) [unfolded u]]
    have v: "key_vec (map (\<lambda>p. generic_path_key p) ms) = key_vec (map (\<lambda>p. generic_path_key p) ns)
        \<longleftrightarrow> map (\<lambda>p. generic_path_key p) ms = map (\<lambda>p. generic_path_key p) ns"
      by (rule key_vec_inject) (rule k(4))
    have t: "tp_path (map_trait_path order_key value_order_key id x) = map_generic_path order_key value_order_key (tp_path x)" for x :: ty_trait_path
      by (cases x) simp
    have "ty_eq (Ty_TraitObject tr ms l) ev u
        = and_also (is_equal (trait_path_ord tr ev ur)) (vec_eq (\<lambda>p q. is_equal (generic_path_ord p ev q)) ms ns)"
      by (simp add: u)
    then show "ty_eq (Ty_TraitObject tr ms l) ev u = Inr (order_key (Ty_TraitObject tr ms l) = order_key u)"
      unfolding k(1,2) and_also_pure using v by (simp add: u t comp_def apart_inject [OF k(3)])
  qed
next
  case (7 sized trs ls i) show ?case by (rule eq_keyedI) (auto simp: tag_forms orderly_sets agree_equal [OF agree_inner_ord])
next
  case (8 t n)
  show ?case
  proof (rule eq_keyedI)
    fix u
    assume o: "orderly_type (Ty_Array t n)" "orderly_type u" "type_tag (Ty_Array t n) = type_tag u"
    then obtain v k where u: "u = Ty_Array v k" by (cases u) auto
    have "ty_eq t ev v = Inr (order_key t = order_key v)" using 8 o by (auto simp: u intro: eq_keyedD)
    moreover have "is_equal (array_size_ord k ev n)
        = Inr (key_array_size (map_array_size value_order_key k) = key_array_size (map_array_size value_order_key n))"
      using o by (intro agree_equal agree_array_ord) (simp_all add: u orderly_sets)
    moreover have "apart (order_key t) (order_key v)" using o by (simp add: u type_keys_apart)
    ultimately show "ty_eq (Ty_Array t n) ev u = Inr (order_key (Ty_Array t n) = order_key u)"
      by (auto simp: u and_also_pure apart_inject)
  qed
next
  case (9 t) then show ?case by (intro eq_keyedI) (auto simp: tag_forms eq_keyedD)
next
  case (10 ts) then show ?case
    by (intro eq_keyedI) (auto simp: tag_forms list_all_iff comp_def eq_keyedD tuple_keys simp del: map_map)
next
  case (11 l b t) then show ?case by (intro eq_keyedI) (auto simp: tag_forms eq_keyedD borrow_index_inject)
next
  case (12 b t) then show ?case by (intro eq_keyedI) (auto simp: tag_forms eq_keyedD borrow_index_inject)
next
  case (13 p f) show ?case by (rule eq_keyedI) (auto simp: tag_forms orderly_sets agree_equal [OF agree_path_ord])
next
  case (14 h us va abi r as)
  show ?case
  proof (rule eq_keyedI)
    fix u
    assume o: "orderly_type (Ty_Function h us va abi r as)" "orderly_type u" "type_tag (Ty_Function h us va abi r as) = type_tag u"
    then obtain h' vs va' abj s bs where u: "u = Ty_Function h' vs va' abj s bs" by (cases u) auto
    have r: "ty_eq r ev s = Inr (order_key r = order_key s)" using 14 o by (auto simp: u intro: eq_keyedD)
    have a: "vec_eq (\<lambda>f. f ev) (map ty_eq as) bs = Inr (key_vec (map order_key as) = key_vec (map order_key bs))"
      using 14 o by (intro tuple_keys) (auto simp: u list_all_iff comp_def eq_keyedD)
    have ap: "apart (key_vec (map order_key as)) (key_vec (map order_key bs))"
      using o keys_agree by (intro agree_apart [OF agree_ops [where f = ty_ord and ev = ev and Q = orderly_type]])
        (auto simp: u list_all_iff comp_def)
    have "apart (key_string abi) (key_string abj)" by (rule agree_apart [OF agree_string])
    then have "order_key (Ty_Function h us va abi r as) = order_key u \<longleftrightarrow>
        us = vs \<and> abi = abj \<and> key_vec (map order_key as) = key_vec (map order_key bs) \<and> order_key r = order_key s"
      using ap by (simp add: u key_bool_def apart_inject key_string_inject del: map_map)
    then show "ty_eq (Ty_Function h us va abi r as) ev u = Inr (order_key (Ty_Function h us va abi r as) = order_key u)"
      using r a by (auto simp: u and_also_pure)
  qed
next
  case (15 n) show ?case by (rule eq_keyedI) (auto simp: tag_forms)
next
  case (16 n) show ?case by (rule eq_keyedI) (auto simp: tag_forms)
qed simp_all

lemma type_equality: "orderly_type t \<Longrightarrow> orderly_type u \<Longrightarrow> ty_eq t ev u = Inr (order_key t = order_key u)"
  using types_eq_keyed by (blast intro: eq_keyedD)

end
