(* ===== verification/Impl_Index.thy ===== *)
theory Impl_Index
  imports Impl_Match Ty_Keys
begin

text \<open>
  The groups of impls as an index: sorting and merging keep the impls and file each under the path of its type, and a
  search that looks only at the lists for a type finds what a search through all impls would find.
\<close>

section \<open>Maps by path\<close>

interpretation path_ord: three_way_eq ord_simple_path
proof -
  have o: "ord_simple_path = (\<lambda>p q. lex3 ord_string (sp_members p) (sp_members q))"
    by (simp add: fun_eq_iff ord_simple_path_def ord_thin_vector_lex3)
  note l = string_ord.lex3_three_way_eq
  note t = three_way_eq.axioms(1) [OF l]
  show "three_way_eq ord_simple_path"
    unfolding o
    by unfold_locales
      (auto simp: simple_path.expand intro: three_way.cmp_flip [OF t] three_way.equal_cong [OF t] three_way.less_trans [OF t]
        dest: three_way_eq.equal_imp_eq [OF l])
qed

lemma simple_path_eq_iff [simp]: "simple_path_eq p q \<longleftrightarrow> p = q"
  by (simp add: simple_path_eq_def path_ord.equal_iff)

definition path_less :: "simple_path \<Rightarrow> simple_path \<Rightarrow> bool" where
  "path_less p q \<longleftrightarrow> ord_simple_path p q = OrdLess"

lemma path_less_irrefl [simp]: "\<not> path_less p p"
  by (simp add: path_less_def)

lemma path_less_trans: "path_less p q \<Longrightarrow> path_less q r \<Longrightarrow> path_less p r"
  by (simp add: path_less_def path_ord.less_trans)

text \<open>The entries of a \<open>std::map\<close>: keys in order.\<close>

abbreviation is_map :: "(simple_path \<times> 'a) list \<Rightarrow> bool" where
  "is_map es \<equiv> sorted_wrt path_less (map fst es)"

lemma path_find_in: "path_find es p = Some x \<Longrightarrow> (p, x) \<in> set es"
  by (induction es p rule: path_find.induct) (auto split: if_splits)

lemma path_find_none: "path_find es p = None \<longleftrightarrow> p \<notin> fst ` set es"
  by (induction es p rule: path_find.induct) auto

lemma path_find_map: "is_map es \<Longrightarrow> path_find es p = Some x \<longleftrightarrow> (p, x) \<in> set es"
  by (induction es p rule: path_find.induct) (auto simp: path_less_def dest: path_find_in)

lemma map_at_keys: "fst ` set (map_at p d f es) = insert p (fst ` set es)"
proof (induction es)
  case (Cons e es)
  obtain q x where e: "e = (q, x)" by (cases e)
  show ?case
    using Cons by (cases "ord_simple_path q p") (simp_all add: e path_ord.equal_iff insert_commute)
qed simp

lemma map_at_is_map: "is_map es \<Longrightarrow> is_map (map_at p d f es)"
proof (induction es)
  case (Cons e es)
  obtain q x where e: "e = (q, x)" by (cases e)
  show ?case
  proof (cases "ord_simple_path q p")
    case OrdLess
    then have "\<forall>k \<in> fst ` set (map_at p d f es). path_less q k"
      using Cons.prems unfolding map_at_keys by (auto simp: e path_less_def)
    then show ?thesis using Cons OrdLess by (simp add: e)
  next
    case OrdEqual
    then show ?thesis using Cons.prems by (simp add: e)
  next
    case OrdGreater
    then have "path_less p q" by (simp add: path_less_def path_ord.greater_iff)
    then show ?thesis using Cons.prems OrdGreater by (auto simp: e intro: path_less_trans)
  qed
qed simp

lemma find_map_at:
  "is_map es \<Longrightarrow> path_find (map_at p d f es) q
    = (if q = p then Some (f (case path_find es p of Some x \<Rightarrow> x | None \<Rightarrow> d)) else path_find es q)"
proof (induction es)
  case (Cons e es)
  obtain k x where e: "e = (k, x)" by (cases e)
  show ?case
  proof (cases "ord_simple_path k p")
    case OrdGreater
    then have "path_less p k" by (simp add: path_less_def path_ord.greater_iff)
    then have "p \<notin> fst ` set (e # es)" using Cons.prems path_less_trans by (force simp: e)
    then have "path_find (e # es) p = None" unfolding path_find_none .
    then show ?thesis using OrdGreater by (simp add: e)
  qed (use Cons in \<open>auto simp: e path_ord.equal_iff\<close>)
qed auto

lemma map_at_entries:
  assumes "is_map es"
  shows "set (map_at p d f es)
    = {(q, x) \<in> set es. q \<noteq> p} \<union> {(p, f (case path_find es p of Some x \<Rightarrow> x | None \<Rightarrow> d))}"
proof -
  have "(q, x) \<in> set (map_at p d f es) \<longleftrightarrow> path_find (map_at p d f es) q = Some x" for q x
    using path_find_map [OF map_at_is_map [OF assms]] by blast
  then have "(q, x) \<in> set (map_at p d f es) \<longleftrightarrow>
      (if q = p then f (case path_find es p of Some x \<Rightarrow> x | None \<Rightarrow> d) = x else (q, x) \<in> set es)" for q x
    using path_find_map [OF assms, of q x] find_map_at [OF assms, of p d f q] by simp
  then have "(q, x) \<in> set (map_at p d f es) \<longleftrightarrow>
      (q, x) \<in> {(q, x) \<in> set es. q \<noteq> p} \<union> {(p, f (case path_find es p of Some x \<Rightarrow> x | None \<Rightarrow> d))}" for q x
    by (cases "q = p") auto
  then show ?thesis by auto
qed

section \<open>What a group holds\<close>

definition map_holds :: "(simple_path \<times> 'i list) list \<Rightarrow> 'i set" where
  "map_holds es = (\<Union>e \<in> set es. set (snd e))"

lemma map_holds_iff: "i \<in> map_holds es \<longleftrightarrow> (\<exists>q ys. (q, ys) \<in> set es \<and> i \<in> set ys)"
  by (force simp: map_holds_def)

definition group_set :: "'i impl_group \<Rightarrow> 'i set" where
  "group_set g = map_holds (ig_named g) \<union> set (ig_non_named g) \<union> set (ig_generic g)"

text \<open>
  Every impl with a path is filed under the path of its type; what is neither a path nor a parameter is in the list for
  types without a name.
\<close>

definition filed :: "('i \<Rightarrow> type_ref) \<Rightarrow> 'i impl_group \<Rightarrow> bool" where
  "filed ty_of g \<longleftrightarrow> is_map (ig_named g)
     \<and> (\<forall>(p, is) \<in> set (ig_named g). \<forall>i \<in> set is. get_sort_path (ty_of i) = Some p)
     \<and> (\<forall>i \<in> set (ig_non_named g). get_sort_path (ty_of i) = None \<and> \<not> stays_generic (ty_of i))"

lemma path_push_entries:
  "is_map es \<Longrightarrow> set (path_push p xs es)
    = {(q, ys) \<in> set es. q \<noteq> p} \<union> {(p, (case path_find es p of Some ys \<Rightarrow> ys | None \<Rightarrow> []) @ xs)}"
  unfolding path_push_def by (rule map_at_entries)

lemma path_push_holds:
  assumes "is_map es"
  shows "map_holds (path_push p xs es) = map_holds es \<union> set xs"
proof -
  define old where "old = (case path_find es p of Some ys \<Rightarrow> ys | None \<Rightarrow> [])"
  have mine: "(q, ys) \<in> set es \<longleftrightarrow> path_find es q = Some ys" for q ys
    by (rule path_find_map [OF assms, symmetric])
  have old: "set old = (\<Union>e \<in> {(q, ys) \<in> set es. q = p}. set (snd e))"
  proof (rule set_eqI)
    fix i
    have "i \<in> (\<Union>e \<in> {(q, ys) \<in> set es. q = p}. set (snd e)) \<longleftrightarrow> (\<exists>ys. path_find es p = Some ys \<and> i \<in> set ys)"
      using mine [of p] by fastforce
    then show "i \<in> set old \<longleftrightarrow> i \<in> (\<Union>e \<in> {(q, ys) \<in> set es. q = p}. set (snd e))"
      by (cases "path_find es p") (simp_all add: old_def)
  qed
  have "map_holds (path_push p xs es) = (\<Union>e \<in> {(q, ys) \<in> set es. q \<noteq> p}. set (snd e)) \<union> (set old \<union> set xs)"
    unfolding map_holds_def path_push_entries [OF assms] old_def by auto
  also have "\<dots> = (\<Union>e \<in> {(q, ys) \<in> set es. q \<noteq> p} \<union> {(q, ys) \<in> set es. q = p}. set (snd e)) \<union> set xs"
    unfolding old by blast
  also have "{(q, ys) \<in> set es. q \<noteq> p} \<union> {(q, ys) \<in> set es. q = p} = set es" by blast
  finally show ?thesis by (simp add: map_holds_def)
qed

lemma path_push_filed:
  assumes "is_map es" "\<forall>(q, ys) \<in> set es. \<forall>i \<in> set ys. P q i" "\<forall>i \<in> set xs. P p i"
  shows "\<forall>(q, ys) \<in> set (path_push p xs es). \<forall>i \<in> set ys. P q i"
proof -
  have "\<forall>i \<in> set (case path_find es p of Some ys \<Rightarrow> ys | None \<Rightarrow> []). P p i"
    using assms(2) path_find_in [of es p] by (cases "path_find es p") fastforce+
  then show ?thesis using assms(2,3) by (auto simp: path_push_entries [OF assms(1)])
qed

lemma path_push_is_map: "is_map es \<Longrightarrow> is_map (path_push p xs es)"
  unfolding path_push_def by (rule map_at_is_map)

lemma sort_impls_from_filed:
  "filed ty_of g \<Longrightarrow> filed ty_of (sort_impls_from ty_of is g) \<and> group_set (sort_impls_from ty_of is g) = group_set g \<union> set is"
proof (induction ty_of "is" g rule: sort_impls_from.induct)
  case (2 ty_of i "is" g)
  have m: "is_map (ig_named g)" using 2(2) by (simp add: filed_def)
  define g' where "g' = (case get_sort_path (ty_of i) of
       Some p \<Rightarrow> g\<lparr>ig_named := path_push p [i] (ig_named g)\<rparr>
     | None \<Rightarrow> if stays_generic (ty_of i) then g\<lparr>ig_generic := ig_generic g @ [i]\<rparr>
               else g\<lparr>ig_non_named := ig_non_named g @ [i]\<rparr>)"
  have "filed ty_of g' \<and> group_set g' = insert i (group_set g)"
  proof (cases "get_sort_path (ty_of i)")
    case None
    then show ?thesis using 2(2) by (simp add: g'_def filed_def group_set_def)
  next
    case (Some p)
    have "\<forall>(q, ys) \<in> set (ig_named g). \<forall>i \<in> set ys. get_sort_path (ty_of i) = Some q"
      using 2(2) by (simp add: filed_def)
    from path_push_filed [OF m this, of "[i]" p] show ?thesis
      using 2(2) path_push_holds [OF m] path_push_is_map [OF m]
      by (simp add: g'_def Some filed_def group_set_def)
  qed
  then show ?case using 2(1) by (simp add: g'_def)
qed simp

lemma sort_impl_group_filed:
  assumes "filed ty_of g"
  shows "filed ty_of (sort_impl_group ty_of g) \<and> group_set (sort_impl_group ty_of g) = group_set g"
proof -
  have "filed ty_of (g\<lparr>ig_generic := []\<rparr>)" using assms by (simp add: filed_def)
  from sort_impls_from_filed [OF this, of "ig_generic g"] show ?thesis
    by (auto simp: sort_impl_group_def group_set_def)
qed

lemma push_named_filed:
  assumes "is_map m" "\<forall>(q, ys) \<in> set m. \<forall>i \<in> set ys. P q i" "\<forall>(q, ys) \<in> set es. \<forall>i \<in> set ys. P q i"
  shows "is_map (foldl (\<lambda>m (p, is). path_push p is m) m es)
    \<and> (\<forall>(q, ys) \<in> set (foldl (\<lambda>m (p, is). path_push p is m) m es). \<forall>i \<in> set ys. P q i)
    \<and> map_holds (foldl (\<lambda>m (p, is). path_push p is m) m es) = map_holds m \<union> map_holds es"
  using assms
proof (induction es arbitrary: m)
  case (Cons e es)
  obtain p xs where e: "e = (p, xs)" by (cases e)
  have m: "is_map (path_push p xs m)" by (rule path_push_is_map [OF Cons.prems(1)])
  have f: "\<forall>(q, ys) \<in> set (path_push p xs m). \<forall>i \<in> set ys. P q i"
    by (rule path_push_filed [OF Cons.prems(1,2)]) (use Cons.prems(3) in \<open>simp add: e\<close>)
  have "\<forall>(q, ys) \<in> set es. \<forall>i \<in> set ys. P q i" using Cons.prems(3) by simp
  from Cons.IH [OF m f this] show ?case
    using path_push_holds [OF Cons.prems(1), of p xs] by (simp add: e Un_assoc map_holds_def)
qed (simp add: map_holds_def)

lemma push_index_impl_group_filed:
  assumes "filed ty_of d" "filed ty_of g"
  shows "filed ty_of (push_index_impl_group d g) \<and> group_set (push_index_impl_group d g) = group_set d \<union> group_set g"
proof -
  have "is_map (ig_named d)" "\<forall>(q, ys) \<in> set (ig_named d). \<forall>i \<in> set ys. get_sort_path (ty_of i) = Some q"
    "\<forall>(q, ys) \<in> set (ig_named g). \<forall>i \<in> set ys. get_sort_path (ty_of i) = Some q"
    using assms by (simp_all add: filed_def)
  from push_named_filed [OF this] show ?thesis
    using assms by (auto simp: push_index_impl_group_def filed_def group_set_def)
qed

section \<open>Types that are filed elsewhere do not match\<close>

text \<open>A type to look up is known, and the type of an impl is not left open by resolution.\<close>

definition searchable :: "resolver \<Rightarrow> type_ref \<Rightarrow> bool" where
  "searchable rs ty = (case ty of
     Ty_Infer _ _ \<Rightarrow> False
   | Ty_Path _ b _ \<Rightarrow> b \<noteq> TPB_Unbound
   | Ty_Generic g \<Rightarrow> gr_group g \<noteq> 2 \<and> rs_type rs ty = ty
   | _ \<Rightarrow> True)"

definition impl_type_ok :: "type_ref \<Rightarrow> bool" where
  "impl_type_ok t = (case t of
     Ty_Infer _ _ \<Rightarrow> False
   | Ty_Path (Path_Generic _) b _ \<Rightarrow> b \<noteq> TPB_Unbound \<and> b \<noteq> TPB_Opaque
   | _ \<Rightarrow> True)"

lemma cmp_type_head:
  assumes "\<not> is_infer t" "\<nexists>g. t = Ty_Generic g" "searchable (mc_resolve cx) ty"
  shows "cmp_type (Suc n) cx t ty s =
    (if type_tag t \<noteq> type_tag ty then Inr (tag_mismatch t ty, s) else cmp_same_form cx (cmp_type n cx) t ty s)"
proof -
  have "(if is_infer ty \<or> (case ty of Ty_Generic _ \<Rightarrow> True | _ \<Rightarrow> False) then rs_type (mc_resolve cx) ty else ty) = ty"
    using assms(3) by (cases ty) (simp_all add: searchable_def)
  moreover have "infer_right t ty = None"
    using assms(3) by (cases ty) (simp_all add: searchable_def infer_right_def)
  ultimately show ?thesis
    using assms(1,2) by (cases t) (simp_all add: cmp_resolved_def step_ret_def)
qed

lemma other_path_unequal:
  assumes t: "impl_type_ok t" "\<not> stays_generic t" and ty: "searchable (mc_resolve cx) ty"
    and "get_sort_path t \<noteq> get_sort_path ty"
  shows "cmp_type (Suc n) cx t ty s = Inr (Cmp_Unequal, s)"
proof -
  have i: "\<not> is_infer t" "\<nexists>g. t = Ty_Generic g"
    using t by (cases t; simp add: impl_type_ok_def stays_generic_def get_sort_path_def)+
  have b: "\<not> is_opaque_path t" "\<not> is_unbound_path t"
    using t by (cases t; auto simp: impl_type_ok_def stays_generic_def get_sort_path_def is_opaque_path_def
      is_unbound_path_def split: path.splits)+
  have x: "\<not> is_unbound_path ty" "\<not> is_placeholder ty"
    using ty by (cases ty; simp add: searchable_def is_unbound_path_def is_placeholder_def)+
  show ?thesis
  proof (cases "type_tag t = type_tag ty")
    case False
    then show ?thesis using cmp_type_head [OF i ty] b x by (simp add: tag_mismatch_def)
  next
    case True
    have "cmp_same_form cx c t ty s = Inr (Cmp_Unequal, s)" for c
    proof (cases t)
      case (Ty_Path p b h)
      then obtain q d k where u: "ty = Ty_Path q d k" using True by (cases ty) auto
      obtain g where g: "p = Path_Generic g"
        using t(2) Ty_Path by (cases p) (auto simp: stays_generic_def get_sort_path_def)
      have "cmp_path cx c p q s = Inr (Cmp_Unequal, s)"
        using assms(4) by (cases q) (simp_all add: cmp_path_def g Ty_Path u get_sort_path_def step_ret_def)
      then show ?thesis
        using b x by (simp add: Ty_Path u cmp_same_form_def step_bind_def step_ret_def is_opaque_path_def is_unbound_path_def)
    next
      case (Ty_TraitObject tr ms l)
      then obtain ur ns k where u: "ty = Ty_TraitObject ur ns k" using True by (cases ty) auto
      then show ?thesis
        using assms(4) by (simp add: Ty_TraitObject cmp_same_form_def match_trait_object_def get_sort_path_def step_ret_def)
    qed (use True assms(4) in \<open>cases ty; simp add: get_sort_path_def\<close>)+
    then show ?thesis using cmp_type_head [OF i ty] True by simp
  qed
qed

section \<open>A search of a group looks at all its impls\<close>

definition group_list :: "'i impl_group \<Rightarrow> 'i list" where
  "group_list g = concat (map snd (ig_named g)) @ ig_non_named g @ ig_generic g"

lemma group_list_set: "set (group_list g) = group_set g"
  by (auto simp: group_list_def group_set_def map_holds_def)

lemma or_else_simps [simp]:
  "or_else (step_ret False) a = a" "or_else a (step_ret False) = a" "or_else (or_else a b) c = or_else a (or_else b c)"
proof -
  show "or_else (step_ret False) a = a" by (simp add: or_else_def step_bind_def step_ret_def fun_eq_iff)
  show "or_else a (step_ret False) = a"
  proof
    fix s show "or_else a (step_ret False) s = a s"
      by (cases "a s") (auto simp: or_else_def step_bind_def step_ret_def)
  qed
  show "or_else (or_else a b) c = or_else a (or_else b c)"
  proof
    fix s show "or_else (or_else a b) c s = or_else a (or_else b c) s"
      by (cases "a s") (auto simp: or_else_def step_bind_def step_ret_def)
  qed
qed

lemma find_impls_list_append:
  "find_impls_list f cb (xs @ ys) = or_else (find_impls_list f cb xs) (find_impls_list f cb ys)"
proof (induction xs)
  case (Cons x xs)
  show ?case
  proof
    fix s
    show "find_impls_list f cb ((x # xs) @ ys) s = or_else (find_impls_list f cb (x # xs)) (find_impls_list f cb ys) s"
    proof (cases "f x")
      case (Inr m)
      then show ?thesis
        by (cases m; cases "cb x s") (auto simp: Cons step_lift_def or_else_def step_bind_def step_ret_def)
    qed (simp add: step_lift_def or_else_def step_bind_def)
  qed
qed simp

lemma find_impls_list_none: "\<forall>i \<in> set is. f i = Inr False \<Longrightarrow> find_impls_list f cb is = step_ret False"
  by (induction "is") (auto simp: step_lift_def)

lemma find_named:
  assumes "is_map es" "\<forall>(q, is) \<in> set es. q \<noteq> p \<longrightarrow> (\<forall>i \<in> set is. f i = Inr False)"
  shows "find_impls_list f cb (concat (map snd es))
    = (case path_find es p of Some is \<Rightarrow> find_impls_list f cb is | None \<Rightarrow> step_ret False)"
  using assms
proof (induction es)
  case (Cons e es)
  obtain q "is" where e: "e = (q, is)" by (cases e)
  show ?case
  proof (cases "q = p")
    case True
    then have "p \<notin> fst ` set es" using Cons.prems(1) by (auto simp: e)
    then have "path_find es p = None" unfolding path_find_none .
    then show ?thesis using Cons True by (simp add: e find_impls_list_append)
  next
    case False
    then show ?thesis using Cons by (simp add: e find_impls_list_append find_impls_list_none)
  qed
qed simp

lemma find_in_group_all:
  assumes g: "filed ty_of g" and "\<not> is_infer_not_lit ty"
    and skip: "\<And>i. i \<in> group_set g \<Longrightarrow> \<not> stays_generic (ty_of i) \<Longrightarrow> get_sort_path (ty_of i) \<noteq> get_sort_path ty \<Longrightarrow> f i = Inr False"
  shows "find_in_group sa f cb ty g = find_impls_list f cb (group_list g)"
proof -
  have named: "f i = Inr False" if "(q, is) \<in> set (ig_named g)" "i \<in> set is" "get_sort_path ty \<noteq> Some q" for q "is" i
  proof -
    have "get_sort_path (ty_of i) = Some q" using g that by (auto simp: filed_def)
    then show ?thesis
      using skip [of i] that by (auto simp: stays_generic_def group_set_def map_holds_iff)
  qed
  show ?thesis
  proof (cases "get_sort_path ty")
    case None
    have "find_impls_list f cb (concat (map snd (ig_named g))) = step_ret False"
      using named by (intro find_impls_list_none) (auto simp: None)
    then show ?thesis
      using assms(2) by (simp add: find_in_group_def get_list_for_type_def None group_list_def find_impls_list_append)
  next
    case (Some p)
    have "find_impls_list f cb (ig_non_named g) = step_ret False"
      using g skip by (intro find_impls_list_none) (auto simp: Some filed_def group_set_def)
    moreover have "find_impls_list f cb (concat (map snd (ig_named g)))
        = (case path_find (ig_named g) p of Some is \<Rightarrow> find_impls_list f cb is | None \<Rightarrow> step_ret False)"
      using g named by (intro find_named) (auto simp: Some filed_def)
    ultimately show ?thesis
      using assms(2) by (simp add: find_in_group_def get_list_for_type_def Some group_list_def find_impls_list_append)
  qed
qed

section \<open>Maps of groups\<close>

definition group_at :: "(simple_path \<times> 'i impl_group) list \<Rightarrow> simple_path \<Rightarrow> 'i set" where
  "group_at m p = (case path_find m p of Some g \<Rightarrow> group_set g | None \<Rightarrow> {})"

definition filed_map :: "('i \<Rightarrow> type_ref) \<Rightarrow> (simple_path \<times> 'i impl_group) list \<Rightarrow> bool" where
  "filed_map ty_of m \<longleftrightarrow> is_map m \<and> (\<forall>(p, g) \<in> set m. filed ty_of g)"

lemma filed_empty: "filed ty_of empty_group" "group_set empty_group = {}"
  by (simp_all add: filed_def empty_group_def group_set_def map_holds_def)

lemma filed_mapD: "filed_map ty_of m \<Longrightarrow> path_find m p = Some g \<Longrightarrow> filed ty_of g"
  by (auto simp: filed_map_def dest!: path_find_in)

lemma index_push_filed:
  assumes "filed_map ty_of m" "filed ty_of g"
  shows "filed_map ty_of (index_push p g m)"
    and "group_at (index_push p g m) q = group_at m q \<union> (if q = p then group_set g else {})"
    and "index_push p g m \<noteq> []"
proof -
  let ?d = "case path_find m p of Some x \<Rightarrow> x | None \<Rightarrow> empty_group"
  have m: "is_map m" using assms(1) by (simp add: filed_map_def)
  have "filed ty_of ?d" using filed_mapD [OF assms(1)] filed_empty by (cases "path_find m p") simp_all
  note d = push_index_impl_group_filed [OF this assms(2)]
  have "\<forall>(q, x) \<in> set (index_push p g m). filed ty_of x"
    using assms(1) d unfolding index_push_def map_at_entries [OF m] filed_map_def by auto
  then show "filed_map ty_of (index_push p g m)"
    using map_at_is_map [OF m] by (simp add: filed_map_def index_push_def)
  have "group_set ?d = group_at m p" using filed_empty by (cases "path_find m p") (simp_all add: group_at_def)
  then show "group_at (index_push p g m) q = group_at m q \<union> (if q = p then group_set g else {})"
    using d by (simp add: group_at_def index_push_def find_map_at [OF m])
  show "index_push p g m \<noteq> []"
    using map_at_keys [of p empty_group "\<lambda>d. push_index_impl_group d g" m] by (auto simp: index_push_def)
qed

text \<open>One crate, then all crates.\<close>

definition index_push_all :: "(simple_path \<times> 'i impl_group) list \<Rightarrow> (simple_path \<times> 'i impl_group) list
    \<Rightarrow> (simple_path \<times> 'i impl_group) list" where
  "index_push_all m es = foldl (\<lambda>m (p, g). index_push p g m) m es"

lemma group_at_Cons: "p \<notin> fst ` set es \<Longrightarrow> group_at ((p, g) # es) q = group_at es q \<union> (if q = p then group_set g else {})"
  using path_find_none [of es p] by (auto simp: group_at_def)

lemma index_push_all_filed:
  assumes "filed_map ty_of m" "filed_map ty_of es"
  shows "filed_map ty_of (index_push_all m es) \<and> group_at (index_push_all m es) q = group_at m q \<union> group_at es q
    \<and> (index_push_all m es = [] \<longleftrightarrow> m = [] \<and> es = [])"
  using assms
proof (induction es arbitrary: m)
  case (Cons e es)
  obtain p g where e: "e = (p, g)" by (cases e)
  have g: "filed ty_of g" and es: "filed_map ty_of es" and p: "p \<notin> fst ` set es"
    using Cons.prems(2) by (auto simp: e filed_map_def)
  note i = index_push_filed [OF Cons.prems(1) g]
  show ?case
    using Cons.IH [OF i(1) es] i(2,3) group_at_Cons [OF p, of g q] by (auto simp: e index_push_all_def)
qed (simp add: index_push_all_def group_at_def)

lemma index_all_crates_filed:
  assumes "filed_map ty_of m" "\<forall>es \<in> set cs. filed_map ty_of es"
  shows "filed_map ty_of (foldl index_push_all m cs)
    \<and> group_at (foldl index_push_all m cs) q = group_at m q \<union> (\<Union>es \<in> set cs. group_at es q)
    \<and> (foldl index_push_all m cs = [] \<longleftrightarrow> m = [] \<and> (\<forall>es \<in> set cs. es = []))"
  using assms
proof (induction cs arbitrary: m)
  case (Cons es cs)
  note i = index_push_all_filed [OF Cons.prems(1), of es]
  have "filed_map ty_of es" using Cons.prems(2) by simp
  with Cons.IH [of "index_push_all m es"] i Cons.prems(2) show ?case by (simp add: Un_assoc)
qed simp

section \<open>The impls a search finds\<close>

text \<open>A callback that goes through all the impls it is offered.\<close>

definition collect :: "'i \<Rightarrow> ('i list, bool) step" where
  "collect i found = Inr (False, found @ [i])"

lemma find_impls_list_collect:
  "\<forall>i \<in> set is. \<not> isl (f i) \<Longrightarrow> find_impls_list f collect is s = Inr (False, s @ filter (\<lambda>i. f i = Inr True) is)"
proof (induction "is" arbitrary: s)
  case (Cons i "is")
  then obtain m where "f i = Inr m" by (cases "f i") auto
  then show ?case using Cons by (cases m) (auto simp: step_lift_def step_bind_def collect_def)
qed (simp add: step_ret_def)

lemma find_in_group_collect:
  assumes "filed ty_of g" "\<not> is_infer_not_lit ty" "\<forall>i \<in> group_set g. \<not> isl (f i)"
    and "\<And>i. i \<in> group_set g \<Longrightarrow> \<not> stays_generic (ty_of i) \<Longrightarrow> get_sort_path (ty_of i) \<noteq> get_sort_path ty \<Longrightarrow> f i = Inr False"
  shows "\<exists>found. find_in_group sa f collect ty g [] = Inr (False, found) \<and> set found = {i \<in> group_set g. f i = Inr True}"
proof -
  have "find_in_group sa f collect ty g = find_impls_list f collect (group_list g)"
    using assms(1,2,4) by (rule find_in_group_all)
  moreover have "find_impls_list f collect (group_list g) [] = Inr (False, [] @ filter (\<lambda>i. f i = Inr True) (group_list g))"
    using assms(3) by (intro find_impls_list_collect) (simp add: group_list_set)
  ultimately show ?thesis by (auto simp: group_list_set)
qed

section \<open>Crates\<close>

text \<open>What is asked of the tables of a crate, and the impls of a trait in all crates.\<close>

definition trait_impls_of :: "hir_crate \<Rightarrow> simple_path \<Rightarrow> trait_impl set" where
  "trait_impls_of c = group_at (cr_trait_impls c)"

definition searchable_crate :: "hir_crate \<Rightarrow> bool" where
  "searchable_crate c \<longleftrightarrow> filed_map tim_type (cr_trait_impls c) \<and> filed ti_type (cr_type_impls c)
     \<and> filed_map mi_type (cr_marker_impls c)"

lemma sort_map_filed:
  assumes "filed_map ty_of m"
  shows "filed_map ty_of (map (\<lambda>(p, g). (p, sort_impl_group ty_of g)) m)
    \<and> group_at (map (\<lambda>(p, g). (p, sort_impl_group ty_of g)) m) q = group_at m q"
proof -
  let ?m = "map (\<lambda>(p, g). (p, sort_impl_group ty_of g)) m"
  have "map fst ?m = map fst m" by (induction m) auto
  then have "is_map ?m" using assms by (simp only: filed_map_def)
  moreover have "\<forall>(p, x) \<in> set ?m. filed ty_of x"
    using assms sort_impl_group_filed by (fastforce simp: filed_map_def)
  moreover have "path_find ?m q = map_option (sort_impl_group ty_of) (path_find m q)"
    by (induction m q rule: path_find.induct) auto
  moreover have "group_set (sort_impl_group ty_of g) = group_set g" if "path_find m q = Some g" for g
    using filed_mapD [OF assms that] sort_impl_group_filed by blast
  ultimately show ?thesis
    unfolding filed_map_def group_at_def by (cases "path_find m q") simp_all
qed

lemma sort_impls_index:
  assumes "\<forall>k \<in> set (c # exts). searchable_crate k" "sort_impls c exts = (c', ix)"
  shows "filed_map tim_type (ix_trait_impls ix)"
    and "group_at (ix_trait_impls ix) q = (\<Union>k \<in> set (c # exts). trait_impls_of k q)"
    and "ix_trait_impls ix = [] \<Longrightarrow> k \<in> set (c' # exts) \<Longrightarrow> cr_trait_impls k = []"
proof -
  have c': "c' = sort_crate_impls c" and ix: "ix = foldl push_index_impls (push_index_impls empty_index c') exts"
    using assms(2) by (auto simp: sort_impls_def Let_def)
  have push: "ix_trait_impls (foldl push_index_impls d ks) = foldl index_push_all (ix_trait_impls d) (map cr_trait_impls ks)" for d ks
    by (induction ks arbitrary: d) (simp_all add: push_index_impls_def index_push_all_def)
  have t: "ix_trait_impls ix = foldl index_push_all [] (map cr_trait_impls (c' # exts))"
    by (simp add: ix push push_index_impls_def index_push_all_def empty_index_def)
  have s: "filed_map tim_type (cr_trait_impls c') \<and> group_at (cr_trait_impls c') p = trait_impls_of c p" for p
    using assms(1) sort_map_filed [of tim_type "cr_trait_impls c"]
    by (simp add: c' sort_crate_impls_def searchable_crate_def trait_impls_of_def)
  have "\<forall>es \<in> set (map cr_trait_impls (c' # exts)). filed_map tim_type es"
    using assms(1) s by (simp add: searchable_crate_def)
  note i = index_all_crates_filed [OF _ this, of "[]", folded t]
  have "filed_map tim_type []" by (simp add: filed_map_def)
  note i = i [OF this]
  show "filed_map tim_type (ix_trait_impls ix)" using i by simp
  show "group_at (ix_trait_impls ix) q = (\<Union>k \<in> set (c # exts). trait_impls_of k q)"
    using i [of q] s by (simp add: group_at_def trait_impls_of_def)
  show "cr_trait_impls k = []" if "ix_trait_impls ix = []" "k \<in> set (c' # exts)"
    using i [of undefined] that by auto
qed

lemma find_impls_complete:
  assumes crates: "\<forall>k \<in> set (c # exts). searchable_crate k" "sort_impls c exts = (c', ix)"
    and ok: "\<forall>k \<in> set (c # exts). \<forall>i \<in> trait_impls_of k trait. impl_type_ok (tim_type i) \<and> \<not> isl (trait_impl_matches e rs ty i)"
    and ty: "searchable rs ty" and fuel: "0 < me_fuel e"
  shows "\<exists>found. find_trait_impls e rs ix c' exts trait ty collect [] = Inr (False, found)
    \<and> set found = {i \<in> (\<Union>k \<in> set (c # exts). trait_impls_of k trait). trait_impl_matches e rs ty i = Inr True}"
proof (cases "ix_trait_impls ix = []")
  case True
  have "find_in_crates (\<lambda>c. find_trait_impls_in e rs collect (cr_trait_impls c) trait ty) cs = step_ret False"
    if "\<forall>k \<in> set cs. cr_trait_impls k = []" for cs
    using that by (induction cs) (simp_all add: find_trait_impls_in_def)
  from this [of "c' # exts"] have "find_trait_impls e rs ix c' exts trait ty collect [] = Inr (False, [])"
    using True sort_impls_index(3) [OF crates True] by (simp add: find_trait_impls_def step_ret_def)
  moreover have "(\<Union>k \<in> set (c # exts). trait_impls_of k trait) = {}"
    using sort_impls_index(2) [OF crates, of trait] True by (simp add: group_at_def)
  ultimately show ?thesis by auto
next
  case False
  note f = sort_impls_index(1) [OF crates] and at = sort_impls_index(2) [OF crates, of trait]
  show ?thesis
  proof (cases "path_find (ix_trait_impls ix) trait")
    case None
    then show ?thesis
      using False at [symmetric] by (auto simp: find_trait_impls_def find_trait_impls_in_def step_ret_def group_at_def)
  next
    case (Some g)
    then have g: "group_set g = (\<Union>k \<in> set (c # exts). trait_impls_of k trait)" using at by (simp add: group_at_def)
    have t: "\<not> is_unbounded_infer ty" "\<not> is_unbound_path ty" "\<not> is_infer_not_lit ty"
      using ty by (cases ty; simp add: searchable_def is_unbounded_infer_def is_unbound_path_def is_infer_not_lit_def)+
    obtain n where n: "me_fuel e = Suc n" using fuel by (cases "me_fuel e") auto
    have skip: "trait_impl_matches e rs ty i = Inr False"
      if "i \<in> group_set g" "\<not> stays_generic (tim_type i)" "get_sort_path (tim_type i) \<noteq> get_sort_path ty" for i
    proof -
      have "impl_type_ok (tim_type i)" using ok that(1) by (auto simp: g)
      moreover have "searchable (mc_resolve (impl_cx e rs)) ty" using ty by (simp add: impl_cx_def)
      ultimately have "cmp_type (Suc n) (impl_cx e rs) (tim_type i) ty s = Inr (Cmp_Unequal, s)" for s
        using that(2,3) by (intro other_path_unequal)
      then show ?thesis
        using t by (simp add: trait_impl_matches_def matches_type_root_def n del: cmp_type.simps)
    qed
    have "\<forall>i \<in> group_set g. \<not> isl (trait_impl_matches e rs ty i)" using ok by (auto simp: g)
    from find_in_group_collect [OF filed_mapD [OF f Some] t(3) this skip] show ?thesis
      using False by (simp add: find_trait_impls_def find_trait_impls_in_def Some g)
  qed
qed

end
