(* ===== verification/Impl_Specific.thy ===== *)
theory Impl_Specific
  imports Impl_Match Mono_Params
begin

text \<open>
  Which of two impls is more specific: \<open>type_ord_specific\<close>, \<open>flatten_bounds\<close> and \<open>TraitImpl::more_specific_than\<close> of
  \<open>src/hir/hir_ops.cpp\<close>, with the order of bounds (\<open>GenericBound::ord\<close> of \<open>src/hir/generic_params.cpp\<close>).

  The exception \<open>TypeOrdSpecific_MixedOrdering\<close> is an error of its own (\<open>mixed_ordering\<close>).  What a pointer to a trait
  refers to is a function from the numbers of traits to traits.
\<close>

section \<open>Types\<close>

definition mixed_ordering :: error where
  "mixed_ordering = Runtime_Error ''TypeOrdSpecific_MixedOrdering''"

type_synonym spec_op = "expr_view \<Rightarrow> type_ref \<Rightarrow> ord_res"

fun typelist_specific_loop :: "Ordering \<Rightarrow> expr_view \<Rightarrow> spec_op list \<Rightarrow> type_ref list \<Rightarrow> ord_res" where
  "typelist_specific_loop rv ev (f # fs) (u # us) = res_bind (f ev u) (\<lambda>a.
     if a \<noteq> OrdEqual then
       (if rv \<noteq> OrdEqual \<and> a \<noteq> rv then Inl mixed_ordering else typelist_specific_loop a ev fs us)
     else typelist_specific_loop rv ev fs us)"
| "typelist_specific_loop rv ev fs us = Inr rv"

definition typelist_specific :: "expr_view \<Rightarrow> spec_op list \<Rightarrow> type_ref list \<Rightarrow> ord_res" where
  "typelist_specific ev fs us =
    (if length fs \<noteq> length us then Inl (Assert_Fail ''le.size() == re.size()'') else typelist_specific_loop OrdEqual ev fs us)"

definition mismatched_types :: "'a \<Rightarrow> error + 'b" where
  "mismatched_types _ = Inl (Bug ''Mismatched types'')"

definition is_generic :: "type_ref \<Rightarrow> bool" where
  "is_generic t = (case t of Ty_Generic _ \<Rightarrow> True | _ \<Rightarrow> False)"

text \<open>What comes before the cases: parameters, and types that are equal.\<close>

definition specific_over :: "type_ref \<Rightarrow> spec_op \<Rightarrow> spec_op" where
  "specific_over l f ev r =
    (if is_generic l then Inr (if is_generic r then OrdEqual else OrdLess)
     else if is_generic r then Inr OrdGreater
     else res_bind (ty_eq l ev r) (\<lambda>eq. if eq then Inr OrdEqual else f ev r))"

definition path_specific :: "(spec_op, const_generic, generic_params) path \<Rightarrow> expr_view \<Rightarrow> ty_path \<Rightarrow> ord_res" where
  "path_specific p ev q = (case (p, q) of
     (Path_Generic g, Path_Generic h) \<Rightarrow>
       if \<not> simple_path_eq (gp_path g) (gp_path h) then mismatched_types q
       else typelist_specific ev (pp_types (gp_params g)) (pp_types (gp_params h))
   | (Path_UfcsInherent _ _ _ _, Path_UfcsInherent _ _ _ _) \<Rightarrow> Inl (Todo ''Path'')
   | (Path_UfcsKnown _ _ _ _ _, Path_UfcsKnown _ _ _ _ _) \<Rightarrow> Inl (Todo ''Path'')
   | (Path_UfcsUnknown _ _ _, Path_UfcsUnknown _ _ _) \<Rightarrow> Inl (Todo ''Path'')
   | _ \<Rightarrow> mismatched_types q)"

fun markers_specific :: "expr_view \<Rightarrow> (spec_op, const_generic) generic_path list \<Rightarrow> ty_generic_path list \<Rightarrow> ord_res" where
  "markers_specific ev (p # ps) (q # qs) =
    (if \<not> simple_path_eq (gp_path p) (gp_path q) then mismatched_types q
     else res_bind (typelist_specific ev (pp_types (gp_params p)) (pp_types (gp_params q))) (\<lambda>c.
       if c \<noteq> OrdEqual then Inr c else markers_specific ev ps qs))"
| "markers_specific ev ps qs = Inr OrdEqual"

definition trait_object_specific :: "(spec_op, const_generic, generic_params) trait_path
    \<Rightarrow> (spec_op, const_generic) generic_path list \<Rightarrow> expr_view \<Rightarrow> ty_trait_path \<Rightarrow> ty_generic_path list \<Rightarrow> ord_res" where
  "trait_object_specific tr ms ev ur ns =
    (if \<not> simple_path_eq (gp_path (tp_path tr)) (gp_path (tp_path ur)) then mismatched_types ur
     else if length ms \<noteq> length ns then mismatched_types ur
     else res_bind (typelist_specific ev (pp_types (gp_params (tp_path tr))) (pp_types (gp_params (tp_path ur)))) (\<lambda>c.
       if c \<noteq> OrdEqual then Inr c else markers_specific ev ms ns))"

primrec type_ord_specific :: "type_ref \<Rightarrow> spec_op" where
  "type_ord_specific (Ty_Infer i c) = specific_over (Ty_Infer i c) (\<lambda>ev r. Inl (Bug ''Hit infer''))"
| "type_ord_specific Ty_Diverge = specific_over Ty_Diverge (\<lambda>ev r. Inl (Bug ''Hit diverge''))"
| "type_ord_specific (Ty_Primitive c) = specific_over (Ty_Primitive c) (\<lambda>ev r. case r of
     Ty_Primitive d \<Rightarrow> if c \<noteq> d then mismatched_types r else Inr OrdEqual
   | _ \<Rightarrow> mismatched_types r)"
| "type_ord_specific (Ty_Path p b h) = specific_over (Ty_Path p b h) (\<lambda>ev r. case r of
     Ty_Path q _ _ \<Rightarrow> path_specific (map_path type_ord_specific id id p) ev q
   | _ \<Rightarrow> mismatched_types r)"
| "type_ord_specific (Ty_Generic g) = specific_over (Ty_Generic g) (\<lambda>ev r. Inl (Runtime_Error ''''))"
| "type_ord_specific (Ty_TraitObject tr ms l) = specific_over (Ty_TraitObject tr ms l) (\<lambda>ev r. case r of
     Ty_TraitObject ur ns _ \<Rightarrow>
       trait_object_specific (map_trait_path type_ord_specific id id tr) (map (map_generic_path type_ord_specific id) ms) ev ur ns
   | _ \<Rightarrow> mismatched_types r)"
| "type_ord_specific (Ty_ErasedType sized trs ls i) =
     specific_over (Ty_ErasedType sized trs ls i) (\<lambda>ev r. Inl (Todo ''ErasedType''))"
| "type_ord_specific (Ty_Array t n) = specific_over (Ty_Array t n) (\<lambda>ev r. case r of
     Ty_Array u k \<Rightarrow> res_bind (is_equal (array_size_ord n ev k)) (\<lambda>eq.
       if \<not> eq then mismatched_types r else type_ord_specific t ev u)
   | _ \<Rightarrow> mismatched_types r)"
| "type_ord_specific (Ty_Slice t) = specific_over (Ty_Slice t) (\<lambda>ev r. case r of
     Ty_Slice u \<Rightarrow> type_ord_specific t ev u | _ \<Rightarrow> mismatched_types r)"
| "type_ord_specific (Ty_Tuple ts) = specific_over (Ty_Tuple ts) (\<lambda>ev r. case r of
     Ty_Tuple us \<Rightarrow> typelist_specific ev (map type_ord_specific ts) us | _ \<Rightarrow> mismatched_types r)"
| "type_ord_specific (Ty_Borrow l b t) = specific_over (Ty_Borrow l b t) (\<lambda>ev r. case r of
     Ty_Borrow _ c u \<Rightarrow> if b \<noteq> c then mismatched_types r else type_ord_specific t ev u
   | _ \<Rightarrow> mismatched_types r)"
| "type_ord_specific (Ty_Pointer b t) = specific_over (Ty_Pointer b t) (\<lambda>ev r. case r of
     Ty_Pointer c u \<Rightarrow> if b \<noteq> c then mismatched_types r else type_ord_specific t ev u
   | _ \<Rightarrow> mismatched_types r)"
| "type_ord_specific (Ty_NamedFunction p f) =
     specific_over (Ty_NamedFunction p f) (\<lambda>ev r. Inl (Bug ''Hit function type''))"
| "type_ord_specific (Ty_Function h us va abi r as) = specific_over (Ty_Function h us va abi r as) (\<lambda>ev x. case x of
     Ty_Function _ _ _ _ _ _ \<Rightarrow> Inl (Todo ''Function'') | _ \<Rightarrow> mismatched_types x)"
| "type_ord_specific (Ty_Closure n) = specific_over (Ty_Closure n) (\<lambda>ev r. Inl (Bug ''Hit closure''))"
| "type_ord_specific (Ty_Generator n) = specific_over (Ty_Generator n) (\<lambda>ev r. Inl (Bug ''Hit generator''))"

definition typelist_ord_specific :: "expr_view \<Rightarrow> type_ref list \<Rightarrow> type_ref list \<Rightarrow> ord_res" where
  "typelist_ord_specific ev le re = typelist_specific ev (map type_ord_specific le) re"

section \<open>Bounds\<close>

type_synonym ty_bound = "(type_ref, const_generic, generic_params) generic_bound"

fun bound_tag :: "ty_bound \<Rightarrow> nat" where
  "bound_tag (GB_Lifetime _ _) = 1"
| "bound_tag (GB_TypeLifetime _ _) = 2"
| "bound_tag (GB_TraitBound _ _ _) = 3"
| "bound_tag (GB_TypeEquality _ _) = 4"

definition ord_lifetime_ref :: "lifetime_ref \<Rightarrow> lifetime_ref \<Rightarrow> Ordering" where
  "ord_lifetime_ref a b = ord_int (lr_binding a) (lr_binding b)"

definition bound_ord :: "ty_bound \<Rightarrow> ty_bound ord_op" where
  "bound_ord a ev b =
    (if bound_tag a \<noteq> bound_tag b then Inr (if bound_tag a < bound_tag b then OrdLess else OrdGreater)
     else case (a, b) of
       (GB_Lifetime t v, GB_Lifetime u w) \<Rightarrow> then_ord (Inr (ord_lifetime_ref t u)) (Inr (ord_lifetime_ref v w))
     | (GB_TypeLifetime t v, GB_TypeLifetime u w) \<Rightarrow> then_ord (ty_ord t ev u) (Inr (ord_lifetime_ref v w))
     | (GB_TraitBound _ t p, GB_TraitBound _ u q) \<Rightarrow> then_ord (ty_ord t ev u) (trait_path_ord p ev q)
     | (GB_TypeEquality t v, GB_TypeEquality u w) \<Rightarrow> then_ord (ty_ord t ev u) (ty_ord v ev w)
     | _ \<Rightarrow> Inr OrdEqual)"

definition clone_generic_bound :: "target_arch \<Rightarrow> ty_bound \<Rightarrow> error + ty_bound" where
  "clone_generic_bound a b = clone_bound (map_generic_bound id mono_constgeneric clone_generics b) a"

definition monomorph_traitpath :: "monomorphiser \<Rightarrow> ty_trait_path \<Rightarrow> bool \<Rightarrow> bool \<Rightarrow> error + ty_trait_path" where
  "monomorph_traitpath m p allow_infer ignore_hrls =
    mono_trait_path (map_trait_path mono_type mono_constgeneric clone_generics p) ignore_hrls m allow_infer 0"

type_synonym trait_table = "nat \<Rightarrow> hir_trait"

text \<open>The bounds that a bound on a trait brings with it: its parents, in the parameters of the bound.\<close>

definition add_bound_from_trait :: "target_arch \<Rightarrow> trait_table \<Rightarrow> generic_params option \<Rightarrow> type_ref \<Rightarrow> ty_trait_path
    \<Rightarrow> error + ty_bound list" where
  "add_bound_from_trait a traits h t cur = (case tp_trait_ptr cur of
     None \<Rightarrow> Inl (Assert_Fail ''cur_trait.m_trait_ptr'')
   | Some p \<Rightarrow>
       (let m = monomorphiser_pp a (monomorph_state_ptr (Some t) (Some (gp_params (tp_path cur))) None None)
        in res_list (map (\<lambda>raw. res_bind (monomorph_traitpath m raw False False) (\<lambda>tr.
             res_map (\<lambda>h. GB_TraitBound h t tr) (res_opt (map_option (\<lambda>g. clone_generics g a) h))))
           (tr_all_parent_traits (traits p)))))"

text \<open>
  \<open>std::sort\<close>, as insertion.  Bounds that compare equal can come in any order in the program; only their
  comparisons are used afterwards.
\<close>

fun insert_bound :: "expr_view \<Rightarrow> ty_bound \<Rightarrow> ty_bound list \<Rightarrow> error + ty_bound list" where
  "insert_bound ev b [] = Inr [b]"
| "insert_bound ev b (c # cs) = res_bind (bound_ord c ev b) (\<lambda>o1.
     if o1 = OrdGreater then Inr (b # c # cs) else res_map ((#) c) (insert_bound ev b cs))"

fun sort_bounds :: "expr_view \<Rightarrow> ty_bound list \<Rightarrow> ty_bound list \<Rightarrow> error + ty_bound list" where
  "sort_bounds ev acc [] = Inr acc"
| "sort_bounds ev acc (b # bs) = res_bind (insert_bound ev b acc) (\<lambda>acc. sort_bounds ev acc bs)"

definition flatten_bound :: "target_arch \<Rightarrow> trait_table \<Rightarrow> ty_bound \<Rightarrow> error + ty_bound list" where
  "flatten_bound a traits b = res_bind (clone_generic_bound a b) (\<lambda>b'. case b of
     GB_TraitBound h t tr \<Rightarrow> res_map ((#) b') (add_bound_from_trait a traits h t tr)
   | _ \<Rightarrow> Inr [b'])"

definition flatten_bounds :: "expr_view \<Rightarrow> target_arch \<Rightarrow> trait_table \<Rightarrow> ty_bound list \<Rightarrow> error + ty_bound list" where
  "flatten_bounds ev a traits bs = res_bind (res_list (map (flatten_bound a traits) bs)) (\<lambda>bss. sort_bounds ev [] (concat bss))"

section \<open>Impls\<close>

text \<open>Two bounds of the same trait on the same type; \<open>None\<close> is to go on.\<close>

fun self_argument :: "expr_view \<Rightarrow> type_ref \<Rightarrow> type_ref list \<Rightarrow> type_ref list \<Rightarrow> error + bool" where
  "self_argument ev s (t # ts) (u # us) =
    res_bind (and_also (res_map Not (ty_eq t ev u)) (ty_eq t ev s)) (\<lambda>found.
      if found then Inr True else self_argument ev s ts us)"
| "self_argument ev s ts us = Inr False"

definition similar_bounds :: "expr_view \<Rightarrow> ty_bound \<Rightarrow> ty_bound \<Rightarrow> error + bool option" where
  "similar_bounds ev b c = (case (b, c) of
     (GB_TraitBound _ t p, GB_TraitBound _ u q) \<Rightarrow> res_bind (ty_eq t ev u) (\<lambda>same.
       if same \<and> simple_path_eq (gp_path (tp_path p)) (gp_path (tp_path q)) then
         (let ps = pp_types (gp_params (tp_path p)); qs = pp_types (gp_params (tp_path q))
          in res_bind (typelist_ord_specific ev ps qs) (\<lambda>o1. case o1 of
            OrdLess \<Rightarrow> Inr (Some False)
          | OrdGreater \<Rightarrow> Inr (Some True)
          | OrdEqual \<Rightarrow> res_bind (self_argument ev t ps qs) (\<lambda>found.
              if found then Inr (Some True) else Inl (Todo ''?=''))))
       else Inr None)
   | _ \<Rightarrow> Inr None)"

fun compare_bounds :: "expr_view \<Rightarrow> bool \<Rightarrow> ty_bound list \<Rightarrow> ty_bound list \<Rightarrow> error + bool" where
  "compare_bounds ev eq_so_far (t # it_t) (o1 # it_o) = res_bind (bound_ord t ev o1) (\<lambda>cmp.
     if cmp = OrdEqual then compare_bounds ev eq_so_far it_t it_o
     else res_bind (similar_bounds ev t o1) (\<lambda>r. case r of
       Some b \<Rightarrow> Inr b
     | None \<Rightarrow> if cmp = OrdLess then compare_bounds ev False it_t (o1 # it_o) else Inr False))"
| "compare_bounds ev eq_so_far it_t it_o = Inr (if it_t \<noteq> [] then True else \<not> eq_so_far)"

definition no_mixed_ordering :: "error + 'a \<Rightarrow> error + 'a" where
  "no_mixed_ordering r = (case r of
     Inl e \<Rightarrow> Inl (if e = mixed_ordering then Bug ''Mixed ordering in more_specific_than'' else e)
   | Inr x \<Rightarrow> Inr x)"

definition impl_types_specific :: "expr_view \<Rightarrow> trait_impl \<Rightarrow> trait_impl \<Rightarrow> ord_res" where
  "impl_types_specific ev i j =
    then_ord (typelist_ord_specific ev (pp_types (tim_trait_args i)) (pp_types (tim_trait_args j)))
      (type_ord_specific (tim_type i) ev (tim_type j))"

definition more_specific_than :: "expr_view \<Rightarrow> target_arch \<Rightarrow> trait_table \<Rightarrow> trait_impl \<Rightarrow> trait_impl \<Rightarrow> error + bool" where
  "more_specific_than ev a traits i j =
    res_bind (no_mixed_ordering (impl_types_specific ev i j)) (\<lambda>o1.
      if o1 \<noteq> OrdEqual then Inr (o1 = OrdGreater)
      else res_bind (flatten_bounds ev a traits (gps_bounds (tim_params i))) (\<lambda>bounds_t.
        res_bind (flatten_bounds ev a traits (gps_bounds (tim_params j))) (\<lambda>bounds_o.
          if length bounds_t < length bounds_o then Inr False else compare_bounds ev True bounds_t bounds_o)))"

end
