(* ===== verification/Impl_Overlap.thy ===== *)
theory Impl_Overlap
  imports Impl_Specific
begin

text \<open>
  Whether two impls of a trait overlap: \<open>TraitImpl::overlaps_with\<close> of \<open>src/hir/hir_ops.cpp\<close> with its local functions
  \<open>types_overlap\<close> and \<open>check_bounds\<close>, and \<open>ImplTyMatcher\<close>, which remembers what the parameters of an impl were matched
  with and then substitutes it.

  The matcher invents a placeholder for a parameter that was not matched; its name has the address of the matcher in
  it, which is a field here.  Bounds are checked by searching for impls, whose bounds are checked in turn: that takes
  fuel.
\<close>

section \<open>Overlap of types\<close>

type_synonym overlap_op = "expr_view \<Rightarrow> type_ref \<Rightarrow> error + bool"

text \<open>Only types are looked at, as many as both lists have.\<close>

fun all_overlap :: "expr_view \<Rightarrow> overlap_op list \<Rightarrow> type_ref list \<Rightarrow> error + bool" where
  "all_overlap ev (f # fs) (u # us) = and_also (f ev u) (all_overlap ev fs us)"
| "all_overlap ev fs us = Inr True"

definition path_overlap :: "(overlap_op, const_generic, generic_params) path \<Rightarrow> expr_view \<Rightarrow> ty_path \<Rightarrow> error + bool" where
  "path_overlap p ev q = (case (p, q) of
     (Path_Generic g, Path_Generic h) \<Rightarrow>
       if \<not> simple_path_eq (gp_path g) (gp_path h) then Inr False
       else all_overlap ev (pp_types (gp_params g)) (pp_types (gp_params h))
   | _ \<Rightarrow> Inr False)"

fun markers_overlap :: "expr_view \<Rightarrow> (overlap_op, const_generic) generic_path list \<Rightarrow> ty_generic_path list \<Rightarrow> error + bool" where
  "markers_overlap ev (p # ps) (q # qs) =
    (if \<not> simple_path_eq (gp_path p) (gp_path q) then Inr False
     else and_also (all_overlap ev (pp_types (gp_params p)) (pp_types (gp_params q))) (markers_overlap ev ps qs))"
| "markers_overlap ev ps qs = Inr True"

definition trait_object_overlap :: "(overlap_op, const_generic, generic_params) trait_path
    \<Rightarrow> (overlap_op, const_generic) generic_path list \<Rightarrow> expr_view \<Rightarrow> ty_trait_path \<Rightarrow> ty_generic_path list \<Rightarrow> error + bool" where
  "trait_object_overlap tr ms ev ur ns =
    (if \<not> simple_path_eq (gp_path (tp_path tr)) (gp_path (tp_path ur)) then Inr False
     else and_also (all_overlap ev (pp_types (gp_params (tp_path tr))) (pp_types (gp_params (tp_path ur))))
       (if length ms \<noteq> length ns then Inr False else markers_overlap ev ms ns))"

text \<open>What comes before the cases: equal types, parameters, types of different forms.\<close>

definition overlap_over :: "type_ref \<Rightarrow> overlap_op \<Rightarrow> overlap_op" where
  "overlap_over a f ev b = res_bind (ty_eq a ev b) (\<lambda>eq.
     if eq then Inr True
     else if is_generic a \<or> is_generic b then Inr True
     else if type_tag a \<noteq> type_tag b then Inr False
     else f ev b)"

primrec types_overlap :: "type_ref \<Rightarrow> overlap_op" where
  "types_overlap (Ty_Infer i c) = overlap_over (Ty_Infer i c) (\<lambda>ev b. Inr True)"
| "types_overlap Ty_Diverge = overlap_over Ty_Diverge (\<lambda>ev b. Inr True)"
| "types_overlap (Ty_Primitive c) = overlap_over (Ty_Primitive c) (\<lambda>ev b. Inr (b = Ty_Primitive c))"
| "types_overlap (Ty_Path p b h) = overlap_over (Ty_Path p b h) (\<lambda>ev x. case x of
     Ty_Path q _ _ \<Rightarrow> path_overlap (map_path types_overlap id id p) ev q | _ \<Rightarrow> Inr True)"
| "types_overlap (Ty_Generic g) = overlap_over (Ty_Generic g) (\<lambda>ev b. Inr True)"
| "types_overlap (Ty_TraitObject tr ms l) = overlap_over (Ty_TraitObject tr ms l) (\<lambda>ev x. case x of
     Ty_TraitObject ur ns _ \<Rightarrow>
       trait_object_overlap (map_trait_path types_overlap id id tr) (map (map_generic_path types_overlap id) ms) ev ur ns
   | _ \<Rightarrow> Inr True)"
| "types_overlap (Ty_ErasedType sized trs ls i) = overlap_over (Ty_ErasedType sized trs ls i) (\<lambda>ev b. Inl (Todo ''ErasedType''))"
| "types_overlap (Ty_Array t n) = overlap_over (Ty_Array t n) (\<lambda>ev x. case x of
     Ty_Array u k \<Rightarrow> res_bind (is_equal (array_size_ord n ev k)) (\<lambda>eq. if \<not> eq then Inr False else types_overlap t ev u)
   | _ \<Rightarrow> Inr True)"
| "types_overlap (Ty_Slice t) = overlap_over (Ty_Slice t) (\<lambda>ev x. case x of
     Ty_Slice u \<Rightarrow> types_overlap t ev u | _ \<Rightarrow> Inr True)"
| "types_overlap (Ty_Tuple ts) = overlap_over (Ty_Tuple ts) (\<lambda>ev x. case x of
     Ty_Tuple us \<Rightarrow> if length ts \<noteq> length us then Inr False else all_overlap ev (map types_overlap ts) us
   | _ \<Rightarrow> Inr True)"
| "types_overlap (Ty_Borrow l b t) = overlap_over (Ty_Borrow l b t) (\<lambda>ev x. case x of
     Ty_Borrow _ c u \<Rightarrow> if b \<noteq> c then Inr False else types_overlap t ev u | _ \<Rightarrow> Inr True)"
| "types_overlap (Ty_Pointer b t) = overlap_over (Ty_Pointer b t) (\<lambda>ev x. case x of
     Ty_Pointer c u \<Rightarrow> if b \<noteq> c then Inr False else types_overlap t ev u | _ \<Rightarrow> Inr True)"
| "types_overlap (Ty_NamedFunction p f) = overlap_over (Ty_NamedFunction p f) (\<lambda>ev x. case x of
     Ty_NamedFunction q _ \<Rightarrow> path_overlap (map_path types_overlap id id p) ev q | _ \<Rightarrow> Inr True)"
| "types_overlap (Ty_Function h us va abi r as) = overlap_over (Ty_Function h us va abi r as) (\<lambda>ev x. case x of
     Ty_Function _ vs _ abj s bs \<Rightarrow>
       if us \<noteq> vs then Inr False
       else if abi \<noteq> abj then Inr False
       else if length as \<noteq> length bs then Inr False
       else and_also (all_overlap ev (map types_overlap as) bs) (types_overlap r ev s)
   | _ \<Rightarrow> Inr True)"
| "types_overlap (Ty_Closure n) = overlap_over (Ty_Closure n) (\<lambda>ev b. Inl (Bug ''Hit closure''))"
| "types_overlap (Ty_Generator n) = overlap_over (Ty_Generator n) (\<lambda>ev b. Inl (Bug ''Hit generator''))"

definition params_overlap :: "ty_params \<Rightarrow> expr_view \<Rightarrow> ty_params \<Rightarrow> error + bool" where
  "params_overlap p ev q = all_overlap ev (map types_overlap (pp_types p)) (pp_types q)"

section \<open>The matcher that substitutes\<close>

record impl_ty_matcher =
  im_tys :: "type_ref option list"
  im_vals :: "const_generic option list"
  im_lfts :: "lifetime_ref option list"

definition im_reinit :: "generic_params \<Rightarrow> impl_ty_matcher" where
  "im_reinit g = \<lparr>im_tys = replicate (length (gps_types g)) None, im_vals = replicate (length (gps_values g)) None,
     im_lfts = replicate (length (gps_lifetimes g)) None\<rparr>"

definition equal_or_not :: "'s \<Rightarrow> bool \<Rightarrow> error + compare \<times> 's" where
  "equal_or_not s b = Inr (if b then Cmp_Equal else Cmp_Unequal, s)"

definition im_match_type :: "expr_view \<Rightarrow> generic_ref \<Rightarrow> type_ref \<Rightarrow> resolver \<Rightarrow> impl_ty_matcher cmp_step" where
  "im_match_type ev g ty rs s =
    (let i = unat (gr_binding g)
     in if \<not> i < length (im_tys s) then Inl (Assert_Fail ''g.binding < impl_tys.size()'')
        else case im_tys s ! i of
          Some t \<Rightarrow> res_bind (ty_eq ty ev t) (equal_or_not s)
        | None \<Rightarrow> Inr (Cmp_Equal, s\<lparr>im_tys := (im_tys s)[i := Some ty]\<rparr>))"

definition im_match_value :: "expr_view \<Rightarrow> generic_ref \<Rightarrow> const_generic \<Rightarrow> impl_ty_matcher cmp_step" where
  "im_match_value ev g v s =
    (let i = unat (gr_binding g)
     in if \<not> i < length (im_vals s) then Inl (Assert_Fail ''g.binding < impl_vals.size()'')
        else case im_vals s ! i of
          Some w \<Rightarrow> res_bind (value_eq v ev w) (equal_or_not s)
        | None \<Rightarrow> Inr (Cmp_Equal, s\<lparr>im_vals := (im_vals s)[i := Some v]\<rparr>))"

definition im_match_lifetime :: "generic_ref \<Rightarrow> lifetime_ref \<Rightarrow> impl_ty_matcher cmp_step" where
  "im_match_lifetime g l s =
    (let i = unat (gr_binding g)
     in if \<not> i < length (im_lfts s) then Inl (Assert_Fail ''g.binding < impl_lfts.size()'')
        else case im_lfts s ! i of
          Some k \<Rightarrow> equal_or_not s (lr_binding l = lr_binding k)
        | None \<Rightarrow> Inr (Cmp_Equal, s\<lparr>im_lfts := (im_lfts s)[i := Some l]\<rparr>))"

definition substituting_matcher :: "expr_view \<Rightarrow> impl_ty_matcher matcher" where
  "substituting_matcher ev = \<lparr>mt_type = im_match_type ev, mt_value = im_match_value ev, mt_lifetime = im_match_lifetime\<rparr>"

text \<open>What stands for a parameter after the match.  \<open>addr\<close> is the address of the matcher as it is printed.\<close>

definition im_get_type :: "string \<Rightarrow> impl_ty_matcher \<Rightarrow> generic_ref \<Rightarrow> error + type_ref" where
  "im_get_type addr s g =
    (if gr_group g \<noteq> 0 then Inl (Bug ''g.group() == 0'')
     else if \<not> unat (gr_idx g) < length (im_tys s) then Inl (Bug ''g.idx() < impl_tys.size()'')
     else case im_tys s ! unat (gr_idx g) of
       None \<Rightarrow> Inr (Ty_Generic \<lparr>gr_name = ''placeholder_'' @ addr @ ''_'' @ show_word (gr_idx g),
         gr_binding = 2 * 256 + gr_idx g\<rparr>)
     | Some t \<Rightarrow> Inr t)"

definition im_get_value :: "target_arch \<Rightarrow> impl_ty_matcher \<Rightarrow> generic_ref \<Rightarrow> error + const_generic" where
  "im_get_value a s g =
    (if gr_group g \<noteq> 0 then Inl (Bug ''g.group() == 0'')
     else if \<not> unat (gr_idx g) < length (im_vals s) then Inl (Bug ''g.idx() < impl_vals.size()'')
     else case im_vals s ! unat (gr_idx g) of
       None \<Rightarrow> Inl (Bug ''impl_vals[g.idx()]'')
     | Some v \<Rightarrow> clone_constgeneric a v)"

definition im_get_lifetime :: "impl_ty_matcher \<Rightarrow> generic_ref \<Rightarrow> error + lifetime_ref" where
  "im_get_lifetime s g =
    (if gr_group g \<noteq> 0 then Inl (Bug ''g.group() == 0'')
     else if \<not> unat (gr_idx g) < length (im_lfts s) then Inl (Bug ''g.idx() < impl_lfts.size()'')
     else case im_lfts s ! unat (gr_idx g) of
       None \<Rightarrow> Inr \<lparr>lr_binding = 0xFFFE\<rparr>
     | Some l \<Rightarrow> Inr l)"

definition im_monomorphiser :: "target_arch \<Rightarrow> string \<Rightarrow> impl_ty_matcher \<Rightarrow> monomorphiser" where
  "im_monomorphiser a addr s = \<lparr>mn_get_type = im_get_type addr s, mn_get_value = im_get_value a s,
     mn_get_lifetime = im_get_lifetime s, mn_callback = (\<lambda>_. None), mn_consteval = None, mn_arch = a\<rparr>"

section \<open>Bounds\<close>

record overlap_env =
  oe_match :: match_env
  oe_index :: impl_index
  oe_crate :: hir_crate
  oe_exts :: "hir_crate list"
  oe_addr :: string

abbreviation oe_view :: "overlap_env \<Rightarrow> expr_view" where "oe_view oe \<equiv> me_view (oe_match oe)"

definition overlap_cx :: "overlap_env \<Rightarrow> impl_ty_matcher match_cx" where
  "overlap_cx oe = \<lparr>mc_view = oe_view oe, mc_arch = me_arch (oe_match oe), mc_resolve = resolve_nop,
     mc_matcher = substituting_matcher (oe_view oe)\<rparr>"

definition overlap_monomorphiser :: "overlap_env \<Rightarrow> impl_ty_matcher \<Rightarrow> monomorphiser" where
  "overlap_monomorphiser oe s = im_monomorphiser (me_arch (oe_match oe)) (oe_addr oe) s"

definition overlap_match :: "overlap_env \<Rightarrow> type_ref \<Rightarrow> type_ref \<Rightarrow> (impl_ty_matcher, bool) step" where
  "overlap_match oe t x = match_test_generics (me_fuel (oe_match oe)) (overlap_cx oe) t x"

definition monomorph_bound_type :: "overlap_env \<Rightarrow> impl_ty_matcher \<Rightarrow> type_ref \<Rightarrow> error + type_ref" where
  "monomorph_bound_type oe s t =
    (if \<not> monomorphise_type_needed t False then Inr t else mono_type t (overlap_monomorphiser oe s) True 0)"

definition monomorph_bound_trait :: "overlap_env \<Rightarrow> impl_ty_matcher \<Rightarrow> ty_trait_path \<Rightarrow> error + ty_trait_path" where
  "monomorph_bound_trait oe s p =
    (if \<not> monomorphise_traitpath_needed p False then Inr p
     else monomorph_traitpath (overlap_monomorphiser oe s) p True False)"

text \<open>Is a bound on a parameter among the bounds of the other impl?  The loop does not stop at the first one.\<close>

fun source_bound :: "expr_view \<Rightarrow> type_ref \<Rightarrow> ty_trait_path \<Rightarrow> bool \<Rightarrow> ty_bound list \<Rightarrow> error + bool" where
  "source_bound ev ty tr found [] = Inr found"
| "source_bound ev ty tr found (b # bs) = (case b of
     GB_TraitBound _ t p \<Rightarrow> res_bind (and_also (ty_eq t ev ty) (is_equal (trait_path_ord p ev tr))) (\<lambda>same.
       source_bound ev ty tr (found \<or> same) bs)
   | _ \<Rightarrow> source_bound ev ty tr found bs)"

fun match_all :: "(type_ref \<Rightarrow> type_ref \<Rightarrow> ('s, bool) step) \<Rightarrow> type_ref list \<Rightarrow> type_ref list \<Rightarrow> ('s, bool) step \<Rightarrow> ('s, bool) step" where
  "match_all f (t # ts) (x # xs) k = step_bind (f t x) (\<lambda>ok. if \<not> ok then step_ret False else match_all f ts xs k)"
| "match_all f ts xs k = k"

text \<open>An associated type that the impl does not have is taken to be right.\<close>

fun match_assoc_types :: "overlap_env \<Rightarrow> trait_impl \<Rightarrow> (string \<times> (type_ref, const_generic) aty_equal) list \<Rightarrow> (impl_ty_matcher, bool) step" where
  "match_assoc_types oe ti [] = step_ret True"
| "match_assoc_types oe ti (b # bs) = (case map_of (tim_types ti) (fst b) of
     None \<Rightarrow> match_assoc_types oe ti bs
   | Some aty \<Rightarrow> step_bind (overlap_match oe (ie_data aty) (ae_type (snd b))) (\<lambda>ok.
       if \<not> ok then step_ret False else match_assoc_types oe ti bs))"

type_synonym bounds_check = "trait_impl \<Rightarrow> impl_ty_matcher \<Rightarrow> error + bool"

text \<open>Does a candidate impl satisfy a bound \<open>ty: trait\<close>?\<close>

definition candidate_steps :: "bounds_check \<Rightarrow> overlap_env \<Rightarrow> type_ref \<Rightarrow> ty_trait_path \<Rightarrow> trait_impl \<Rightarrow> (impl_ty_matcher, bool) step" where
  "candidate_steps check oe ty trait ti = step_bind (overlap_match oe (tim_type ti) ty) (\<lambda>ok.
     if \<not> ok then step_ret False
     else (let ps = pp_types (gp_params (tp_path trait)); as = pp_types (tim_trait_args ti)
       in if length ps \<noteq> length as
          then step_fail (Assert_Fail ''trait.m_path.m_params.m_types.size() == ti.m_trait_args.m_types.size()'')
          else match_all (overlap_match oe) as ps (\<lambda>s. step_lift (check ti s) (\<lambda>ok.
            if \<not> ok then step_ret False else match_assoc_types oe ti (tp_type_bounds trait)) s)))"

definition candidate_impl :: "bounds_check \<Rightarrow> overlap_env \<Rightarrow> type_ref \<Rightarrow> ty_trait_path \<Rightarrow> trait_impl \<Rightarrow> (unit, bool) step" where
  "candidate_impl check oe ty trait ti u =
    res_map (\<lambda>(ok, s). (ok, ())) (candidate_steps check oe ty trait ti (im_reinit (tim_params ti)))"

definition find_bound_impl :: "bounds_check \<Rightarrow> overlap_env \<Rightarrow> type_ref \<Rightarrow> ty_trait_path \<Rightarrow> error + bool" where
  "find_bound_impl check oe ty trait =
    res_map fst (find_trait_impls (oe_match oe) resolve_nop (oe_index oe) (oe_crate oe) (oe_exts oe)
      (gp_path (tp_path trait)) ty (candidate_impl check oe ty trait) ())"

definition check_bound :: "bounds_check \<Rightarrow> overlap_env \<Rightarrow> impl_ty_matcher \<Rightarrow> trait_impl \<Rightarrow> ty_bound \<Rightarrow> error + bool" where
  "check_bound check oe s g_src b = (case b of
     GB_TraitBound _ t p \<Rightarrow> res_bind (monomorph_bound_type oe s t) (\<lambda>ty. res_bind (monomorph_bound_trait oe s p) (\<lambda>tr.
       if is_generic ty then source_bound (oe_view oe) ty tr False (gps_bounds (tim_params g_src))
       else if is_opaque_path ty then Inl (Todo ''Check bound in source bounds or trait bounds'')
       else find_bound_impl check oe ty tr))
   | _ \<Rightarrow> Inr True)"

fun all_bounds :: "(ty_bound \<Rightarrow> error + bool) \<Rightarrow> ty_bound list \<Rightarrow> error + bool" where
  "all_bounds f [] = Inr True"
| "all_bounds f (b # bs) = and_also (f b) (all_bounds f bs)"

primrec check_bounds :: "nat \<Rightarrow> overlap_env \<Rightarrow> trait_impl \<Rightarrow> trait_impl \<Rightarrow> impl_ty_matcher \<Rightarrow> error + bool" where
  "check_bounds 0 oe g_src i s = Inl Out_Of_Fuel"
| "check_bounds (Suc n) oe g_src i s =
    all_bounds (check_bound (check_bounds n oe g_src) oe s g_src) (gps_bounds (tim_params i))"

section \<open>Overlap of impls\<close>

text \<open>The patterns of one impl against the types of another.\<close>

definition match_impl :: "overlap_env \<Rightarrow> trait_impl \<Rightarrow> trait_impl \<Rightarrow> (impl_ty_matcher, bool) step" where
  "match_impl oe i j = step_bind (overlap_match oe (tim_type i) (tim_type j)) (\<lambda>ok.
     if \<not> ok then step_ret False
     else step_bind (match_params (overlap_cx oe) (cmp_type (me_fuel (oe_match oe)) (overlap_cx oe)) (tim_trait_args i) (tim_trait_args j))
       (\<lambda>c. step_ret (c = Cmp_Equal)))"

definition not_mixed :: "ord_res \<Rightarrow> error + bool" where
  "not_mixed r = (case r of Inl e \<Rightarrow> if e = mixed_ordering then Inr False else Inl e | Inr _ \<Rightarrow> Inr True)"

text \<open>The specificity of the two impls is computed for the exception only.\<close>

definition comparable_impls :: "expr_view \<Rightarrow> trait_impl \<Rightarrow> trait_impl \<Rightarrow> error + bool" where
  "comparable_impls ev i j = not_mixed
    (res_bind (type_ord_specific (tim_type i) ev (tim_type j)) (\<lambda>_.
      typelist_ord_specific ev (pp_types (tim_trait_args i)) (pp_types (tim_trait_args j))))"

definition same_impl_types :: "expr_view \<Rightarrow> trait_impl \<Rightarrow> trait_impl \<Rightarrow> error + bool" where
  "same_impl_types ev i j =
    and_also (ty_eq (tim_type i) ev (tim_type j)) (is_equal (path_params_ord (tim_trait_args i) ev (tim_trait_args j)))"

definition overlap_by_matching :: "overlap_env \<Rightarrow> trait_impl \<Rightarrow> trait_impl \<Rightarrow> error + bool" where
  "overlap_by_matching oe i j = (let check = check_bounds (me_fuel (oe_match oe)) oe in
    res_bind (match_impl oe i j (im_reinit (tim_params i))) (\<lambda>(ok, s).
      if ok then check j i s
      else res_bind (match_impl oe j i (im_reinit (tim_params j))) (\<lambda>(ok, s).
        if ok then check i j s else Inr False)))"

definition overlaps_with :: "overlap_env \<Rightarrow> trait_impl \<Rightarrow> trait_impl \<Rightarrow> error + bool" where
  "overlaps_with oe i j = (let ev = oe_view oe in
    res_bind (same_impl_types ev i j) (\<lambda>same.
      if same then Inr True
      else and_also (types_overlap (tim_type i) ev (tim_type j))
        (and_also (params_overlap (tim_trait_args i) ev (tim_trait_args j))
          (and_also (comparable_impls ev i j) (overlap_by_matching oe i j)))))"

end
