(* ===== verification/Impl_Specific_Facts.thy ===== *)
theory Impl_Specific_Facts
  imports Impl_Overlap Ty_Order_Refl
begin

text \<open>
  What \<open>type_ord_specific\<close> and \<open>types_overlap\<close> say about substitutions: an instance of a type is never less specific than
  the type.
\<close>

section \<open>Results of substitution\<close>

lemma mono_types_iff:
  "res_list (map (\<lambda>f. f m ai d) (map mono_type ts)) = Inr us \<longleftrightarrow> list_all2 (\<lambda>t u. mono_type t m ai d = Inr u) ts us"
proof (induction ts arbitrary: us)
  case (Cons t ts)
  then show ?case by (cases us) auto
qed auto

lemma mono_params_types:
  "mono_path_params (map_path_params mono_type mono_constgeneric p) m ai d = Inr q
    \<Longrightarrow> list_all2 (\<lambda>t u. mono_type t m ai d = Inr u) (pp_types p) (pp_types q)"
  using mono_types_iff by (cases p) (auto simp: mono_path_params_def)

lemma mono_generic_path_types:
  "mono_generic_path (map_generic_path mono_type mono_constgeneric p) m ai d = Inr q
    \<Longrightarrow> gp_path q = gp_path p \<and> list_all2 (\<lambda>t u. mono_type t m ai d = Inr u) (pp_types (gp_params p)) (pp_types (gp_params q))"
  using mono_params_types by (cases p) (auto simp: mono_generic_path_def)

lemma mono_markers:
  "res_list (map (\<lambda>p. mono_generic_path p m ai d) (map (map_generic_path mono_type mono_constgeneric) ms)) = Inr ns
    \<Longrightarrow> list_all2 (\<lambda>p q. mono_generic_path (map_generic_path mono_type mono_constgeneric p) m ai d = Inr q) ms ns"
  by (simp add: res_list_Inr_iff list_eq_iff_nth_eq list_all2_conv_all_nth)

lemma mono_trait_object_parts:
  assumes "mono_type (Ty_TraitObject tr ms l) m ai d = Inr x" "mn_callback m = (\<lambda>_. None)"
  obtains h' p' tbs' bbs' ms' l' e e' where "x = Ty_TraitObject (TraitPath h' p' tbs' bbs' (tp_trait_ptr tr)) ms' l'"
    and "mono_generic_path (map_generic_path mono_type mono_constgeneric (tp_path tr)) m ai e = Inr p'"
    and "list_all2 (\<lambda>p q. mono_generic_path (map_generic_path mono_type mono_constgeneric p) m ai e' = Inr q) ms ms'"
proof -
  obtain h p tbs bbs tp where tr: "tr = TraitPath h p tbs bbs tp" by (cases tr)
  obtain a ms' l' where x: "x = Ty_TraitObject a ms' l'"
    and a: "mono_trait_path (map_trait_path mono_type mono_constgeneric clone_generics tr) False m ai (hrb_depth h d) = Inr a"
    and ms': "res_list (map (\<lambda>p. mono_generic_path p m ai (hrb_depth h d)) (map (map_generic_path mono_type mono_constgeneric) ms)) = Inr ms'"
    using assms by (auto simp: mono_over_def mono_trait_object_def tr simp del: map_map)
  obtain h' p' tbs' bbs' where "a = TraitPath h' p' tbs' bbs' tp"
    and "mono_generic_path (map_generic_path mono_type mono_constgeneric p) m ai (hrb_depth h (hrb_depth h d)) = Inr p'"
    using a by (auto simp: tr Let_def simp del: map_map)
  then show ?thesis using x mono_markers [OF ms'] that by (simp add: tr)
qed

section \<open>An instance is not less specific\<close>

definition not_less :: "ord_res \<Rightarrow> bool" where "not_less r \<longleftrightarrow> r \<noteq> Inr OrdLess"

lemma not_less_simps [simp]: "not_less (Inl e)" "not_less (Inr c) \<longleftrightarrow> c \<noteq> OrdLess" "not_less (mismatched_types x)"
  by (simp_all add: not_less_def mismatched_types_def)

lemma simple_path_eq_same [simp]: "simple_path_eq p p" by (simp add: simple_path_eq_def)

lemma specific_over_not_less:
  "\<not> is_generic l \<Longrightarrow> not_less (f ev r) \<Longrightarrow> not_less (specific_over l f ev r)"
  by (cases "ty_eq l ev r") (auto simp: specific_over_def not_less_def)

lemma typelist_not_less:
  "list_all2 (\<lambda>t u. not_less (type_ord_specific t ev u)) ts us \<Longrightarrow> rv \<noteq> OrdLess
    \<Longrightarrow> not_less (typelist_specific_loop rv ev (map type_ord_specific ts) us)"
proof (induction ts arbitrary: us rv)
  case (Cons t ts)
  then obtain u us' where u: "us = u # us'" "not_less (type_ord_specific t ev u)"
      "list_all2 (\<lambda>t u. not_less (type_ord_specific t ev u)) ts us'"
    by (auto simp: list_all2_Cons1)
  show ?case
  proof (cases "type_ord_specific t ev u")
    case (Inr c)
    then have "c \<noteq> OrdLess" using u(2) by simp
    then show ?thesis using Cons.IH [OF u(3)] Cons.prems(2) by (auto simp: u(1) Inr)
  qed (simp add: u(1))
qed simp

lemma typelist_specific_not_less:
  "list_all2 (\<lambda>t u. not_less (type_ord_specific t ev u)) ts us
    \<Longrightarrow> not_less (typelist_specific ev (map type_ord_specific ts) us)"
  using typelist_not_less [of ev ts us OrdEqual] by (simp add: typelist_specific_def)

lemma markers_not_less:
  "list_all2 (\<lambda>p q. gp_path q = gp_path p
      \<and> list_all2 (\<lambda>t u. not_less (type_ord_specific t ev u)) (pp_types (gp_params p)) (pp_types (gp_params q))) ms ns
    \<Longrightarrow> not_less (markers_specific ev (map (map_generic_path type_ord_specific id) ms) ns)"
proof (induction ms arbitrary: ns)
  case (Cons p ms)
  obtain sp ps where p: "p = GenericPath sp ps" by (cases p)
  obtain ls ts vs where ps: "ps = PathParams ls ts vs" by (cases ps)
  from Cons.prems obtain q ns' where q: "ns = q # ns'" "gp_path q = gp_path p"
      "list_all2 (\<lambda>t u. not_less (type_ord_specific t ev u)) ts (pp_types (gp_params q))"
    and r: "list_all2 (\<lambda>p q. gp_path q = gp_path p
      \<and> list_all2 (\<lambda>t u. not_less (type_ord_specific t ev u)) (pp_types (gp_params p)) (pp_types (gp_params q))) ms ns'"
    by (auto simp: list_all2_Cons1 p ps)
  note rest = Cons.IH [OF r]
  have "not_less (typelist_specific ev (map type_ord_specific ts) (pp_types (gp_params q)))"
    by (rule typelist_specific_not_less [OF q(3)])
  then show ?case
    using rest q(2) by (cases "typelist_specific ev (map type_ord_specific ts) (pp_types (gp_params q))")
      (auto simp: q(1,2) p ps)
qed simp

definition instance_not_less :: "type_ref \<Rightarrow> bool" where
  "instance_not_less u \<longleftrightarrow> (\<forall>m ai d t ev. mn_callback m = (\<lambda>_. None) \<longrightarrow> mono_type u m ai d = Inr t
     \<longrightarrow> not_less (type_ord_specific t ev u))"

lemma instance_not_lessD:
  "instance_not_less u \<Longrightarrow> mn_callback m = (\<lambda>_. None) \<Longrightarrow> mono_type u m ai d = Inr t \<Longrightarrow> not_less (type_ord_specific t ev u)"
  by (auto simp: instance_not_less_def)

lemma instances_not_less:
  assumes "list_all2 (\<lambda>u t. mono_type u m ai d = Inr t) us ts" "\<forall>u \<in> set us. instance_not_less u" "mn_callback m = (\<lambda>_. None)"
  shows "list_all2 (\<lambda>t u. not_less (type_ord_specific t ev u)) ts us"
  using assms(1,2) instance_not_lessD [OF _ assms(3)]
  by (induction rule: list_all2_induct) auto

lemma instance_not_lessI:
  "(\<And>m ai d t ev. mn_callback m = (\<lambda>_. None) \<Longrightarrow> mono_type u m ai d = Inr t \<Longrightarrow> not_less (type_ord_specific t ev u))
    \<Longrightarrow> instance_not_less u"
  unfolding instance_not_less_def by blast

lemma params_instances_not_less:
  assumes "mono_generic_path (map_generic_path mono_type mono_constgeneric p) m ai d = Inr q"
    and "\<forall>u \<in> set1_generic_path p. instance_not_less u" "mn_callback m = (\<lambda>_. None)"
  shows "gp_path q = gp_path p
    \<and> list_all2 (\<lambda>t u. not_less (type_ord_specific t ev u)) (pp_types (gp_params q)) (pp_types (gp_params p))"
proof -
  obtain sp ls ts vs where p: "p = GenericPath sp (PathParams ls ts vs)" by (metis generic_path.exhaust path_params.exhaust)
  show ?thesis
    using mono_generic_path_types [OF assms(1)] assms(2,3) by (auto simp: p intro!: instances_not_less)
qed

lemma path_specific_not_less:
  assumes "gp_path g' = gp_path g"
    and "list_all2 (\<lambda>t u. not_less (type_ord_specific t ev u)) (pp_types (gp_params g')) (pp_types (gp_params g))"
  shows "not_less (path_specific (map_path type_ord_specific id id (Path_Generic g')) ev (Path_Generic g))"
proof -
  obtain sp ls ts vs where g: "g' = GenericPath sp (PathParams ls ts vs)" by (metis generic_path.exhaust path_params.exhaust)
  show ?thesis
    using assms typelist_specific_not_less by (simp add: g path_specific_def)
qed

lemma all_instances_not_less:
  "instance_not_less t \<and> (\<lambda>v :: const_generic. True) v \<and> (\<lambda>g :: generic_params. True) g"
proof (rule type_ref_const_generic_generic_params.induct, goal_cases)
  case (1 i c) show ?case
    by (rule instance_not_lessI) (auto simp: mono_over_def is_generic_def split: if_splits intro!: specific_over_not_less)
next
  case 2 show ?case
    by (rule instance_not_lessI) (auto simp: mono_over_def is_generic_def intro!: specific_over_not_less)
next
  case (3 c) show ?case
    by (rule instance_not_lessI) (auto simp: mono_over_def is_generic_def intro!: specific_over_not_less)
next
  case (4 p b h)
  show ?case
  proof (rule instance_not_lessI)
    fix m ai d t ev
    assume m: "mn_callback m = (\<lambda>_ :: type_ref. None :: type_ref option)" and t: "mono_type (Ty_Path p b h) m ai d = Inr t"
    obtain p' where t': "t = Ty_Path p' (rebind_path b) None"
        and p': "mono_path (map_path mono_type mono_constgeneric clone_generics p) m ai d = Inr p'"
      using t by (auto simp: mono_over_def m)
    have "not_less (path_specific (map_path type_ord_specific id id p') ev p)"
    proof (cases p)
      case (Path_Generic g)
      then obtain g' where g': "p' = Path_Generic g'" "mono_generic_path (map_generic_path mono_type mono_constgeneric g) m ai d = Inr g'"
        using p' by (auto simp: mono_path_def)
      have "\<forall>u \<in> set1_generic_path g. instance_not_less u" using 4 by (auto simp: Path_Generic)
      from params_instances_not_less [OF g'(2) this m] show ?thesis
        unfolding g'(1) Path_Generic by (intro path_specific_not_less) auto
    qed (use p' in \<open>auto simp: mono_path_def path_specific_def\<close>)
    then show "not_less (type_ord_specific t ev (Ty_Path p b h))"
      by (simp add: t' specific_over_not_less is_generic_def)
  qed
next
  case (5 g)
  have "not_less (type_ord_specific t ev (Ty_Generic g))" for t ev
    by (cases t) (simp_all add: specific_over_def is_generic_def)
  then show ?case by (rule instance_not_lessI)
next
  case (6 tr ms l)
  show ?case
  proof (rule instance_not_lessI)
    fix m ai d t ev
    assume m: "mn_callback m = (\<lambda>_ :: type_ref. None :: type_ref option)" and t: "mono_type (Ty_TraitObject tr ms l) m ai d = Inr t"
    obtain h' p' tbs' bbs' ms' l' e e' where t': "t = Ty_TraitObject (TraitPath h' p' tbs' bbs' (tp_trait_ptr tr)) ms' l'"
      and p': "mono_generic_path (map_generic_path mono_type mono_constgeneric (tp_path tr)) m ai e = Inr p'"
      and ms': "list_all2 (\<lambda>p q. mono_generic_path (map_generic_path mono_type mono_constgeneric p) m ai e' = Inr q) ms ms'"
      by (rule mono_trait_object_parts [OF t m])
    have "\<forall>u \<in> set1_generic_path (tp_path tr). instance_not_less u" using 6(1) by (cases tr) auto
    note p = params_instances_not_less [OF p' this m, of ev]
    have "list_all2 (\<lambda>q p. gp_path p = gp_path q
        \<and> list_all2 (\<lambda>t u. not_less (type_ord_specific t ev u)) (pp_types (gp_params q)) (pp_types (gp_params p))) ms' ms"
    proof (rule list_all2_all_nthI)
      show "length ms' = length ms" using ms' by (simp add: list_all2_lengthD)
      fix i assume i: "i < length ms'"
      then have "mono_generic_path (map_generic_path mono_type mono_constgeneric (ms ! i)) m ai e' = Inr (ms' ! i)"
          "\<forall>u \<in> set1_generic_path (ms ! i). instance_not_less u"
        using ms' 6(4) [of "ms ! i"] by (auto simp: list_all2_conv_all_nth)
      from params_instances_not_less [OF this m]
      show "gp_path (ms ! i) = gp_path (ms' ! i)
        \<and> list_all2 (\<lambda>t u. not_less (type_ord_specific t ev u)) (pp_types (gp_params (ms' ! i))) (pp_types (gp_params (ms ! i)))"
        by simp_all
    qed
    note ms = markers_not_less [OF this]
    obtain sp ls ts vs where g: "p' = GenericPath sp (PathParams ls ts vs)" by (metis generic_path.exhaust path_params.exhaust)
    have "not_less (typelist_specific ev (map type_ord_specific ts) (pp_types (gp_params (tp_path tr))))"
      using p by (intro typelist_specific_not_less) (simp add: g)
    then have "not_less (trait_object_specific (map_trait_path type_ord_specific id id (TraitPath h' p' tbs' bbs' (tp_trait_ptr tr)))
        (map (map_generic_path type_ord_specific id) ms') ev tr ms)"
      using ms p by (cases "typelist_specific ev (map type_ord_specific ts) (pp_types (gp_params (tp_path tr)))")
        (auto simp: trait_object_specific_def g)
    then show "not_less (type_ord_specific t ev (Ty_TraitObject tr ms l))"
      by (simp add: t' specific_over_not_less is_generic_def)
  qed
next
  case (7 sized trs ls i) show ?case
    by (rule instance_not_lessI)
      (auto simp: mono_over_def mono_erased_type_def is_generic_def intro!: specific_over_not_less)
next
  case (8 t n)
  show ?case
  proof (rule instance_not_lessI)
    fix m ai d r ev
    assume m: "mn_callback m = (\<lambda>_ :: type_ref. None :: type_ref option)" and r: "mono_type (Ty_Array t n) m ai d = Inr r"
    then obtain u k where u: "r = Ty_Array u k" "mono_type t m ai d = Inr u" by (auto simp: mono_over_def mono_array_def)
    have "not_less (type_ord_specific u ev t)" using instance_not_lessD [OF _ m u(2)] 8 by blast
    then have "not_less (res_bind (is_equal (array_size_ord k ev n)) (\<lambda>eq.
        if \<not> eq then mismatched_types (Ty_Array t n) else type_ord_specific u ev t))"
      by (cases "is_equal (array_size_ord k ev n)") auto
    then show "not_less (type_ord_specific r ev (Ty_Array t n))"
      by (simp add: u(1) specific_over_not_less is_generic_def)
  qed
next
  case (9 t) show ?case
    using 9 unfolding instance_not_less_def by (auto simp: mono_over_def is_generic_def intro!: specific_over_not_less)
next
  case (10 ts)
  show ?case
  proof (rule instance_not_lessI)
    fix m ai d r ev
    assume m: "mn_callback m = (\<lambda>_ :: type_ref. None :: type_ref option)" and r: "mono_type (Ty_Tuple ts) m ai d = Inr r"
    then obtain us where u: "r = Ty_Tuple us" "list_all2 (\<lambda>t u. mono_type t m ai d = Inr u) ts us"
      by (auto simp: mono_over_def mono_types_iff simp del: map_map)
    have "list_all2 (\<lambda>t u. not_less (type_ord_specific t ev u)) us ts"
      using u(2) 10 m by (intro instances_not_less) auto
    from typelist_specific_not_less [OF this] show "not_less (type_ord_specific r ev (Ty_Tuple ts))"
      by (simp add: u(1) specific_over_not_less is_generic_def)
  qed
next
  case (11 l b t) show ?case
    using 11 unfolding instance_not_less_def by (auto simp: mono_over_def is_generic_def intro!: specific_over_not_less)
next
  case (12 b t) show ?case
    using 12 unfolding instance_not_less_def by (auto simp: mono_over_def is_generic_def intro!: specific_over_not_less)
next
  case (13 p f) show ?case
    by (rule instance_not_lessI) (auto simp: mono_over_def is_generic_def intro!: specific_over_not_less)
next
  case (14 h us va abi r as) show ?case
    by (rule instance_not_lessI)
      (auto simp: mono_over_def mono_function_def is_generic_def intro!: specific_over_not_less)
next
  case (15 n) show ?case
    by (rule instance_not_lessI) (auto simp: mono_over_def is_generic_def intro!: specific_over_not_less)
next
  case (16 n) show ?case
    by (rule instance_not_lessI) (auto simp: mono_over_def is_generic_def intro!: specific_over_not_less)
qed simp_all

end
