(* ===== verification/Impl_Overlap_Facts.thy ===== *)
theory Impl_Overlap_Facts
  imports Impl_Specific_Facts Impl_Index
begin

text \<open>
  \<open>types_overlap\<close> is right to say no: two types that do not overlap have no common instance.  Types are compared by
  their keys, so an instance is one up to lifetimes.  Paths of associated types, which the code leaves as a \<open>TODO\<close>, and
  array sizes with parameters are excluded.
\<close>

section \<open>Patterns\<close>

definition named_pattern :: "(bool, 'v, 'g) path \<Rightarrow> bool" where
  "named_pattern p = (case p of Path_Generic g \<Rightarrow> list_all id (pp_types (gp_params g)) | _ \<Rightarrow> False)"

definition params_pattern :: "(bool, 'v) generic_path \<Rightarrow> bool" where
  "params_pattern g = list_all id (pp_types (gp_params g))"

definition size_known :: "'v array_size \<Rightarrow> bool" where
  "size_known n = (case n of AS_Known _ \<Rightarrow> True | _ \<Rightarrow> False)"

primrec type_pattern :: "type_ref \<Rightarrow> bool" where
  "type_pattern (Ty_Infer i c) = True"
| "type_pattern Ty_Diverge = True"
| "type_pattern (Ty_Primitive c) = True"
| "type_pattern (Ty_Path p b h) = named_pattern (map_path type_pattern id id p)"
| "type_pattern (Ty_Generic g) = True"
| "type_pattern (Ty_TraitObject tr ms l) = (params_pattern (tp_path (map_trait_path type_pattern id id tr))
     \<and> list_all params_pattern (map (map_generic_path type_pattern id) ms))"
| "type_pattern (Ty_ErasedType sized trs ls i) = True"
| "type_pattern (Ty_Array t n) = (type_pattern t \<and> size_known n)"
| "type_pattern (Ty_Slice t) = type_pattern t"
| "type_pattern (Ty_Tuple ts) = list_all id (map type_pattern ts)"
| "type_pattern (Ty_Borrow l b t) = type_pattern t"
| "type_pattern (Ty_Pointer b t) = type_pattern t"
| "type_pattern (Ty_NamedFunction p f) = named_pattern (map_path type_pattern id id p)"
| "type_pattern (Ty_Function h us va abi r as) = (list_all id (map type_pattern as) \<and> type_pattern r)"
| "type_pattern (Ty_Closure n) = True"
| "type_pattern (Ty_Generator n) = True"

lemma params_pattern_iff: "params_pattern (map_generic_path type_pattern id g) \<longleftrightarrow> (\<forall>t \<in> set (pp_types (gp_params g)). type_pattern t)"
proof -
  obtain sp ls ts vs where "g = GenericPath sp (PathParams ls ts vs)" by (metis generic_path.exhaust path_params.exhaust)
  then show ?thesis by (simp add: params_pattern_def list_all_iff)
qed

lemmas params_pattern_iffs = params_pattern_iff params_pattern_iff [unfolded id_def]

lemma named_pattern_iff: "named_pattern (map_path type_pattern id id p)
  \<longleftrightarrow> (\<exists>g. p = Path_Generic g \<and> (\<forall>t \<in> set (pp_types (gp_params g)). type_pattern t))"
  using params_pattern_iff by (cases p) (auto simp: named_pattern_def params_pattern_def)

section \<open>Types with equal keys\<close>

lemma key_head: "\<exists>k. order_key t = type_tag t # k" by (cases t) simp_all

lemma keys_tag: "order_key t = order_key u \<Longrightarrow> type_tag t = type_tag u"
  using key_head [of t] key_head [of u] by auto

lemma types_keys:
  assumes "\<forall>t \<in> set ts. orderly_type t" "\<forall>u \<in> set us. orderly_type u"
  shows "key_vec (map order_key ts) = key_vec (map order_key us) \<longleftrightarrow> map order_key ts = map order_key us"
  using assms type_keys_apart by (intro key_vec_inject) auto

lemma type_vec_apart:
  assumes "\<forall>t \<in> set ts. orderly_type t" "\<forall>u \<in> set us. orderly_type u"
  shows "apart (key_vec (map order_key ts)) (key_vec (map order_key us))"
  using assms keys_agree by (intro agree_apart [OF agree_ops [where f = ty_ord and Q = orderly_type and ev = undefined]])
    (auto simp: list_all_iff)

lemma generic_path_keys:
  assumes "orderly_generic_path p" "orderly_generic_path q" "generic_path_key p @ a = generic_path_key q @ b"
  shows "gp_path p = gp_path q \<and> map order_key (pp_types (gp_params p)) = map order_key (pp_types (gp_params q)) \<and> a = b"
proof -
  obtain sp ls ts vs where p: "p = GenericPath sp (PathParams ls ts vs)" by (metis generic_path.exhaust path_params.exhaust)
  obtain sq ks us ws where q: "q = GenericPath sq (PathParams ks us ws)" by (metis generic_path.exhaust path_params.exhaust)
  have "agree (generic_path_ord p undefined q) (generic_path_key p) (generic_path_key q)"
    using assms(1,2) by (simp add: generic_path_ord_def agree_generic_path kids_agree_all)
  from apart_inject [OF agree_apart [OF this]] assms(3)
  have k: "generic_path_key p = generic_path_key q" and ab: "a = b" by simp_all
  have "apart (key_simple_path sp) (key_simple_path sq)" by (rule agree_apart [OF agree_simple_path])
  then have "key_simple_path sp = key_simple_path sq" "params_key (gp_params p) = params_key (gp_params q)"
    using k by (simp_all add: p q key_generic_path_def apart_inject)
  moreover have "ord_simple_path sp sq = OrdEqual \<longleftrightarrow> key_simple_path sp = key_simple_path sq"
    using agree_equal [OF agree_simple_path [of sp sq]] by (simp add: is_equal_def)
  ultimately have s: "sp = sq" by (simp add: path_ord.equal_iff)
  have o: "\<forall>t \<in> set ts. orderly_type t" "\<forall>u \<in> set us. orderly_type u"
    using assms(1,2) by (simp_all add: p q list_all_iff)
  have "apart (key_vec (map order_key ts)) (key_vec (map order_key us))" by (rule type_vec_apart [OF o])
  then have "key_vec (map order_key ts) = key_vec (map order_key us)"
    using \<open>params_key (gp_params p) = params_key (gp_params q)\<close> by (simp add: p q key_path_params_def apart_inject)
  then show ?thesis using s ab types_keys [OF o] by (simp add: p q)
qed

section \<open>No common instance\<close>

lemma mono_tag:
  "mn_callback m = (\<lambda>_. None) \<Longrightarrow> \<not> is_generic t \<Longrightarrow> mono_type t m ai d = Inr x \<Longrightarrow> type_tag x = type_tag t"
  by (cases t) (auto simp: mono_over_def is_generic_def mono_trait_object_def mono_erased_type_def mono_array_def
    mono_function_def split: if_splits)

definition may_overlap :: "error + bool \<Rightarrow> bool" where "may_overlap r \<longleftrightarrow> r \<noteq> Inr False"

lemma may_overlap_and_also: "may_overlap a \<Longrightarrow> may_overlap b \<Longrightarrow> may_overlap (and_also a b)"
  by (cases a) (auto simp: may_overlap_def and_also_def)

lemma may_overlap_overI:
  "type_tag a = type_tag b \<or> is_generic a \<or> is_generic b \<Longrightarrow> (\<not> is_generic a \<Longrightarrow> \<not> is_generic b \<Longrightarrow> may_overlap (f ev b))
    \<Longrightarrow> may_overlap (overlap_over a f ev b)"
  by (cases "ty_eq a ev b") (auto simp: overlap_over_def may_overlap_def)

lemma all_may_overlap:
  "list_all2 (\<lambda>t u. may_overlap (types_overlap t ev u)) ts us \<Longrightarrow> may_overlap (all_overlap ev (map types_overlap ts) us)"
  by (induction rule: list_all2_induct) (simp_all add: may_overlap_and_also, simp add: may_overlap_def)

definition overlaps_ok :: "type_ref \<Rightarrow> bool" where
  "overlaps_ok t \<longleftrightarrow> (\<forall>u ev m n a1 a2 d1 d2 x y. mn_callback m = (\<lambda>_. None) \<and> mn_callback n = (\<lambda>_. None)
     \<and> type_pattern t \<and> type_pattern u \<and> mono_type t m a1 d1 = Inr x \<and> mono_type u n a2 d2 = Inr y
     \<and> orderly_type x \<and> orderly_type y \<and> order_key x = order_key y \<longrightarrow> may_overlap (types_overlap t ev u))"

lemma overlaps_okD:
  "overlaps_ok t \<Longrightarrow> mn_callback m = (\<lambda>_. None) \<Longrightarrow> mn_callback n = (\<lambda>_. None) \<Longrightarrow> type_pattern t \<Longrightarrow> type_pattern u
    \<Longrightarrow> mono_type t m a1 d1 = Inr x \<Longrightarrow> mono_type u n a2 d2 = Inr y
    \<Longrightarrow> orderly_type x \<Longrightarrow> orderly_type y \<Longrightarrow> order_key x = order_key y \<Longrightarrow> may_overlap (types_overlap t ev u)"
  unfolding overlaps_ok_def by blast

text \<open>It is enough to look at two types of the same form.\<close>

lemma overlaps_okI:
  assumes "\<And>u ev m n a1 a2 d1 d2 x y. mn_callback m = (\<lambda>_. None) \<Longrightarrow> mn_callback n = (\<lambda>_. None) \<Longrightarrow> type_pattern t
      \<Longrightarrow> type_pattern u \<Longrightarrow> mono_type t m a1 d1 = Inr x \<Longrightarrow> mono_type u n a2 d2 = Inr y
      \<Longrightarrow> orderly_type x \<Longrightarrow> orderly_type y \<Longrightarrow> order_key x = order_key y \<Longrightarrow> type_tag t = type_tag u \<Longrightarrow> may_overlap (f ev u)"
    and "types_overlap t = overlap_over t f"
  shows "overlaps_ok t"
  unfolding overlaps_ok_def assms(2)
proof (intro allI impI, elim conjE, rule may_overlap_overI)
  fix u ev m n a1 a2 d1 d2 x y
  assume a: "mn_callback m = (\<lambda>_ :: type_ref. None :: type_ref option)" "mn_callback n = (\<lambda>_ :: type_ref. None :: type_ref option)"
    "type_pattern t" "type_pattern u" "mono_type t m a1 d1 = Inr x" "mono_type u n a2 d2 = Inr y"
    "orderly_type x" "orderly_type y" "order_key x = order_key y"
  then show tags: "type_tag t = type_tag u \<or> is_generic t \<or> is_generic u"
    using mono_tag [of m t a1 d1 x] mono_tag [of n u a2 d2 y] keys_tag [of x y] by metis
  assume "\<not> is_generic t" "\<not> is_generic u"
  then have "type_tag t = type_tag u" using tags by blast
  from assms(1) [OF a this] show "may_overlap (f ev u)" .
qed

lemma lists_overlap:
  assumes "mn_callback m = (\<lambda>_. None)" "mn_callback n = (\<lambda>_. None)"
    and "list_all2 (\<lambda>t x. mono_type t m a1 d1 = Inr x) ts xs" "list_all2 (\<lambda>u y. mono_type u n a2 d2 = Inr y) us ys"
    and "\<forall>t \<in> set ts. overlaps_ok t \<and> type_pattern t" "\<forall>u \<in> set us. type_pattern u"
    and "\<forall>x \<in> set xs. orderly_type x" "\<forall>y \<in> set ys. orderly_type y" "map order_key xs = map order_key ys"
  shows "may_overlap (all_overlap ev (map types_overlap ts) us) \<and> length ts = length us"
proof -
  have l: "length ts = length xs" "length us = length ys" "length xs = length ys"
    using assms(3,4,9) by (auto dest: list_all2_lengthD map_eq_imp_length_eq)
  have "may_overlap (types_overlap (ts ! i) ev (us ! i))" if "i < length ts" for i
  proof (rule overlaps_okD [OF _ assms(1,2)])
    show "overlaps_ok (ts ! i)" "type_pattern (ts ! i)" using assms(5) that by auto
    show "type_pattern (us ! i)" using assms(6) l that by auto
    show "mono_type (ts ! i) m a1 d1 = Inr (xs ! i)" "mono_type (us ! i) n a2 d2 = Inr (ys ! i)"
      using assms(3,4) l that by (auto simp: list_all2_conv_all_nth)
    show "orderly_type (xs ! i)" "orderly_type (ys ! i)" using assms(7,8) l that by auto
    show "order_key (xs ! i) = order_key (ys ! i)" using assms(9) l that by (metis nth_map)
  qed
  then have "list_all2 (\<lambda>t u. may_overlap (types_overlap t ev u)) ts us" using l by (simp add: list_all2_conv_all_nth)
  then show ?thesis using all_may_overlap l by simp
qed

lemma generic_paths_overlap:
  assumes "mn_callback m = (\<lambda>_. None)" "mn_callback n = (\<lambda>_. None)"
    and x: "mono_generic_path (map_generic_path mono_type mono_constgeneric g) m a1 d1 = Inr x"
    and y: "mono_generic_path (map_generic_path mono_type mono_constgeneric h) n a2 d2 = Inr y"
    and "\<forall>t \<in> set1_generic_path g. overlaps_ok t"
    and "\<forall>t \<in> set (pp_types (gp_params g)). type_pattern t" "\<forall>t \<in> set (pp_types (gp_params h)). type_pattern t"
    and "orderly_generic_path x" "orderly_generic_path y" "generic_path_key x @ a = generic_path_key y @ b"
  shows "gp_path g = gp_path h \<and> may_overlap (all_overlap ev (map types_overlap (pp_types (gp_params g))) (pp_types (gp_params h))) \<and> a = b"
proof -
  obtain sp ls ts vs where g: "g = GenericPath sp (PathParams ls ts vs)" by (metis generic_path.exhaust path_params.exhaust)
  obtain sx lx xs vx where xx: "x = GenericPath sx (PathParams lx xs vx)" by (metis generic_path.exhaust path_params.exhaust)
  obtain sy ly ys vy where yy: "y = GenericPath sy (PathParams ly ys vy)" by (metis generic_path.exhaust path_params.exhaust)
  note k = generic_path_keys [OF assms(8-10)]
  have "\<forall>x \<in> set xs. orderly_type x" "\<forall>y \<in> set ys. orderly_type y"
    using assms(8,9) by (simp_all add: xx yy list_all_iff)
  moreover have "\<forall>t \<in> set ts. overlaps_ok t \<and> type_pattern t" using assms(5,6) by (simp add: g)
  moreover have "list_all2 (\<lambda>t x. mono_type t m a1 d1 = Inr x) ts xs"
      "list_all2 (\<lambda>u y. mono_type u n a2 d2 = Inr y) (pp_types (gp_params h)) ys" "map order_key xs = map order_key ys"
    using mono_generic_path_types [OF x] mono_generic_path_types [OF y] k by (simp_all add: g xx yy)
  ultimately have "may_overlap (all_overlap ev (map types_overlap ts) (pp_types (gp_params h)))"
    using lists_overlap [OF assms(1,2)] assms(7) by blast
  then show ?thesis using k mono_generic_path_types [OF x] mono_generic_path_types [OF y] by (simp add: g)
qed

lemma paths_overlap:
  assumes "mn_callback m = (\<lambda>_. None)" "mn_callback n = (\<lambda>_. None)"
    and x: "mono_path (map_path mono_type mono_constgeneric clone_generics p) m a1 d1 = Inr x"
    and y: "mono_path (map_path mono_type mono_constgeneric clone_generics q) n a2 d2 = Inr y"
    and "\<forall>t \<in> set1_path p. overlaps_ok t"
    and "named_pattern (map_path type_pattern id id p)" "named_pattern (map_path type_pattern id id q)"
    and "orderly_path x" "orderly_path y" "path_key x = path_key y"
  shows "may_overlap (path_overlap (map_path types_overlap id id p) ev q)"
proof -
  obtain g h where g: "p = Path_Generic g" "\<forall>t \<in> set (pp_types (gp_params g)). type_pattern t"
    and h: "q = Path_Generic h" "\<forall>t \<in> set (pp_types (gp_params h)). type_pattern t"
    using assms(6,7) unfolding named_pattern_iff by blast
  obtain x' where x': "x = Path_Generic x'" "mono_generic_path (map_generic_path mono_type mono_constgeneric g) m a1 d1 = Inr x'"
    using x by (auto simp: g mono_path_def)
  obtain y' where y': "y = Path_Generic y'" "mono_generic_path (map_generic_path mono_type mono_constgeneric h) n a2 d2 = Inr y'"
    using y by (auto simp: h mono_path_def)
  have "gp_path g = gp_path h \<and> may_overlap (all_overlap ev (map types_overlap (pp_types (gp_params g))) (pp_types (gp_params h)))"
    using generic_paths_overlap [OF assms(1,2) x'(2) y'(2) _ g(2) h(2), of "[]" "[]" ev] assms(5,8-10) by (simp add: g x' y')
  moreover obtain sp ls ts vs where "g = GenericPath sp (PathParams ls ts vs)" by (metis generic_path.exhaust path_params.exhaust)
  ultimately show ?thesis by (simp add: g(1) h(1) path_overlap_def)
qed

lemma markers_overlap_ok:
  assumes "mn_callback m = (\<lambda>_. None)" "mn_callback n = (\<lambda>_. None)"
    and "list_all2 (\<lambda>g x. mono_generic_path (map_generic_path mono_type mono_constgeneric g) m a1 d1 = Inr x) gs xs"
    and "list_all2 (\<lambda>h y. mono_generic_path (map_generic_path mono_type mono_constgeneric h) n a2 d2 = Inr y) hs ys"
    and "\<forall>g \<in> set gs. (\<forall>t \<in> set1_generic_path g. overlaps_ok t) \<and> params_pattern (map_generic_path type_pattern id g)"
    and "\<forall>h \<in> set hs. params_pattern (map_generic_path type_pattern id h)"
    and "\<forall>x \<in> set xs. orderly_generic_path x" "\<forall>y \<in> set ys. orderly_generic_path y"
    and "map (\<lambda>p. generic_path_key p) xs = map (\<lambda>p. generic_path_key p) ys"
  shows "may_overlap (markers_overlap ev (map (map_generic_path types_overlap id) gs) hs) \<and> length gs = length hs"
  using assms(3-9)
proof (induction gs arbitrary: xs hs ys)
  case Nil
  then show ?case by (auto simp: may_overlap_def)
next
  case (Cons g gs)
  then obtain x xs' where x: "xs = x # xs'" "mono_generic_path (map_generic_path mono_type mono_constgeneric g) m a1 d1 = Inr x"
      "list_all2 (\<lambda>g x. mono_generic_path (map_generic_path mono_type mono_constgeneric g) m a1 d1 = Inr x) gs xs'"
    by (auto simp: list_all2_Cons1)
  then obtain y ys' where y: "ys = y # ys'" using Cons.prems(7) by (cases ys) auto
  then obtain h hs' where h: "hs = h # hs'" "mono_generic_path (map_generic_path mono_type mono_constgeneric h) n a2 d2 = Inr y"
      "list_all2 (\<lambda>h y. mono_generic_path (map_generic_path mono_type mono_constgeneric h) n a2 d2 = Inr y) hs' ys'"
    using Cons.prems(2) by (auto simp: list_all2_Cons2)
  have rest: "may_overlap (markers_overlap ev (map (map_generic_path types_overlap id) gs) hs') \<and> length gs = length hs'"
    using Cons.prems(3-7) by (intro Cons.IH [OF x(3) h(3)]) (simp_all add: x(1) y h(1))
  have "gp_path g = gp_path h \<and> may_overlap (all_overlap ev (map types_overlap (pp_types (gp_params g))) (pp_types (gp_params h)))"
    using generic_paths_overlap [OF assms(1,2) x(2) h(2), of "[]" "[]" ev] Cons.prems(3-7)
    by (simp add: x(1) y h(1) params_pattern_iffs)
  moreover obtain sp ls ts vs where "g = GenericPath sp (PathParams ls ts vs)" by (metis generic_path.exhaust path_params.exhaust)
  ultimately show ?case using rest by (simp add: h(1) may_overlap_and_also id_def)
qed

lemma trait_objects_overlap:
  assumes t: "mn_callback m = (\<lambda>_. None)" "mn_callback n = (\<lambda>_. None)"
    and p: "type_pattern (Ty_TraitObject tr ms l)" "type_pattern (Ty_TraitObject ur ns k)"
    and x: "mono_type (Ty_TraitObject tr ms l) m a1 d1 = Inr x" and y: "mono_type (Ty_TraitObject ur ns k) n a2 d2 = Inr y"
    and o: "orderly_type x" "orderly_type y" "order_key x = order_key y"
    and ok: "\<forall>t \<in> set1_generic_path (tp_path tr). overlaps_ok t" "\<forall>g \<in> set ms. \<forall>t \<in> set1_generic_path g. overlaps_ok t"
  shows "may_overlap (trait_object_overlap (map_trait_path types_overlap id id tr) (map (map_generic_path types_overlap id) ms) ev ur ns)"
proof -
  obtain h1 p1 tbs1 bbs1 ms1 l1 e1 f1 where x1: "x = Ty_TraitObject (TraitPath h1 p1 tbs1 bbs1 (tp_trait_ptr tr)) ms1 l1"
    and p1: "mono_generic_path (map_generic_path mono_type mono_constgeneric (tp_path tr)) m a1 e1 = Inr p1"
    and ms1: "list_all2 (\<lambda>p q. mono_generic_path (map_generic_path mono_type mono_constgeneric p) m a1 f1 = Inr q) ms ms1"
    by (rule mono_trait_object_parts [OF x t(1)])
  obtain h2 p2 tbs2 bbs2 ms2 l2 e2 f2 where y2: "y = Ty_TraitObject (TraitPath h2 p2 tbs2 bbs2 (tp_trait_ptr ur)) ms2 l2"
    and p2: "mono_generic_path (map_generic_path mono_type mono_constgeneric (tp_path ur)) n a2 e2 = Inr p2"
    and ms2: "list_all2 (\<lambda>p q. mono_generic_path (map_generic_path mono_type mono_constgeneric p) n a2 f2 = Inr q) ns ms2"
    by (rule mono_trait_object_parts [OF y t(2)])
  have op: "orderly_generic_path p1" "orderly_generic_path p2" "\<forall>g \<in> set ms1. orderly_generic_path g" "\<forall>g \<in> set ms2. orderly_generic_path g"
    using o(1,2) unfolding x1 y2 orderly_type.simps orderly_trait_iff by (simp_all add: list_all_iff orderly_sets)
  have pat: "\<forall>t \<in> set (pp_types (gp_params (tp_path tr))). type_pattern t" "\<forall>t \<in> set (pp_types (gp_params (tp_path ur))). type_pattern t"
      "\<forall>g \<in> set ms. params_pattern (map_generic_path type_pattern id g)" "\<forall>g \<in> set ns. params_pattern (map_generic_path type_pattern id g)"
    using p by (cases tr; cases ur; simp add: list_all_iff params_pattern_iffs)+
  have k: "generic_path_key p1 @ key_vec (map (\<lambda>p. generic_path_key p) ms1) = generic_path_key p2 @ key_vec (map (\<lambda>p. generic_path_key p) ms2)"
    using o(3) by (simp add: x1 y2 comp_def)
  note g = generic_paths_overlap [OF t p1 p2 ok(1) pat(1,2) op(1,2) k, of ev]
  have "map (\<lambda>p. generic_path_key p) ms1 = map (\<lambda>p. generic_path_key p) ms2"
    using g trait_object_keys(4) [OF o(1) [unfolded x1] o(2) [unfolded y2]] key_vec_inject [of ms1 ms2 "\<lambda>p. generic_path_key p"] by blast
  with markers_overlap_ok [OF t ms1 ms2 _ pat(4) op(3,4)] ok(2) pat(3)
  have "may_overlap (markers_overlap ev (map (map_generic_path types_overlap id) ms) ns) \<and> length ms = length ns" by blast
  moreover obtain h sp ls ts vs tbs bbs tp where "tr = TraitPath h (GenericPath sp (PathParams ls ts vs)) tbs bbs tp"
    by (metis trait_path.exhaust generic_path.exhaust path_params.exhaust)
  ultimately show ?thesis
    using g by (simp add: trait_object_overlap_def may_overlap_and_also)
qed

lemma overlaps_ok_single:
  assumes "overlaps_ok t" "mn_callback m = (\<lambda>_. None)" "mn_callback n = (\<lambda>_. None)" "type_pattern t" "type_pattern u"
    and "mono_type t m a1 d1 = Inr x" "mono_type u n a2 d2 = Inr y" "orderly_type x" "orderly_type y"
    and "order_key x @ a = order_key y @ b"
  shows "may_overlap (types_overlap t ev u) \<and> a = b"
  using overlaps_okD [OF assms(1-9)] assms(10) apart_inject [OF type_keys_apart [OF assms(8,9)]] by blast

lemma all_overlaps_ok:
  "overlaps_ok t \<and> (\<lambda>v :: const_generic. True) v \<and> (\<lambda>g :: generic_params. True) g"
proof (rule type_ref_const_generic_generic_params.induct, goal_cases)
  case (1 i c) show ?case by (rule overlaps_okI [OF _ types_overlap.simps(1)]) (simp add: may_overlap_def)
next
  case 2 show ?case by (rule overlaps_okI [OF _ types_overlap.simps(2)]) (simp add: may_overlap_def)
next
  case (3 c)
  show ?case
    by (rule overlaps_okI [OF _ types_overlap.simps(3)])
      (auto simp: tag_forms mono_over_def may_overlap_def core_index_inject)
next
  case (4 p b h)
  show ?case
  proof (rule overlaps_okI [OF _ types_overlap.simps(4)], goal_cases)
    case (1 u ev m n a1 a2 d1 d2 x y)
    then obtain q c k where u: "u = Ty_Path q c k" by (auto simp: tag_forms)
    obtain x' where x: "x = Ty_Path x' (rebind_path b) None"
      "mono_path (map_path mono_type mono_constgeneric clone_generics p) m a1 d1 = Inr x'"
      using 1 by (auto simp: mono_over_def)
    obtain y' where y: "y = Ty_Path y' (rebind_path c) None"
      "mono_path (map_path mono_type mono_constgeneric clone_generics q) n a2 d2 = Inr y'"
      using 1 by (auto simp: u mono_over_def)
    have "\<forall>t \<in> set1_path p. overlaps_ok t" using 4 by blast
    from paths_overlap [OF 1(1,2) x(2) y(2) this, of ev] 1(3,4,7,8,9) show ?case
      by (simp add: u x(1) y(1) orderly_sets)
  qed
next
  case (5 g) show ?case by (rule overlaps_okI [OF _ types_overlap.simps(5)]) (simp add: may_overlap_def)
next
  case (6 tr ms l)
  have tr: "\<forall>t \<in> set1_generic_path (tp_path tr). overlaps_ok t" using 6(1) by (cases tr) auto
  have ms: "\<forall>g \<in> set ms. \<forall>t \<in> set1_generic_path g. overlaps_ok t" using 6(4) by blast
  show ?case
  proof (rule overlaps_okI [OF _ types_overlap.simps(6)], goal_cases)
    case (1 u ev m n a1 a2 d1 d2 x y)
    then obtain ur ns k where u: "u = Ty_TraitObject ur ns k" by (auto simp: tag_forms)
    show ?case
      using trait_objects_overlap [OF 1(1,2,3) 1(4) [unfolded u] 1(5) 1(6) [unfolded u] 1(7-9) tr ms] by (simp add: u)
  qed
next
  case (7 sized trs ls i) show ?case by (rule overlaps_okI [OF _ types_overlap.simps(7)]) (simp add: may_overlap_def)
next
  case (8 t n)
  show ?case
  proof (rule overlaps_okI [OF _ types_overlap.simps(8)], goal_cases)
    case (1 u ev m n' a1 a2 d1 d2 x y)
    then obtain v k where u: "u = Ty_Array v k" by (auto simp: tag_forms)
    obtain i j where s: "n = AS_Known i" "k = AS_Known j"
      using 1(3,4) by (auto simp: u size_known_def split: array_size.splits)
    obtain x' y' where x: "x = Ty_Array x' (AS_Known i)" "mono_type t m a1 d1 = Inr x'"
      and y: "y = Ty_Array y' (AS_Known j)" "mono_type v n' a2 d2 = Inr y'"
      using 1 by (auto simp: u s mono_over_def mono_array_def mono_arraysize_def)
    have "overlaps_ok t" using 8 by blast
    from overlaps_ok_single [OF this 1(1,2) _ _ x(2) y(2), of "key_array_size (AS_Known i)" "key_array_size (AS_Known j)" ev]
    have "may_overlap (types_overlap t ev v) \<and> i = j"
      using 1(3,4,7-9) by (simp add: u x(1) y(1) key_word_inject)
    then show ?case by (simp add: u s array_size_ord_def ord_array_size_def is_equal_def)
  qed
next
  case (9 t)
  show ?case
  proof (rule overlaps_okI [OF _ types_overlap.simps(9)], goal_cases)
    case (1 u ev m n a1 a2 d1 d2 x y)
    then obtain v where u: "u = Ty_Slice v" by (auto simp: tag_forms)
    from 1 9 show ?case by (auto simp: u mono_over_def intro: overlaps_okD)
  qed
next
  case (10 ts)
  show ?case
  proof (rule overlaps_okI [OF _ types_overlap.simps(10)], goal_cases)
    case (1 u ev m n a1 a2 d1 d2 x y)
    then obtain us where u: "u = Ty_Tuple us" by (auto simp: tag_forms)
    obtain xs ys where x: "x = Ty_Tuple xs" "list_all2 (\<lambda>t x. mono_type t m a1 d1 = Inr x) ts xs"
      and y: "y = Ty_Tuple ys" "list_all2 (\<lambda>u y. mono_type u n a2 d2 = Inr y) us ys"
      using 1 by (auto simp: u mono_over_def mono_types_iff simp del: map_map)
    have o: "\<forall>x \<in> set xs. orderly_type x" "\<forall>y \<in> set ys. orderly_type y"
      using 1(7,8) by (simp_all add: x(1) y(1) list_all_iff)
    then have "map order_key xs = map order_key ys" using 1(9) types_keys by (simp add: x(1) y(1))
    moreover have "\<forall>t \<in> set ts. overlaps_ok t \<and> type_pattern t" "\<forall>u \<in> set us. type_pattern u"
      using 10 1(3,4) by (simp_all add: u list_all_iff)
    ultimately show ?case using lists_overlap [OF 1(1,2) x(2) y(2)] o by (simp add: u)
  qed
next
  case (11 l b t)
  show ?case
  proof (rule overlaps_okI [OF _ types_overlap.simps(11)], goal_cases)
    case (1 u ev m n a1 a2 d1 d2 x y)
    then obtain k c v where u: "u = Ty_Borrow k c v" by (auto simp: tag_forms)
    from 1 11 show ?case by (auto simp: u mono_over_def borrow_index_inject intro: overlaps_okD)
  qed
next
  case (12 b t)
  show ?case
  proof (rule overlaps_okI [OF _ types_overlap.simps(12)], goal_cases)
    case (1 u ev m n a1 a2 d1 d2 x y)
    then obtain c v where u: "u = Ty_Pointer c v" by (auto simp: tag_forms)
    from 1 12 show ?case by (auto simp: u mono_over_def borrow_index_inject intro: overlaps_okD)
  qed
next
  case (13 p f)
  show ?case
  proof (rule overlaps_okI [OF _ types_overlap.simps(13)], goal_cases)
    case (1 u ev m n a1 a2 d1 d2 x y)
    then obtain q k where u: "u = Ty_NamedFunction q k" by (auto simp: tag_forms)
    obtain x' y' where x: "x = Ty_NamedFunction x' f" "mono_path (map_path mono_type mono_constgeneric clone_generics p) m a1 d1 = Inr x'"
      and y: "y = Ty_NamedFunction y' k" "mono_path (map_path mono_type mono_constgeneric clone_generics q) n a2 d2 = Inr y'"
      using 1 by (auto simp: u mono_over_def)
    have "\<forall>t \<in> set1_path p. overlaps_ok t" using 13 by blast
    from paths_overlap [OF 1(1,2) x(2) y(2) this, of ev] 1(3,4,7,8,9) show ?case
      by (simp add: u x(1) y(1) orderly_sets)
  qed
next
  case (14 h us va abi r as)
  show ?case
  proof (rule overlaps_okI [OF _ types_overlap.simps(14)], goal_cases)
    case (1 u ev m n a1 a2 d1 d2 x y)
    then obtain k vs vb abj s bs where u: "u = Ty_Function k vs vb abj s bs" by (auto simp: tag_forms)
    obtain hx rx xs where x: "x = Ty_Function hx us va abi rx xs" "mono_type r m a1 (Suc d1) = Inr rx"
        "list_all2 (\<lambda>t x. mono_type t m a1 (Suc d1) = Inr x) as xs"
      using 1 by (auto simp: u mono_over_def mono_function_def mono_types_iff simp del: map_map)
    obtain hy ry ys where y: "y = Ty_Function hy vs vb abj ry ys" "mono_type s n a2 (Suc d2) = Inr ry"
        "list_all2 (\<lambda>t x. mono_type t n a2 (Suc d2) = Inr x) bs ys"
      using 1 by (auto simp: u mono_over_def mono_function_def mono_types_iff simp del: map_map)
    have o: "\<forall>x \<in> set xs. orderly_type x" "\<forall>y \<in> set ys. orderly_type y" "orderly_type rx" "orderly_type ry"
      using 1(7,8) by (simp_all add: x(1) y(1) list_all_iff)
    have "key_bool us @ key_string abi @ key_vec (map order_key xs) @ order_key rx
        = key_bool vs @ key_string abj @ key_vec (map order_key ys) @ order_key ry"
      using 1(9) by (simp add: x(1) y(1))
    moreover have "apart (key_vec (map order_key xs)) (key_vec (map order_key ys))" by (rule type_vec_apart [OF o(1,2)])
    ultimately have k: "us = vs" "abi = abj" "map order_key xs = map order_key ys" "order_key rx = order_key ry"
      using types_keys [OF o(1,2)] apart_inject [OF agree_apart [OF agree_bool]] apart_inject [OF agree_apart [OF agree_string]]
      by (auto simp: apart_inject key_string_inject key_bool_def split: if_splits)
    have "\<forall>t \<in> set as. overlaps_ok t \<and> type_pattern t" "\<forall>u \<in> set bs. type_pattern u"
      using 14 1(3,4) by (simp_all add: u list_all_iff)
    note l = lists_overlap [OF 1(1,2) x(3) y(3) this o(1,2) k(3), of ev]
    have "may_overlap (types_overlap r ev s)"
      using 14 1(3,4) by (intro overlaps_okD [OF _ 1(1,2) _ _ x(2) y(2) o(3,4) k(4)]) (simp_all add: u)
    then show ?case using l k by (simp add: u may_overlap_and_also)
  qed
next
  case (15 n) show ?case by (rule overlaps_okI [OF _ types_overlap.simps(15)]) (simp add: may_overlap_def)
next
  case (16 n) show ?case by (rule overlaps_okI [OF _ types_overlap.simps(16)]) (simp add: may_overlap_def)
qed simp_all

end
