(* ===== verification/Spec2Isabelle.thy ===== *)
theory Spec2Isabelle
  imports Crate_File Mir_LValue Mono_Params Ty_Order_Refl Impl_Index Impl_Overlap_Facts
begin

text \<open>
  A verification library for the core of mrustc, a Rust compiler in C++ (\<open>src/src/\<close>).

  The compiler reads a crate into an AST, expands macros, resolves names, lowers the result to a
  typed high-level representation (HIR), checks it, lowers bodies to MIR, optimises MIR, and either
  writes the crate to a metadata file or generates C from it.  What ties these passes together is
  the data of \<open>src/hir/\<close> and \<open>src/mir/\<close>, the operations on that data which every pass uses, and
  the metadata file through which crates see each other.  That is what is modelled here.

  \<^bold>\<open>The parts and the theories that model them.\<close>

  \<^enum> \<^emph>\<open>128-bit integers\<close> (\<open>include/int128.h\<close>): \<open>Int128\<close> has the records \<open>u128\<close> (two words) and the operators
    of \<open>U128\<close>, \<open>Int128_Ops\<close> its divisions, byte buffers, printing and conversions to and from \<open>double\<close>,
    \<open>Int128_Signed\<close> the class \<open>S128\<close>.  The lemmas relate each operator to arithmetic on natural numbers and
    integers (\<open>u128_nat\<close>, \<open>s128_int\<close>).
  \<^enum> \<^emph>\<open>Comparison\<close> (\<open>common.hpp\<close>): \<open>Ordering\<close> has the overloads of \<open>ord\<close>.
  \<^enum> \<^emph>\<open>The byte protocol of metadata\<close> (\<open>hir/serialise_lowlevel.*\<close>): \<open>Wire_Writer\<close> is class \<open>Writer\<close>, \<open>Wire_Reader\<close>
    is classes \<open>Reader\<close> and \<open>ReadBuffer\<close>, with the refill logic of the buffer.  \<open>Codec\<close> states what it
    means that a reader undoes a writer, as a locale, and \<open>Wire_Codec\<close> interprets it for every primitive.
  \<^enum> \<^emph>\<open>HIR and MIR data\<close> (\<open>hir/path.hpp\<close>, \<open>type.hpp\<close>, \<open>type_ref.hpp\<close>, \<open>generic_params.hpp\<close>, \<open>mir/mir.hpp\<close>, \<open>hir/hir.hpp\<close>,
    \<open>macro_rules/macro_rules.hpp\<close>): \<open>Hir_Data\<close>, \<open>Hir_Types\<close>, \<open>Hir_Items\<close>, \<open>Macro_Rules\<close>.
  \<^enum> \<^emph>\<open>Printers\<close> (\<open>operator<<\<close>, \<open>fmt\<close>): \<open>Fmt\<close>, \<open>Fmt_Mir\<close>, \<open>Fmt_Types\<close>.  The writer of metadata uses the
    printed text of a type as the key of its cache, so the text is part of its behaviour.
  \<^enum> \<^emph>\<open>Writing and reading crates\<close> (\<open>hir/serialise.cpp\<close>, \<open>hir/deserialise.cpp\<close>): \<open>Serialise\<close> and \<open>Deserialise\<close> for
    types, paths, constants and MIR, \<open>Serialise_Items\<close> and \<open>Deserialise_Items\<close> for items, modules and the
    crate, \<open>Metadata_File\<close> for the two passes over the file and the table of strings, \<open>Crate_File\<close> for
    the whole.  \<open>Normal_Form\<close> and \<open>Normal_Items\<close> define what is lost on the way (\<open>norm_*\<close>, and
    \<open>ok_*\<close> for what cannot be written); \<open>Roundtrip\<close>, \<open>Roundtrip_Mir\<close>, \<open>Roundtrip_Macro\<close>, \<open>Roundtrip_Items\<close> prove that reading
    undoes writing up to the normal form, \<open>Reader_Total\<close> that reading any bytes ends.
  \<^enum> \<^emph>\<open>MIR lvalues\<close> (\<open>mir/mir.hpp\<close>, \<open>mir/mir.cpp\<close>): \<open>Mir_LValue\<close>, packed places against trees.
  \<^enum> \<^emph>\<open>Encoded literals\<close> (\<open>hir/encoded_literal.hpp\<close>, \<open>hir/hir_ops.cpp\<close>): \<open>Literal_Ops\<close>.
  \<^enum> \<^emph>\<open>Visiting types, substituting generic parameters\<close> (\<open>hir_typeck/common.cpp\<close>, \<open>hir_typeck/monomorph.hpp\<close>): \<open>Ty_Visit\<close>
    is \<open>TyVisitor\<close> and the tests for parameters, \<open>Monomorph\<close> is class \<open>Monomorphiser\<close> as a record of
    callbacks (\<open>monomorphiser\<close>) with its recursive functions \<open>mono_*\<close>, \<open>Mono_Params\<close> the monomorphisers made of
    parameter lists.  \<open>Mono_Needed\<close>, \<open>Mono_Plain\<close> and \<open>Mono_Answers\<close> describe them by the list of places that a
    substitution looks at (\<open>occ_type\<close>).

  \<^enum> \<^emph>\<open>Order and equality of types\<close> (\<open>hir/type.cpp\<close>, \<open>path.cpp\<close>, \<open>hir.cpp\<close>): \<open>Ty_Order\<close>; \<open>Ty_Order_Refl\<close> shows that a type is equal
    to itself, \<open>Ty_Keys\<close> that the order is that of keys (\<open>order_key\<close>).
  \<^enum> \<^emph>\<open>Matching types\<close> (\<open>hir/type.cpp\<close>, \<open>path.cpp\<close>, \<open>type_ref.hpp\<close>): \<open>Ty_Match\<close> is class \<open>MatchGenerics\<close>, a pattern with parameters
    against a type with callbacks that have state; \<open>Ty_Placeholders\<close> is the comparison up to inference variables.
  \<^enum> \<^emph>\<open>Impls\<close> (\<open>hir/hir_ops.cpp\<close>, \<open>hir/hir.hpp\<close>, \<open>hir_conv/resolve_ufcs.cpp\<close>): \<open>Impl_Match\<close> sorts impls into groups, builds the index of all
    crates and searches it, \<open>Impl_Index\<close> shows that the index loses nothing; \<open>Impl_Specific\<close> decides which of two
    impls is more specific, \<open>Impl_Overlap\<close> whether they overlap; \<open>Impl_Specific_Facts\<close> and \<open>Impl_Overlap_Facts\<close>
    compare their answers with what substitutions make of the types.

  \<open>Prelude\<close> and \<open>Results\<close> hold what the others share: results \<open>error + 'a\<close> and their bind, lists of
  fallible steps, bytes and digits.

  \<^bold>\<open>Conventions.\<close>  Every \<open>BUG\<close>, \<open>TODO\<close>, \<open>assert\<close> and exception is a value \<open>Inl e\<close>; unsigned machine integers are
  words and wrap as in C++.  A writer is a function from its state to an output or an error, a
  reader a function from its state.  The objects behind pointers are named by numbers where the
  code only compares or passes on the pointer.  Reference counts, debug output and timing are left out.

  \<^bold>\<open>Bounds and fuel.\<close>  The printing of a 128-bit number runs with fuel 129, one more than the number of
  its bits.  Readers recurse with fuel; \<open>Reader_Total\<close> shows that the number of unread bytes
  is enough, since every level of nesting takes at least one byte.  Matching follows inference variables, so it
  takes fuel; one level is used for each level of the pattern.

  \<^bold>\<open>Not modelled.\<close>  The passes in front (lexer, parser, macro expansion, name resolution), type inference,
  the selection of impls during it, constant evaluation, construction and optimisation of MIR, code generation and
  the package tool.  Their data is that of the theories above; their algorithms work on expression trees, tables of
  inference variables and on statements of MIR that are not modelled.  The manifest lists each with its reason.
\<close>

unbundle bit_operations_syntax

section \<open>128-bit integers\<close>

text \<open>
  C16. The operators of U128 are the operations of the natural numbers modulo 2^128:
  sums and products wrap, differences borrow from 2^128, shifts are multiplication and
  division by powers of two for every shift count, and the bitwise operators act on the
  binary expansion.
\<close>

theorem u128_ring:
  "u128_nat (u128_add a b) = (u128_nat a + u128_nat b) mod 2 ^ 128 \<and>
   int (u128_nat (u128_sub a b)) = (int (u128_nat a) - int (u128_nat b)) mod 2 ^ 128 \<and>
   u128_nat (u128_mul a b) = u128_nat a * u128_nat b mod 2 ^ 128 \<and>
   u128_nat (u128_shl a k) = u128_nat a * 2 ^ k mod 2 ^ 128 \<and>
   u128_nat (u128_shr a k) = u128_nat a div 2 ^ k \<and>
   u128_nat (u128_and a b) = (u128_nat a AND u128_nat b) \<and>
   u128_nat (u128_or a b) = (u128_nat a OR u128_nat b) \<and>
   u128_nat (u128_xor a b) = (u128_nat a XOR u128_nat b) \<and>
   u128_nat (u128_not a) = 2 ^ 128 - 1 - u128_nat a"
proof (intro conjI)
  show "u128_nat (u128_add a b) = (u128_nat a + u128_nat b) mod 2 ^ 128"
    by (simp only: u128_add_def u128_nat_add128)
  show "int (u128_nat (u128_sub a b)) = (int (u128_nat a) - int (u128_nat b)) mod 2 ^ 128"
    by (rule u128_nat_sub_int)
qed (simp_all add: u128_nat_mul u128_nat_shl u128_nat_shr u128_nat_bitwise u128_nat_not)

text \<open>
  C17. Long division: for a divisor other than zero, quotient and remainder are those
  of the natural numbers. For divisor zero the operators trap when the dividend fits 64
  bits and give zero when it does not.
\<close>

theorem u128_division:
  "(if u128_nat b = 0 then
      u128_div a b = (if hi a = 0 then Inl (Undefined_Behaviour ''division by zero'') else Inr u128_zero) \<and>
      u128_mod a b = (if hi a = 0 then Inl (Undefined_Behaviour ''division by zero'') else Inr u128_zero)
    else
      \<exists>q r. u128_div a b = Inr q \<and> u128_mod a b = Inr r \<and>
        u128_nat q = u128_nat a div u128_nat b \<and> u128_nat r = u128_nat a mod u128_nat b)"
  using u128_div_nat [of b a] u128_mod_nat [of b a] u128_div_mod_zero [of b a] by auto

text \<open>
  C18. \<open>encode_float\<close> builds the IEEE bit pattern of the nearest float: for a value of
  \<open>Suc p\<close> bits, with \<open>m\<close> mantissa bits and exponent bias \<open>z\<close>, the exponent field is
  \<open>p + z\<close> and the mantissa is the value scaled to \<open>m\<close> bits and rounded half to even, the
  carry of the rounding going into the exponent.
\<close>

theorem encode_float_nearest:
  assumes "2 ^ p \<le> u128_nat x" "u128_nat x < 2 ^ Suc p" "0 < m" "m < 63" "0 < z"
  shows "encode_float x m (int z) =
    word_of_nat ((p + z - 1) * 2 ^ m + round_half_even (u128_nat x * 2 ^ (127 - p)) (2 ^ (127 - m)))"
proof -
  have "2 ^ p < (2 :: nat) ^ 128"
    by (rule le_less_trans [OF assms(1)]) (simp add: u128_nat_lt)
  then have "p < 128"
    by (simp only: power_strict_increasing_iff)
  then show ?thesis
    using encode_float_nat assms by blast
qed

lemma encode_float_nearest_witness: "u128_to_double (U128 0x8000000000000C00 1) = 0x43F8000000000001"
  using encode_float_nearest [of 64 "U128 0x8000000000000C00 1" 52 1023]
  by (simp add: u128_to_double_def u128_nat_U128 round_half_even_def)

text \<open>
  C19. Byte buffers: writing at most 16 bytes of a value and reading them back gives the
  value modulo \<open>256 ^ n\<close>, in little-endian and in big-endian order, and the
  \<open>memcpy\<close> of a little-endian machine writes the same bytes as the portable loop.
\<close>

theorem bytes_roundtrip:
  assumes "n \<le> 16"
  shows "(\<exists>v. from_le_bytes (to_le_bytes x n) n = Inr v \<and> u128_nat v = u128_nat x mod 256 ^ n) \<and>
    (\<exists>v. from_be_bytes (to_be_bytes x n) n = Inr v \<and> u128_nat v = u128_nat x mod 256 ^ n) \<and>
    to_le_bytes_memcpy x n = to_le_bytes x n"
  using from_to_le_bytes [OF assms] from_to_be_bytes [OF assms] to_le_bytes_memcpy_eq by blast

lemma bytes_roundtrip_witness:
  "\<exists>v. from_be_bytes (to_be_bytes (U128 0x1234 7) 9) 9 = Inr v \<and>
     u128_nat v = u128_nat (U128 0x1234 7) mod 256 ^ 9"
  using bytes_roundtrip [of 9 "U128 0x1234 7"] by simp

text \<open>
  C20. Printing: with no field width, \<open>operator<<\<close> appends the numeral of the value in
  the base of the stream. Octal runs past its 41-byte buffer exactly from 2^123.
\<close>

theorem u128_print:
  assumes "os_width os = 0"
  shows "u128_fmt x os =
    (if os_base os = Oct \<and> 2 ^ 123 \<le> u128_nat x
     then Inl (Undefined_Behaviour ''store past the end of output'')
     else Inr (os\<lparr>os_out := os_out os @
       show_base (os_uppercase os) (base_num (os_base os)) (u128_nat x)\<rparr>))"
  using assms u128_fmt_numeral [of os x] u128_fmt_octal_overrun [of os x]
  by (cases "os_base os = Oct \<and> 2 ^ 123 \<le> u128_nat x") (auto simp: not_le)

lemma u128_print_witness:
  "u128_fmt (U128 0 1) (\<lparr>os_base = Dec, os_uppercase = False, os_width = 0, os_out = ''x=''\<rparr>) =
    Inr \<lparr>os_base = Dec, os_uppercase = False, os_width = 0, os_out = ''x=18446744073709551616''\<rparr>"
  using u128_print [of "\<lparr>os_base = Dec, os_uppercase = False, os_width = 0, os_out = ''x=''\<rparr>" "U128 0 1"]
  by (simp add: u128_nat_U128 show_base.simps digit_char_def)

text \<open>
  C21. S128 is two's complement: sums, differences, negation, complement and printing are
  those of the integers, wrapped into the range from -2^127 to 2^127 - 1.
\<close>

theorem s128_ring:
  "s128_int (s128_add a b) = wrap128 (s128_int a + s128_int b) \<and>
   s128_int (s128_sub a b) = wrap128 (s128_int a - s128_int b) \<and>
   s128_int (s128_neg a) = wrap128 (- s128_int a) \<and>
   s128_int (s128_not a) = - 1 - s128_int a \<and>
   s128_ord a b = ord_int (s128_int a) (s128_int b)"
  by (simp add: s128_int_add s128_int_sub s128_int_neg s128_int_not s128_ord_int)

text \<open>
  C22. Products and quotients of S128 are the wrapped product and the quotient truncated
  towards zero. The remainder is the truncated one times the sign of the divisor, which
  differs from C's \<open>%\<close> for negative divisors. All three need that neither operand is
  -2^64, for which \<open>u_abs\<close> is wrong.
\<close>

theorem s128_mul_div:
  assumes "s128_int a \<noteq> - (2 ^ 64)" "s128_int b \<noteq> - (2 ^ 64)" "s128_int b \<noteq> 0"
  shows "s128_int (s128_mul a b) = wrap128 (s128_int a * s128_int b) \<and>
    (\<exists>q. s128_div a b = Inr q \<and> s128_int q = wrap128 (s128_int a sdiv s128_int b)) \<and>
    (\<exists>r. s128_mod a b = Inr r \<and> s128_int r = wrap128 (sgn (s128_int b) * (s128_int a smod s128_int b)))"
  using s128_int_mul s128_int_div s128_mod_value assms by blast

lemma s128_mul_div_witness:
  "\<exists>r. s128_mod (s128_of_i64 7) (s128_of_i64 (-2)) = Inr r \<and> s128_int r = -1"
  using s128_mul_div [of "s128_of_i64 7" "s128_of_i64 (-2)"]
  by (simp add: s128_int_of_i64 wrap128_def signed_modulo_int_def)

text \<open>
  C23. \<open>u_abs\<close> is the absolute value, of the least integer too, except at -2^64: its
  special case tests the words of -2^64 where it means those of the least integer, and
  gives 2^128 - 2^64.
\<close>

theorem s128_abs_value:
  "int (u128_nat (s128_u_abs x)) =
    (if s128_int x = - (2 ^ 64) then 2 ^ 128 - 2 ^ 64 else \<bar>s128_int x\<bar>)"
  by (rule s128_u_abs_special)

text \<open>
  C24. \<open>operator>>\<close> of S128 is the floor of the division by a power of two for every
  count below 64 and from 128 on, and for values that are not negative. Between, the bits
  above the low word of a negative value are lost: the result is the logical shift of the
  high word, with a high word of ones.
\<close>

theorem s128_shift_right:
  "s128_int (s128_shr x n) =
    (if n < 64 \<or> 128 \<le> n \<or> 0 \<le> s128_int x then s128_int x div 2 ^ n
     else int (unat (hi (inner x))) div 2 ^ (n - 64) - 2 ^ 64)"
proof -
  consider "n < 64" | "64 \<le> n" "n < 128" | "128 \<le> n" by linarith
  then show ?thesis
    by cases (simp_all add: s128_shr_low s128_shr_high s128_shr_all)
qed

text \<open>
  C25. Reading up to 16 bytes into an S128 gives the two's complement number of those
  bytes, sign extended, in both byte orders.
\<close>

theorem s128_from_bytes:
  assumes "n \<le> 16" "n \<le> length src"
  shows "(\<exists>x. s128_from_le_bytes src n = Inr x \<and> s128_int x = le_int (take n src)) \<and>
    (\<exists>x. s128_from_be_bytes src n = Inr x \<and> s128_int x = le_int (rev (take n src)))"
  using s128_from_le_bytes_int s128_from_be_bytes_int assms by blast

lemma s128_from_bytes_witness:
  "\<exists>x. s128_from_be_bytes [0xFF, 0x38] 2 = Inr x \<and> s128_int x = -200"
  using s128_from_bytes [of 2 "[0xFF, 0x38]"] by (simp add: le_int_def)

section \<open>Comparison\<close>



section \<open>MIR lvalues\<close>

text \<open>
  C27. The packed lvalue refines the tree it stands for: each \<open>new_...\<close> adds the
  constructor of that name on top of the tree, with its index modulo 2^30, and keeps the
  packed form well formed.
\<close>

theorem lvalue_views:
  "lv_view (lv_new_Deref lv) = V_Deref (lv_view lv) \<and>
   lv_view (lv_new_Field lv i) = V_Field (lv_view lv) (unat i mod 2 ^ 30) \<and>
   lv_view (lv_new_Downcast lv i) = V_Downcast (lv_view lv) (unat i mod 2 ^ 30) \<and>
   lv_view (lv_new_Index lv i) = V_Index (lv_view lv) (unat i mod 2 ^ 30) \<and>
   lvalue_ok (lv_new_Deref lv) = lvalue_ok lv \<and> lvalue_ok (lv_new_Field lv i) = lvalue_ok lv \<and>
   lvalue_ok (lv_new_Downcast lv i) = lvalue_ok lv \<and> lvalue_ok (lv_new_Index lv i) = lvalue_ok lv"
  by (simp add: lv_new_view)



text \<open>
  C29. Roots in and out of range: an argument below 2^30 - 1 and a local below 2^30
  pack into a root that gives the index and the kind back; every other index stops on the
  assertion.
\<close>

theorem lvalue_roots:
  "(if unat i < 2 ^ 30 - 1 then
      \<exists>s. new_Argument i = Inr s \<and> root_view s = V_Argument (unat i) \<and> as_Argument s = Inr i \<and>
        storage_tag s = STag_Argument \<and> storage_ok s
    else new_Argument i = Inl (Assert_Fail ''idx < MAX_ARG'')) \<and>
   (if unat i < 2 ^ 30 then
      \<exists>s. new_Local i = Inr s \<and> root_view s = V_Local (unat i) \<and> as_Local s = Inr i \<and>
        storage_tag s = STag_Local \<and> storage_ok s
    else new_Local i = Inl (Assert_Fail ''idx <= MAX_ARG''))"
proof (intro conjI)
  have "take_bit 64 (unat i) = unat i"
    by (intro take_bit_nat_eq_self less_le_trans [OF unsigned_less [of i]]) simp
  then have max: "unat (ucast i :: u64) = unat i" "unat max_arg = 2 ^ 30 - 1"
    by (simp_all only: unsigned_ucast_eq) (simp_all add: max_arg_def)
  show "if unat i < 2 ^ 30 - 1 then
      \<exists>s. new_Argument i = Inr s \<and> root_view s = V_Argument (unat i) \<and> as_Argument s = Inr i \<and>
        storage_tag s = STag_Argument \<and> storage_ok s
    else new_Argument i = Inl (Assert_Fail ''idx < MAX_ARG'')"
    using new_Argument_view [of i] max by (auto simp: new_Argument_def word_less_nat_alt)
  show "if unat i < 2 ^ 30 then
      \<exists>s. new_Local i = Inr s \<and> root_view s = V_Local (unat i) \<and> as_Local s = Inr i \<and>
        storage_tag s = STag_Local \<and> storage_ok s
    else new_Local i = Inl (Assert_Fail ''idx <= MAX_ARG'')"
    using new_Local_view [of i] max by (auto simp: new_Local_def word_le_nat_alt)
qed



text \<open>
  C31. A reference to an inner lvalue behaves as the copy of it: references
  compare as the copies do, the copy with the remaining wrappers is the whole again, and
  \<open>replace\<close> puts an lvalue in place of the part referred to and keeps the wrappers around it.
\<close>

theorem lvalue_references:
  assumes "ref_count r \<le> length (lv_wrappers (ref_lv r))" "ref_count x \<le> length (lv_wrappers (ref_lv x))"
  shows "ref_ord cmp r x = lv_ord cmp (ref_clone r) (ref_clone x) \<and>
    lv_clone_wrapped (ref_clone r) (drop (ref_count r) (lv_wrappers (ref_lv r))) = ref_lv r \<and>
    mref_replace r y = lv_clone_wrapped y (drop (ref_count r) (lv_wrappers (ref_lv r)))"
  using ref_ord_clone [OF assms] ref_clone_rest [of r] mref_replace_eq [OF assms(1), of y] by blast

lemma lvalue_references_witness:
  "mref_replace (LvRef (LValue (St_Val 5 :: (nat, nat, nat) storage) [0, 9]) 1) (LValue (St_Val 1) [13]) =
    LValue (St_Val 1) [13, 9]"
proof -
  let ?r = "LvRef (LValue (St_Val 5 :: (nat, nat, nat) storage) [0, 9]) 1"
  have "mref_replace ?r (LValue (St_Val 1) [13]) =
      lv_clone_wrapped (LValue (St_Val 1) [13]) (drop (ref_count ?r) (lv_wrappers (ref_lv ?r)))"
    using lvalue_references [of ?r ?r "\<lambda>_ _. OrdEqual" "LValue (St_Val 1) [13]"] by simp
  then show ?thesis by (simp add: lv_clone_wrapped_def)
qed

section \<open>Crate metadata\<close>

text \<open>
  C6. Every primitive of the byte protocol reads back what it wrote, whatever the
  state of writer and reader: fixed and variable length integers, signed numbers, counts,
  strings, interned strings, flags, tags, doubles and 128-bit integers.
\<close>

theorem wire_roundtrip:
  "rt n C (write_u8 b) read_u8 b \<and> rt n C (write_u16 h) read_u16 h \<and> rt n C (write_u32 w) read_u32 w \<and>
   rt n C (write_u64 v) read_u64 v \<and> rt n C (write_u64c v) read_u64c v \<and> rt n C (write_i64c v) read_i64c v \<and>
   rt n C (write_count c) read_count c \<and> rt n C (write_tag c) read_tag c \<and> rt n C (write_bool t) read_bool t \<and>
   rt n C (write_string s) read_string s \<and> rt n C (write_istring s) read_istring s \<and>
   rt n C (write_double v) read_double v \<and> rt n C (write_u128 x) read_u128 x \<and> rt n C (write_i128 y) read_i128 y"
  by (intro conjI rt_u8 rt_u16 rt_u32 rt_u64 rt_u64c rt_i64c rt_count rt_tag rt_bool rt_string rt_istring rt_double
      rt_u128 rt_i128)

text \<open>
  C7. Reading through the 1024-byte buffer gives the next bytes of the file, and
  what is left is the rest of the file. When the file is too short, a request that needs
  less than 1024 bytes from the file raises an error, but a longer one is not noticed: it gives
  what there is and zeros.
\<close>

theorem reader_buffering:
  assumes "r_ofs r \<le> length (r_backing r)"
  shows "if k \<le> length (avail r) then
      \<exists>r'. read_bytes k r = Inr (take k (avail r), r') \<and> avail r' = drop k (avail r)
    else if k - (length (r_backing r) - r_ofs r) < 1024 then
      read_bytes k r = Inl (Runtime_Error ''Reader::read'')
    else \<exists>r'. read_bytes k r = Inr (avail r @ replicate (k - length (avail r)) 0, r')"
proof (cases "k \<le> length (avail r)")
  case True
  then show ?thesis using read_bytes_avail [OF assms True] by auto
next
  case False
  then show ?thesis using assms
    by (auto simp: read_bytes_def read_buffer_read_def read_buffer_populate_def inner_read_def avail_def Let_def
        read_buffer_capacity_def)
qed

lemma reader_buffering_witness:
  "read_bytes 3 (r_init [1, 2] :: unit rstate) = Inl (Runtime_Error ''Reader::read'')"
  using reader_buffering [of "r_init [1, 2] :: unit rstate" 3] by (simp add: r_init_def avail_def)

text \<open>
  C8. What the reader refuses: a flag other than 0 and 255, an object that is not
  opened by name, an object that is not closed, and a string that the table does not have.
\<close>

theorem reader_rejects:
  assumes "r_ofs r \<le> length (r_backing r)" "avail r = b # rest"
  shows "(b \<noteq> 0 \<and> b \<noteq> 255 \<longrightarrow> read_bool r = Inl (Runtime_Error ''Expected false(0)/true(255)'')) \<and>
    (b \<noteq> 0xFD \<longrightarrow> r_open_object name r = Inl (Runtime_Error ''Expected OpenNamed'')) \<and>
    (b \<noteq> 0xFF \<longrightarrow> r_close_object r = Inl (Runtime_Error ''Expected CloseObject(0xFF)'')) \<and>
    (b < 0xFD \<and> length (r_strings r) \<le> unat b \<longrightarrow> read_istring r = Inl (Out_Of_Range ''vector::at''))"
proof -
  obtain r' where r': "read_u8 r = Inr (b, r')" "r_strings r' = r_strings r"
    using read_bytes_avail [OF assms(1), of 1] assms(2)
    by (auto simp: read_u8_def rmap_def rbind_def rret_def)
  then show ?thesis
    by (auto simp: read_bool_def r_open_object_def r_close_object_def read_istring_def read_count_def rbind_def
        rfail_def rret_def)
qed

lemma reader_rejects_witness:
  "read_bool (r_init [7] :: unit rstate) = Inl (Runtime_Error ''Expected false(0)/true(255)'')"
  using reader_rejects [of "r_init [7] :: unit rstate" 7 "[]"] by (simp add: r_init_def avail_def)

text \<open>
  C5. A type survives the file: when \<open>HIR_Serialise\<close> writes a crate name and
  a type, \<open>HIR_Deserialise\<close> gives the normal form of the type back, with no more levels of
  recursion than the file has bytes. The types below it have to have distinct
  cache keys unless they normalise alike, and lvalues in MIR bodies have to be well formed.
\<close>

theorem type_file:
  assumes "cr \<noteq> ''''" "types_ok cr (ty_parts t)" "ty_ok t" "\<And>xs. mset (std_sort xs) = mset xs"
    and "hir_serialise std_sort (w_seq [write_istring cr, ser_type t]) = Inr bs" "length bs < file_limit"
  shows "hir_deserialise (crate_named (\<lambda>_. des_type (length bs))) bs = Inr (norm_type cr t)"
proof (rule file_roundtrip)
  let ?C = "type_ctx cr (ty_parts t) (type_key ` ty_parts t)"
  show "rt (length bs) ?C (w_seq [ser_type t]) (des_type (length bs)) (norm_type cr t)"
    using rt_types(1) [OF assms(1,2), of t] assms(3) by (simp add: rt_ty_def)
  show "c_rel ?C [] []" by (simp add: cache_rel_def)
qed (use assms in simp_all)

lemma type_file_witness:
  "hir_deserialise (crate_named (\<lambda>_. des_type 32))
    [1, 4, 99, 111, 114, 101, 0, 255, 253, 0, 205, 72, 73, 82, 58, 58, 84, 121, 112, 101, 68, 97, 116, 97, 9,
     255, 253, 0, 3, 2, 255, 255] = Inr (Ty_Slice (Ty_Primitive CT_U8))"
proof -
  let ?t = "Ty_Slice (Ty_Primitive CT_U8)"
  let ?bs = "[1, 4, 99, 111, 114, 101, 0, 255, 253, 0, 205, 72, 73, 82, 58, 58, 84, 121, 112, 101, 68, 97, 116, 97, 9,
     255, 253, 0, 3, 2, 255, 255] :: bytes"
  have key: "type_key ?t = ''[u8]''" "type_key (Ty_Primitive CT_U8) = ''u8''" by code_simp+
  then have ok: "types_ok ''core'' (ty_parts ?t)" by (simp add: types_ok_def ty_parts_def)
  have "hir_serialise (\<lambda>xs. xs) (w_seq [write_istring ''core'', ser_type ?t]) = Inr ?bs"
    by (simp add: hir_serialise_def w_seq.simps write_istring_def w_init_def serialiser_clear_def writer_open_def
        ser_cached_def key [unfolded type_key_def] write_count_def write_u8_def write_bytes_def write_tag_def w_assert_def
        w_skip_def in_object_def open_object_def raw_write_uint_def raw_write_bytes_def raw_write_len_def close_object_def
        types_insert_def write_string_def Let_def string_bytes_def byte_def ser_core_type_def core_types_def
        del: res_bind_Inr_iff)
  from type_file [OF _ ok _ _ this]
  have "hir_deserialise (crate_named (\<lambda>_. des_type (length ?bs))) ?bs = Inr (norm_type ''core'' ?t)"
    by (simp only: file_limit_def ty_ok.simps) (simp del: des_type.simps)
  moreover have "length ?bs = 32" by simp
  ultimately show ?thesis by (simp only: norm_type.simps)
qed

text \<open>An example: a crate with one public alias, and the file it gives.\<close>

definition sample_crate :: hir_crate where
  "sample_crate = \<lparr>cr_crate_name = ''core'', cr_edition = Rust2018,
    cr_root_module = Module [] [] [(''Bytes'', VisEnt pub_new_global (TI_TypeAlias
      \<lparr>ta_params = GenericParams [] [] [] [], ta_type = Ty_Slice (Ty_Primitive CT_U8)\<rparr>))] [],
    cr_type_impls = \<lparr>ig_named = [], ig_non_named = [], ig_generic = []\<rparr>, cr_trait_impls = [], cr_marker_impls = [],
    cr_exported_macro_names = [], cr_lang_items = [], cr_ext_crates = [], cr_ext_libs = [], cr_link_paths = []\<rparr>"

definition sample_bytes :: bytes where
  "sample_bytes =
    [2, 5, 66, 121, 116, 101, 115, 4, 99, 111, 114, 101, 1, 1, 253, 0, 203, 72, 73, 82, 58, 58, 77,
    111, 100, 117, 108, 101, 0, 1, 0, 255, 2, 253, 1, 208, 118, 101, 99, 58, 84, 121, 112, 101, 80,
    97, 114, 97, 109, 68, 101, 102, 0, 255, 253, 2, 209, 118, 101, 99, 58, 86, 97, 108, 117, 101, 80,
    97, 114, 97, 109, 68, 101, 102, 0, 255, 253, 3, 207, 118, 101, 99, 58, 76, 105, 102, 101, 116,
    105, 109, 101, 68, 101, 102, 0, 255, 253, 4, 208, 118, 101, 99, 58, 71, 101, 110, 101, 114, 105,
    99, 66, 111, 117, 110, 100, 0, 255, 255, 253, 5, 205, 72, 73, 82, 58, 58, 84, 121, 112, 101, 68,
    97, 116, 97, 9, 255, 253, 5, 3, 2, 255, 255, 0, 255, 0, 253, 6, 216, 118, 101, 99, 58, 117, 110,
    105, 113, 117, 101, 95, 112, 116, 114, 60, 84, 121, 112, 101, 73, 109, 112, 108, 62, 0, 255, 253,
    6, 0, 255, 0, 0, 253, 7, 204, 118, 101, 99, 58, 82, 99, 83, 116, 114, 105, 110, 103, 0, 255, 0,
    0, 253, 8, 209, 118, 101, 99, 58, 69, 120, 116, 101, 114, 110, 76, 105, 98, 114, 97, 114, 121, 0,
    255, 253, 9, 202, 118, 101, 99, 58, 115, 116, 114, 105, 110, 103, 0, 255]"

lemmas sample_writer = sample_crate_def ser_crate_def ser_crate_body_def ser_edition_def editions_def ser_impl_group_def
  ser_pathmap_def ser_vec_def ser_items_def ser_istrmap_def ser_strmap_def lang_items_filtered_def ser_istr_pair_def
  w_foreach_seq ser_publicity_def pub_new_global_def pub_is_global_def ser_type_alias_def write_bool_def
  hir_serialise_def w_seq.simps write_istring_def w_init_def serialiser_clear_def writer_open_def ser_cached_def
  write_count_def write_u8_def write_bytes_def write_tag_def w_assert_def w_skip_def in_object_def open_object_def
  raw_write_uint_def raw_write_bytes_def raw_write_len_def close_object_def types_insert_def write_string_def Let_def
  string_bytes_def byte_def ser_core_type_def core_types_def ser_generics_of_def

lemma sample_keys:
  "type_key (Ty_Slice (Ty_Primitive CT_U8)) = ''[u8]''" "type_key (Ty_Primitive CT_U8) = ''u8''"
  "ord_string ''core'' ''Bytes'' = OrdGreater" "ord_string ''Bytes'' ''core'' = OrdLess"
  by code_simp+

lemma sample_written: "hir_serialise (\<lambda>xs. xs) (ser_crate sample_crate) = Inr sample_bytes"
  unfolding sample_bytes_def by (simp add: sample_writer sample_keys [unfolded type_key_def] del: res_bind_Inr_iff)

lemma sample_first_pass:
  "\<exists>s1. ser_crate sample_crate w_init = Inr s1 \<and> w_istrings s1 = [(''Bytes'', 1), (''core'', 1)]"
  by (simp add: sample_writer sample_keys [unfolded type_key_def] del: res_bind_Inr_iff)

lemma sample_fits:
  "types_ok ''core'' (ty_parts (Ty_Slice (Ty_Primitive CT_U8)))"
  "crate_fits (ty_parts (Ty_Slice (Ty_Primitive CT_U8))) sample_crate"
  using sample_keys by (simp_all add: types_ok_def ty_parts_def sample_crate_def item_fits ty_fits_def gp_fits_def)

text \<open>
  C1. A crate survives its metadata file: what \<open>HIR_Deserialise\<close> reads from the bytes that
  \<open>HIR_Serialise\<close> wrote is the crate in normal form, items, implementations, macros, bodies and all.
  It needs no more levels of recursion than the file has bytes. The types in the crate
  have to have distinct cache keys unless they normalise alike, and lvalues well formed roots.
\<close>

theorem crate_file:
  assumes "cr_crate_name c \<noteq> []" "types_ok (cr_crate_name c) T" "crate_fits T c" "\<And>xs. mset (std_sort xs) = mset xs"
    and "hir_serialise std_sort (ser_crate c) = Inr bs" "length bs < file_limit" "length bs \<le> f"
  shows "hir_deserialise (des_crate f) bs = Inr (norm_crate c)"
  using assms by (rule crate_read_back)

lemma crate_file_witness: "hir_deserialise (des_crate 300) sample_bytes = Inr (norm_crate sample_crate)"
proof (rule crate_file [OF _ _ sample_fits(2) _ sample_written])
  have "cr_crate_name sample_crate = ''core''" by (simp add: sample_crate_def)
  then show "cr_crate_name sample_crate \<noteq> []" "types_ok (cr_crate_name sample_crate) (ty_parts (Ty_Slice (Ty_Primitive CT_U8)))"
    using sample_fits(1) by simp_all
qed (simp_all add: sample_bytes_def file_limit_def)

text \<open>
  C2. The file gets written: when the pass over the crate that collects the strings
  succeeds, so does the second one, for fewer than 2^31 strings, each shorter than 2^23.
\<close>

theorem crate_written:
  assumes "cr_crate_name c \<noteq> []" "types_ok (cr_crate_name c) T" "crate_fits T c" "\<And>xs. mset (std_sort xs) = mset xs"
    and "ser_crate c w_init = Inr s1" "length (w_istrings s1) < 0x80000000"
    and "\<And>x. x \<in> strings_of s1 \<Longrightarrow> length x < 0x800000"
  shows "\<exists>bs. hir_serialise std_sort (ser_crate c) = Inr bs"
  using assms by (rule crate_gets_written)

lemma crate_written_witness: "\<exists>bs. hir_serialise (\<lambda>xs. xs) (ser_crate sample_crate) = Inr bs"
proof -
  obtain s1 where s1: "ser_crate sample_crate w_init = Inr s1" "w_istrings s1 = [(''Bytes'', 1), (''core'', 1)]"
    using sample_first_pass by blast
  show ?thesis
  proof (rule crate_written [OF _ _ sample_fits(2) _ s1(1)])
    show "types_ok (cr_crate_name sample_crate) (ty_parts (Ty_Slice (Ty_Primitive CT_U8)))"
      using sample_fits(1) by (simp add: sample_crate_def)
  qed (auto simp: s1(2) strings_of_def sample_crate_def)
qed



text \<open>
  C4. For every file that can be loaded, \<open>HIR_Deserialise_JustName\<close> gives the name of
  the crate that loading it gives.
\<close>

theorem crate_name_alone:
  assumes "hir_deserialise (des_crate f) bs = Inr c"
  shows "hir_deserialise_just_name bs = Inr (cr_crate_name c)"
  using assms by (rule just_name)

lemma crate_name_alone_witness: "hir_deserialise_just_name sample_bytes = Inr ''core''"
proof -
  have "hir_deserialise (des_crate 300) sample_bytes = Inr (norm_crate sample_crate)"
    using crate_read_back [OF _ _ sample_fits(2) _ sample_written, of 300] sample_fits(1)
    by (simp add: sample_crate_def sample_bytes_def file_limit_def)
  from crate_name_alone [OF this] show ?thesis by (simp add: norm_crate_def Let_def sample_crate_def)
qed

section \<open>Substitution of generic parameters\<close>

text \<open>
  C9 (type safety of \<open>Monomorphiser::monomorph_type\<close> with \<open>MonomorphStatePtr\<close>): for a plain
  type the substitution of parameter lists gives a type exactly when each parameter it meets - self type, type, value,
  array size, lifetime outside a binder - is in its list, and an inference variable is met only where it is allowed;
  otherwise a \<open>BUG\<close> is reported, that of the first parameter that is missing.
\<close>

theorem substitution_supplied:
  assumes "plain_type t" "plain_params (mp_impl p)" "plain_params (mp_method p)"
  shows "((\<exists>r. mono_type t (monomorphiser_pp a p) ai d = Inr r) \<longleftrightarrow>
      list_all (\<lambda>x. supplied a p (snd x)) (occ_type t True (\<not> ai) d))
    \<and> (mono_type t (monomorphiser_pp a p) ai d = Inl e \<longleftrightarrow>
      res_list (map (ask (monomorphiser_pp a p)) (map snd (occ_type t True (\<not> ai) d))) = Inl e)"
proof (rule conjI)
  show "(\<exists>r. mono_type t (monomorphiser_pp a p) ai d = Inr r) \<longleftrightarrow>
      list_all (\<lambda>x. supplied a p (snd x)) (occ_type t True (\<not> ai) d)"
    by (rule substitution_succeeds [OF assms])
  obtain K where "mono_type t (monomorphiser_pp a p) ai d
      = res_map K (res_list (map (ask (monomorphiser_pp a p)) (map snd (occ_type t True (\<not> ai) d))))"
    using mono_outcome [OF assms(1), of "monomorphiser_pp a p" ai d] by auto
  then show "mono_type t (monomorphiser_pp a p) ai d = Inl e \<longleftrightarrow>
      res_list (map (ask (monomorphiser_pp a p)) (map snd (occ_type t True (\<not> ai) d))) = Inl e"
    by (cases "res_list (map (ask (monomorphiser_pp a p)) (map snd (occ_type t True (\<not> ai) d)))") (simp_all del: map_map)
qed

definition sample_target :: target_arch where
  "sample_target = \<lparr>ta_name = ''x86_64'', ta_pointer_bits = 64, ta_big_endian = False,
     ta_alignments = \<lparr>al_u16 = 2, al_u32 = 4, al_u64 = 8, al_u128 = 16, al_f32 = 4, al_f64 = 8, al_ptr = 8\<rparr>\<rparr>"

definition sample_generic :: "u32 \<Rightarrow> type_ref" where
  "sample_generic b = Ty_Generic \<lparr>gr_name = ''T'', gr_binding = b\<rparr>"

text \<open>The parameters \<open><u8>\<close> of an implementation, and the type \<open>&'static (T, Self)\<close>.\<close>

definition sample_params :: mono_params where
  "sample_params = monomorph_state_ptr (Some Ty_Diverge) (Some (PathParams [] [Ty_Primitive CT_U8] [])) None None"

definition sample_pair :: type_ref where
  "sample_pair = Ty_Borrow \<lparr>lr_binding = 0xFFFF\<rparr> BT_Shared (Ty_Tuple [sample_generic 0, sample_generic 0xFFFF])"

lemma substitution_supplied_witness:
  "(\<exists>r. mono_type sample_pair (monomorphiser_pp sample_target sample_params) False 0 = Inr r)
   \<and> \<not> (\<exists>r. mono_type (sample_generic 1) (monomorphiser_pp sample_target sample_params) False 0 = Inr r)"
proof -
  have p: "plain_params (mp_impl sample_params)" "plain_params (mp_method sample_params)"
    by (simp_all add: sample_params_def monomorph_state_ptr_def plain_params_def)
  have t: "plain_type sample_pair" "plain_type (sample_generic 1)" by (simp_all add: sample_pair_def sample_generic_def)
  show ?thesis
    unfolding substitution_supplied [OF t(1) p, THEN conjunct1] substitution_supplied [OF t(2) p, THEN conjunct1]
    by (simp add: sample_pair_def sample_generic_def occ_lifetime_def lr_is_param_def supplied_def gr_is_self_def
        sample_params_def monomorph_state_ptr_def group_params_def has_nth_def gr_group_def gr_idx_def)
qed

text \<open>
  C10 (what \<open>Monomorphiser::monomorph_type\<close> is for): if the lists hold types, values and lifetimes
  without parameters, then a type that comes out of the substitution has no parameter left, at any place that a
  substitution would look at, except lifetimes that are passed through on purpose (placeholders, and all of them when
  there are no lists).
\<close>

theorem substitution_closes_types:
  assumes "plain_type t" "plain_params (mp_impl p)" "plain_params (mp_method p)"
    and "mp_self p = None \<or> (\<forall>d. closed_ty d (the (mp_self p)))"
    and "closed_param_list (mp_impl p)" "closed_param_list (mp_method p)" "closed_param_list (mp_hrb p)"
    and "list_all (\<lambda>x. \<not> passes_through p (snd x)) (occ_type t True (\<not> ai) d)"
    and "mono_type t (monomorphiser_pp a p) ai d = Inr r"
  shows "closed_ty d r"
  using assms(4) by (intro substitution_closes [OF assms(1-3) _ assms(5-9)]) auto

lemma substitution_closes_types_witness:
  "closed_ty 0 (Ty_Borrow \<lparr>lr_binding = 0xFFFF\<rparr> BT_Shared (Ty_Tuple [Ty_Primitive CT_U8, Ty_Diverge]))"
proof (rule substitution_closes_types)
  show "mono_type sample_pair (monomorphiser_pp sample_target sample_params) False 0
      = Inr (Ty_Borrow \<lparr>lr_binding = 0xFFFF\<rparr> BT_Shared (Ty_Tuple [Ty_Primitive CT_U8, Ty_Diverge]))"
    by (simp add: sample_pair_def sample_generic_def mono_over_def mono_lifetime_def lr_is_param_def pp_get_type_def
        gr_is_self_def sample_params_def monomorph_state_ptr_def gr_group_def gr_idx_def nth_param_def)
qed (simp_all add: sample_pair_def sample_generic_def sample_params_def monomorph_state_ptr_def plain_params_def closed_ty_def
    closed_param_list_def occ_lifetime_def lr_is_param_def passes_through_def no_params_def)






text \<open>
  C14 (\<open>MonomorphiserNop\<close>, \<open>clone_ty_with\<close>): on plain types the monomorphiser that does nothing is
  the identity, and so is the copy with a callback that never answers; a callback that answers for the whole type decides.
\<close>

theorem substitution_identity:
  assumes "plain_type t" "cb t = Some r"
  shows "mono_type t (nop_monomorphiser a) True d = Inr t \<and> clone_ty_with a t (\<lambda>_. None) = Inr t
    \<and> clone_ty_with a t cb = Inr r"
proof (intro conjI)
  have nop: "clone_ty_with_monomorph a (\<lambda>_. None) = nop_monomorphiser a"
    by (simp add: clone_ty_with_monomorph_def nop_monomorphiser_def)
  show "mono_type t (nop_monomorphiser a) True d = Inr t" by (rule mono_nop [OF assms(1)])
  show "clone_ty_with a t (\<lambda>_. None) = Inr t" by (simp add: clone_ty_with_def nop mono_nop assms(1))
  show "clone_ty_with a t cb = Inr r"
    using assms(2) by (cases t) (simp_all add: clone_ty_with_def mono_over_def clone_ty_with_monomorph_def)
qed

lemma substitution_identity_witness:
  "mono_type sample_pair (nop_monomorphiser sample_target) True 3 = Inr sample_pair
   \<and> clone_ty_with sample_target sample_pair (\<lambda>_. None) = Inr sample_pair
   \<and> clone_ty_with sample_target sample_pair (\<lambda>_. Some Ty_Diverge) = Inr Ty_Diverge"
  by (rule substitution_identity) (simp_all add: sample_pair_def sample_generic_def)

text \<open>
  C15 (\<open>EncodedLiteral::write_usize\<close>, \<open>read_usize\<close>): on a target with words of at most eight bytes, of
  either byte order, a word that is written into a literal is read back modulo the size of the word, and the bytes around
  it stay.
\<close>

theorem usize_roundtrip:
  assumes "0 < pointer_bytes a" "pointer_bytes a \<le> 8" "ofs + pointer_bytes a \<le> length (el_bytes l)"
  shows "\<exists>l' r. lit_write_usize a l ofs v = Inr l' \<and> lit_read_usize a l' ofs = Inr r
      \<and> unat r = unat v mod 256 ^ pointer_bytes a \<and> length (el_bytes l') = length (el_bytes l)
      \<and> (\<forall>j. j < length (el_bytes l) \<longrightarrow> j < ofs \<or> ofs + pointer_bytes a \<le> j \<longrightarrow> el_bytes l' ! j = el_bytes l ! j)"
proof -
  obtain l' where w: "lit_write_uint a l ofs (pointer_bytes a) v = Inr l'"
    using assms(3) by (simp add: lit_write_uint_def)
  note b = lit_write_uint_bytes [OF w]
  obtain r where r: "slice_read_uint a \<lparr>ls_base = l', ls_ofs = ofs, ls_size = length (el_bytes l') - ofs\<rparr> (pointer_bytes a) = Inr r"
    and v: "u128_nat r = unat v mod 256 ^ pointer_bytes a"
    using read_written [OF w assms(1,2)] by blast
  have "(256 :: nat) ^ pointer_bytes a \<le> 256 ^ 8" using assms(2) by (intro power_increasing) simp_all
  moreover have "unat v mod 256 ^ pointer_bytes a < 256 ^ pointer_bytes a" by (rule mod_less_divisor) simp
  moreover have "(256 :: nat) ^ 8 = 2 ^ 64" by simp
  ultimately have "u128_nat r < 2 ^ 64" using v by linarith
  then have "unat (truncate_u64 r) = u128_nat r" by (simp add: truncate_u64_def u128_lo_nat)
  with r v assms b(1) have "\<exists>x. lit_read_usize a l' ofs = Inr x \<and> unat x = unat v mod 256 ^ pointer_bytes a"
    by (simp add: lit_read_usize_def slice_from_def slice_len_def slice_all_def)
  with w b(1,4) show ?thesis by (auto simp: lit_write_usize_def)
qed

lemma usize_roundtrip_witness:
  "\<exists>l' r. lit_write_usize sample_target (EncodedLiteral (replicate 10 7) [] :: ty_literal) 1 (258 :: u64) = Inr l'
    \<and> lit_read_usize sample_target l' 1 = Inr r \<and> unat r = 258"
proof -
  have p: "pointer_bytes sample_target = 8" by (simp add: pointer_bytes_def sample_target_def)
  from usize_roundtrip [of sample_target 1 "EncodedLiteral (replicate 10 7) [] :: ty_literal" 258] show ?thesis
    by (auto simp: p)
qed

section \<open>Order and equality of types\<close>

text \<open>
  C32 (\<open>TypeRef::ord\<close>, which orders the keys of every map of types): on types whose parts can be
  ordered - no unevaluated constants, relocations, bounds on associated types or binders that wait for elision - the
  order is the lexicographic order of the keys \<open>order_key\<close>, a list of numbers for each type.  So it is total and
  transitive there, and does not depend on \<open>ev\<close>, what is known about expressions.
\<close>

theorem types_ordered_by_keys:
  assumes "orderly_type t" "orderly_type u"
  shows "ty_ord t ev u = Inr (lex3 ord_int (order_key t) (order_key u))"
  using assms by (rule type_order)

definition sample_view :: expr_view where
  "sample_view = \<lparr>ev_same = (\<lambda>_ _. False), ev_const_param = (\<lambda>_. None)\<rparr>"

lemma types_ordered_by_keys_witness:
  "ty_ord (Ty_Tuple [Ty_Primitive CT_U8]) sample_view (Ty_Tuple [Ty_Primitive CT_U8, Ty_Diverge]) = Inr OrdLess"
proof -
  have "orderly_type (Ty_Tuple [Ty_Primitive CT_U8])" "orderly_type (Ty_Tuple [Ty_Primitive CT_U8, Ty_Diverge])" by simp_all
  from types_ordered_by_keys [OF this] show ?thesis by (simp add: key_vec_def ord_int_def)
qed

text \<open>
  C33 (\<open>TypeRef::operator==\<close>): the equality of types, which is written apart from the order, agrees
  with it on the same types.
\<close>

theorem equality_is_order:
  assumes "orderly_type t" "orderly_type u"
  shows "ty_eq t ev u = res_map (\<lambda>c. c = OrdEqual) (ty_ord t ev u)"
  using type_order [OF assms, of ev] type_equality [OF assms, of ev] key_ord.equal_iff by auto

lemma equality_is_order_witness:
  "ty_eq (Ty_Slice (Ty_Primitive CT_U8)) sample_view (Ty_Slice (Ty_Primitive CT_U8))
    = res_map (\<lambda>c. c = OrdEqual) (ty_ord (Ty_Slice (Ty_Primitive CT_U8)) sample_view (Ty_Slice (Ty_Primitive CT_U8)))"
  using equality_is_order [of "Ty_Slice (Ty_Primitive CT_U8)" "Ty_Slice (Ty_Primitive CT_U8)" sample_view] by simp

text \<open>
  C34 (\<open>TypeRef::operator==\<close> and \<open>TypeRef::ord\<close> on trait objects): a trait object without bounds on
  associated types, such as \<open>dyn Iterator\<close>, is equal to one of the same trait that has such bounds, such as
  \<open>dyn Iterator<Item = u8>\<close>; the other way round they differ.  The reason is the order of maps (\<open>map_order\<close>).
\<close>

theorem trait_object_equality:
  assumes "orderly_generic_path p" "bs \<noteq> []"
  shows "ty_eq (Ty_TraitObject (TraitPath None p [] [] tr) [] l) ev (Ty_TraitObject (TraitPath None p bs [] tr) [] l) = Inr True
    \<and> ty_eq (Ty_TraitObject (TraitPath None p bs [] tr) [] l) ev (Ty_TraitObject (TraitPath None p [] [] tr) [] l) = Inr False"
proof -
  have "generic_path_ord p ev p = Inr (lex3 ord_int (generic_path_key p) (generic_path_key p))"
    using assms(1) by (simp add: generic_path_ord_def agree_generic_path [unfolded agree_def] kids_agree_all)
  then have "generic_path_ord p ev p = Inr OrdEqual" by (simp add: lex3_same)
  then have p: "ord_generic_path (map_generic_path ty_ord value_ord p) ev p = Inr OrdEqual"
    by (simp add: generic_path_ord_def)
  obtain b bs' where "bs = b # bs'" using assms(2) by (cases bs) auto
  then show ?thesis
    by (simp add: trait_path_ord_def p is_elision_def is_equal_def then_ord_def res_bind_def vec_eq_def and_also_def)
qed

definition sample_trait :: "(type_ref, const_generic) generic_path" where
  "sample_trait = GenericPath (SimplePath [''core'', ''Iterator'']) (PathParams [] [] [])"

lemma trait_object_equality_witness:
  "ty_eq (Ty_TraitObject (TraitPath None sample_trait [] [] None) [] \<lparr>lr_binding = 0xFFFF\<rparr>) sample_view
     (Ty_TraitObject (TraitPath None sample_trait [(''Item'', AtyEqual sample_trait (Ty_Primitive CT_U8))] [] None) [] \<lparr>lr_binding = 0xFFFF\<rparr>)
    = Inr True"
  using trait_object_equality [of sample_trait "[(''Item'', AtyEqual sample_trait (Ty_Primitive CT_U8))]" None
      "\<lparr>lr_binding = 0xFFFF\<rparr>" sample_view, THEN conjunct1]
  by (simp add: sample_trait_def)

section \<open>Search for impls\<close>

text \<open>
  C35 (\<open>Crate::find_trait_impls\<close> after \<open>ConvertHIR_ResolveUFCS_SortImpls\<close>): the index by the path of
  the type loses nothing.  A callback that goes through everything it is offered is called for exactly the impls of
  the trait, of the crate and its external crates, whose type matches - for a type that is known and not left open by
  resolution, when no comparison fails.
\<close>

theorem impl_search_complete:
  assumes "\<forall>k \<in> set (c # exts). searchable_crate k" "sort_impls c exts = (c', ix)"
    and "\<forall>k \<in> set (c # exts). \<forall>i \<in> trait_impls_of k trait. impl_type_ok (tim_type i) \<and> \<not> isl (trait_impl_matches e rs ty i)"
    and "searchable rs ty" "0 < me_fuel e"
  shows "\<exists>found. find_trait_impls e rs ix c' exts trait ty collect [] = Inr (False, found)
    \<and> set found = {i \<in> (\<Union>k \<in> set (c # exts). trait_impls_of k trait). trait_impl_matches e rs ty i = Inr True}"
  using assms by (rule find_impls_complete)

text \<open>A crate with \<open>impl Clone for u8\<close> and \<open>impl Clone for Vec\<close>, as they come out of lowering.\<close>

definition sample_impl :: "type_ref \<Rightarrow> trait_impl" where
  "sample_impl t = \<lparr>tim_params = GenericParams [] [] [] [], tim_trait_args = PathParams [] [] [], tim_type = t,
     tim_methods = [], tim_constants = [], tim_statics = [], tim_types = [], tim_src_module = SimplePath [''c'']\<rparr>"

definition sample_vec :: type_ref where
  "sample_vec = Ty_Path (Path_Generic (GenericPath (SimplePath [''c'', ''Vec'']) (PathParams [] [] []))) (TPB_Enum 0) None"

definition sample_env :: match_env where
  "sample_env = \<lparr>me_fuel = 1, me_view = sample_view, me_arch = sample_target\<rparr>"

definition sample_impls :: hir_crate where
  "sample_impls = sample_crate\<lparr>cr_trait_impls := [(SimplePath [''c'', ''Clone''],
     \<lparr>ig_named = [], ig_non_named = [], ig_generic = [sample_impl (Ty_Primitive CT_U8), sample_impl sample_vec]\<rparr>)]\<rparr>"

lemma sample_impls_searchable: "\<forall>k \<in> set [sample_impls]. searchable_crate k"
  by (simp add: sample_impls_def sample_crate_def searchable_crate_def filed_map_def filed_def)

lemma sample_impl_matches:
  "trait_impl_matches sample_env resolve_nop sample_vec (sample_impl (Ty_Primitive CT_U8)) = Inr False"
  "trait_impl_matches sample_env resolve_nop sample_vec (sample_impl sample_vec) = Inr True"
  by (simp_all add: trait_impl_matches_def matches_type_root_def is_unbounded_infer_def sample_vec_def is_unbound_path_def
    sample_env_def sample_impl_def impl_cx_def cmp_resolved_def infer_right_def tag_mismatch_def is_opaque_path_def
    is_placeholder_def cmp_same_form_def cmp_path_def match_params_def step_bind_def step_ret_def res_bind_def)

lemma sample_impls_of:
  "trait_impls_of sample_impls (SimplePath [''c'', ''Clone'']) = {sample_impl (Ty_Primitive CT_U8), sample_impl sample_vec}"
  by (simp add: trait_impls_of_def sample_impls_def group_at_def group_set_def map_holds_def)

lemma impl_search_complete_witness:
  "\<exists>c' ix found. sort_impls sample_impls [] = (c', ix)
    \<and> find_trait_impls sample_env resolve_nop ix c' [] (SimplePath [''c'', ''Clone'']) sample_vec collect [] = Inr (False, found)
    \<and> set found = {sample_impl sample_vec}"
proof -
  obtain c' ix where s: "sort_impls sample_impls [] = (c', ix)" by (cases "sort_impls sample_impls []")
  have ok: "\<forall>k \<in> set [sample_impls]. \<forall>i \<in> trait_impls_of k (SimplePath [''c'', ''Clone'']).
      impl_type_ok (tim_type i) \<and> \<not> isl (trait_impl_matches sample_env resolve_nop sample_vec i)"
    using sample_impl_matches by (simp add: sample_impls_of) (simp add: sample_impl_def impl_type_ok_def sample_vec_def)
  have ty: "searchable resolve_nop sample_vec" "0 < me_fuel sample_env"
    by (simp_all add: searchable_def sample_vec_def sample_env_def)
  have "sample_impl (Ty_Primitive CT_U8) \<noteq> sample_impl sample_vec" by (simp add: sample_impl_def sample_vec_def)
  then have "{i \<in> (\<Union>k \<in> set [sample_impls]. trait_impls_of k (SimplePath [''c'', ''Clone''])).
      trait_impl_matches sample_env resolve_nop sample_vec i = Inr True} = {sample_impl sample_vec}"
    using sample_impl_matches by (auto simp: sample_impls_of)
  with impl_search_complete [OF sample_impls_searchable s ok ty] s show ?thesis by auto
qed

section \<open>Specialisation and overlap\<close>

text \<open>
  C36 (\<open>type_ord_specific\<close>, which decides between overlapping impls): a type that a substitution
  makes of a pattern is never ranked below the pattern - the answer, when there is one, is \<open>OrdEqual\<close> or
  \<open>OrdGreater\<close>.
\<close>

theorem instance_not_less_specific:
  assumes "mn_callback m = (\<lambda>_. None)" "mono_type u m ai d = Inr t" "type_ord_specific t ev u = Inr c"
  shows "c \<noteq> OrdLess"
  using instance_not_lessD [OF all_instances_not_less [THEN conjunct1] assms(1,2), of ev] assms(3)
  by simp

text \<open>\<open>(u8, u8)\<close> and \<open>(T, u8)\<close>.\<close>

lemma instance_not_less_specific_witness:
  "type_ord_specific (Ty_Tuple [Ty_Primitive CT_U8, Ty_Primitive CT_U8]) sample_view
      (Ty_Tuple [sample_generic 0, Ty_Primitive CT_U8]) = Inr OrdGreater \<and> OrdGreater \<noteq> OrdLess"
proof -
  let ?t = "Ty_Tuple [Ty_Primitive CT_U8, Ty_Primitive CT_U8]" and ?u = "Ty_Tuple [sample_generic 0, Ty_Primitive CT_U8]"
  have "mono_type ?u (monomorphiser_pp sample_target sample_params) True 0 = Inr ?t"
    by (simp add: mono_over_def sample_generic_def monomorphiser_pp_def pp_get_type_def gr_is_self_def gr_group_def gr_idx_def
      sample_params_def monomorph_state_ptr_def nth_param_def)
  moreover have "type_ord_specific ?t sample_view ?u = Inr OrdGreater"
    by (simp add: specific_over_def is_generic_def sample_generic_def typelist_specific_def vec_eq_def and_also_def res_bind_def)
  moreover have "mn_callback (monomorphiser_pp sample_target sample_params) = (\<lambda>_. None)" by simp
  ultimately show ?thesis using instance_not_less_specific by blast
qed

text \<open>
  C37 (\<open>types_overlap\<close> of \<open>TraitImpl::overlaps_with\<close>): when it says that the types of two impls do not overlap,
  no two substitutions of their parameters give the same type, up to lifetimes.  (Array sizes are known and
  paths have no associated types: for these the code says no too early.)
\<close>

theorem overlap_no_is_right:
  assumes "types_overlap t ev u = Inr False" "type_pattern t" "type_pattern u"
    and "mn_callback m = (\<lambda>_. None)" "mn_callback n = (\<lambda>_. None)"
    and "mono_type t m a1 d1 = Inr x" "mono_type u n a2 d2 = Inr y" "orderly_type x" "orderly_type y"
  shows "ty_eq x ev y = Inr False"
proof -
  have "order_key x \<noteq> order_key y"
    using overlaps_okD [OF all_overlaps_ok [THEN conjunct1] assms(4,5,2,3,6-9), of ev] assms(1)
    by (auto simp: may_overlap_def)
  then show ?thesis using type_equality [OF assms(8,9)] by simp
qed

text \<open>\<open>(T, u8)\<close> and \<open>(T, !)\<close>, both with \<open>u8\<close> for \<open>T\<close>.\<close>

lemma overlap_no_is_right_witness:
  "ty_eq (Ty_Tuple [Ty_Primitive CT_U8, Ty_Primitive CT_U8]) sample_view (Ty_Tuple [Ty_Primitive CT_U8, Ty_Diverge]) = Inr False"
proof -
  let ?m = "monomorphiser_pp sample_target sample_params"
  let ?t = "Ty_Tuple [sample_generic 0, Ty_Primitive CT_U8]" and ?u = "Ty_Tuple [sample_generic 0, Ty_Diverge]"
  have o: "types_overlap ?t sample_view ?u = Inr False"
    by (simp add: overlap_over_def is_generic_def sample_generic_def vec_eq_def and_also_def res_bind_def)
  have m: "mono_type ?t ?m True 0 = Inr (Ty_Tuple [Ty_Primitive CT_U8, Ty_Primitive CT_U8])"
      "mono_type ?u ?m True 0 = Inr (Ty_Tuple [Ty_Primitive CT_U8, Ty_Diverge])"
    by (simp_all add: mono_over_def sample_generic_def monomorphiser_pp_def pp_get_type_def gr_is_self_def gr_group_def gr_idx_def
      sample_params_def monomorph_state_ptr_def nth_param_def)
  have p: "type_pattern ?t" "type_pattern ?u" "mn_callback ?m = (\<lambda>_. None)" by (simp_all add: sample_generic_def)
  have r: "orderly_type (Ty_Tuple [Ty_Primitive CT_U8, Ty_Primitive CT_U8])" "orderly_type (Ty_Tuple [Ty_Primitive CT_U8, Ty_Diverge])"
    by simp_all
  show ?thesis by (rule overlap_no_is_right [OF o p(1,2) p(3) p(3) m r])
qed

end
